(* ===== verification/Prelude.thy ===== *)
theory Prelude
  imports Main "HOL-Library.Char_ord" "HOL-Library.List_Lexorder"
begin

text \<open>
  The shared prelude: Go's strings and slices as the components use them.

  A Go string is a sequence of bytes and \<^typ>\<open>char\<close> is a byte, so a Go string is a
  \<^typ>\<open>string\<close>, \<open>len\<close> is \<^const>\<open>length\<close>, and Go's \<open><\<close> on strings is the
  lexicographic order of the library theory List\_Lexorder over bytes. The functions of
  the standard package \<open>strings\<close> that the code calls are given here once, together with
  the generic lemmas the component theories share. A fallible Go function returns
  \<open>'e + 'a\<close>, with \<^const>\<open>Inl\<close> for the error.
\<close>

section \<open>Automation of the development\<close>

named_theorems go_eval \<open>evaluation rules for the string primitives on closed terms\<close>

section \<open>Fallible computations\<close>

definition rbind :: "'e + 'a \<Rightarrow> ('a \<Rightarrow> 'e + 'b) \<Rightarrow> 'e + 'b" where
  "rbind r f = (case r of Inl e \<Rightarrow> Inl e | Inr a \<Rightarrow> f a)"

definition is_ok :: "'e + 'a \<Rightarrow> bool" where
  "is_ok r = (case r of Inl _ \<Rightarrow> False | Inr _ \<Rightarrow> True)"

section \<open>The package strings\<close>

text \<open>\<open>strings.Cut\<close> with a one-byte separator: the part before the first occurrence, the
  part after it, and whether it occurs.\<close>

definition before :: "char \<Rightarrow> string \<Rightarrow> string" where
  "before c s = takeWhile (\<lambda>x. x \<noteq> c) s"

definition after :: "char \<Rightarrow> string \<Rightarrow> string" where
  "after c s = drop 1 (dropWhile (\<lambda>x. x \<noteq> c) s)"

definition cut :: "char \<Rightarrow> string \<Rightarrow> string \<times> string \<times> bool" where
  "cut c s = (before c s, after c s, c \<in> set s)"

text \<open>\<open>strings.Split\<close> with a one-byte separator; the result is never empty.\<close>

fun split_on :: "char \<Rightarrow> string \<Rightarrow> string list" where
  "split_on c [] = [[]]"
| "split_on c (x # xs) =
     (if x = c then [] # split_on c xs
      else (case split_on c xs of [] \<Rightarrow> [[x]] | y # ys \<Rightarrow> (x # y) # ys))"

text \<open>\<open>strings.Join\<close>.\<close>

fun join :: "string \<Rightarrow> string list \<Rightarrow> string" where
  "join sep [] = []"
| "join sep [x] = x"
| "join sep (x # y # ys) = x @ sep @ join sep (y # ys)"

definition has_prefix :: "string \<Rightarrow> string \<Rightarrow> bool" where
  "has_prefix s p \<longleftrightarrow> take (length p) s = p"

definition has_suffix :: "string \<Rightarrow> string \<Rightarrow> bool" where
  "has_suffix s p \<longleftrightarrow> length p \<le> length s \<and> drop (length s - length p) s = p"

definition trim_prefix :: "string \<Rightarrow> string \<Rightarrow> string" where
  "trim_prefix s p = (if has_prefix s p then drop (length p) s else s)"

definition trim_suffix :: "string \<Rightarrow> string \<Rightarrow> string" where
  "trim_suffix s p = (if has_suffix s p then take (length s - length p) s else s)"

text \<open>\<open>strings.LastIndex\<close> with a one-byte separator, as the pair of the parts before and
  after the last occurrence.\<close>

definition cut_last :: "char \<Rightarrow> string \<Rightarrow> (string \<times> string) option" where
  "cut_last c s =
     (if c \<in> set s
      then Some (rev (drop 1 (dropWhile (\<lambda>x. x \<noteq> c) (rev s))),
                 rev (takeWhile (\<lambda>x. x \<noteq> c) (rev s)))
      else None)"

text \<open>\<open>strings.TrimSpace\<close> trims the runes for which \<open>unicode.IsSpace\<close> holds. They are
  listed here as their UTF-8 encodings: six ASCII bytes, U+0085, U+00A0, U+1680, U+2000 to
  U+200A, U+2028, U+2029, U+202F, U+205F and U+3000. No encoding is a proper prefix of
  another, so removing one from either end is what decoding a rune at that end does.\<close>

definition space_runes :: "string list" where
  "space_runes =
     [[CHR 0x20], [CHR 0x09], [CHR 0x0A], [CHR 0x0B], [CHR 0x0C], [CHR 0x0D],
      [CHR 0xC2, CHR 0x85], [CHR 0xC2, CHR 0xA0], [CHR 0xE1, CHR 0x9A, CHR 0x80],
      [CHR 0xE2, CHR 0x80, CHR 0x80], [CHR 0xE2, CHR 0x80, CHR 0x81],
      [CHR 0xE2, CHR 0x80, CHR 0x82], [CHR 0xE2, CHR 0x80, CHR 0x83],
      [CHR 0xE2, CHR 0x80, CHR 0x84], [CHR 0xE2, CHR 0x80, CHR 0x85],
      [CHR 0xE2, CHR 0x80, CHR 0x86], [CHR 0xE2, CHR 0x80, CHR 0x87],
      [CHR 0xE2, CHR 0x80, CHR 0x88], [CHR 0xE2, CHR 0x80, CHR 0x89],
      [CHR 0xE2, CHR 0x80, CHR 0x8A], [CHR 0xE2, CHR 0x80, CHR 0xA8],
      [CHR 0xE2, CHR 0x80, CHR 0xA9], [CHR 0xE2, CHR 0x80, CHR 0xAF],
      [CHR 0xE2, CHR 0x81, CHR 0x9F], [CHR 0xE3, CHR 0x80, CHR 0x80]]"

definition leading_space :: "string list \<Rightarrow> string \<Rightarrow> nat" where
  "leading_space rs s =
     (case filter (\<lambda>r. has_prefix s r) rs of [] \<Rightarrow> 0 | r # _ \<Rightarrow> length r)"

function trim_runes :: "string list \<Rightarrow> string \<Rightarrow> string" where
  "trim_runes rs s =
     (let n = leading_space rs s in if n = 0 \<or> s = [] then s else trim_runes rs (drop n s))"
  by pat_completeness auto
termination
  by (relation "measure (\<lambda>(rs, s). length s)") auto

declare trim_runes.simps [simp del]

definition trim_left_space :: "string \<Rightarrow> string" where
  "trim_left_space s = trim_runes space_runes s"

definition trim_right_space :: "string \<Rightarrow> string" where
  "trim_right_space s = rev (trim_runes (map rev space_runes) (rev s))"

definition trim_space :: "string \<Rightarrow> string" where
  "trim_space s = trim_right_space (trim_left_space s)"

section \<open>Slices\<close>

text \<open>Keeping the first occurrence of every element, the \<open>seen\<close> map loop of the code.\<close>

fun dedupe_from :: "'a list \<Rightarrow> 'a list \<Rightarrow> 'a list" where
  "dedupe_from seen [] = []"
| "dedupe_from seen (x # xs) =
     (if x \<in> set seen then dedupe_from seen xs else x # dedupe_from (x # seen) xs)"

definition dedupe :: "'a list \<Rightarrow> 'a list" where
  "dedupe xs = dedupe_from [] xs"

section \<open>Maps with slice values\<close>

text \<open>A Go map whose values are slices, filled by appending: an association list in the
  order in which the keys were first written. A key never written reads as nil.\<close>

definition index_at :: "('k \<times> 'v list) list \<Rightarrow> 'k \<Rightarrow> 'v list" where
  "index_at m k = (case map_of m k of None \<Rightarrow> [] | Some vs \<Rightarrow> vs)"

fun index_add :: "'k \<Rightarrow> 'v \<Rightarrow> ('k \<times> 'v list) list \<Rightarrow> ('k \<times> 'v list) list" where
  "index_add k v [] = [(k, [v])]"
| "index_add k v ((k', vs) # m) = (if k = k' then (k', vs @ [v]) # m else (k', vs) # index_add k v m)"

definition index_of :: "('k \<times> 'v) list \<Rightarrow> ('k \<times> 'v list) list" where
  "index_of kvs = foldl (\<lambda>m (k, v). index_add k v m) [] kvs"

text \<open>\<open>strings.LastIndexByte\<close>: -1 when the byte is absent.\<close>

definition last_index :: "char \<Rightarrow> string \<Rightarrow> int" where
  "last_index c s =
     (if c \<in> set s then int (length s) - 1 - int (length (takeWhile (\<lambda>x. x \<noteq> c) (rev s))) else -1)"

section \<open>Decimal rendering\<close>

text \<open>\<open>fmt.Sprintf\<close> with \<open>%d\<close> on a non-negative and on any integer.\<close>

definition digitChar :: "nat \<Rightarrow> char" where
  "digitChar n = char_of (48 + n)"

fun natStr :: "nat \<Rightarrow> string" where
  "natStr n = (if n < 10 then [digitChar n] else natStr (n div 10) @ [digitChar (n mod 10)])"

declare natStr.simps [simp del]

definition intStr :: "int \<Rightarrow> string" where
  "intStr i = (if i < 0 then CHR ''-'' # natStr (nat (- i)) else natStr (nat i))"

section \<open>Lemmas on the primitives\<close>

lemma rbind_simps [simp]: "rbind (Inl e) f = Inl e" "rbind (Inr a) f = f a"
  by (simp_all add: rbind_def)

lemma rbind_Inr_iff: "rbind r f = Inr b \<longleftrightarrow> (\<exists>a. r = Inr a \<and> f a = Inr b)"
  by (cases r) auto

lemma is_ok_simps [simp]: "is_ok (Inl e) = False" "is_ok (Inr a) = True"
  by (simp_all add: is_ok_def)

lemma is_ok_iff: "is_ok r \<longleftrightarrow> (\<exists>a. r = Inr a)"
  by (cases r) auto

lemma before_append [simp]: "c \<notin> set xs \<Longrightarrow> before c (xs @ c # ys) = xs"
  by (induction xs) (auto simp: before_def)

lemma after_append [simp]: "c \<notin> set xs \<Longrightarrow> after c (xs @ c # ys) = ys"
  by (induction xs) (auto simp: after_def)

lemma before_absent [simp]: "c \<notin> set xs \<Longrightarrow> before c xs = xs"
  by (induction xs) (auto simp: before_def)

lemma after_absent [simp]: "c \<notin> set xs \<Longrightarrow> after c xs = []"
  by (induction xs) (auto simp: after_def)

lemma before_notin: "c \<notin> set (before c s)"
  by (auto simp: before_def dest: set_takeWhileD)

lemma before_after: "c \<in> set s \<Longrightarrow> before c s @ c # after c s = s"
proof (induction s)
  case (Cons x s)
  then show ?case by (cases "x = c") (auto simp: before_def after_def)
qed simp

lemma split_on_nonempty [simp]: "split_on c s \<noteq> []"
  by (induction s) (auto split: list.splits)

lemma split_on_absent: "c \<notin> set s \<Longrightarrow> split_on c s = [s]"
  by (induction s) auto

lemma split_on_append: "split_on c (xs @ c # ys) = split_on c xs @ split_on c ys"
proof (induction xs)
  case (Cons x xs)
  then show ?case by (cases "split_on c xs") auto
qed simp

lemma split_on_parts: "p \<in> set (split_on c s) \<Longrightarrow> c \<notin> set p"
proof (induction s arbitrary: p)
  case (Cons x s)
  then show ?case by (cases "split_on c s") (auto split: if_splits)
qed simp

lemma split_on_chars: "p \<in> set (split_on c s) \<Longrightarrow> set p \<subseteq> set s"
proof (induction s arbitrary: p)
  case (Cons x s)
  then show ?case by (cases "split_on c s") (fastforce split: if_splits)+
qed simp

lemma join_Cons: "xs \<noteq> [] \<Longrightarrow> join sep (x # xs) = x @ sep @ join sep xs"
  by (cases xs) auto

lemma join_split: "join [c] (split_on c s) = s"
proof (induction s)
  case (Cons x s)
  then show ?case
    by (cases "split_on c s"; cases "tl (split_on c s)") (auto simp: join_Cons)
qed simp

lemma split_join:
  "xs \<noteq> [] \<Longrightarrow> (\<And>x. x \<in> set xs \<Longrightarrow> c \<notin> set x) \<Longrightarrow> split_on c (join [c] xs) = xs"
proof (induction xs)
  case (Cons x xs)
  then show ?case by (cases xs) (simp_all add: split_on_append split_on_absent)
qed simp

lemma split_on_inject: "split_on c s = split_on c t \<longleftrightarrow> s = t"
  by (metis join_split)

lemma has_prefix_append [simp]: "has_prefix (p @ s) p"
  by (simp add: has_prefix_def)

lemma has_prefix_iff: "has_prefix s p \<longleftrightarrow> (\<exists>t. s = p @ t)"
  by (metis append_eq_conv_conj append_take_drop_id has_prefix_def)

lemma has_prefix_append_iff: "has_prefix (p @ s) (p @ q) \<longleftrightarrow> has_prefix s q"
  by (auto simp: has_prefix_iff)

lemma has_prefix_Cons: "has_prefix (c # s) (c # q) \<longleftrightarrow> has_prefix s q"
  by (auto simp: has_prefix_iff)

lemma has_suffix_append [simp]: "has_suffix (s @ p) p"
  by (simp add: has_suffix_def)

lemma has_suffix_iff: "has_suffix s p \<longleftrightarrow> (\<exists>t. s = t @ p)"
proof
  assume h: "has_suffix s p"
  have "s = take (length s - length p) s @ drop (length s - length p) s" by simp
  with h show "\<exists>t. s = t @ p" by (metis has_suffix_def)
qed auto

lemma trim_suffix_append [simp]: "trim_suffix (s @ p) p = s"
  by (simp add: trim_suffix_def)

lemma trim_prefix_append [simp]: "trim_prefix (p @ s) p = s"
  by (simp add: trim_prefix_def)

lemma trim_runes_nospace:
  "leading_space rs s = 0 \<Longrightarrow> trim_runes rs s = s"
  by (simp add: trim_runes.simps)

lemma leading_space_zero:
  assumes "\<And>r. r \<in> set rs \<Longrightarrow> r \<noteq> [] \<and> hd r \<noteq> hd s"
  shows "leading_space rs s = 0 \<or> s = []"
proof -
  have "\<not> has_prefix s r" if "r \<in> set rs" "s \<noteq> []" for r
    using assms [OF that(1)] that(2) by (cases r) (auto simp: has_prefix_iff)
  then have "filter (\<lambda>r. has_prefix s r) rs = []" if "s \<noteq> []"
    using that by (auto simp: filter_empty_conv)
  then show ?thesis by (auto simp: leading_space_def)
qed

text \<open>A string whose two ends are printing ASCII bytes is its own trimming.\<close>

definition visible :: "char \<Rightarrow> bool" where
  "visible c \<longleftrightarrow> CHR 0x20 < c \<and> c < CHR 0x7F"

lemma visible_no_space:
  assumes "visible c"
  shows "list_all (\<lambda>r. r \<noteq> [] \<and> hd r \<noteq> c) space_runes"
    and "list_all (\<lambda>r. r \<noteq> [] \<and> hd r \<noteq> c) (map rev space_runes)"
  using assms by (auto simp: space_runes_def visible_def)

lemma trim_runes_fix:
  assumes "list_all (\<lambda>r. r \<noteq> [] \<and> hd r \<noteq> hd s) rs"
  shows "trim_runes rs s = s"
  using leading_space_zero [of rs s] assms by (auto simp: list_all_iff trim_runes.simps)

lemma trim_space_visible:
  assumes "s = [] \<or> (visible (hd s) \<and> visible (last s))"
  shows "trim_space s = s"
proof (cases "s = []")
  case True
  then show ?thesis
    by (simp add: trim_space_def trim_left_space_def trim_right_space_def trim_runes.simps Let_def)
next
  case False
  with assms have "trim_runes space_runes s = s" "trim_runes (map rev space_runes) (rev s) = rev s"
    using visible_no_space by (auto intro!: trim_runes_fix simp: hd_rev)
  then show ?thesis
    by (simp add: trim_space_def trim_left_space_def trim_right_space_def)
qed

lemma Nil_less_iff [simp]: "[] < xs \<longleftrightarrow> xs \<noteq> ([] :: 'a::linorder list)"
  by (cases xs) auto

lemma join_chars: "set (join sep xs) \<subseteq> set sep \<union> \<Union> (set ` set xs)"
proof (induction xs)
  case (Cons x xs)
  then show ?case by (cases "xs = []") (auto simp: join_Cons)
qed simp

lemma set_dedupe_from: "set (dedupe_from seen xs) = set xs - set seen"
  by (induction xs arbitrary: seen) auto

lemma set_dedupe [simp]: "set (dedupe xs) = set xs"
  by (simp add: dedupe_def set_dedupe_from)

lemma distinct_dedupe_from: "distinct (dedupe_from seen xs)"
  by (induction xs arbitrary: seen) (auto simp: set_dedupe_from)

lemma distinct_dedupe [simp]: "distinct (dedupe xs)"
  by (simp add: dedupe_def distinct_dedupe_from)

section \<open>Lemmas on maps with slice values\<close>

lemma index_at_Nil [simp]: "index_at [] k = []"
  by (simp add: index_at_def)

lemma index_at_add [simp]:
  "index_at (index_add k v m) k' = (if k' = k then index_at m k' @ [v] else index_at m k')"
  by (induction k v m rule: index_add.induct) (auto simp: index_at_def)

lemma keys_add [simp]: "fst ` set (index_add k v m) = insert k (fst ` set m)"
  by (induction k v m rule: index_add.induct) auto

lemma distinct_keys_add [simp]: "distinct (map fst (index_add k v m)) \<longleftrightarrow> distinct (map fst m)"
proof (induction k v m rule: index_add.induct)
  case (2 k v k' vs m)
  have "k' \<in> fst ` set (index_add k v m) \<longleftrightarrow> k' = k \<or> k' \<in> fst ` set m" by auto
  with 2 show ?case by auto
qed auto

lemma index_of_snoc: "index_of (kvs @ [(k, v)]) = index_add k v (index_of kvs)"
  by (simp add: index_of_def)

lemma index_at_of: "index_at (index_of kvs) k = map snd (filter (\<lambda>kv. fst kv = k) kvs)"
  by (induction kvs rule: rev_induct) (auto simp: index_of_snoc index_of_def [of "[]"])

lemma keys_index_of: "fst ` set (index_of kvs) = fst ` set kvs"
proof (induction kvs rule: rev_induct)
  case (snoc kv kvs)
  then show ?case by (cases kv) (simp add: index_of_snoc)
qed (simp add: index_of_def)

lemma distinct_keys_index_of [simp]: "distinct (map fst (index_of kvs))"
  by (induction kvs rule: rev_induct) (auto simp: index_of_snoc index_of_def [of "[]"])

section \<open>Lemmas on decimal rendering\<close>

lemma digitChar_code: "n < 10 \<Longrightarrow> of_char (digitChar n) = (48 + n :: nat)"
  by (simp add: digitChar_def)

lemma digitChar_inject: "m < 10 \<Longrightarrow> n < 10 \<Longrightarrow> digitChar m = digitChar n \<longleftrightarrow> m = n"
  by (metis add_left_cancel digitChar_code)

lemma natStr_nonempty [simp]: "natStr n \<noteq> []"
  by (simp add: natStr.simps)

definition decode_nat :: "string \<Rightarrow> nat" where
  "decode_nat s = foldl (\<lambda>a c. 10 * a + (of_char c - 48)) 0 s"

lemma decode_natStr: "decode_nat (natStr n) = n"
proof (induction n rule: natStr.induct)
  case (1 n)
  show ?case
  proof (cases "n < 10")
    case True
    then show ?thesis by (simp add: natStr.simps [of n] decode_nat_def digitChar_code)
  next
    case False
    then have "decode_nat (natStr n) = 10 * decode_nat (natStr (n div 10)) + n mod 10"
      by (simp add: natStr.simps [of n] decode_nat_def digitChar_code)
    with 1 False show ?thesis by simp
  qed
qed

lemma natStr_inject [simp]: "natStr m = natStr n \<longleftrightarrow> m = n"
  by (metis decode_natStr)

lemma natStr_digits: "c \<in> set (natStr n) \<Longrightarrow> (48 :: nat) \<le> of_char c \<and> of_char c \<le> (57 :: nat)"
proof (induction n rule: natStr.induct)
  case (1 n)
  then show ?case
    by (cases "n < 10") (auto simp: natStr.simps [of n] digitChar_code)
qed

lemma natStr_no_minus [simp]: "natStr n \<noteq> CHR ''-'' # s"
  using natStr_digits [of "CHR ''-''" n] by auto

lemma natStr_not_in: "(of_char c :: nat) < 48 \<or> 57 < (of_char c :: nat) \<Longrightarrow> c \<notin> set (natStr n)"
  using natStr_digits [of c n] by auto

lemma intStr_inject [simp]: "intStr i = intStr j \<longleftrightarrow> i = j"
proof -
  have "natStr m \<noteq> CHR ''-'' # s" "CHR ''-'' # s \<noteq> natStr m" for m s
    by (simp, metis natStr_no_minus)
  then show ?thesis by (auto simp: intStr_def)
qed

lemma intStr_not_in: "(of_char c :: nat) < 45 \<or> of_char c \<in> {46, 47 :: nat} \<or> 57 < (of_char c :: nat)
    \<Longrightarrow> c \<notin> set (intStr i)"
  using natStr_not_in [of c] by (auto simp: intStr_def)

end
