(* ===== verification/Names.thy ===== *)
theory Names
  imports Prelude
begin

text \<open>
  Capability names (\<open>spec/version.go\<close>, first half): the character classes and regular
  expressions of the grammar as predicates, the namespace rules of
  \<open>capabilityNameError\<close>, and the normal and display forms of a name.
\<close>

section \<open>Character classes and anchored patterns\<close>

definition isDigit :: "char \<Rightarrow> bool" where
  "isDigit c \<longleftrightarrow> CHR ''0'' \<le> c \<and> c \<le> CHR ''9''"

definition isLower :: "char \<Rightarrow> bool" where
  "isLower c \<longleftrightarrow> CHR ''a'' \<le> c \<and> c \<le> CHR ''z''"

definition isUpper :: "char \<Rightarrow> bool" where
  "isUpper c \<longleftrightarrow> CHR ''A'' \<le> c \<and> c \<le> CHR ''Z''"

definition isLowerAlnum :: "char \<Rightarrow> bool" where
  "isLowerAlnum c \<longleftrightarrow> isLower c \<or> isDigit c"

text \<open>The patterns \<open>^F(M{0,n}L)?$\<close> of the grammar: a first character in \<open>F\<close>, then
  nothing, or at most \<open>n\<close> characters in \<open>M\<close> and a last one in \<open>L\<close>. Go's \<open>$\<close> matches at
  the end of the text only.\<close>

definition name_shape ::
  "(char \<Rightarrow> bool) \<Rightarrow> (char \<Rightarrow> bool) \<Rightarrow> (char \<Rightarrow> bool) \<Rightarrow> nat \<Rightarrow> string \<Rightarrow> bool" where
  "name_shape F M L n s =
     (case s of
        [] \<Rightarrow> False
      | c # rest \<Rightarrow> F c \<and> (rest = [] \<or>
          (length rest \<le> Suc n \<and> list_all M (butlast rest) \<and> L (last rest))))"

definition handleName :: "string \<Rightarrow> bool" where
  "handleName = name_shape isLowerAlnum (\<lambda>c. isLowerAlnum c \<or> c = CHR ''-'') isLowerAlnum 62"

definition capabilityName :: "string \<Rightarrow> bool" where
  "capabilityName =
     name_shape isLowerAlnum
       (\<lambda>c. isLowerAlnum c \<or> c = CHR ''+'' \<or> c = CHR ''.'' \<or> c = CHR ''-'')
       (\<lambda>c. isLowerAlnum c \<or> c = CHR ''+'') 62"

definition capabilityNamespace :: "string \<Rightarrow> bool" where
  "capabilityNamespace s \<longleftrightarrow>
     s \<noteq> [] \<and> list_all (\<lambda>c. isLowerAlnum c \<or> c = CHR ''.'' \<or> c = CHR ''-'') s"

definition namespaceLabel :: "string \<Rightarrow> bool" where
  "namespaceLabel = name_shape isLowerAlnum (\<lambda>c. isLowerAlnum c \<or> c = CHR ''-'') isLowerAlnum 61"

definition maxNamespaceLength :: nat where
  "maxNamespaceLength = 253"

section \<open>Namespaces and normal forms\<close>

definition DefaultCapabilityNamespace :: string where
  "DefaultCapabilityNamespace = ''com.docker.kit''"

definition DebNamespace :: string where
  "DebNamespace = ''deb''"

definition ApkNamespace :: string where
  "ApkNamespace = ''apk''"

definition IsDerivedProvide :: "string \<Rightarrow> bool" where
  "IsDerivedProvide name =
     (case cut (CHR ''/'') name of
        (ns, _, qualified) \<Rightarrow> qualified \<and> (ns = DebNamespace \<or> ns = ApkNamespace))"

definition NormalizeCapabilityName :: "string \<Rightarrow> string" where
  "NormalizeCapabilityName name =
     (if CHR ''/'' \<in> set name then name else DefaultCapabilityNamespace @ ''/'' @ name)"

definition DisplayCapabilityName :: "string \<Rightarrow> string" where
  "DisplayCapabilityName name = trim_prefix name (DefaultCapabilityNamespace @ ''/'')"

definition reservedNamespaces :: "string list" where
  "reservedNamespaces = [DebNamespace, ApkNamespace]"

section \<open>Why a name is not a capability name\<close>

datatype name_error =
    InvalidName string
  | NamespaceTooLong string nat
  | NotALabel string string string
  | SingleLabel string string string

definition capabilityNameError :: "string \<Rightarrow> name_error option" where
  "capabilityNameError name =
     (case cut (CHR ''/'') name of (ns, base, qualified) \<Rightarrow>
        if \<not> qualified then
          (if capabilityName name then None else Some (InvalidName name))
        else if ns = [] then Some (InvalidName name)
        else if \<not> capabilityNamespace ns \<or> \<not> capabilityName base then Some (InvalidName name)
        else if length ns > maxNamespaceLength then Some (NamespaceTooLong base (length ns))
        else (let labels = split_on (CHR ''.'') ns in
          case filter (\<lambda>l. \<not> namespaceLabel l) labels of
            label # _ \<Rightarrow> Some (NotALabel ns name label)
          | [] \<Rightarrow>
              if ns \<in> set reservedNamespaces then None
              else if length labels < 2 then Some (SingleLabel ns name base)
              else None))"

definition validCapabilityName :: "string \<Rightarrow> bool" where
  "validCapabilityName name \<longleftrightarrow> capabilityNameError name = None"

section \<open>Properties of names\<close>

lemma name_shape_chars:
  assumes "name_shape F M L n s" "\<And>c. F c \<Longrightarrow> P c" "\<And>c. M c \<Longrightarrow> P c" "\<And>c. L c \<Longrightarrow> P c"
  shows "list_all P s"
proof (cases s)
  case (Cons c rest)
  show ?thesis
  proof (cases "rest = []")
    case False
    then have "rest = butlast rest @ [last rest]" by simp
    moreover have "list_all P (butlast rest)" "P (last rest)"
      using assms False Cons by (auto simp: name_shape_def list_all_iff)
    ultimately have "list_all P rest" by (metis list_all_append list.pred_inject(1,2))
    then show ?thesis using assms(1,2) Cons by (auto simp: name_shape_def)
  qed (use assms(1,2) Cons in \<open>auto simp: name_shape_def\<close>)
qed (use assms(1) in \<open>simp add: name_shape_def\<close>)

lemma name_shape_bound: "name_shape F M L n s \<Longrightarrow> 0 < length s \<and> length s \<le> Suc (Suc n)"
  by (auto simp: name_shape_def split: list.splits)

text \<open>No byte a capability name may hold is a separator of the entry grammar.\<close>

definition name_char :: "char \<Rightarrow> bool" where
  "name_char c \<longleftrightarrow> isLowerAlnum c \<or> c = CHR ''+'' \<or> c = CHR ''.'' \<or> c = CHR ''-'' \<or> c = CHR ''/''"

lemma isDigit_codes: "isDigit c \<longleftrightarrow> 48 \<le> (of_char c :: nat) \<and> (of_char c :: nat) \<le> 57"
  by (simp add: isDigit_def less_eq_char_def)

lemma isLower_codes: "isLower c \<longleftrightarrow> 97 \<le> (of_char c :: nat) \<and> (of_char c :: nat) \<le> 122"
  by (simp add: isLower_def less_eq_char_def)

lemma name_char_visible: "name_char c \<Longrightarrow> visible c"
  by (auto simp: name_char_def isLowerAlnum_def isDigit_codes isLower_codes visible_def less_char_def)

lemma name_char_not:
  "name_char c \<Longrightarrow> c \<notin> {CHR ''@'', CHR ''>'', CHR ''<'', CHR ''='', CHR '','', CHR '' ''}"
  by (auto simp: name_char_def isLowerAlnum_def isDigit_def isLower_def)

lemma capabilityName_chars: "capabilityName s \<Longrightarrow> list_all (\<lambda>c. name_char c \<and> c \<noteq> CHR ''/'') s"
  unfolding capabilityName_def
  by (erule name_shape_chars) (auto simp: name_char_def isLowerAlnum_def isDigit_def isLower_def)

lemma capabilityName_nonempty: "capabilityName s \<Longrightarrow> s \<noteq> []"
  unfolding capabilityName_def by (drule name_shape_bound) simp

lemma validCapabilityName_bare:
  "CHR ''/'' \<notin> set name \<Longrightarrow> validCapabilityName name \<longleftrightarrow> capabilityName name"
  by (simp add: validCapabilityName_def capabilityNameError_def cut_def)

lemma validCapabilityName_qualified:
  assumes "CHR ''/'' \<in> set name"
  defines "ns \<equiv> before (CHR ''/'') name" and "base \<equiv> after (CHR ''/'') name"
  shows "validCapabilityName name \<longleftrightarrow>
    ns \<noteq> [] \<and> capabilityNamespace ns \<and> capabilityName base \<and> length ns \<le> maxNamespaceLength \<and>
    list_all namespaceLabel (split_on (CHR ''.'') ns) \<and>
    (ns \<in> set reservedNamespaces \<or> 2 \<le> length (split_on (CHR ''.'') ns))"
proof -
  have f: "filter (\<lambda>l. \<not> namespaceLabel l) ls = [] \<longleftrightarrow> list_all namespaceLabel ls" for ls
    by (auto simp: filter_empty_conv list_all_iff)
  show ?thesis
    unfolding validCapabilityName_def capabilityNameError_def cut_def Let_def ns_def base_def
    using assms(1) f [of "split_on (CHR ''.'') (before (CHR ''/'') name)"]
    by (cases "filter (\<lambda>l. \<not> namespaceLabel l) (split_on (CHR ''.'') (before (CHR ''/'') name))")
      (auto simp: not_less)
qed

lemma validCapabilityName_chars:
  assumes "validCapabilityName name"
  shows "list_all name_char name" "name \<noteq> []"
proof -
  have cn: "list_all name_char b" "b \<noteq> []" if "capabilityName b" for b
    using capabilityName_chars [OF that] capabilityName_nonempty [OF that]
    by (auto simp: list_all_iff)
  have "list_all name_char name \<and> name \<noteq> []"
  proof (cases "CHR ''/'' \<in> set name")
    case True
    let ?ns = "before (CHR ''/'') name" and ?base = "after (CHR ''/'') name"
    from assms True have "capabilityNamespace ?ns" "capabilityName ?base"
      by (simp_all only: validCapabilityName_qualified)
    then have "list_all name_char (?ns @ CHR ''/'' # ?base)"
      using cn(1) [of ?base] by (auto simp: capabilityNamespace_def list_all_iff name_char_def)
    then show ?thesis using before_after [OF True] True by auto
  qed (use assms cn validCapabilityName_bare in auto)
  then show "list_all name_char name" "name \<noteq> []" by auto
qed

lemma default_namespace_valid:
  "capabilityNamespace DefaultCapabilityNamespace"
  "length DefaultCapabilityNamespace \<le> maxNamespaceLength"
  "list_all namespaceLabel (split_on (CHR ''.'') DefaultCapabilityNamespace)"
  "2 \<le> length (split_on (CHR ''.'') DefaultCapabilityNamespace)"
  "CHR ''/'' \<notin> set DefaultCapabilityNamespace" "DefaultCapabilityNamespace \<noteq> []"
  by code_simp+

lemma validCapabilityName_normalize:
  assumes "validCapabilityName name"
  shows "validCapabilityName (NormalizeCapabilityName name)"
proof (cases "CHR ''/'' \<in> set name")
  case False
  let ?q = "DefaultCapabilityNamespace @ CHR ''/'' # name"
  have "before (CHR ''/'') ?q = DefaultCapabilityNamespace" "after (CHR ''/'') ?q = name"
    using default_namespace_valid(5) by simp_all
  then show ?thesis
    using assms False default_namespace_valid
    by (simp add: validCapabilityName_qualified validCapabilityName_bare NormalizeCapabilityName_def)
qed (use assms in \<open>simp add: NormalizeCapabilityName_def\<close>)

lemma normalize_qualified: "CHR ''/'' \<in> set (NormalizeCapabilityName name)"
  by (simp add: NormalizeCapabilityName_def)

lemma normalize_idem: "NormalizeCapabilityName (NormalizeCapabilityName name) = NormalizeCapabilityName name"
  by (simp add: NormalizeCapabilityName_def)

lemma valid_qualified_parts:
  assumes "validCapabilityName name" "CHR ''/'' \<in> set name"
  shows "CHR ''/'' \<notin> set (after (CHR ''/'') name)"
  using assms capabilityName_chars [of "after (CHR ''/'') name"]
  by (auto simp: validCapabilityName_qualified list_all_iff)

lemma normalize_display:
  assumes "validCapabilityName name" "CHR ''/'' \<in> set name"
  shows "NormalizeCapabilityName (DisplayCapabilityName name) = name"
proof (cases "has_prefix name (DefaultCapabilityNamespace @ ''/'')")
  case True
  then obtain t where t: "name = DefaultCapabilityNamespace @ CHR ''/'' # t"
    by (auto simp: has_prefix_iff)
  then have "CHR ''/'' \<notin> set t"
    using valid_qualified_parts [OF assms] default_namespace_valid(5) by simp
  moreover have "DisplayCapabilityName name = t"
    using trim_prefix_append [of "DefaultCapabilityNamespace @ ''/''" t] t
    by (simp add: DisplayCapabilityName_def)
  ultimately show ?thesis using t by (simp add: NormalizeCapabilityName_def)
next
  case False
  then show ?thesis
    using assms(2) by (simp add: DisplayCapabilityName_def trim_prefix_def NormalizeCapabilityName_def)
qed

end
