(* ===== verification/Versions.thy ===== *)
theory Versions
  imports Names
begin

text \<open>
  Versions, provides and requires (\<open>spec/version.go\<close>, second half): the version grammar
  and its three-way comparison, the parsers of \<open>provides\<close> and \<open>requires\<close> entries, the
  satisfiability check on constraint sets, canonical rendering, the version a package
  record or a tag names, and the highest tag of a list.
\<close>

section \<open>Version strings\<close>

definition splitVersion :: "string \<Rightarrow> string list" where
  "splitVersion v = (let v = trim_space v in if v = [] then [] else split_on (CHR ''.'') v)"

definition segment_char :: "char \<Rightarrow> bool" where
  "segment_char c \<longleftrightarrow> isDigit c \<or> isUpper c \<or> isLower c \<or> c = CHR ''-''"

text \<open>The pattern \<open>^[0-9]+(\.[0-9A-Za-z-]+)*$\<close>, read segment by segment.\<close>

definition versionPattern :: "string \<Rightarrow> bool" where
  "versionPattern v =
     (case split_on (CHR ''.'') v of
        [] \<Rightarrow> False
      | s # ss \<Rightarrow> s \<noteq> [] \<and> list_all isDigit s \<and> list_all (\<lambda>t. t \<noteq> [] \<and> list_all segment_char t) ss)"

definition allDigits :: "string \<Rightarrow> bool" where
  "allDigits s \<longleftrightarrow> s \<noteq> [] \<and> list_all isDigit s"

definition trimZeros :: "string \<Rightarrow> string" where
  "trimZeros s = dropWhile (\<lambda>c. c = CHR ''0'') s"

definition compareStrings :: "string \<Rightarrow> string \<Rightarrow> int" where
  "compareStrings a b = (if a = b then 0 else if a < b then -1 else 1)"

definition compareDigits :: "string \<Rightarrow> string \<Rightarrow> int" where
  "compareDigits a b =
     (let a = trimZeros a; b = trimZeros b in
      if length a \<noteq> length b then (if length a < length b then -1 else 1)
      else compareStrings a b)"

text \<open>One round of the loop of \<open>CompareVersions\<close> at a position; a version that has run out
  of segments is padded with the empty segment.\<close>

definition compareSegment :: "string \<Rightarrow> string \<Rightarrow> int" where
  "compareSegment av bv =
     (if allDigits av \<and> allDigits bv then compareDigits av bv
      else if av \<noteq> bv then (if av < bv then -1 else 1) else 0)"

fun compareSegments :: "string list \<Rightarrow> string list \<Rightarrow> int" where
  "compareSegments [] [] = 0"
| "compareSegments (a # as) [] =
     (let c = compareSegment a [] in if c \<noteq> 0 then c else compareSegments as [])"
| "compareSegments [] (b # bs) =
     (let c = compareSegment [] b in if c \<noteq> 0 then c else compareSegments [] bs)"
| "compareSegments (a # as) (b # bs) =
     (let c = compareSegment a b in if c \<noteq> 0 then c else compareSegments as bs)"

definition CompareVersions :: "string \<Rightarrow> string \<Rightarrow> int" where
  "CompareVersions a b = compareSegments (splitVersion a) (splitVersion b)"

section \<open>Provides and requires entries\<close>

record provide =
  pName :: string
  pVersion :: string

datatype constraint_op = OpGTE | OpGT | OpLTE | OpLT | OpEQ

fun op_text :: "constraint_op \<Rightarrow> string" where
  "op_text OpGTE = ''>=''"
| "op_text OpGT = ''>''"
| "op_text OpLTE = ''<=''"
| "op_text OpLT = ''<''"
| "op_text OpEQ = ''=''"

record constraint =
  cOp :: constraint_op
  cVersion :: string

record require =
  rName :: string
  rConstraints :: "constraint list"

datatype entry_error =
    BadName name_error
  | BadVersion string
  | MissingCapabilityName
  | ExpectedOperator string
  | MissingVersion constraint_op
  | BadConstraintVersion constraint_op string
  | TrailingComma
  | EmptyConstraints
  | ConflictingPins string string
  | PinConflicts string constraint_op string
  | EmptyRange constraint_op string constraint_op string

definition parseVersion :: "string \<Rightarrow> entry_error + string" where
  "parseVersion v =
     (let v = trim_space v in if versionPattern v then Inr v else Inl (BadVersion v))"

definition IsVersion :: "string \<Rightarrow> bool" where
  "IsVersion s = is_ok (parseVersion s)"

definition ParseProvide :: "string \<Rightarrow> entry_error + provide" where
  "ParseProvide s =
     (case cut (CHR ''@'') (trim_space s) of (name, version, found) \<Rightarrow>
        case capabilityNameError name of
          Some e \<Rightarrow> Inl (BadName e)
        | None \<Rightarrow>
            (case (if found then parseVersion version else Inr []) of
               Inl e \<Rightarrow> Inl e
             | Inr _ \<Rightarrow> Inr \<lparr>pName = NormalizeCapabilityName name, pVersion = version\<rparr>))"

section \<open>Constraints\<close>

definition constraintHolds :: "string \<Rightarrow> constraint \<Rightarrow> bool" where
  "constraintHolds version c =
     (let cmp = CompareVersions version (cVersion c) in
      case cOp c of
        OpGTE \<Rightarrow> cmp \<ge> 0
      | OpGT \<Rightarrow> cmp > 0
      | OpLTE \<Rightarrow> cmp \<le> 0
      | OpLT \<Rightarrow> cmp < 0
      | OpEQ \<Rightarrow> cmp = 0)"

definition Satisfies :: "provide \<Rightarrow> require \<Rightarrow> bool" where
  "Satisfies p r \<longleftrightarrow>
     (if pName p \<noteq> rName r then False
      else if rConstraints r = [] then True
      else if pVersion p = [] then False
      else list_all (constraintHolds (pVersion p)) (rConstraints r))"

definition versionSuccessorSuffix :: string where
  "versionSuccessorSuffix = ''.-''"

definition nextVersion :: "string \<Rightarrow> string" where
  "nextVersion v = v @ versionSuccessorSuffix"

text \<open>The first loop of \<open>checkConstraintsSatisfiable\<close>: the last pin, or two that differ.\<close>

fun checkPins :: "string option \<Rightarrow> constraint list \<Rightarrow> entry_error + string option" where
  "checkPins pin [] = Inr pin"
| "checkPins pin (c # cs) =
     (if cOp c \<noteq> OpEQ then checkPins pin cs
      else (case pin of
              None \<Rightarrow> checkPins (Some (cVersion c)) cs
            | Some p \<Rightarrow>
                if CompareVersions p (cVersion c) \<noteq> 0 then Inl (ConflictingPins p (cVersion c))
                else checkPins (Some (cVersion c)) cs))"

text \<open>A bound is a version and whether it is exclusive. The lower one starts at the
  grammar's floor \<open>0\<close>; the upper one may be absent.\<close>

definition tightenLo :: "string \<times> bool \<Rightarrow> constraint \<Rightarrow> string \<times> bool" where
  "tightenLo lo c =
     (if cOp c = OpGTE \<or> cOp c = OpGT then
        (let exc = (cOp c = OpGT) in
         if CompareVersions (cVersion c) (fst lo) > 0 \<or>
            (CompareVersions (cVersion c) (fst lo) = 0 \<and> exc \<and> \<not> snd lo)
         then (cVersion c, exc) else lo)
      else lo)"

definition tightenHi :: "(string \<times> bool) option \<Rightarrow> constraint \<Rightarrow> (string \<times> bool) option" where
  "tightenHi hi c =
     (if cOp c = OpLTE \<or> cOp c = OpLT then
        (let exc = (cOp c = OpLT) in
         case hi of
           None \<Rightarrow> Some (cVersion c, exc)
         | Some h \<Rightarrow>
             if CompareVersions (cVersion c) (fst h) < 0 \<or>
                (CompareVersions (cVersion c) (fst h) = 0 \<and> exc \<and> \<not> snd h)
             then Some (cVersion c, exc) else hi)
      else hi)"

definition checkConstraintsSatisfiable :: "constraint list \<Rightarrow> entry_error option" where
  "checkConstraintsSatisfiable cs =
     (case checkPins None cs of
        Inl e \<Rightarrow> Some e
      | Inr (Some pin) \<Rightarrow>
          (case filter (\<lambda>c. \<not> constraintHolds pin c) cs of
             [] \<Rightarrow> None
           | c # _ \<Rightarrow> Some (PinConflicts pin (cOp c) (cVersion c)))
      | Inr None \<Rightarrow>
          (let lo = foldl tightenLo (''0'', False) cs in
           case foldl tightenHi None cs of
             None \<Rightarrow> None
           | Some hi \<Rightarrow>
               (let effectiveLo = (if snd lo then nextVersion (fst lo) else fst lo);
                    effectiveExc = (if snd lo then False else snd lo);
                    cmp = CompareVersions effectiveLo (fst hi) in
                if cmp > 0 \<or> (cmp = 0 \<and> (effectiveExc \<or> snd hi))
                then Some (EmptyRange (if snd lo then OpGT else OpGTE) (fst lo)
                             (if snd hi then OpLT else OpLTE) (fst hi))
                else None)))"

definition cutConstraintOp :: "string \<Rightarrow> entry_error + constraint_op \<times> string" where
  "cutConstraintOp s =
     (let s = trim_space s in
      if has_prefix s ''>='' then Inr (OpGTE, trim_space (drop 2 s))
      else if has_prefix s ''<='' then Inr (OpLTE, trim_space (drop 2 s))
      else if has_prefix s ''>'' then Inr (OpGT, trim_space (drop 1 s))
      else if has_prefix s ''<'' then Inr (OpLT, trim_space (drop 1 s))
      else if has_prefix s ''='' then Inr (OpEQ, trim_space (drop 1 s))
      else Inl (ExpectedOperator s))"

lemma length_trim_runes: "length (trim_runes rs s) \<le> length s"
proof (induction rs s rule: trim_runes.induct)
  case (1 rs s)
  show ?case
  proof (cases "leading_space rs s = 0 \<or> s = []")
    case False
    with 1 show ?thesis by (simp add: trim_runes.simps [of rs s] Let_def)
  qed (auto simp: trim_runes.simps [of rs s] Let_def)
qed

lemma length_trim_space: "length (trim_space s) \<le> length s"
  using length_trim_runes [of space_runes s]
    length_trim_runes [of "map rev space_runes" "rev (trim_runes space_runes s)"]
  by (simp add: trim_space_def trim_left_space_def trim_right_space_def)

lemma trim_drop_shorter:
  assumes "has_prefix t p" "0 < length p"
  shows "length (trim_space (drop (length p) t)) < length t"
proof -
  have "length p \<le> length t" using assms(1) by (auto simp: has_prefix_iff)
  then have "length (drop (length p) t) < length t" using assms(2) by (simp only: length_drop)
  then show ?thesis using length_trim_space [of "drop (length p) t"] by (rule le_less_trans [rotated])
qed

lemma cutConstraintOp_shorter:
  assumes "cutConstraintOp s = Inr (op, rest)"
  shows "length rest < length s"
proof -
  let ?t = "trim_space s"
  have *: "rest = trim_space (drop (length p) ?t)" "0 < length p"
    if "cutConstraintOp s = Inr (op, rest)" "p = op_text op" for p
    using that by (auto simp: cutConstraintOp_def Let_def numeral_2_eq_2 split: if_splits)
  have "has_prefix ?t (op_text op)"
    using assms by (auto simp: cutConstraintOp_def Let_def split: if_splits)
  from trim_drop_shorter [OF this] * [OF assms refl] show ?thesis
    using length_trim_space [of s] by simp
qed

lemma length_after: "c \<in> set s \<Longrightarrow> length (after c s) < length s"
  using before_after [of c s] by (metis length_append length_Cons less_add_Suc2 add_Suc_right)

lemma parse_step_shorter:
  assumes "cutConstraintOp s = Inr (op, a)" "CHR '','' \<in> set a"
  shows "length (trim_space (after (CHR '','') a)) < length s"
  using cutConstraintOp_shorter [OF assms(1)] length_after [OF assms(2)]
    length_trim_space [of "after (CHR '','') a"] by simp

text \<open>The loop of \<open>parseConstraints\<close>: one constraint per round, up to the last comma.\<close>

function parseConstraintsLoop :: "string \<Rightarrow> constraint list \<Rightarrow> entry_error + constraint list" where
  "parseConstraintsLoop s out =
     (if s = [] then Inr out
      else (case cutConstraintOp s of
              Inl e \<Rightarrow> Inl e
            | Inr (op, afterOp) \<Rightarrow>
                (let versionPart = trim_space (before (CHR '','') afterOp);
                     next = after (CHR '','') afterOp;
                     more = (CHR '','' \<in> set afterOp) in
                 if versionPart = [] then Inl (MissingVersion op)
                 else (case parseVersion versionPart of
                         Inl _ \<Rightarrow> Inl (BadConstraintVersion op versionPart)
                       | Inr version \<Rightarrow>
                           (let out = out @ [\<lparr>cOp = op, cVersion = version\<rparr>] in
                            if \<not> more then Inr out
                            else (let s = trim_space next in
                                  if s = [] then Inl TrailingComma
                                  else parseConstraintsLoop s out))))))"
  by pat_completeness auto
termination
  by (relation "measure (\<lambda>(s, out). length s)") (auto intro: parse_step_shorter)

declare parseConstraintsLoop.simps [simp del]

definition parseConstraints :: "string \<Rightarrow> entry_error + constraint list" where
  "parseConstraints s =
     (case parseConstraintsLoop s [] of
        Inl e \<Rightarrow> Inl e
      | Inr out \<Rightarrow>
          if out = [] then Inl EmptyConstraints
          else (case checkConstraintsSatisfiable out of Some e \<Rightarrow> Inl e | None \<Rightarrow> Inr out))"

definition is_op_char :: "char \<Rightarrow> bool" where
  "is_op_char c \<longleftrightarrow> c = CHR ''>'' \<or> c = CHR ''<'' \<or> c = CHR ''=''"

definition splitRequireName :: "string \<Rightarrow> entry_error + string \<times> string" where
  "splitRequireName s =
     (if \<exists>c \<in> set s. is_op_char c then
        (let name = trim_space (takeWhile (\<lambda>c. \<not> is_op_char c) s);
             rest = trim_space (dropWhile (\<lambda>c. \<not> is_op_char c) s) in
         if name = [] then Inl MissingCapabilityName else Inr (name, rest))
      else Inr (trim_space s, []))"

definition ParseRequire :: "string \<Rightarrow> entry_error + require" where
  "ParseRequire s =
     (case splitRequireName (trim_space s) of
        Inl e \<Rightarrow> Inl e
      | Inr (name, rest) \<Rightarrow>
          (case capabilityNameError name of
             Some e \<Rightarrow> Inl (BadName e)
           | None \<Rightarrow>
               if rest = [] then Inr \<lparr>rName = NormalizeCapabilityName name, rConstraints = []\<rparr>
               else (case parseConstraints rest of
                       Inl e \<Rightarrow> Inl e
                     | Inr cs \<Rightarrow> Inr \<lparr>rName = NormalizeCapabilityName name, rConstraints = cs\<rparr>)))"

section \<open>Canonical rendering\<close>

definition canonicalSegment :: "string \<Rightarrow> string" where
  "canonicalSegment seg =
     (if \<not> allDigits seg then seg
      else (let trimmed = trimZeros seg in if trimmed \<noteq> [] then trimmed else ''0''))"

definition canonicalVersion :: "string \<Rightarrow> string" where
  "canonicalVersion v = join ''.'' (map canonicalSegment (splitVersion v))"

definition normalizeConstraint :: "constraint \<Rightarrow> constraint" where
  "normalizeConstraint c =
     (if cOp c = OpGT then \<lparr>cOp = OpGTE, cVersion = nextVersion (cVersion c)\<rparr>
      else if cOp c = OpLT \<and> has_suffix (cVersion c) versionSuccessorSuffix
      then \<lparr>cOp = OpLTE, cVersion = trim_suffix (cVersion c) versionSuccessorSuffix\<rparr>
      else c)"

definition pickLo :: "constraint option \<Rightarrow> constraint \<Rightarrow> constraint option" where
  "pickLo lo c =
     (if cOp c = OpGTE \<or> cOp c = OpGT then
        (case lo of
           None \<Rightarrow> Some c
         | Some l \<Rightarrow>
             if CompareVersions (cVersion c) (cVersion l) > 0 \<or>
                (CompareVersions (cVersion c) (cVersion l) = 0 \<and> cOp c = OpGT)
             then Some c else lo)
      else lo)"

definition pickHi :: "constraint option \<Rightarrow> constraint \<Rightarrow> constraint option" where
  "pickHi hi c =
     (if cOp c = OpLTE \<or> cOp c = OpLT then
        (case hi of
           None \<Rightarrow> Some c
         | Some h \<Rightarrow>
             if CompareVersions (cVersion c) (cVersion h) < 0 \<or>
                (CompareVersions (cVersion c) (cVersion h) = 0 \<and> cOp c = OpLT)
             then Some c else hi)
      else hi)"

definition simplifyConstraints :: "constraint list \<Rightarrow> constraint list" where
  "simplifyConstraints cs =
     (case filter (\<lambda>c. cOp c = OpEQ) cs of
        c # _ \<Rightarrow> [c]
      | [] \<Rightarrow>
          (let cs = map normalizeConstraint cs;
               lo = foldl pickLo None cs;
               hi = foldl pickHi None cs;
               out = (case lo of None \<Rightarrow> [] | Some l \<Rightarrow> [l]) @ (case hi of None \<Rightarrow> [] | Some h \<Rightarrow> [h]) in
           case (lo, hi) of
             (Some l, Some h) \<Rightarrow>
               if cOp l = OpGTE \<and> cOp h = OpLTE \<and> CompareVersions (cVersion l) (cVersion h) = 0
               then [\<lparr>cOp = OpEQ, cVersion = cVersion l\<rparr>] else out
           | _ \<Rightarrow> out))"

definition CanonicalRequire :: "require \<Rightarrow> string" where
  "CanonicalRequire r =
     (let rendered = map (\<lambda>c. op_text (cOp c) @ canonicalVersion (cVersion c))
                       (simplifyConstraints (rConstraints r)) in
      rName r @ '' '' @ join '','' (sort rendered))"

section \<open>Package versions and tags\<close>

definition stripEpoch :: "string \<Rightarrow> string" where
  "stripEpoch s =
     (let r = dropWhile isDigit s in
      if takeWhile isDigit s \<noteq> [] \<and> r \<noteq> [] \<and> hd r = CHR '':'' then tl r else s)"

text \<open>The numeric identifiers of the two patterns \<open>semverCore\<close> and \<open>numericCore\<close>.\<close>

definition semverNum :: "string \<Rightarrow> string" where
  "semverNum s =
     (case s of [] \<Rightarrow> [] | c # _ \<Rightarrow> if c = CHR ''0'' then ''0'' else takeWhile isDigit s)"

definition numericNum :: "string \<Rightarrow> string" where
  "numericNum s = takeWhile isDigit s"

text \<open>A number and at most \<open>n\<close> further dotted ones, each as long as its identifier allows.\<close>

fun dottedCore :: "(string \<Rightarrow> string) \<Rightarrow> nat \<Rightarrow> string \<Rightarrow> string" where
  "dottedCore num n s =
     (let d = num s; r = drop (length d) s in
      if d = [] then []
      else (case n of
              0 \<Rightarrow> d
            | Suc m \<Rightarrow>
                if r \<noteq> [] \<and> hd r = CHR ''.'' \<and> num (tl r) \<noteq> []
                then d @ ''.'' @ dottedCore num m (tl r) else d))"

declare dottedCore.simps [simp del]

definition PackageVersion :: "string \<Rightarrow> string" where
  "PackageVersion raw0 =
     (let raw = stripEpoch (trim_space raw0);
          upstream = (case cut_last (CHR ''-'') raw of None \<Rightarrow> raw | Some (b, _) \<Rightarrow> b) in
      if CHR ''~'' \<in> set upstream then []
      else (let core = dottedCore semverNum 2 raw;
                permissive = dottedCore numericNum 2 raw;
                core = (if length permissive > length core then permissive else core) in
            if \<not> IsVersion core then [] else core))"

definition TagVersion :: "string \<Rightarrow> string" where
  "TagVersion tag = (let v = trim_prefix tag ''v'' in if \<not> IsVersion v then [] else v)"

fun latestLoop :: "string \<Rightarrow> string \<Rightarrow> string list \<Rightarrow> string" where
  "latestLoop bestTag bestVersion [] = bestTag"
| "latestLoop bestTag bestVersion (tag # tags) =
     (let v = TagVersion tag in
      if v = [] then latestLoop bestTag bestVersion tags
      else if bestTag = [] \<or> CompareVersions v bestVersion > 0 then latestLoop tag v tags
      else latestLoop bestTag bestVersion tags)"

definition LatestVersion :: "string list \<Rightarrow> string" where
  "LatestVersion tags = latestLoop [] [] tags"

end
