(* ===== verification/Version_Order.thy ===== *)
theory Version_Order
  imports Versions "HOL-Library.Product_Lexorder"
begin

text \<open>
  What \<open>CompareVersions\<close> orders. On tidy versions, whose segments are each a number or
  start with a letter or a hyphen, the comparison is the linear order of a key: the list
  of the segments' ranks, compared lexicographically. The locale \<open>keyed_order\<close> is the
  interface the clients of the comparison rely on, interpreted on \<open>CompareVersions\<close>.
  Outside the tidy versions the comparison is skew-symmetric but not transitive.
\<close>

section \<open>The interface of a comparison\<close>

definition three_way :: "'k::linorder \<Rightarrow> 'k \<Rightarrow> int" where
  "three_way x y = (if x = y then 0 else if x < y then -1 else 1)"

locale keyed_order =
  fixes cmp :: "'a \<Rightarrow> 'a \<Rightarrow> int"
    and carrier :: "'a \<Rightarrow> bool"
    and key :: "'a \<Rightarrow> 'k::linorder"
  assumes cmp_key: "carrier a \<Longrightarrow> carrier b \<Longrightarrow> cmp a b = three_way (key a) (key b)"
begin

lemma cmp_less: "carrier a \<Longrightarrow> carrier b \<Longrightarrow> cmp a b < 0 \<longleftrightarrow> key a < key b"
  by (auto simp: cmp_key three_way_def)

lemma cmp_eq: "carrier a \<Longrightarrow> carrier b \<Longrightarrow> cmp a b = 0 \<longleftrightarrow> key a = key b"
  by (auto simp: cmp_key three_way_def)

lemma cmp_greater: "carrier a \<Longrightarrow> carrier b \<Longrightarrow> cmp a b > 0 \<longleftrightarrow> key b < key a"
  by (auto simp: cmp_key three_way_def)

lemma cmp_le: "carrier a \<Longrightarrow> carrier b \<Longrightarrow> cmp a b \<le> 0 \<longleftrightarrow> key a \<le> key b"
  by (auto simp: cmp_key three_way_def)

lemma cmp_ge: "carrier a \<Longrightarrow> carrier b \<Longrightarrow> cmp a b \<ge> 0 \<longleftrightarrow> key b \<le> key a"
  by (auto simp: cmp_key three_way_def)

lemmas cmp_iffs = cmp_less cmp_eq cmp_greater cmp_le cmp_ge

lemma cmp_trans:
  "carrier a \<Longrightarrow> carrier b \<Longrightarrow> carrier c \<Longrightarrow> cmp a b \<le> 0 \<Longrightarrow> cmp b c \<le> 0 \<Longrightarrow> cmp a c \<le> 0"
  by (simp add: cmp_le)

lemma cmp_trans_strict:
  "carrier a \<Longrightarrow> carrier b \<Longrightarrow> carrier c \<Longrightarrow> cmp a b \<le> 0 \<Longrightarrow> cmp b c < 0 \<Longrightarrow> cmp a c < 0"
  by (simp add: cmp_less cmp_le)

lemma cmp_cong:
  "carrier a \<Longrightarrow> carrier b \<Longrightarrow> carrier c \<Longrightarrow> cmp a b = 0 \<Longrightarrow> cmp a c = cmp b c"
  by (simp add: cmp_key three_way_def split: if_splits)

end

section \<open>Tidy versions and their keys\<close>

type_synonym seg_rank = "nat \<times> nat \<times> string"

definition tidySegment :: "string \<Rightarrow> bool" where
  "tidySegment s \<longleftrightarrow> allDigits s \<or> s = [] \<or> \<not> isDigit (hd s)"

definition tidyVersion :: "string \<Rightarrow> bool" where
  "tidyVersion v \<longleftrightarrow> versionPattern v \<and> list_all tidySegment (split_on (CHR ''.'') v)"

definition seg_key :: "string \<Rightarrow> seg_rank" where
  "seg_key s =
     (if allDigits s then (1, length (trimZeros s), trimZeros s)
      else if s = [] \<or> hd s < CHR ''0'' then (0, 0, s)
      else (2, 0, s))"

definition version_key :: "string \<Rightarrow> seg_rank list" where
  "version_key v = map seg_key (splitVersion v)"

section \<open>Comparing segments\<close>

lemma compareStrings_key: "compareStrings a b = three_way a b"
  by (simp add: compareStrings_def three_way_def)

lemma compareDigits_key:
  "compareDigits a b = three_way (length (trimZeros a), trimZeros a) (length (trimZeros b), trimZeros b)"
  by (auto simp: compareDigits_def compareStrings_key three_way_def Let_def)

lemma hd_less_string: "a \<noteq> [] \<Longrightarrow> b \<noteq> [] \<Longrightarrow> hd a < hd b \<Longrightarrow> a < (b :: string)"
  by (cases a; cases b) auto

lemma allDigits_Nil [simp]: "\<not> allDigits []"
  by (simp add: allDigits_def)

lemma hd_digit: "allDigits s \<Longrightarrow> s \<noteq> [] \<and> CHR ''0'' \<le> hd s \<and> hd s \<le> CHR ''9''"
  by (cases s) (auto simp: allDigits_def isDigit_def)

lemma tidy_mixed_less:
  assumes "tidySegment a" "allDigits b" "\<not> allDigits a"
  shows "a < b \<longleftrightarrow> a = [] \<or> hd a < CHR ''0''"
proof (cases "a = []")
  case True
  then show ?thesis using hd_digit [OF assms(2)] by (cases b) auto
next
  case False
  with assms have "hd a < CHR ''0'' \<or> CHR ''9'' < hd a"
    by (auto simp: tidySegment_def isDigit_def)
  moreover note hd_digit [OF assms(2)]
  ultimately have "a < b \<longleftrightarrow> hd a < hd b" "hd a < hd b \<longleftrightarrow> hd a < CHR ''0''"
    using False by (auto dest: hd_less_string)
  then show ?thesis using False by simp
qed

lemma compareSegment_key:
  assumes "tidySegment a" "tidySegment b"
  shows "compareSegment a b = three_way (seg_key a) (seg_key b)"
proof -
  have cross: "a < b \<longleftrightarrow> a = [] \<or> hd a < CHR ''0''"
    if "\<not> allDigits a" "\<not> allDigits b" "(a = [] \<or> hd a < CHR ''0'') \<noteq> (b = [] \<or> hd b < CHR ''0'')"
  proof (cases "a = [] \<or> b = []")
    case True
    then show ?thesis using that by (cases a; cases b) auto
  next
    case False
    then have "hd a < hd b \<or> hd b < hd a" using that(3) by (auto simp: not_less)
    then show ?thesis using False that(3) by (auto dest: hd_less_string order.asym)
  qed
  show ?thesis
  proof (cases "allDigits a"; cases "allDigits b")
    assume "allDigits a" "\<not> allDigits b"
    then show ?thesis
      using tidy_mixed_less [OF assms(2), of a]
      by (auto simp: compareSegment_def seg_key_def three_way_def)
  next
    assume "\<not> allDigits a" "allDigits b"
    then show ?thesis
      using tidy_mixed_less [OF assms(1), of b]
      by (auto simp: compareSegment_def seg_key_def three_way_def)
  next
    assume "\<not> allDigits a" "\<not> allDigits b"
    then show ?thesis
      using cross by (auto simp: compareSegment_def seg_key_def three_way_def)
  qed (auto simp: compareSegment_def compareDigits_key seg_key_def three_way_def)
qed

lemma seg_key_Nil_least: "s \<noteq> [] \<Longrightarrow> seg_key [] < seg_key s"
  by (auto simp: seg_key_def allDigits_def)

lemma tidy_Nil [simp]: "tidySegment []"
  by (simp add: tidySegment_def)

lemma compareSegments_key:
  assumes "list_all (\<lambda>s. tidySegment s \<and> s \<noteq> []) as" "list_all (\<lambda>s. tidySegment s \<and> s \<noteq> []) bs"
  shows "compareSegments as bs = three_way (map seg_key as) (map seg_key bs)"
  using assms
proof (induction as bs rule: compareSegments.induct)
  case (2 a as)
  then show ?case
    using seg_key_Nil_least [of a] compareSegment_key [of a "[]"]
    by (auto simp: Let_def three_way_def)
next
  case (3 b bs)
  then show ?case
    using seg_key_Nil_least [of b] compareSegment_key [of "[]" b]
    by (auto simp: Let_def three_way_def)
next
  case (4 a as b bs)
  then show ?case
    using compareSegment_key [of a b] by (auto simp: Let_def three_way_def)
qed (simp add: three_way_def)

section \<open>Version strings\<close>

lemma versionPattern_segments:
  assumes "versionPattern v"
  shows "s \<in> set (split_on (CHR ''.'') v) \<Longrightarrow> s \<noteq> [] \<and> list_all segment_char s"
  using assms
  by (auto simp: versionPattern_def segment_char_def list_all_iff split: list.splits)

lemma isUpper_codes: "isUpper c \<longleftrightarrow> 65 \<le> (of_char c :: nat) \<and> (of_char c :: nat) \<le> 90"
  by (simp add: isUpper_def less_eq_char_def)

lemma segment_char_visible: "segment_char c \<Longrightarrow> visible c"
  by (auto simp: segment_char_def isDigit_codes isLower_codes isUpper_codes visible_def less_char_def)

lemma versionPattern_chars:
  assumes "versionPattern v"
  shows "v \<noteq> []" "c \<in> set v \<Longrightarrow> visible c"
proof -
  show "v \<noteq> []" using assms by (auto simp: versionPattern_def)
  assume "c \<in> set v"
  then have "c = CHR ''.'' \<or> (\<exists>s \<in> set (split_on (CHR ''.'') v). c \<in> set s)"
    using join_chars [of "''.''" "split_on (CHR ''.'') v"] by (auto simp: join_split)
  then show "visible c"
    using versionPattern_segments [OF assms] segment_char_visible
    by (auto simp: list_all_iff visible_def)
qed

lemma trim_version: "versionPattern v \<Longrightarrow> trim_space v = v"
  using versionPattern_chars by (intro trim_space_visible) auto

lemma split_version: "versionPattern v \<Longrightarrow> splitVersion v = split_on (CHR ''.'') v"
  by (simp add: splitVersion_def Let_def trim_version versionPattern_chars(1))

lemma tidyVersion_segments:
  "tidyVersion v \<Longrightarrow> list_all (\<lambda>s. tidySegment s \<and> s \<noteq> []) (splitVersion v)"
  using versionPattern_segments by (auto simp: tidyVersion_def split_version list_all_iff)

interpretation version_order: keyed_order CompareVersions tidyVersion version_key
  by unfold_locales
    (simp add: CompareVersions_def version_key_def compareSegments_key tidyVersion_segments)

section \<open>The comparison on arbitrary strings\<close>

lemma compareSegment_skew: "compareSegment b a = - compareSegment a b"
  by (auto simp: compareSegment_def compareDigits_def compareStrings_def Let_def)

lemma compareSegments_skew: "compareSegments bs as = - compareSegments as bs"
proof (induction as bs rule: compareSegments.induct)
  case (2 a as)
  then show ?case using compareSegment_skew [of a "[]"] by (simp add: Let_def)
next
  case (3 b bs)
  then show ?case using compareSegment_skew [of "[]" b] by (simp add: Let_def)
next
  case (4 a as b bs)
  then show ?case using compareSegment_skew [of a b] by (simp add: Let_def)
qed simp

lemma compareSegment_range: "compareSegment a b \<in> {-1, 0, 1}"
  by (auto simp: compareSegment_def compareDigits_def compareStrings_def Let_def)

lemma compareSegments_range: "compareSegments as bs \<in> {-1, 0, 1}"
  by (induction as bs rule: compareSegments.induct)
    (use compareSegment_range in \<open>auto simp: Let_def\<close>)

end
