(* ===== verification/Constraints.thy ===== *)
theory Constraints
  imports Version_Order
begin

text \<open>
  Constraint sets over the version order: the successor of a version, the soundness and
  completeness of the satisfiability check that parsing a \<open>requires\<close> entry performs, the
  meaning \<open>simplifyConstraints\<close> preserves, and what the parsers guarantee of their results.
\<close>

section \<open>Specification of a bound\<close>

text \<open>A version above a lower bound, and below an upper one, by key.\<close>

definition above :: "string \<Rightarrow> string \<times> bool \<Rightarrow> bool" where
  "above w lo \<longleftrightarrow> (if snd lo then version_key (fst lo) < version_key w
                   else version_key (fst lo) \<le> version_key w)"

fun below :: "string \<Rightarrow> (string \<times> bool) option \<Rightarrow> bool" where
  "below w None = True"
| "below w (Some h) = (if snd h then version_key w < version_key (fst h)
                       else version_key w \<le> version_key (fst h))"

abbreviation tidyConstraint :: "constraint \<Rightarrow> bool" where
  "tidyConstraint c \<equiv> tidyVersion (cVersion c)"

abbreviation isLowerBound :: "constraint \<Rightarrow> bool" where
  "isLowerBound c \<equiv> cOp c = OpGTE \<or> cOp c = OpGT"

abbreviation isUpperBound :: "constraint \<Rightarrow> bool" where
  "isUpperBound c \<equiv> cOp c = OpLTE \<or> cOp c = OpLT"

lemma constraintHolds_key:
  assumes "tidyVersion w" "tidyConstraint c"
  shows "constraintHolds w c \<longleftrightarrow>
    (case cOp c of
       OpGTE \<Rightarrow> version_key (cVersion c) \<le> version_key w
     | OpGT \<Rightarrow> version_key (cVersion c) < version_key w
     | OpLTE \<Rightarrow> version_key w \<le> version_key (cVersion c)
     | OpLT \<Rightarrow> version_key w < version_key (cVersion c)
     | OpEQ \<Rightarrow> version_key w = version_key (cVersion c))"
  using assms
  by (simp add: constraintHolds_def Let_def version_order.cmp_iffs split: constraint_op.splits)

section \<open>The next version\<close>

lemma hyphen_least:
  assumes "b \<noteq> []" "list_all segment_char b"
  shows "b = ''-'' \<or> ''-'' < b"
proof -
  obtain c cs where b: "b = c # cs" using assms(1) by (cases b) auto
  then have "c = CHR ''-'' \<or> CHR ''-'' < c"
    using assms(2)
    by (auto simp: segment_char_def isDigit_codes isLower_codes isUpper_codes less_char_def)
  then show ?thesis using b by auto
qed

lemma compareSegments_Nil_le: "list_all (\<lambda>s. s \<noteq> []) bs \<Longrightarrow> compareSegments [] bs \<le> 0"
  by (cases bs) (auto simp: compareSegment_def Let_def)

lemma compareSegments_next:
  assumes "list_all (\<lambda>s. s \<noteq> []) as" "list_all (\<lambda>s. s \<noteq> [] \<and> list_all segment_char s) bs"
  shows "compareSegments as bs < 0 \<longleftrightarrow> compareSegments (as @ [''-'']) bs \<le> 0"
  using assms
proof (induction as arbitrary: bs)
  case Nil
  show ?case
  proof (cases bs)
    case (Cons b bs')
    moreover have "\<not> allDigits ''-''" by code_simp
    moreover have "list_all (\<lambda>s. s \<noteq> []) bs'" using Nil.prems Cons by (auto simp: list_all_iff)
    ultimately show ?thesis
      using hyphen_least [of b] Nil.prems compareSegments_Nil_le [of bs']
      by (auto simp: compareSegment_def Let_def)
  qed (simp add: compareSegment_def)
next
  case (Cons a as)
  then show ?case by (cases bs) (auto simp: compareSegment_def Let_def)
qed

lemma versionPattern_next: "versionPattern v \<Longrightarrow> versionPattern (nextVersion v)"
proof -
  have "nextVersion v = v @ CHR ''.'' # ''-''"
    by (simp add: nextVersion_def versionSuccessorSuffix_def)
  moreover have "list_all segment_char ''-''" by code_simp
  ultimately show "versionPattern v \<Longrightarrow> ?thesis"
    by (auto simp: versionPattern_def split_on_append split: list.splits)
qed

lemma split_next: "versionPattern v \<Longrightarrow> splitVersion (nextVersion v) = splitVersion v @ [''-'']"
proof -
  have "nextVersion v = v @ CHR ''.'' # ''-''"
    by (simp add: nextVersion_def versionSuccessorSuffix_def)
  then show "versionPattern v \<Longrightarrow> ?thesis"
    using versionPattern_next [of v] by (simp add: split_version split_on_append)
qed

lemma next_least_above:
  assumes "versionPattern v" "versionPattern w"
  shows "CompareVersions v w < 0 \<longleftrightarrow> CompareVersions (nextVersion v) w \<le> 0"
  using versionPattern_segments [OF assms(1)] versionPattern_segments [OF assms(2)]
  by (simp add: CompareVersions_def split_next split_version assms compareSegments_next list_all_iff)

lemma tidy_next:
  assumes "tidyVersion v"
  shows "tidyVersion (nextVersion v)"
proof -
  have "tidySegment ''-''" by code_simp
  then show ?thesis
    using assms versionPattern_next [of v] split_next [of v]
    by (simp add: tidyVersion_def split_version)
qed

lemma next_key:
  assumes "tidyVersion v" "tidyVersion w"
  shows "version_key (nextVersion v) \<le> version_key w \<longleftrightarrow> version_key v < version_key w"
  using next_least_above [of v w] assms tidy_next [OF assms(1)]
  by (simp add: version_order.cmp_iffs tidyVersion_def [of v] tidyVersion_def [of w])

lemma tidy_zero: "tidyVersion ''0''"
  by code_simp

lemma zero_least:
  assumes "tidyVersion w"
  shows "version_key ''0'' \<le> version_key w"
proof -
  obtain s ss where s: "splitVersion w = s # ss" "allDigits s"
    using assms
    by (auto simp: tidyVersion_def split_version versionPattern_def allDigits_def split: list.splits)
  have "splitVersion ''0'' = [''0'']" "trimZeros ''0'' = []" "allDigits ''0''" by code_simp+
  then show ?thesis
    using s by (simp add: version_key_def seg_key_def less_eq_prod_def)
qed

section \<open>Tightest bounds\<close>

lemma tightenLo_above:
  assumes "tidyVersion w" "tidyConstraint c" "tidyVersion (fst lo)"
  shows "above w (tightenLo lo c) \<longleftrightarrow> above w lo \<and> (isLowerBound c \<longrightarrow> constraintHolds w c)"
    and "tidyVersion (fst (tightenLo lo c))"
  using assms
  by (auto simp: tightenLo_def Let_def above_def constraintHolds_key version_order.cmp_iffs)

lemma foldl_tightenLo:
  assumes "tidyVersion w" "list_all tidyConstraint cs" "tidyVersion (fst lo)"
  shows "above w (foldl tightenLo lo cs) \<longleftrightarrow>
      above w lo \<and> (\<forall>c \<in> set cs. isLowerBound c \<longrightarrow> constraintHolds w c)"
    and "tidyVersion (fst (foldl tightenLo lo cs))"
proof (use assms in \<open>induction cs arbitrary: lo\<close>)
  case (Cons c cs)
  {
    case 1
    then show ?case using Cons.IH(1) [of "tightenLo lo c"] tightenLo_above [of w c lo] by auto
  next
    case 2
    then show ?case using Cons.IH(2) [of "tightenLo lo c"] tightenLo_above [of w c lo] by auto
  }
qed auto

lemma tightenHi_below:
  assumes "tidyVersion w" "tidyConstraint c" "\<And>h. hi = Some h \<Longrightarrow> tidyVersion (fst h)"
  shows "below w (tightenHi hi c) \<longleftrightarrow> below w hi \<and> (isUpperBound c \<longrightarrow> constraintHolds w c)"
    and "\<And>h. tightenHi hi c = Some h \<Longrightarrow> tidyVersion (fst h)"
  using assms
  by (cases hi;
      auto simp: tightenHi_def Let_def constraintHolds_key version_order.cmp_iffs split: if_splits)+

lemma foldl_tightenHi:
  assumes "tidyVersion w" "list_all tidyConstraint cs" "\<And>h. hi = Some h \<Longrightarrow> tidyVersion (fst h)"
  shows "below w (foldl tightenHi hi cs) \<longleftrightarrow>
      below w hi \<and> (\<forall>c \<in> set cs. isUpperBound c \<longrightarrow> constraintHolds w c)"
    and "\<And>h. foldl tightenHi hi cs = Some h \<Longrightarrow> tidyVersion (fst h)"
proof (use assms in \<open>induction cs arbitrary: hi\<close>)
  case (Cons c cs)
  {
    case 1
    then show ?case
      using Cons.IH(1) [of "tightenHi hi c"] tightenHi_below [of w c hi] by auto
  next
    case 2
    then show ?case
      using Cons.IH(2) [of "tightenHi hi c"] tightenHi_below [of w c hi] by auto
  }
qed auto

lemma no_pin_bounds:
  assumes "tidyVersion w" "list_all tidyConstraint cs" "\<forall>c \<in> set cs. cOp c \<noteq> OpEQ"
  shows "list_all (constraintHolds w) cs \<longleftrightarrow>
    above w (foldl tightenLo (''0'', False) cs) \<and> below w (foldl tightenHi None cs)"
proof -
  have "isLowerBound c \<or> isUpperBound c" if "c \<in> set cs" for c
    using assms(3) that by (cases "cOp c") auto
  moreover have "above w (''0'', False)" using zero_least [OF assms(1)] by (simp add: above_def)
  ultimately show ?thesis
    using foldl_tightenLo(1) [OF assms(1,2), of "(''0'', False)"]
      foldl_tightenHi(1) [OF assms(1,2), of None] tidy_zero
    by (auto simp: list_all_iff)
qed

section \<open>Pins\<close>

lemma checkPins_tidy:
  assumes "list_all tidyConstraint cs" "\<And>p. pin = Some p \<Longrightarrow> tidyVersion p"
    "checkPins pin cs = Inr r"
  shows "\<And>p. r = Some p \<Longrightarrow> tidyVersion p"
    and "(\<exists>c \<in> set cs. cOp c = OpEQ) \<or> pin \<noteq> None \<longleftrightarrow> r \<noteq> None"
  using assms by (induction pin cs rule: checkPins.induct) (auto split: if_splits option.splits)

lemma checkPins_agree:
  assumes "list_all tidyConstraint cs" "\<And>p. pin = Some p \<Longrightarrow> tidyVersion p \<and> version_key p = k"
    "\<forall>c \<in> set cs. cOp c = OpEQ \<longrightarrow> version_key (cVersion c) = k"
  shows "\<exists>r. checkPins pin cs = Inr r \<and> (\<forall>p. r = Some p \<longrightarrow> version_key p = k)"
  using assms
proof (induction pin cs rule: checkPins.induct)
  case (2 pin c cs)
  then show ?case by (cases pin) (auto simp: version_order.cmp_iffs)
qed auto

lemma same_key_holds:
  assumes "tidyVersion v" "tidyVersion w" "version_key v = version_key w" "list_all tidyConstraint cs"
  shows "list_all (constraintHolds v) cs \<longleftrightarrow> list_all (constraintHolds w) cs"
  using assms
  by (auto simp: list_all_iff constraintHolds_key split: constraint_op.splits)

section \<open>The satisfiability check\<close>

text \<open>The least version above a lower bound.\<close>

definition effective_lo :: "string \<times> bool \<Rightarrow> string" where
  "effective_lo lo = (if snd lo then nextVersion (fst lo) else fst lo)"

lemma effective_lo_above:
  assumes "tidyVersion (fst lo)" "tidyVersion w"
  shows "above w lo \<longleftrightarrow> version_key (effective_lo lo) \<le> version_key w"
    and "tidyVersion (effective_lo lo)" "above (effective_lo lo) lo"
  using assms next_key [OF assms] tidy_next [OF assms(1)] next_key [OF assms(1) tidy_next [OF assms(1)]]
  by (auto simp: above_def effective_lo_def)

lemma check_no_pin:
  assumes tidy: "list_all tidyConstraint cs" and pins: "\<forall>c \<in> set cs. cOp c \<noteq> OpEQ"
  defines "lo \<equiv> foldl tightenLo (''0'', False) cs" and "hi \<equiv> foldl tightenHi None cs"
  shows "checkConstraintsSatisfiable cs = None \<longleftrightarrow> below (effective_lo lo) hi"
proof -
  have "checkPins None cs = Inr None"
    using pins by (induction cs) auto
  moreover have "tidyVersion (fst lo)"
    unfolding lo_def using foldl_tightenLo(2) [OF tidy_zero tidy] tidy_zero by simp
  then have "tidyVersion (effective_lo lo)" using effective_lo_above(2) tidy_zero by blast
  moreover have "\<And>h. hi = Some h \<Longrightarrow> tidyVersion (fst h)"
    unfolding hi_def using foldl_tightenHi(2) [OF tidy_zero tidy] by blast
  ultimately show ?thesis
    unfolding checkConstraintsSatisfiable_def lo_def [symmetric] hi_def [symmetric]
    by (cases hi) (auto simp: Let_def version_order.cmp_iffs effective_lo_def)
qed

lemma check_pinned:
  assumes tidy: "list_all tidyConstraint cs" and pin: "c \<in> set cs" "cOp c = OpEQ"
  shows "checkConstraintsSatisfiable cs = None \<longleftrightarrow>
    (\<exists>w. tidyVersion w \<and> list_all (constraintHolds w) cs)"
proof
  assume ok: "checkConstraintsSatisfiable cs = None"
  then obtain r where r: "checkPins None cs = Inr r"
    by (auto simp: checkConstraintsSatisfiable_def split: sum.splits)
  then obtain p where p: "r = Some p" "tidyVersion p"
    using checkPins_tidy [OF tidy _ r] pin by auto
  then have "filter (\<lambda>c. \<not> constraintHolds p c) cs = []"
    using ok r by (auto simp: checkConstraintsSatisfiable_def split: list.splits)
  then show "\<exists>w. tidyVersion w \<and> list_all (constraintHolds w) cs"
    using p by (auto simp: filter_empty_conv list_all_iff)
next
  assume "\<exists>w. tidyVersion w \<and> list_all (constraintHolds w) cs"
  then obtain w where w: "tidyVersion w" "list_all (constraintHolds w) cs" by blast
  have "\<forall>d \<in> set cs. cOp d = OpEQ \<longrightarrow> version_key (cVersion d) = version_key w"
    using w tidy by (auto simp: list_all_iff constraintHolds_key split: constraint_op.splits)
  from checkPins_agree [OF tidy _ this, of None]
  obtain r where r: "checkPins None cs = Inr r" "\<forall>p. r = Some p \<longrightarrow> version_key p = version_key w"
    by auto
  then obtain p where p: "r = Some p" "tidyVersion p" "version_key p = version_key w"
    using checkPins_tidy [OF tidy _ r(1)] pin by auto
  then have "filter (\<lambda>c. \<not> constraintHolds p c) cs = []"
    using same_key_holds [OF p(2) w(1) p(3) tidy] w(2) by (auto simp: filter_empty_conv list_all_iff)
  then show "checkConstraintsSatisfiable cs = None"
    using r(1) p(1) by (simp add: checkConstraintsSatisfiable_def)
qed

lemma check_satisfiable_iff:
  assumes tidy: "list_all tidyConstraint cs"
  shows "checkConstraintsSatisfiable cs = None \<longleftrightarrow>
    (\<exists>w. tidyVersion w \<and> list_all (constraintHolds w) cs)"
proof (cases "\<exists>c \<in> set cs. cOp c = OpEQ")
  case True
  then show ?thesis using check_pinned [OF tidy] by blast
next
  case False
  let ?lo = "foldl tightenLo (''0'', False) cs" and ?hi = "foldl tightenHi None cs"
  have lo: "tidyVersion (fst ?lo)" using foldl_tightenLo(2) [OF tidy_zero tidy] tidy_zero by simp
  have mono: "below v ?hi \<Longrightarrow> version_key u \<le> version_key v \<Longrightarrow> below u ?hi" for u v
    by (cases ?hi) (auto split: if_splits)
  have sat: "list_all (constraintHolds w) cs \<longleftrightarrow>
      version_key (effective_lo ?lo) \<le> version_key w \<and> below w ?hi" if "tidyVersion w" for w
    using no_pin_bounds [OF that tidy] False effective_lo_above(1) [OF lo that] by auto
  show ?thesis
    using check_no_pin [OF tidy] False sat mono effective_lo_above(2) [OF lo tidy_zero] by blast
qed

section \<open>Simplification keeps the meaning\<close>

lemma tidy_unsuffix:
  assumes "tidyVersion v" "has_suffix v versionSuccessorSuffix"
  shows "tidyVersion (trim_suffix v versionSuccessorSuffix)"
    and "v = nextVersion (trim_suffix v versionSuccessorSuffix)"
proof -
  obtain u where u: "v = u @ CHR ''.'' # ''-''"
    using assms(2) by (auto simp: has_suffix_iff versionSuccessorSuffix_def)
  then have trim: "trim_suffix v versionSuccessorSuffix = u"
    using trim_suffix_append [of u "''.-''"] by (simp add: versionSuccessorSuffix_def)
  have "split_on (CHR ''.'') v = split_on (CHR ''.'') u @ [''-'']"
    using u by (simp add: split_on_append)
  then show "tidyVersion (trim_suffix v versionSuccessorSuffix)"
    using assms(1) trim split_on_nonempty [of "CHR ''.''" u]
    by (cases "split_on (CHR ''.'') u") (auto simp: tidyVersion_def versionPattern_def)
  show "v = nextVersion (trim_suffix v versionSuccessorSuffix)"
    using u trim by (simp add: nextVersion_def versionSuccessorSuffix_def)
qed

lemma normalizeConstraint_holds:
  assumes "tidyVersion w" "tidyConstraint c"
  shows "tidyConstraint (normalizeConstraint c)"
    and "constraintHolds w (normalizeConstraint c) \<longleftrightarrow> constraintHolds w c"
    and "cOp (normalizeConstraint c) = OpEQ \<longleftrightarrow> cOp c = OpEQ"
proof -
  let ?u = "trim_suffix (cVersion c) versionSuccessorSuffix"
  note u = tidy_unsuffix [OF assms(2)]
  show t: "tidyConstraint (normalizeConstraint c)"
    using assms u(1) by (auto simp: normalizeConstraint_def tidy_next)
  have lt: "version_key w < version_key (cVersion c) \<longleftrightarrow> version_key w \<le> version_key ?u"
    if "has_suffix (cVersion c) versionSuccessorSuffix"
    using next_key [OF u(1) [OF that] assms(1)] u(2) [OF that] by (metis linorder_not_le)
  show "constraintHolds w (normalizeConstraint c) \<longleftrightarrow> constraintHolds w c"
    using constraintHolds_key [OF assms(1) t] constraintHolds_key [OF assms] next_key [OF assms(2,1)] lt
    by (auto simp: normalizeConstraint_def split: constraint_op.splits if_splits)
  show "cOp (normalizeConstraint c) = OpEQ \<longleftrightarrow> cOp c = OpEQ"
    by (simp add: normalizeConstraint_def)
qed

definition optHolds :: "string \<Rightarrow> constraint option \<Rightarrow> bool" where
  "optHolds w b = (case b of None \<Rightarrow> True | Some c \<Rightarrow> constraintHolds w c)"

definition lowerSlot :: "constraint option \<Rightarrow> bool" where
  "lowerSlot b = (case b of None \<Rightarrow> True | Some l \<Rightarrow> tidyConstraint l \<and> isLowerBound l)"

definition upperSlot :: "constraint option \<Rightarrow> bool" where
  "upperSlot b = (case b of None \<Rightarrow> True | Some h \<Rightarrow> tidyConstraint h \<and> isUpperBound h)"

lemma pickLo_holds:
  assumes "tidyVersion w" "tidyConstraint c" "lowerSlot lo"
  shows "optHolds w (pickLo lo c) \<longleftrightarrow> optHolds w lo \<and> (isLowerBound c \<longrightarrow> constraintHolds w c)"
    and "lowerSlot (pickLo lo c)"
  using assms
  by (cases lo; auto simp: pickLo_def lowerSlot_def optHolds_def constraintHolds_key
      version_order.cmp_iffs split: if_splits)+

lemma pickHi_holds:
  assumes "tidyVersion w" "tidyConstraint c" "upperSlot hi"
  shows "optHolds w (pickHi hi c) \<longleftrightarrow> optHolds w hi \<and> (isUpperBound c \<longrightarrow> constraintHolds w c)"
    and "upperSlot (pickHi hi c)"
  using assms
  by (cases hi; auto simp: pickHi_def upperSlot_def optHolds_def constraintHolds_key
      version_order.cmp_iffs split: if_splits)+

lemma foldl_pickLo:
  assumes "tidyVersion w" "list_all tidyConstraint cs" "lowerSlot lo"
  shows "lowerSlot (foldl pickLo lo cs) \<and> (optHolds w (foldl pickLo lo cs) \<longleftrightarrow>
      optHolds w lo \<and> (\<forall>c \<in> set cs. isLowerBound c \<longrightarrow> constraintHolds w c))"
  using assms
  by (induction cs arbitrary: lo) (simp_all add: pickLo_holds conj_assoc)

lemma foldl_pickHi:
  assumes "tidyVersion w" "list_all tidyConstraint cs" "upperSlot hi"
  shows "upperSlot (foldl pickHi hi cs) \<and> (optHolds w (foldl pickHi hi cs) \<longleftrightarrow>
      optHolds w hi \<and> (\<forall>c \<in> set cs. isUpperBound c \<longrightarrow> constraintHolds w c))"
  using assms
  by (induction cs arbitrary: hi) (simp_all add: pickHi_holds conj_assoc)

text \<open>Bounds that meet inclusively say what a pin says.\<close>

lemma meet_is_pin:
  assumes "tidyVersion w" "tidyConstraint l" "tidyConstraint h" "cOp l = OpGTE" "cOp h = OpLTE"
    "CompareVersions (cVersion l) (cVersion h) = 0"
  shows "constraintHolds w \<lparr>cOp = OpEQ, cVersion = cVersion l\<rparr> \<longleftrightarrow>
    constraintHolds w l \<and> constraintHolds w h"
  using assms by (auto simp: constraintHolds_key version_order.cmp_iffs)

lemma simplify_no_pin:
  assumes w: "tidyVersion w" and tidy: "list_all tidyConstraint cs"
    and pins: "\<forall>c \<in> set cs. cOp c \<noteq> OpEQ"
  shows "list_all (constraintHolds w) (simplifyConstraints cs) \<longleftrightarrow> list_all (constraintHolds w) cs"
proof -
  let ?ns = "map normalizeConstraint cs"
  let ?lo = "foldl pickLo None ?ns" and ?hi = "foldl pickHi None ?ns"
  have nt: "list_all tidyConstraint ?ns"
    using tidy normalizeConstraint_holds(1) [OF w] by (auto simp: list_all_iff)
  have bound: "isLowerBound c \<or> isUpperBound c" if "c \<in> set ?ns" for c
    using that pins tidy normalizeConstraint_holds(3) [OF w]
    by (cases "cOp c") (auto simp: list_all_iff)
  have "list_all (constraintHolds w) cs \<longleftrightarrow> list_all (constraintHolds w) ?ns"
    using tidy normalizeConstraint_holds(2) [OF w] by (auto simp: list_all_iff)
  also have "\<dots> \<longleftrightarrow> optHolds w ?lo \<and> optHolds w ?hi"
  proof -
    have "optHolds w None" "lowerSlot None" "upperSlot None"
      by (simp_all add: optHolds_def lowerSlot_def upperSlot_def)
    then show ?thesis
      using foldl_pickLo [OF w nt, of None] foldl_pickHi [OF w nt, of None] bound
      unfolding list_all_iff by blast
  qed
  also have "\<dots> \<longleftrightarrow> list_all (constraintHolds w) (simplifyConstraints cs)"
  proof -
    have f: "filter (\<lambda>c. cOp c = OpEQ) cs = []" using pins by (simp add: filter_empty_conv)
    have slots: "lowerSlot ?lo" "upperSlot ?hi"
      using foldl_pickLo [OF w nt, of None] foldl_pickHi [OF w nt, of None]
      by (simp_all add: lowerSlot_def upperSlot_def)
    show ?thesis
    proof (cases ?lo; cases ?hi)
      fix l h
      assume "?lo = Some l" "?hi = Some h"
      then show ?thesis
        using slots meet_is_pin [OF w, of l h]
        by (simp add: simplifyConstraints_def Let_def f optHolds_def lowerSlot_def upperSlot_def)
    qed (simp_all add: simplifyConstraints_def Let_def f optHolds_def)
  qed
  finally show ?thesis by simp
qed

lemma simplify_pinned:
  assumes w: "tidyVersion w" and tidy: "list_all tidyConstraint cs"
    and ok: "checkConstraintsSatisfiable cs = None" and pin: "\<exists>c \<in> set cs. cOp c = OpEQ"
  shows "list_all (constraintHolds w) (simplifyConstraints cs) \<longleftrightarrow> list_all (constraintHolds w) cs"
proof -
  obtain c rest where f: "filter (\<lambda>c. cOp c = OpEQ) cs = c # rest"
    using pin by (cases "filter (\<lambda>c. cOp c = OpEQ) cs") (auto simp: filter_empty_conv)
  then have "c \<in> set (filter (\<lambda>c. cOp c = OpEQ) cs)" by simp
  then have c: "c \<in> set cs" "cOp c = OpEQ" by auto
  obtain u where u: "tidyVersion u" "list_all (constraintHolds u) cs"
    using check_satisfiable_iff [OF tidy] ok by blast
  have "version_key w = version_key u \<longleftrightarrow> constraintHolds w c"
    using u w c tidy by (auto simp: list_all_iff constraintHolds_key split: constraint_op.splits)
  then show ?thesis
    using same_key_holds [OF w u(1) _ tidy] u(2) f c
    by (auto simp: simplifyConstraints_def list_all_iff)
qed

section \<open>Canonical versions\<close>

lemma canonicalSegment_chars:
  assumes "allDigits s"
  shows "allDigits (canonicalSegment s)" "trimZeros (canonicalSegment s) = trimZeros s"
proof -
  have "set (trimZeros s) \<subseteq> set s" by (auto simp: trimZeros_def dest: set_dropWhileD)
  moreover have "trimZeros (trimZeros s) = trimZeros s"
    by (simp add: trimZeros_def)
  moreover have "allDigits ''0''" "trimZeros ''0'' = []" by code_simp+
  ultimately show "allDigits (canonicalSegment s)" "trimZeros (canonicalSegment s) = trimZeros s"
    using assms by (auto simp: canonicalSegment_def allDigits_def list_all_iff Let_def)
qed

lemma canonicalSegment_eq: "compareSegment a b = 0 \<longleftrightarrow> canonicalSegment a = canonicalSegment b"
proof (cases "allDigits a"; cases "allDigits b")
  assume "allDigits a" "allDigits b"
  then have "compareSegment a b = 0 \<longleftrightarrow> trimZeros a = trimZeros b"
    by (auto simp: compareSegment_def compareDigits_def compareStrings_def Let_def)
  also have "\<dots> \<longleftrightarrow> canonicalSegment a = canonicalSegment b"
    using \<open>allDigits a\<close> \<open>allDigits b\<close> canonicalSegment_chars(2)
    by (metis canonicalSegment_def)
  finally show ?thesis .
next
  assume "allDigits a" "\<not> allDigits b"
  then show ?thesis
    using canonicalSegment_chars(1) [of a] by (auto simp: compareSegment_def canonicalSegment_def [of b])
next
  assume "\<not> allDigits a" "allDigits b"
  then show ?thesis
    using canonicalSegment_chars(1) [of b] by (auto simp: compareSegment_def canonicalSegment_def [of a])
qed (auto simp: compareSegment_def canonicalSegment_def)

lemma compareSegments_eq:
  assumes "list_all (\<lambda>s. s \<noteq> []) as" "list_all (\<lambda>s. s \<noteq> []) bs"
  shows "compareSegments as bs = 0 \<longleftrightarrow> map canonicalSegment as = map canonicalSegment bs"
  using assms
proof (induction as bs rule: compareSegments.induct)
  case (4 a as b bs)
  then show ?case using canonicalSegment_eq [of a b] by (auto simp: Let_def)
qed (auto simp: Let_def compareSegment_def)

lemma canonicalVersion_split:
  assumes "versionPattern v"
  shows "split_on (CHR ''.'') (canonicalVersion v) = map canonicalSegment (splitVersion v)"
proof -
  have "CHR ''.'' \<notin> set (canonicalSegment s)" if "s \<in> set (splitVersion v)" for s
  proof -
    have "set (canonicalSegment s) \<subseteq> set s \<union> {CHR ''0''}"
      by (auto simp: canonicalSegment_def Let_def trimZeros_def dest: set_dropWhileD split: if_splits)
    then show ?thesis
      using split_on_parts [of s "CHR ''.''" v] that assms by (auto simp: split_version)
  qed
  then show ?thesis
    using assms unfolding canonicalVersion_def
    by (intro split_join) (auto simp: split_version)
qed

lemma canonicalVersion_eq:
  assumes "versionPattern a" "versionPattern b"
  shows "canonicalVersion a = canonicalVersion b \<longleftrightarrow> CompareVersions a b = 0"
proof -
  have "canonicalVersion a = canonicalVersion b \<longleftrightarrow>
      map canonicalSegment (splitVersion a) = map canonicalSegment (splitVersion b)"
    by (metis assms canonicalVersion_split split_on_inject)
  moreover have "list_all (\<lambda>s. s \<noteq> []) (splitVersion v)" if "versionPattern v" for v
    using versionPattern_segments [OF that] that by (auto simp: split_version list_all_iff)
  ultimately show ?thesis
    using assms by (simp add: CompareVersions_def compareSegments_eq)
qed

section \<open>The canonical rendering of a require\<close>

lemma foldl_pickLo_None:
  "foldl pickLo lo cs = None \<longleftrightarrow> lo = None \<and> (\<forall>c \<in> set cs. \<not> isLowerBound c)"
  by (induction cs arbitrary: lo) (auto simp: pickLo_def split: option.splits)

lemma foldl_pickHi_None:
  "foldl pickHi hi cs = None \<longleftrightarrow> hi = None \<and> (\<forall>c \<in> set cs. \<not> isUpperBound c)"
  by (induction cs arbitrary: hi) (auto simp: pickHi_def split: option.splits)

lemma simplify_tidy:
  assumes "list_all tidyConstraint cs"
  shows "list_all tidyConstraint (simplifyConstraints cs)"
    and "simplifyConstraints cs = [] \<longleftrightarrow> cs = []"
proof -
  let ?ns = "map normalizeConstraint cs"
  let ?lo = "foldl pickLo None ?ns" and ?hi = "foldl pickHi None ?ns"
  have nt: "list_all tidyConstraint ?ns"
    using assms normalizeConstraint_holds(1) [OF tidy_zero] by (auto simp: list_all_iff)
  have slots: "lowerSlot ?lo" "upperSlot ?hi"
    using foldl_pickLo [OF tidy_zero nt, of None] foldl_pickHi [OF tidy_zero nt, of None]
    by (simp_all add: lowerSlot_def upperSlot_def)
  have both: "list_all tidyConstraint (simplifyConstraints cs) \<and> (simplifyConstraints cs = [] \<longleftrightarrow> cs = [])"
  proof (cases "filter (\<lambda>c. cOp c = OpEQ) cs")
    case Nil
    have "cs = []" if "?lo = None" "?hi = None"
    proof (rule ccontr)
      assume "cs \<noteq> []"
      then obtain c where c: "c \<in> set cs" by (cases cs) auto
      then have "cOp (normalizeConstraint c) \<noteq> OpEQ"
        using Nil assms normalizeConstraint_holds(3) [OF tidy_zero, of c]
        by (auto simp: filter_empty_conv list_all_iff)
      then show False
        using that c by (cases "cOp (normalizeConstraint c)")
          (auto simp: foldl_pickLo_None foldl_pickHi_None)
    qed
    moreover have "?lo = None" "?hi = None" if "cs = []" using that by simp_all
    ultimately show ?thesis
      using slots Nil
      by (cases ?lo; cases ?hi)
        (auto simp: simplifyConstraints_def Let_def lowerSlot_def upperSlot_def)
  next
    case (Cons c rest)
    then have "c \<in> set (filter (\<lambda>c. cOp c = OpEQ) cs)" by simp
    then have "c \<in> set cs" by auto
    then show ?thesis using Cons assms by (auto simp: simplifyConstraints_def list_all_iff)
  qed
  then show "list_all tidyConstraint (simplifyConstraints cs)"
    and "simplifyConstraints cs = [] \<longleftrightarrow> cs = []" by blast+
qed

lemma canonicalVersion_head:
  assumes "versionPattern v"
  shows "canonicalVersion v \<noteq> [] \<and> isDigit (hd (canonicalVersion v))"
proof -
  obtain s ss where s: "splitVersion v = s # ss" "allDigits s"
    using assms by (auto simp: split_version versionPattern_def allDigits_def split: list.splits)
  have "canonicalSegment s \<noteq> [] \<and> isDigit (hd (canonicalSegment s))"
    using canonicalSegment_chars(1) [OF s(2)] by (cases "canonicalSegment s") (auto simp: allDigits_def)
  then show ?thesis
    using s by (cases "map canonicalSegment ss") (auto simp: canonicalVersion_def)
qed

lemma canonicalVersion_chars:
  assumes "versionPattern v"
  shows "list_all (\<lambda>c. segment_char c \<or> c = CHR ''.'') (canonicalVersion v)"
proof -
  have "c = CHR ''.'' \<or> (\<exists>s \<in> set (splitVersion v). c \<in> set s \<union> {CHR ''0''})"
    if "c \<in> set (canonicalVersion v)" for c
  proof -
    have "set (canonicalSegment s) \<subseteq> set s \<union> {CHR ''0''}" for s
      by (auto simp: canonicalSegment_def Let_def trimZeros_def dest: set_dropWhileD split: if_splits)
    then show ?thesis
      using that join_chars [of "''.''" "map canonicalSegment (splitVersion v)"]
      by (fastforce simp: canonicalVersion_def)
  qed
  moreover have "segment_char (CHR ''0'')" by code_simp
  ultimately show ?thesis
    using versionPattern_segments [OF assms] assms
    by (fastforce simp: list_all_iff split_version)
qed

definition renderConstraint :: "constraint \<Rightarrow> string" where
  "renderConstraint c = op_text (cOp c) @ canonicalVersion (cVersion c)"

lemma renderConstraint_inject:
  assumes "versionPattern (cVersion c)" "versionPattern (cVersion d)"
    and "renderConstraint c = renderConstraint d"
  shows "cOp c = cOp d" "canonicalVersion (cVersion c) = canonicalVersion (cVersion d)"
proof -
  have digit: "\<not> isDigit (CHR ''='')" by code_simp
  have no_eq: "CHR ''='' # xs \<noteq> canonicalVersion v" if "versionPattern v" for xs v
    using canonicalVersion_head [OF that] digit by (metis list.sel(1))
  have "cOp c = cOp d \<and> canonicalVersion (cVersion c) = canonicalVersion (cVersion d)"
    using assms(3) no_eq [OF assms(1)] no_eq [OF assms(2)]
    by (cases "cOp c"; cases "cOp d"; auto simp: renderConstraint_def; metis)
  then show "cOp c = cOp d" "canonicalVersion (cVersion c) = canonicalVersion (cVersion d)" by auto
qed

lemma render_no_separator:
  assumes "versionPattern (cVersion c)"
  shows "CHR '','' \<notin> set (renderConstraint c)" "renderConstraint c \<noteq> []"
proof -
  have "\<not> segment_char (CHR '','')" by code_simp
  then show "CHR '','' \<notin> set (renderConstraint c)" "renderConstraint c \<noteq> []"
    using canonicalVersion_chars [OF assms] canonicalVersion_head [OF assms]
    by (cases "cOp c"; auto simp: renderConstraint_def list_all_iff)+
qed

lemma join_inject:
  assumes "join [c] xs = join [c] ys" "\<And>x. x \<in> set xs \<union> set ys \<Longrightarrow> c \<notin> set x \<and> x \<noteq> []"
  shows "xs = ys"
proof (cases "xs = [] \<or> ys = []")
  case True
  have "join [c] zs \<noteq> []" if "zs \<noteq> []" "\<And>z. z \<in> set zs \<Longrightarrow> z \<noteq> []" for zs
    using that by (cases zs; cases "tl zs") (auto simp: join_Cons)
  then show ?thesis using True assms by (metis Un_iff join.simps(1))
next
  case False
  then show ?thesis using assms by (metis Un_iff split_join)
qed

lemma canonical_same_set:
  assumes "CanonicalRequire q = CanonicalRequire r"
    and "validCapabilityName (rName q)" "validCapabilityName (rName r)"
    and "list_all tidyConstraint (rConstraints q)" "list_all tidyConstraint (rConstraints r)"
  shows "rName q = rName r"
    and "renderConstraint ` set (simplifyConstraints (rConstraints q)) =
         renderConstraint ` set (simplifyConstraints (rConstraints r))"
proof -
  let ?f = "\<lambda>q. sort (map renderConstraint (simplifyConstraints (rConstraints q)))"
  have nospace: "CHR '' '' \<notin> set n" if "validCapabilityName n" for n
    using validCapabilityName_chars [OF that] name_char_not by (auto simp: list_all_iff)
  have split: "CanonicalRequire q = rName q @ CHR '' '' # join '','' (?f q)" for q
    by (simp add: CanonicalRequire_def Let_def renderConstraint_def [abs_def])
  from assms(1) have eq: "rName q @ CHR '' '' # join '','' (?f q) = rName r @ CHR '' '' # join '','' (?f r)"
    unfolding split .
  then show n: "rName q = rName r"
    using before_append [OF nospace [OF assms(2)]] before_append [OF nospace [OF assms(3)]] by metis
  with eq have "join '','' (?f q) = join '','' (?f r)" by simp
  moreover have "CHR '','' \<notin> set x \<and> x \<noteq> []" if "x \<in> set (?f q) \<union> set (?f r)" for x
    using that simplify_tidy(1) [OF assms(4)] simplify_tidy(1) [OF assms(5)] render_no_separator
    by (fastforce simp: list_all_iff tidyVersion_def)
  ultimately have "?f q = ?f r" by (rule join_inject)
  then have "set (?f q) = set (?f r)" by simp
  then show "renderConstraint ` set (simplifyConstraints (rConstraints q)) =
         renderConstraint ` set (simplifyConstraints (rConstraints r))" by simp
qed

lemma render_holds:
  assumes "tidyVersion w" "tidyConstraint c" "tidyConstraint d" "renderConstraint c = renderConstraint d"
  shows "constraintHolds w c \<longleftrightarrow> constraintHolds w d"
proof -
  have vp: "versionPattern (cVersion c)" "versionPattern (cVersion d)"
    using assms by (auto simp: tidyVersion_def)
  have "version_key (cVersion c) = version_key (cVersion d)"
    using renderConstraint_inject(2) [OF vp assms(4)] canonicalVersion_eq [OF vp]
      version_order.cmp_eq [OF assms(2,3)] by simp
  then show ?thesis
    using renderConstraint_inject(1) [OF vp assms(4)] assms(1-3)
    by (simp add: constraintHolds_key split: constraint_op.splits)
qed

lemma same_render_holds:
  assumes "tidyVersion w" "list_all tidyConstraint cs" "list_all tidyConstraint ds"
    and "renderConstraint ` set cs = renderConstraint ` set ds"
  shows "list_all (constraintHolds w) cs \<longleftrightarrow> list_all (constraintHolds w) ds"
proof -
  have half: "list_all (constraintHolds w) ys \<Longrightarrow> list_all (constraintHolds w) xs"
    if "list_all tidyConstraint xs" "list_all tidyConstraint ys"
      "renderConstraint ` set xs \<subseteq> renderConstraint ` set ys" for xs ys
  proof -
    assume ys: "list_all (constraintHolds w) ys"
    have "constraintHolds w x" if x: "x \<in> set xs" for x
    proof -
      obtain y where "y \<in> set ys" "renderConstraint x = renderConstraint y"
        using x \<open>renderConstraint ` set xs \<subseteq> renderConstraint ` set ys\<close> by blast
      then show ?thesis
        using render_holds [OF assms(1), of x y] x ys \<open>list_all tidyConstraint xs\<close>
          \<open>list_all tidyConstraint ys\<close> by (auto simp: list_all_iff)
    qed
    then show "list_all (constraintHolds w) xs" by (simp add: list_all_iff)
  qed
  show ?thesis using half [of cs ds] half [of ds cs] assms by blast
qed

end
