(* ===== verification/Entries.thy ===== *)
theory Entries
  imports Constraints
begin

text \<open>
  The version component's promises to its callers: what the parsers of \<open>provides\<close> and
  \<open>requires\<close> entries guarantee, when a parsed requirement can be met, when two requirements
  read the same, which tag is the latest, and what a package record publishes.
\<close>

section \<open>What parsing guarantees\<close>

lemma parseVersion_ok: "parseVersion v = Inr w \<Longrightarrow> versionPattern w \<and> w = trim_space v"
  by (auto simp: parseVersion_def Let_def split: if_splits)

lemma IsVersion_pattern: "versionPattern v \<Longrightarrow> IsVersion v"
  by (simp add: IsVersion_def parseVersion_def trim_version)

lemma parseConstraintsLoop_ok:
  assumes "parseConstraintsLoop s out = Inr cs" "list_all (\<lambda>c. versionPattern (cVersion c)) out"
  shows "list_all (\<lambda>c. versionPattern (cVersion c)) cs \<and> (s \<noteq> [] \<longrightarrow> cs \<noteq> [])"
  using assms
proof (induction s out arbitrary: cs rule: parseConstraintsLoop.induct)
  case (1 s out)
  show ?case
  proof (cases "s = []")
    case False
    then obtain op a v where
      op: "cutConstraintOp s = Inr (op, a)" and
      ne: "trim_space (before (CHR '','') a) \<noteq> []" and
      v: "parseVersion (trim_space (before (CHR '','') a)) = Inr v"
      using "1.prems"(1) by (subst (asm) parseConstraintsLoop.simps)
        (auto simp: Let_def split: sum.splits if_splits prod.splits)
    let ?out = "out @ [\<lparr>cOp = op, cVersion = v\<rparr>]"
    have out: "list_all (\<lambda>c. versionPattern (cVersion c)) ?out"
      using "1.prems"(2) parseVersion_ok [OF v, THEN conjunct1] by simp
    show ?thesis
    proof (cases "CHR '','' \<in> set a")
      case True
      then have rec: "parseConstraintsLoop (trim_space (after (CHR '','') a)) ?out = Inr cs"
        "trim_space (after (CHR '','') a) \<noteq> []"
        using "1.prems"(1) False op ne v
        by (simp_all add: parseConstraintsLoop.simps [of s out] Let_def split: if_splits)
      show ?thesis using "1.IH" [OF False op refl refl refl refl ne v refl] rec True out by simp
    qed (use "1.prems"(1) False op ne v out in
        \<open>auto simp: parseConstraintsLoop.simps [of s out] Let_def\<close>)
  qed (use 1 in \<open>simp add: parseConstraintsLoop.simps\<close>)
qed

lemma ParseRequire_ok:
  assumes "ParseRequire s = Inr r"
  shows "validCapabilityName (rName r)" "CHR ''/'' \<in> set (rName r)"
    "list_all (\<lambda>c. versionPattern (cVersion c)) (rConstraints r)"
    "checkConstraintsSatisfiable (rConstraints r) = None"
proof -
  obtain name rest where nr: "splitRequireName (trim_space s) = Inr (name, rest)"
    "capabilityNameError name = None"
    using assms by (auto simp: ParseRequire_def split: sum.splits option.splits)
  then have name: "rName r = NormalizeCapabilityName name"
    using assms by (auto simp: ParseRequire_def split: if_splits sum.splits)
  then show "validCapabilityName (rName r)" "CHR ''/'' \<in> set (rName r)"
    using nr validCapabilityName_normalize [of name] normalize_qualified
    by (auto simp: validCapabilityName_def)
  have "list_all (\<lambda>c. versionPattern (cVersion c)) (rConstraints r) \<and>
      checkConstraintsSatisfiable (rConstraints r) = None"
  proof (cases "rest = []")
    case True
    then have "rConstraints r = []" using assms nr by (auto simp: ParseRequire_def)
    then show ?thesis by (simp add: checkConstraintsSatisfiable_def)
  next
    case False
    then obtain cs where cs: "parseConstraints rest = Inr cs" "rConstraints r = cs"
      using assms nr by (auto simp: ParseRequire_def split: sum.splits)
    then have "parseConstraintsLoop rest [] = Inr cs" "checkConstraintsSatisfiable cs = None"
      by (auto simp: parseConstraints_def split: sum.splits if_splits option.splits)
    then show ?thesis using parseConstraintsLoop_ok [of rest "[]" cs] cs by simp
  qed
  then show "list_all (\<lambda>c. versionPattern (cVersion c)) (rConstraints r)"
    "checkConstraintsSatisfiable (rConstraints r) = None" by auto
qed

lemma ParseProvide_ok:
  assumes "ParseProvide s = Inr p"
  shows "validCapabilityName (pName p)" "CHR ''/'' \<in> set (pName p)"
    "pVersion p = [] \<or> IsVersion (pVersion p)"
proof -
  let ?n = "before (CHR ''@'') (trim_space s)"
  have "capabilityNameError ?n = None" "pName p = NormalizeCapabilityName ?n"
    using assms by (auto simp: ParseProvide_def cut_def split: option.splits sum.splits)
  then show "validCapabilityName (pName p)" "CHR ''/'' \<in> set (pName p)"
    using validCapabilityName_normalize [of ?n] normalize_qualified by (auto simp: validCapabilityName_def)
  show "pVersion p = [] \<or> IsVersion (pVersion p)"
  proof (cases "CHR ''@'' \<in> set (trim_space s)")
    case True
    then show ?thesis
      using assms by (auto simp: ParseProvide_def cut_def IsVersion_def split: option.splits sum.splits)
  next
    case False
    then show ?thesis using assms by (auto simp: ParseProvide_def cut_def split: option.splits sum.splits)
  qed
qed

lemma name_trim: "validCapabilityName n \<Longrightarrow> trim_space n = n"
  using validCapabilityName_chars [of n] name_char_visible
  by (intro trim_space_visible) (auto simp: list_all_iff)

lemma name_version_trim:
  assumes "validCapabilityName n" "versionPattern v"
  shows "trim_space (n @ CHR ''@'' # v) = n @ CHR ''@'' # v"
  using validCapabilityName_chars [OF assms(1)] name_char_visible versionPattern_chars [OF assms(2)]
  by (intro trim_space_visible) (auto simp: list_all_iff hd_append)

section \<open>Tags and package records\<close>

lemma TagVersion_Nil: "TagVersion [] = []"
  by code_simp

lemma latestLoop_max:
  assumes "\<forall>t \<in> set tags. TagVersion t = [] \<or> tidyVersion (TagVersion t)"
    and "bt = [] \<or> (bv = TagVersion bt \<and> tidyVersion bv)"
  shows "(latestLoop bt bv tags = [] \<longleftrightarrow> bt = [] \<and> (\<forall>t \<in> set tags. TagVersion t = [])) \<and>
    (latestLoop bt bv tags \<noteq> [] \<longrightarrow>
      latestLoop bt bv tags \<in> insert bt (set tags) \<and> tidyVersion (TagVersion (latestLoop bt bv tags)) \<and>
      (\<forall>u \<in> insert bt (set tags). TagVersion u \<noteq> [] \<longrightarrow>
        version_key (TagVersion u) \<le> version_key (TagVersion (latestLoop bt bv tags))))"
  using assms
proof (induction tags arbitrary: bt bv)
  case Nil
  then show ?case using TagVersion_Nil by auto
next
  case (Cons t tags)
  have ne: "t \<noteq> []" if "TagVersion t \<noteq> []" using that TagVersion_Nil by auto
  consider "TagVersion t = []"
    | "TagVersion t \<noteq> []" "bt = [] \<or> CompareVersions (TagVersion t) bv > 0"
    | "TagVersion t \<noteq> []" "bt \<noteq> []" "\<not> CompareVersions (TagVersion t) bv > 0"
    by blast
  then show ?case
  proof cases
    case 1
    then show ?thesis using Cons.IH [of bt bv] Cons.prems by auto
  next
    case 2
    then have v: "tidyVersion (TagVersion t)" using Cons.prems(1) by auto
    have old: "version_key (TagVersion bt) \<le> version_key (TagVersion t)" if "TagVersion bt \<noteq> []"
      using 2 Cons.prems(2) v that TagVersion_Nil by (auto simp: version_order.cmp_iffs)
    show ?thesis
      using 2 Cons.IH [of t "TagVersion t"] Cons.prems(1) v old ne [OF 2(1)] order.trans
      by (auto simp: Let_def)
  next
    case 3
    then have v: "tidyVersion (TagVersion t)" "bv = TagVersion bt" "tidyVersion bv"
      using Cons.prems by auto
    then have "version_key (TagVersion t) \<le> version_key (TagVersion bt)" "TagVersion bt \<noteq> []"
      using 3 versionPattern_chars(1) by (auto simp: version_order.cmp_iffs tidyVersion_def)
    then show ?thesis
      using 3 Cons.IH [of bt bv] Cons.prems v order.trans by (auto simp: Let_def)
  qed
qed

text \<open>What the two numeric identifiers have in common: a digit run the text starts with.\<close>

definition digit_reader :: "(string \<Rightarrow> string) \<Rightarrow> bool" where
  "digit_reader num \<longleftrightarrow> (\<forall>s. list_all isDigit (num s) \<and> has_prefix s (num s))"

lemma takeWhile_prefix: "has_prefix s (takeWhile P s)"
  by (metis has_prefix_append takeWhile_dropWhile_id)

lemma digit_readers: "digit_reader semverNum" "digit_reader numericNum"
proof -
  have "isDigit (CHR ''0'')" by code_simp
  then show "digit_reader semverNum" "digit_reader numericNum"
    using takeWhile_prefix
    by (auto simp: digit_reader_def semverNum_def numericNum_def list_all_iff has_prefix_def
        dest: set_takeWhileD split: list.splits)
qed

lemma dottedCore_shape:
  assumes "digit_reader num"
  shows "dottedCore num n s = [] \<or>
    (list_all allDigits (split_on (CHR ''.'') (dottedCore num n s)) \<and>
     length (split_on (CHR ''.'') (dottedCore num n s)) \<le> Suc n \<and> has_prefix s (dottedCore num n s))"
  using assms
proof (induction num n s rule: dottedCore.induct)
  case (1 num n s)
  let ?d = "num s" and ?r = "drop (length (num s)) s"
  have d: "list_all isDigit ?d" "s = ?d @ ?r"
    using "1.prems" by (auto simp: digit_reader_def has_prefix_iff) (metis append_eq_conv_conj)
  have "\<not> isDigit (CHR ''.'')" by code_simp
  then have nodot: "CHR ''.'' \<notin> set ?d" using d(1) by (auto simp: list_all_iff)
  show ?case
  proof (cases "?d = []")
    case False
    then have dd: "allDigits ?d" using d(1) by (simp add: allDigits_def)
    have pre: "has_prefix s ?d" using "1.prems" by (simp add: digit_reader_def)
    show ?thesis
    proof (cases "\<exists>m. n = Suc m \<and> ?r \<noteq> [] \<and> hd ?r = CHR ''.'' \<and> num (tl ?r) \<noteq> []")
      case True
      then obtain m where m: "n = Suc m" "?r \<noteq> []" "hd ?r = CHR ''.''" "num (tl ?r) \<noteq> []" by blast
      let ?rest = "dottedCore num m (tl ?r)"
      have eq: "dottedCore num n s = ?d @ CHR ''.'' # ?rest"
        unfolding m(1) using m False by (simp add: dottedCore.simps [of num "Suc m" s] Let_def)
      have "?rest \<noteq> []" using m(4) by (simp add: dottedCore.simps [of num m] Let_def split: nat.splits)
      then have IH: "list_all allDigits (split_on (CHR ''.'') ?rest)"
        "length (split_on (CHR ''.'') ?rest) \<le> Suc m" "has_prefix (tl ?r) ?rest"
        using "1.IH" [OF refl refl False m(1)] m "1.prems" by auto
      have "s = ?d @ CHR ''.'' # tl ?r" using d(2) m(2,3) by (metis list.collapse)
      then have "has_prefix s (?d @ CHR ''.'' # ?rest)"
        using IH(3) by (metis has_prefix_Cons has_prefix_append_iff)
      then show ?thesis
        unfolding eq using IH dd nodot m(1) by (simp add: split_on_append split_on_absent)
    next
      case no: False
      then have "dottedCore num n s = ?d"
        using False by (auto simp: dottedCore.simps [of num n s] Let_def split: nat.splits)
      then show ?thesis using dd nodot pre by (simp add: split_on_absent)
    qed
  qed (simp add: dottedCore.simps Let_def)
qed

lemma digits_version:
  assumes "list_all allDigits (split_on (CHR ''.'') v)"
  shows "tidyVersion v"
proof -
  have "segment_char c" if "isDigit c" for c using that by (simp add: segment_char_def)
  then show ?thesis
    using assms split_on_nonempty [of "CHR ''.''" v]
    by (cases "split_on (CHR ''.'') v")
      (auto simp: tidyVersion_def versionPattern_def allDigits_def tidySegment_def list_all_iff)
qed

section \<open>Properties\<close>

text \<open>A provides entry parses back to what it was written from: a valid name,
  bare or qualified, alone or followed by \<open>@\<close> and a version of the grammar, yields exactly
  its normalized name and that version.\<close>

theorem parse_provide_roundtrip:
  assumes "validCapabilityName n" "versionPattern v"
  shows "ParseProvide (n @ ''@'' @ v) = Inr \<lparr>pName = NormalizeCapabilityName n, pVersion = v\<rparr> \<and>
    ParseProvide n = Inr \<lparr>pName = NormalizeCapabilityName n, pVersion = []\<rparr>"
proof
  have at: "CHR ''@'' \<notin> set n"
    using validCapabilityName_chars [OF assms(1)] name_char_not by (auto simp: list_all_iff)
  then show "ParseProvide (n @ ''@'' @ v) = Inr \<lparr>pName = NormalizeCapabilityName n, pVersion = v\<rparr>"
    using assms name_version_trim [OF assms] trim_version [OF assms(2)]
    by (simp add: ParseProvide_def cut_def parseVersion_def validCapabilityName_def)
  show "ParseProvide n = Inr \<lparr>pName = NormalizeCapabilityName n, pVersion = []\<rparr>"
    using at assms(1) name_trim [OF assms(1)]
    by (simp add: ParseProvide_def cut_def validCapabilityName_def)
qed

theorem parse_provide_roundtrip_witness:
  "ParseProvide (''gh'' @ ''@'' @ ''2.1.0'') = Inr \<lparr>pName = ''com.docker.kit/gh'', pVersion = ''2.1.0''\<rparr>"
proof -
  have "validCapabilityName ''gh''" "versionPattern ''2.1.0''"
    "NormalizeCapabilityName ''gh'' = ''com.docker.kit/gh''" by code_simp+
  then show ?thesis using parse_provide_roundtrip [of "''gh''" "''2.1.0''"] by simp
qed

text \<open>The comparison of tidy versions is a total preorder: antisymmetric up to
  the sign, reflexive and transitive.\<close>

theorem compare_versions_preorder:
  assumes "tidyVersion a" "tidyVersion b" "tidyVersion c"
  shows "CompareVersions b a = - CompareVersions a b \<and> CompareVersions a a = 0 \<and>
    (CompareVersions a b \<le> 0 \<and> CompareVersions b c \<le> 0 \<longrightarrow> CompareVersions a c \<le> 0) \<and>
    (CompareVersions a b \<le> 0 \<and> CompareVersions b c < 0 \<longrightarrow> CompareVersions a c < 0)"
proof -
  have "CompareVersions b a = - CompareVersions a b"
    unfolding CompareVersions_def by (rule compareSegments_skew)
  then show ?thesis
    using assms version_order.cmp_trans [of a b c] version_order.cmp_trans_strict [of a b c]
      version_order.cmp_eq [of a a] by simp
qed

theorem compare_versions_preorder_witness:
  "CompareVersions ''1.0.9'' ''1.0.10'' \<le> 0 \<and> CompareVersions ''1.0.10'' ''1.0.rc1'' < 0 \<and>
    CompareVersions ''1.0.9'' ''1.0.rc1'' < 0"
proof -
  have "tidyVersion ''1.0.9''" "tidyVersion ''1.0.10''" "tidyVersion ''1.0.rc1''"
    "CompareVersions ''1.0.9'' ''1.0.10'' \<le> 0" "CompareVersions ''1.0.10'' ''1.0.rc1'' < 0"
    by code_simp+
  then show ?thesis
    using compare_versions_preorder [of "''1.0.9''" "''1.0.10''" "''1.0.rc1''"] by blast
qed


text \<open>\<open>nextVersion v\<close> is the immediate successor of \<open>v\<close> among the versions of
  the grammar, tidy or not: it lies above \<open>v\<close>, and a version is above \<open>v\<close> exactly when it
  is at or above the successor.\<close>

theorem next_version_successor:
  assumes "versionPattern v" "versionPattern w"
  shows "CompareVersions v (nextVersion v) < 0 \<and>
    (CompareVersions v w < 0 \<longleftrightarrow> CompareVersions (nextVersion v) w \<le> 0)"
proof -
  have "CompareVersions (nextVersion v) (nextVersion v) = 0"
    using compareSegments_skew [of "splitVersion (nextVersion v)" "splitVersion (nextVersion v)"]
    by (simp add: CompareVersions_def)
  then show ?thesis
    using next_least_above [OF assms] next_least_above [OF assms(1) versionPattern_next [OF assms(1)]]
    by simp
qed

theorem next_version_successor_witness:
  "CompareVersions ''1.0.0-rc1'' (nextVersion ''1.0.0-rc1'') < 0"
proof -
  have "versionPattern ''1.0.0-rc1''" by code_simp
  then show ?thesis using next_version_successor [of "''1.0.0-rc1''" "''1.0.0-rc1''"] by simp
qed

text \<open>Property C28. The satisfiability check on a constraint set over tidy versions is sound
  and complete: it accepts the set exactly when some tidy version meets every constraint.\<close>

theorem check_constraints_exact:
  assumes "list_all (\<lambda>c. tidyVersion (cVersion c)) cs"
  shows "checkConstraintsSatisfiable cs = None \<longleftrightarrow>
    (\<exists>w. tidyVersion w \<and> list_all (constraintHolds w) cs)"
  using assms by (rule check_satisfiable_iff)

theorem check_constraints_exact_witness:
  "\<not> (\<exists>w. tidyVersion w \<and> list_all (constraintHolds w)
       [\<lparr>cOp = OpGT, cVersion = ''0''\<rparr>, \<lparr>cOp = OpLT, cVersion = ''0.-''\<rparr>])"
proof -
  let ?cs = "[\<lparr>cOp = OpGT, cVersion = ''0''\<rparr>, \<lparr>cOp = OpLT, cVersion = ''0.-''\<rparr>]"
  have t: "list_all (\<lambda>c. tidyVersion (cVersion c)) ?cs" and n: "checkConstraintsSatisfiable ?cs \<noteq> None"
    by code_simp+
  from n show ?thesis unfolding check_constraints_exact [OF t] .
qed

text \<open>Off the tidy versions the check is not complete: it refuses the set
  \<open>>= 1.10, <= 1.9\<close>, though the version \<open>1.1a\<close> of the grammar meets both constraints.\<close>

theorem check_constraints_refuses_satisfiable:
  "versionPattern ''1.1a'' \<and>
   list_all (constraintHolds ''1.1a'')
     [\<lparr>cOp = OpGTE, cVersion = ''1.10''\<rparr>, \<lparr>cOp = OpLTE, cVersion = ''1.9''\<rparr>] \<and>
   checkConstraintsSatisfiable
     [\<lparr>cOp = OpGTE, cVersion = ''1.10''\<rparr>, \<lparr>cOp = OpLTE, cVersion = ''1.9''\<rparr>] \<noteq> None"
  by code_simp

text \<open>A requires entry that parses, over tidy versions, can always be met: some
  provides entry satisfies it. A kit cannot publish a requirement no version resolves.\<close>

theorem parsed_require_resolvable:
  assumes "ParseRequire s = Inr r" "list_all (\<lambda>c. tidyVersion (cVersion c)) (rConstraints r)"
  shows "\<exists>p. ParseProvide (pName p @ ''@'' @ pVersion p) = Inr p \<and> Satisfies p r"
proof -
  obtain w where w: "tidyVersion w" "list_all (constraintHolds w) (rConstraints r)"
    using check_satisfiable_iff [OF assms(2)] ParseRequire_ok(4) [OF assms(1)] by blast
  let ?p = "\<lparr>pName = rName r, pVersion = w\<rparr>"
  note ok = ParseRequire_ok [OF assms(1)]
  have vp: "versionPattern w" using w(1) by (simp add: tidyVersion_def)
  have "CHR ''@'' \<notin> set (rName r)"
    using validCapabilityName_chars [OF ok(1)] name_char_not by (auto simp: list_all_iff)
  then have "ParseProvide (pName ?p @ ''@'' @ pVersion ?p) = Inr ?p"
    using name_version_trim [OF ok(1) vp] trim_version [OF vp] vp ok(1,2)
    by (simp add: ParseProvide_def cut_def parseVersion_def validCapabilityName_def
        NormalizeCapabilityName_def)
  moreover have "Satisfies ?p r"
    using w versionPattern_chars(1) [OF vp] by (auto simp: Satisfies_def)
  ultimately show ?thesis by blast
qed

theorem parsed_require_resolvable_witness:
  "\<exists>p. ParseProvide (pName p @ ''@'' @ pVersion p) = Inr p \<and>
    Satisfies p \<lparr>rName = ''com.docker.kit/shell'',
      rConstraints = [\<lparr>cOp = OpGTE, cVersion = ''1.2''\<rparr>, \<lparr>cOp = OpLT, cVersion = ''2''\<rparr>]\<rparr>"
proof -
  let ?r = "\<lparr>rName = ''com.docker.kit/shell'',
      rConstraints = [\<lparr>cOp = OpGTE, cVersion = ''1.2''\<rparr>, \<lparr>cOp = OpLT, cVersion = ''2''\<rparr>]\<rparr>"
  have "ParseRequire ''shell >= 1.2, < 2'' = Inr ?r"
    "list_all (\<lambda>c. tidyVersion (cVersion c)) (rConstraints ?r)" by code_simp+
  then show ?thesis by (rule parsed_require_resolvable)
qed

text \<open>Simplifying a constraint set the parser accepted does not change which
  tidy versions it admits.\<close>

theorem simplify_preserves_meaning:
  assumes "tidyVersion w" "list_all (\<lambda>c. tidyVersion (cVersion c)) cs"
    and "checkConstraintsSatisfiable cs = None"
  shows "list_all (constraintHolds w) (simplifyConstraints cs) \<longleftrightarrow> list_all (constraintHolds w) cs"
  using simplify_no_pin [OF assms(1,2)] simplify_pinned [OF assms] by blast

theorem simplify_preserves_meaning_witness:
  "list_all (constraintHolds ''1.5'')
     (simplifyConstraints [\<lparr>cOp = OpGT, cVersion = ''1.0''\<rparr>, \<lparr>cOp = OpGTE, cVersion = ''1.2''\<rparr>,
        \<lparr>cOp = OpLT, cVersion = ''2.0''\<rparr>])"
proof -
  let ?cs = "[\<lparr>cOp = OpGT, cVersion = ''1.0''\<rparr>, \<lparr>cOp = OpGTE, cVersion = ''1.2''\<rparr>,
        \<lparr>cOp = OpLT, cVersion = ''2.0''\<rparr>]"
  have "tidyVersion ''1.5''" "list_all (\<lambda>c. tidyVersion (cVersion c)) ?cs"
    "checkConstraintsSatisfiable ?cs = None" "list_all (constraintHolds ''1.5'') ?cs"
    by code_simp+
  then show ?thesis using simplify_preserves_meaning [of "''1.5''" ?cs] by blast
qed

text \<open>Two versions of the grammar have the same canonical spelling exactly when
  the comparison calls them equal.\<close>

theorem canonical_version_exact:
  assumes "versionPattern a" "versionPattern b"
  shows "canonicalVersion a = canonicalVersion b \<longleftrightarrow> CompareVersions a b = 0"
  using assms by (rule canonicalVersion_eq)

theorem canonical_version_exact_witness:
  "canonicalVersion ''01.007'' = canonicalVersion ''1.7'' \<and> CompareVersions ''01.007'' ''1.7'' = 0"
proof -
  have "versionPattern ''01.007''" "versionPattern ''1.7''" "CompareVersions ''01.007'' ''1.7'' = 0"
    by code_simp+
  then show ?thesis using canonical_version_exact [of "''01.007''" "''1.7''"] by blast
qed

text \<open>Parsed requirements that render to one canonical text are one relation:
  every provide, unversioned or at a tidy version, satisfies both or neither.\<close>

theorem canonical_require_sound:
  assumes "ParseRequire s = Inr q" "ParseRequire t = Inr r"
    and "list_all (\<lambda>c. tidyVersion (cVersion c)) (rConstraints q)"
    and "list_all (\<lambda>c. tidyVersion (cVersion c)) (rConstraints r)"
    and "CanonicalRequire q = CanonicalRequire r" "pVersion p = [] \<or> tidyVersion (pVersion p)"
  shows "Satisfies p q \<longleftrightarrow> Satisfies p r"
proof -
  note q = ParseRequire_ok [OF assms(1)] and r = ParseRequire_ok [OF assms(2)]
  note same = canonical_same_set [OF assms(5) q(1) r(1) assms(3,4)]
  have empty: "rConstraints q = [] \<longleftrightarrow> rConstraints r = []"
    using simplify_tidy(2) [OF assms(3)] simplify_tidy(2) [OF assms(4)] same(2)
    by (metis image_is_empty set_empty)
  have "list_all (constraintHolds (pVersion p)) (rConstraints q) \<longleftrightarrow>
      list_all (constraintHolds (pVersion p)) (rConstraints r)" if "tidyVersion (pVersion p)"
    using same_render_holds [OF that simplify_tidy(1) [OF assms(3)] simplify_tidy(1) [OF assms(4)] same(2)]
      simplify_no_pin [OF that assms(3)] simplify_pinned [OF that assms(3) q(4)]
      simplify_no_pin [OF that assms(4)] simplify_pinned [OF that assms(4) r(4)] by blast
  then show ?thesis
    using assms(6) same(1) empty by (auto simp: Satisfies_def)
qed

theorem canonical_require_sound_witness:
  "Satisfies \<lparr>pName = ''com.docker.kit/shell'', pVersion = ''1.5''\<rparr>
     \<lparr>rName = ''com.docker.kit/shell'', rConstraints = [\<lparr>cOp = OpGTE, cVersion = ''1.0''\<rparr>]\<rparr>"
proof -
  let ?q = "\<lparr>rName = ''com.docker.kit/shell'', rConstraints = [\<lparr>cOp = OpGTE, cVersion = ''1.0''\<rparr>]\<rparr>"
  let ?r = "\<lparr>rName = ''com.docker.kit/shell'', rConstraints = [\<lparr>cOp = OpGTE, cVersion = ''01.0''\<rparr>]\<rparr>"
  let ?p = "\<lparr>pName = ''com.docker.kit/shell'', pVersion = ''1.5''\<rparr>"
  have "ParseRequire ''shell>=1.0'' = Inr ?q" "ParseRequire ''com.docker.kit/shell >= 01.0'' = Inr ?r"
    "list_all (\<lambda>c. tidyVersion (cVersion c)) (rConstraints ?q)"
    "list_all (\<lambda>c. tidyVersion (cVersion c)) (rConstraints ?r)"
    "CanonicalRequire ?q = CanonicalRequire ?r" "pVersion ?p = [] \<or> tidyVersion (pVersion ?p)"
    "Satisfies ?p ?r" by code_simp+
  then show ?thesis using canonical_require_sound [of "''shell>=1.0''" ?q _ ?r ?p] by blast
qed

text \<open>The converse of C10 fails: the floor \<open>>= 0\<close> constrains no tidy version,
  yet writing it changes the canonical text of an entry that otherwise says the same.\<close>

theorem canonical_require_not_complete:
  "ParseRequire ''shell >= 0, < 1'' = Inr \<lparr>rName = ''com.docker.kit/shell'',
      rConstraints = [\<lparr>cOp = OpGTE, cVersion = ''0''\<rparr>, \<lparr>cOp = OpLT, cVersion = ''1''\<rparr>]\<rparr> \<and>
   ParseRequire ''shell < 1'' = Inr \<lparr>rName = ''com.docker.kit/shell'',
      rConstraints = [\<lparr>cOp = OpLT, cVersion = ''1''\<rparr>]\<rparr> \<and>
   {w. tidyVersion w \<and> constraintHolds w \<lparr>cOp = OpGTE, cVersion = ''0''\<rparr>} = {w. tidyVersion w} \<and>
   CanonicalRequire \<lparr>rName = ''com.docker.kit/shell'',
      rConstraints = [\<lparr>cOp = OpGTE, cVersion = ''0''\<rparr>, \<lparr>cOp = OpLT, cVersion = ''1''\<rparr>]\<rparr> \<noteq>
   CanonicalRequire \<lparr>rName = ''com.docker.kit/shell'',
      rConstraints = [\<lparr>cOp = OpLT, cVersion = ''1''\<rparr>]\<rparr>"
proof (intro conjI)
  show "{w. tidyVersion w \<and> constraintHolds w \<lparr>cOp = OpGTE, cVersion = ''0''\<rparr>} = {w. tidyVersion w}"
    using zero_least tidy_zero by (auto simp: constraintHolds_key)
qed code_simp+

text \<open>Where every version-shaped tag is tidy, \<open>LatestVersion\<close> returns a tag of
  the list that no other version-shaped tag exceeds, and the empty string exactly when no
  tag is version-shaped.\<close>

theorem latest_version_maximal:
  assumes "\<forall>t \<in> set tags. TagVersion t = [] \<or> tidyVersion (TagVersion t)"
  shows "if \<forall>t \<in> set tags. TagVersion t = [] then LatestVersion tags = []
    else LatestVersion tags \<in> set tags \<and> TagVersion (LatestVersion tags) \<noteq> [] \<and>
      (\<forall>t \<in> set tags. TagVersion t \<noteq> [] \<longrightarrow>
        CompareVersions (TagVersion t) (TagVersion (LatestVersion tags)) \<le> 0)"
proof -
  let ?L = "LatestVersion tags"
  note max = latestLoop_max [OF assms, of "[]" "[]", folded LatestVersion_def, simplified]
  show ?thesis
  proof (cases "?L = []")
    case True
    then show ?thesis using max by simp
  next
    case False
    then have L: "?L \<in> set tags" "tidyVersion (TagVersion ?L)" using max by auto
    have "CompareVersions (TagVersion t) (TagVersion ?L) \<le> 0" if "t \<in> set tags" "TagVersion t \<noteq> []" for t
    proof -
      have "tidyVersion (TagVersion t)" using that assms by auto
      then show ?thesis using max False that L(2) by (simp add: version_order.cmp_le)
    qed
    moreover have "TagVersion ?L \<noteq> []"
      using L(2) versionPattern_chars(1) by (auto simp: tidyVersion_def)
    ultimately show ?thesis using L(1) by auto
  qed
qed

theorem latest_version_maximal_witness:
  "LatestVersion [''latest'', ''v1.2'', ''1.10'', ''1.9''] \<in> set [''latest'', ''v1.2'', ''1.10'', ''1.9''] \<and>
    LatestVersion [''latest'', ''v1.2'', ''1.10'', ''1.9''] = ''1.10''"
proof -
  let ?ts = "[''latest'', ''v1.2'', ''1.10'', ''1.9'']"
  have t: "\<forall>t \<in> set ?ts. TagVersion t = [] \<or> tidyVersion (TagVersion t)" by code_simp
  have n: "\<not> (\<forall>t \<in> set ?ts. TagVersion t = [])" "LatestVersion ?ts = ''1.10''" by code_simp+
  from latest_version_maximal [OF t] n show ?thesis by (simp only: if_False simp_thms)
qed

text \<open>The version a package record is published at is empty, or a plain
  numeric version of at most three parts with which the record, less its epoch, begins.\<close>

theorem package_version_numeric_core:
  "PackageVersion raw = [] \<or>
    (tidyVersion (PackageVersion raw) \<and> list_all allDigits (split_on (CHR ''.'') (PackageVersion raw)) \<and>
     length (split_on (CHR ''.'') (PackageVersion raw)) \<le> 3 \<and>
     has_prefix (stripEpoch (trim_space raw)) (PackageVersion raw))"
  using dottedCore_shape [OF digit_readers(1), of 2 "stripEpoch (trim_space raw)"]
    dottedCore_shape [OF digit_readers(2), of 2 "stripEpoch (trim_space raw)"] digits_version
  by (auto simp: PackageVersion_def Let_def split: if_splits)

end
