(* ===== verification/Json.thy ===== *)
theory Json
  imports Names
begin

text \<open>
  JSON as the code uses it: the untyped values a capability's config carries, the text
  \<open>encoding/json\<close> marshals them to, and the strict decoding of a value into a typed struct
  (\<open>DisallowUnknownFields\<close>). A decoder takes the value already held, as Go's decoder
  does, because \<open>null\<close> leaves a non-pointer field as it was. A slice, a pointer or a map that
  may be nil, where the code tells nil from empty, is an \<open>option\<close>.
\<close>

section \<open>Values\<close>

text \<open>\<open>JNum\<close> carries the literal \<open>json.Marshal\<close> writes for the number. \<open>JUnencodable\<close>
  stands for a Go value it refuses: YAML admits NaN, infinities and maps with keys that
  are not strings. An object is an association list with distinct keys.\<close>

datatype json =
    JNull
  | JBool bool
  | JNum string
  | JStr string
  | JArr "json list"
  | JObj "(string \<times> json) list"
  | JUnencodable

type_synonym config = "(string \<times> json) list"

section \<open>Marshalling\<close>

definition hexDigit :: "nat \<Rightarrow> char" where
  "hexDigit n = (if n < 10 then char_of (48 + n) else char_of (87 + n))"

text \<open>The escapes of \<open>json.Marshal\<close> with HTML escaping on, byte by byte over valid UTF-8.\<close>

definition escapeByte :: "char \<Rightarrow> string" where
  "escapeByte c =
     (let n = of_char c :: nat in
      if c = CHR 0x22 then [CHR 0x5C, CHR 0x22]
      else if c = CHR 0x5C then [CHR 0x5C, CHR 0x5C]
      else if n = 8 then [CHR 0x5C, CHR ''b'']
      else if n = 12 then [CHR 0x5C, CHR ''f'']
      else if n = 10 then [CHR 0x5C, CHR ''n'']
      else if n = 13 then [CHR 0x5C, CHR ''r'']
      else if n = 9 then [CHR 0x5C, CHR ''t'']
      else if n < 32 \<or> c = CHR ''<'' \<or> c = CHR ''>'' \<or> c = CHR ''&''
      then [CHR 0x5C, CHR ''u'', CHR ''0'', CHR ''0'', hexDigit (n div 16), hexDigit (n mod 16)]
      else [c])"

fun escapeString :: "string \<Rightarrow> string" where
  "escapeString (a # b # c # s) =
     (if a = CHR 0xE2 \<and> b = CHR 0x80 \<and> c = CHR 0xA8 then CHR 0x5C # ''u2028'' @ escapeString s
      else if a = CHR 0xE2 \<and> b = CHR 0x80 \<and> c = CHR 0xA9 then CHR 0x5C # ''u2029'' @ escapeString s
      else escapeByte a @ escapeString (b # c # s))"
| "escapeString s = concat (map escapeByte s)"

definition quoteString :: "string \<Rightarrow> string" where
  "quoteString s = [CHR 0x22] @ escapeString s @ [CHR 0x22]"

text \<open>Map keys are written in sorted order.\<close>

fun marshal :: "json \<Rightarrow> string option" where
  "marshal JNull = Some ''null''"
| "marshal (JBool b) = Some (if b then ''true'' else ''false'')"
| "marshal (JNum n) = Some n"
| "marshal (JStr s) = Some (quoteString s)"
| "marshal (JArr xs) =
     map_option (\<lambda>ts. ''['' @ join '','' ts @ '']'') (those (map marshal xs))"
| "marshal (JObj kvs) =
     map_option (\<lambda>ts. ''{'' @ join '','' (map snd (sort_key fst ts)) @ ''}'')
       (those (map (\<lambda>(k, v). map_option (\<lambda>t. (k, quoteString k @ '':'' @ t)) (marshal v)) kvs))"
| "marshal JUnencodable = None"

section \<open>Decoding into structs\<close>

type_synonym 'a decoder = "'a \<Rightarrow> json \<Rightarrow> 'a option"

definition dStr :: "string decoder" where
  "dStr old j = (case j of JStr s \<Rightarrow> Some s | JNull \<Rightarrow> Some old | _ \<Rightarrow> None)"

definition dBool :: "bool decoder" where
  "dBool old j = (case j of JBool b \<Rightarrow> Some b | JNull \<Rightarrow> Some old | _ \<Rightarrow> None)"

text \<open>A number into a float field keeps its literal; into an int field it has to be an
  integer literal within 64 bits.\<close>

definition dFloat :: "string decoder" where
  "dFloat old j = (case j of JNum n \<Rightarrow> Some n | JNull \<Rightarrow> Some old | _ \<Rightarrow> None)"

definition digitValue :: "char \<Rightarrow> int" where
  "digitValue c = of_char c - 48"

definition digitsValue :: "string \<Rightarrow> int" where
  "digitsValue s = foldl (\<lambda>a c. 10 * a + digitValue c) 0 s"

definition parseInt64 :: "string \<Rightarrow> int option" where
  "parseInt64 s =
     (let neg = (s \<noteq> [] \<and> hd s = CHR ''-'');
          ds = (if neg then tl s else s);
          v = (if neg then - digitsValue ds else digitsValue ds) in
      if ds \<noteq> [] \<and> list_all isDigit ds \<and> - (2 ^ 63) \<le> v \<and> v < 2 ^ 63 then Some v else None)"

definition dInt :: "int decoder" where
  "dInt old j = (case j of JNum n \<Rightarrow> parseInt64 n | JNull \<Rightarrow> Some old | _ \<Rightarrow> None)"

definition dSlice :: "'a decoder \<Rightarrow> 'a \<Rightarrow> 'a list decoder" where
  "dSlice d zero old j =
     (case j of JArr xs \<Rightarrow> those (map (d zero) xs) | JNull \<Rightarrow> Some [] | _ \<Rightarrow> None)"

definition dSliceNil :: "'a decoder \<Rightarrow> 'a \<Rightarrow> 'a list option decoder" where
  "dSliceNil d zero old j =
     (case j of
        JArr xs \<Rightarrow> map_option Some (those (map (d zero) xs))
      | JNull \<Rightarrow> Some None
      | _ \<Rightarrow> None)"

definition dPtr :: "'a decoder \<Rightarrow> 'a \<Rightarrow> 'a option decoder" where
  "dPtr d zero old j =
     (if j = JNull then Some None
      else map_option Some (d (case old of None \<Rightarrow> zero | Some x \<Rightarrow> x) j))"

definition dAnyMap :: "config option decoder" where
  "dAnyMap old j =
     (case j of
        JObj kvs \<Rightarrow>
          Some (Some ((case old of None \<Rightarrow> [] | Some m \<Rightarrow> filter (\<lambda>(k, _). k \<notin> fst ` set kvs) m) @ kvs))
      | JNull \<Rightarrow> Some None
      | _ \<Rightarrow> None)"

text \<open>A key names a field exactly, or failing that up to case. \<open>encoding/json\<close> folds
  with Unicode's simple folding: beside ASCII letters, U+017F folds to S and U+212A to K.\<close>

definition upperByte :: "char \<Rightarrow> char" where
  "upperByte c = (if CHR ''a'' \<le> c \<and> c \<le> CHR ''z'' then char_of (of_char c - 32 :: nat) else c)"

fun foldName :: "string \<Rightarrow> string" where
  "foldName [] = []"
| "foldName (a # s) =
     (case s of
        b # s1 \<Rightarrow>
          if a = CHR 0xC5 \<and> b = CHR 0xBF then CHR ''S'' # foldName s1
          else (case s1 of
                  c # s2 \<Rightarrow>
                    if a = CHR 0xE2 \<and> b = CHR 0x84 \<and> c = CHR 0xAA then CHR ''K'' # foldName s2
                    else upperByte a # foldName s
                | [] \<Rightarrow> upperByte a # foldName s)
      | [] \<Rightarrow> upperByte a # foldName s)"

type_synonym 'r field = "string \<times> ('r \<Rightarrow> json \<Rightarrow> 'r option)"

definition fld :: "('r \<Rightarrow> 'a) \<Rightarrow> (('a \<Rightarrow> 'a) \<Rightarrow> 'r \<Rightarrow> 'r) \<Rightarrow> 'a decoder \<Rightarrow> 'r \<Rightarrow> json \<Rightarrow> 'r option" where
  "fld get upd d r j = map_option (\<lambda>x. upd (\<lambda>_. x) r) (d (get r) j)"

definition fieldNamed :: "'r field list \<Rightarrow> string \<Rightarrow> ('r \<Rightarrow> json \<Rightarrow> 'r option) option" where
  "fieldNamed fs key =
     (case map_of fs key of
        Some f \<Rightarrow> Some f
      | None \<Rightarrow>
          (case filter (\<lambda>(n, _). foldName n = foldName key) fs of
             [] \<Rightarrow> None
           | (_, f) # _ \<Rightarrow> Some f))"

fun decodeFields :: "'r field list \<Rightarrow> 'r \<Rightarrow> config \<Rightarrow> 'r option" where
  "decodeFields fs r [] = Some r"
| "decodeFields fs r ((k, v) # kvs) =
     (case fieldNamed fs k of
        None \<Rightarrow> None
      | Some f \<Rightarrow> (case f r v of None \<Rightarrow> None | Some r' \<Rightarrow> decodeFields fs r' kvs))"

definition dStruct :: "'r field list \<Rightarrow> 'r decoder" where
  "dStruct fs old j =
     (case j of
        JObj kvs \<Rightarrow> decodeFields fs old (sort_key fst kvs)
      | JNull \<Rightarrow> Some old
      | _ \<Rightarrow> None)"

section \<open>Encoding structs\<close>

text \<open>A field of an encoded struct: kept, or dropped by \<open>omitempty\<close>.\<close>

type_synonym ofield = "(string \<times> json) option"

definition keep :: "string \<Rightarrow> json \<Rightarrow> ofield" where
  "keep k v = Some (k, v)"

definition omit_if :: "bool \<Rightarrow> string \<Rightarrow> json \<Rightarrow> ofield" where
  "omit_if zero k v = (if zero then None else Some (k, v))"

definition eStruct :: "ofield list \<Rightarrow> json" where
  "eStruct fs = JObj (List.map_filter (\<lambda>x. x) fs)"

definition eStrs :: "string list \<Rightarrow> json" where
  "eStrs xs = JArr (map JStr xs)"

section \<open>Lemmas\<close>

lemma those_map_Some [simp]: "those (map Some xs) = Some xs"
  by (induction xs) auto

lemma those_map_roundtrip: "(\<And>x. x \<in> set xs \<Longrightarrow> d (e x) = Some x) \<Longrightarrow> those (map d (map e xs)) = Some xs"
  by (induction xs) auto

lemma dSlice_strs [simp]: "dSlice dStr z old (eStrs xs) = Some xs"
  by (simp add: dSlice_def eStrs_def dStr_def o_def)

lemma dSliceNil_strs [simp]: "dSliceNil dStr z old (eStrs xs) = Some (Some xs)"
  by (simp add: dSliceNil_def eStrs_def dStr_def o_def)

end
