(* ===== verification/Types.thy ===== *)
theory Types
  imports Json Versions
begin

text \<open>
  The data model (\<open>spec/types.go\<close>, \<open>spec/agent_skill.go\<close>, the types of
  \<open>spec/groups.go\<close>): the descriptor with its capability entries and groups, and the typed
  configs of the well-known capability types, each with the strict decoder that its JSON
  tags and custom unmarshalers give it and, where the code renders one back, its encoder.
\<close>

section \<open>Capability types and kinds\<close>

definition CapabilityNetworkPolicy :: string where
  "CapabilityNetworkPolicy = ''com.docker.sandbox/network-policy@1''"

definition CapabilityNetworkPolicyV2 :: string where
  "CapabilityNetworkPolicyV2 = ''com.docker.sandbox/network-policy@2''"

definition CapabilityGitIdentity :: string where
  "CapabilityGitIdentity = ''com.docker.sandbox/git-identity@1''"

definition CapabilityCredential :: string where
  "CapabilityCredential = ''com.docker.sandbox/credential@1''"

definition CapabilitySSHAgent :: string where
  "CapabilitySSHAgent = ''com.docker.sandbox/ssh-agent@1''"

definition CapabilityVolume :: string where
  "CapabilityVolume = ''com.docker.sandbox/volume@1''"

definition CapabilityPort :: string where
  "CapabilityPort = ''com.docker.sandbox/port@1''"

definition CapabilityAgentSkills :: string where
  "CapabilityAgentSkills = ''com.docker.sandbox/agent-skills@1''"

definition CapabilityAgentSkill :: string where
  "CapabilityAgentSkill = ''com.docker.sandbox/agent-skill@1''"

definition CapabilityUSBDevice :: string where
  "CapabilityUSBDevice = ''com.docker.sandbox/usb-device@1''"

definition CapabilityResources :: string where
  "CapabilityResources = ''com.docker.sandbox/resources@1''"

definition CapabilityPrivileged :: string where
  "CapabilityPrivileged = ''com.docker.sandbox/privileged@1''"

definition CapabilityLifecycle :: string where
  "CapabilityLifecycle = ''com.docker.sandbox/lifecycle@1''"

definition CapabilityAgentContext :: string where
  "CapabilityAgentContext = ''com.docker.sandbox/agent-context@1''"

definition CapabilityAgentSessions :: string where
  "CapabilityAgentSessions = ''com.docker.sandbox/agent-sessions@1''"

definition CapabilitySbx :: string where
  "CapabilitySbx = ''com.docker.sandbox/sbx@1''"

definition CapabilityLongRunning :: string where
  "CapabilityLongRunning = ''com.docker.sandbox/long-running@1''"

definition CapabilityKitRegistry :: string where
  "CapabilityKitRegistry = ''com.docker.sandbox/kit-registry@1''"

lemmas capability_type_defs [go_eval] =
  CapabilityNetworkPolicy_def
  CapabilityNetworkPolicyV2_def
  CapabilityGitIdentity_def
  CapabilityCredential_def
  CapabilitySSHAgent_def
  CapabilityVolume_def
  CapabilityPort_def
  CapabilityAgentSkills_def
  CapabilityAgentSkill_def
  CapabilityUSBDevice_def
  CapabilityResources_def
  CapabilityPrivileged_def
  CapabilityLifecycle_def
  CapabilityAgentContext_def
  CapabilityAgentSessions_def
  CapabilitySbx_def
  CapabilityLongRunning_def
  CapabilityKitRegistry_def

definition KindWorkload :: string where
  "KindWorkload = ''workload''"

definition KindMixin :: string where
  "KindMixin = ''mixin''"

definition KindSet :: string where
  "KindSet = ''set''"

definition MethodAny :: string where
  "MethodAny = ''ANY''"

lemma kinds_distinct [simp]:
  "KindWorkload \<noteq> KindMixin" "KindMixin \<noteq> KindWorkload" "KindWorkload \<noteq> KindSet"
  "KindSet \<noteq> KindWorkload" "KindMixin \<noteq> KindSet" "KindSet \<noteq> KindMixin"
  by (simp_all add: KindWorkload_def KindMixin_def KindSet_def)

section \<open>Entries, groups and descriptors\<close>

record capability_source =
  srcKit :: string
  srcPath :: string

text \<open>An entry of the capability list: an ordinary request, or a group of them.\<close>

datatype capability = Capability
    (capGroup: "capability_group option")
    (capSource: "capability_source option")
    (optionalSet: bool)
    (groupSet: bool)
    (capType: string)
    (capName: string)
    (capOptional: bool)
    (capConfig: "config option")
    (configSet: bool)
    (capDescription: string)
  and capability_group = CapabilityGroup
    (groupName: string)
    (groupDescription: string)
    (groupOptional: bool)
    (groupCapabilities: "capability list")

text \<open>Assignments to one field of an entry.\<close>

fun withSource :: "capability_source option \<Rightarrow> capability \<Rightarrow> capability" where
  "withSource s (Capability g _ os gs t n opt cfg cs d) = Capability g s os gs t n opt cfg cs d"

fun withOptional :: "bool \<Rightarrow> capability \<Rightarrow> capability" where
  "withOptional b (Capability g s os gs t n _ cfg cs d) = Capability g s os gs t n b cfg cs d"

fun withName :: "string \<Rightarrow> capability \<Rightarrow> capability" where
  "withName m (Capability g s os gs t _ opt cfg cs d) = Capability g s os gs t m opt cfg cs d"

fun withConfig :: "config option \<Rightarrow> capability \<Rightarrow> capability" where
  "withConfig c (Capability g s os gs t n opt _ cs d) = Capability g s os gs t n opt c cs d"

fun withGroup :: "capability_group option \<Rightarrow> capability \<Rightarrow> capability" where
  "withGroup g (Capability _ s os gs t n opt cfg cs d) = Capability g s os gs t n opt cfg cs d"

fun withOptionalSet :: "bool \<Rightarrow> capability \<Rightarrow> capability" where
  "withOptionalSet b (Capability g s _ gs t n opt cfg cs d) = Capability g s b gs t n opt cfg cs d"

text \<open>The entry a composite literal with only a type, or a group, leaves behind.\<close>

definition emptyCapability :: capability where
  "emptyCapability = Capability None None False False [] [] False None False []"

definition ordinary :: "string \<Rightarrow> config option \<Rightarrow> capability" where
  "ordinary t c = Capability None None False False t [] False c False []"

definition ConfigStated :: "capability \<Rightarrow> bool" where
  "ConfigStated c \<longleftrightarrow> configSet c \<or> capConfig c \<noteq> None"

record arg =
  argDefault :: "string option"
  argRequired :: bool
  argDescription :: string
  argEnum :: "string list"
  argPattern :: string
  argEnv :: string
  argBuildArg :: string

record kit =
  kitRef :: string
  kitDigest :: string
  kitArgs :: "(string \<times> string) list"

record descriptor =
  declarationsOnly :: bool
  SchemaVersionOf :: string
  DisplayName :: string
  Author :: string
  Description :: string
  SourceURL :: string
  IconURL :: string
  VersionOf :: string
  Licenses :: "string list"
  Kind :: string
  Provides :: "string list"
  Requires :: "string list"
  Integrates :: "string list"
  Conflicts :: "string list"
  Capabilities :: "capability list"
  Args :: "(string \<times> arg) list"
  Build :: string
  Kits :: "kit list"
  DockerfileOf :: string

definition SchemaVersion :: string where
  "SchemaVersion = ''3''"

definition emptyDescriptor :: descriptor where
  "emptyDescriptor =
     \<lparr>declarationsOnly = False, SchemaVersionOf = [], DisplayName = [], Author = [], Description = [],
      SourceURL = [], IconURL = [], VersionOf = [], Licenses = [], Kind = [], Provides = [], Requires = [],
      Integrates = [], Conflicts = [], Capabilities = [], Args = [], Build = [], Kits = [],
      DockerfileOf = []\<rparr>"

section \<open>Typed configs and their decoders\<close>

record network_rules =
  nrAllow :: "string list"
  nrDeny :: "string list"

definition zero_network_rules :: network_rules where
  "zero_network_rules = \<lparr>nrAllow = [], nrDeny = []\<rparr>"

definition decode_network_rules :: "network_rules decoder" where
  "decode_network_rules = dStruct
     [(''allow'', fld nrAllow nrAllow_update (dSlice dStr [])),
      (''deny'', fld nrDeny nrDeny_update (dSlice dStr []))]"

record phased_network =
  pnInstall :: "network_rules option"
  pnRuntime :: "network_rules option"

definition zero_phased_network :: phased_network where
  "zero_phased_network = \<lparr>pnInstall = None, pnRuntime = None\<rparr>"

definition decode_phased_network :: "phased_network decoder" where
  "decode_phased_network = dStruct
     [(''install'', fld pnInstall pnInstall_update (dPtr decode_network_rules zero_network_rules)),
      (''runtime'', fld pnRuntime pnRuntime_update (dPtr decode_network_rules zero_network_rules))]"

text \<open>A network entry is written as a plain string when it bounds nothing; \<open>null\<close> decodes
  as the empty string does, and a list stated as \<open>null\<close> becomes an empty one.\<close>

record network_entry =
  Hosts :: "string list option"
  Methods :: "string list option"
  Paths :: "string list option"

definition zero_network_entry :: network_entry where
  "zero_network_entry = \<lparr>Hosts = None, Methods = None, Paths = None\<rparr>"

definition elems :: "'a list option \<Rightarrow> 'a list" where
  "elems xs = (case xs of None \<Rightarrow> [] | Some ys \<Rightarrow> ys)"

definition Bounded :: "network_entry \<Rightarrow> bool" where
  "Bounded e \<longleftrightarrow> elems (Methods e) \<noteq> [] \<or> elems (Paths e) \<noteq> []"

definition hostEntry :: "string \<Rightarrow> network_entry" where
  "hostEntry h = \<lparr>Hosts = Some [h], Methods = None, Paths = None\<rparr>"

definition decode_entry_object :: "network_entry decoder" where
  "decode_entry_object = dStruct
     [(''hosts'', fld Hosts Hosts_update (dSliceNil dStr [])),
      (''methods'', fld Methods Methods_update (dSliceNil dStr [])),
      (''paths'', fld Paths Paths_update (dSliceNil dStr []))]"

definition decode_network_entry :: "network_entry decoder" where
  "decode_network_entry old j =
     (case j of
        JStr host \<Rightarrow> Some (hostEntry host)
      | JNull \<Rightarrow> Some (hostEntry [])
      | JObj raw \<Rightarrow>
          (case decode_entry_object zero_network_entry j of
             None \<Rightarrow> None
           | Some v \<Rightarrow>
               (let stated_null = (\<lambda>k. map_of raw k = Some JNull) in
                Some \<lparr>Hosts = (if stated_null ''hosts'' then Some [] else Hosts v),
                      Methods = (if stated_null ''methods'' then Some [] else Methods v),
                      Paths = (if stated_null ''paths'' then Some [] else Paths v)\<rparr>))
      | _ \<Rightarrow> None)"

record network_rules_v2 =
  Allow :: "network_entry list"
  Deny :: "network_entry list"

definition zero_network_rules_v2 :: network_rules_v2 where
  "zero_network_rules_v2 = \<lparr>Allow = [], Deny = []\<rparr>"

definition decode_network_rules_v2 :: "network_rules_v2 decoder" where
  "decode_network_rules_v2 = dStruct
     [(''allow'', fld Allow Allow_update (dSlice decode_network_entry zero_network_entry)),
      (''deny'', fld Deny Deny_update (dSlice decode_network_entry zero_network_entry))]"

record phased_network_v2 =
  Install :: "network_rules_v2 option"
  Runtime :: "network_rules_v2 option"

definition zero_phased_network_v2 :: phased_network_v2 where
  "zero_phased_network_v2 = \<lparr>Install = None, Runtime = None\<rparr>"

definition decode_phased_network_v2 :: "phased_network_v2 decoder" where
  "decode_phased_network_v2 = dStruct
     [(''install'', fld Install Install_update (dPtr decode_network_rules_v2 zero_network_rules_v2)),
      (''runtime'', fld Runtime Runtime_update (dPtr decode_network_rules_v2 zero_network_rules_v2))]"

text \<open>A phase is one string or a list of strings; \<open>null\<close> decodes as the empty string.\<close>

definition decode_phases :: "string list decoder" where
  "decode_phases old j =
     (case j of JStr one \<Rightarrow> Some [one] | JNull \<Rightarrow> Some [[]] | _ \<Rightarrow> dSlice dStr [] old j)"

record inject =
  inDomain :: string
  inHeader :: string
  inFormat :: string
  inScheme :: string
  inUsername :: string

definition zero_inject :: inject where
  "zero_inject = \<lparr>inDomain = [], inHeader = [], inFormat = [], inScheme = [], inUsername = []\<rparr>"

definition decode_inject :: "inject decoder" where
  "decode_inject = dStruct
     [(''domain'', fld inDomain inDomain_update (dStr)),
      (''header'', fld inHeader inHeader_update (dStr)),
      (''format'', fld inFormat inFormat_update (dStr)),
      (''scheme'', fld inScheme inScheme_update (dStr)),
      (''username'', fld inUsername inUsername_update (dStr))]"

record api_key =
  akName :: string
  ProxyManaged :: bool
  Injects :: "inject list"

definition zero_api_key :: api_key where
  "zero_api_key = \<lparr>akName = [], ProxyManaged = False, Injects = []\<rparr>"

definition decode_api_key :: "api_key decoder" where
  "decode_api_key = dStruct
     [(''name'', fld akName akName_update (dStr)),
      (''proxyManaged'', fld ProxyManaged ProxyManaged_update (dBool)),
      (''inject'', fld Injects Injects_update (dSlice decode_inject zero_inject))]"

record token_endpoint =
  teHost :: string
  tePath :: string

definition zero_token_endpoint :: token_endpoint where
  "zero_token_endpoint = \<lparr>teHost = [], tePath = []\<rparr>"

definition decode_token_endpoint :: "token_endpoint decoder" where
  "decode_token_endpoint = dStruct
     [(''host'', fld teHost teHost_update (dStr)),
      (''path'', fld tePath tePath_update (dStr))]"

record sentinels =
  seAccessToken :: string
  seRefreshToken :: string

definition zero_sentinels :: sentinels where
  "zero_sentinels = \<lparr>seAccessToken = [], seRefreshToken = []\<rparr>"

definition decode_sentinels :: "sentinels decoder" where
  "decode_sentinels = dStruct
     [(''accessToken'', fld seAccessToken seAccessToken_update (dStr)),
      (''refreshToken'', fld seRefreshToken seRefreshToken_update (dStr))]"

record credential_file =
  cfPath :: string
  cfStructure :: "config option"
  cfFormat :: string

definition zero_credential_file :: credential_file where
  "zero_credential_file = \<lparr>cfPath = [], cfStructure = None, cfFormat = []\<rparr>"

definition decode_credential_file :: "credential_file decoder" where
  "decode_credential_file = dStruct
     [(''path'', fld cfPath cfPath_update (dStr)),
      (''structure'', fld cfStructure cfStructure_update (dAnyMap)),
      (''format'', fld cfFormat cfFormat_update (dStr))]"

record response_fields =
  rfAccessToken :: string
  rfRefreshToken :: string
  rfExpiresIn :: string

definition zero_response_fields :: response_fields where
  "zero_response_fields = \<lparr>rfAccessToken = [], rfRefreshToken = [], rfExpiresIn = []\<rparr>"

definition decode_response_fields :: "response_fields decoder" where
  "decode_response_fields = dStruct
     [(''accessToken'', fld rfAccessToken rfAccessToken_update (dStr)),
      (''refreshToken'', fld rfRefreshToken rfRefreshToken_update (dStr)),
      (''expiresIn'', fld rfExpiresIn rfExpiresIn_update (dStr))]"

record oauth =
  TokenEndpoint :: "token_endpoint option"
  ResourceHosts :: "string list"
  Sentinels :: "sentinels option"
  CredentialFile :: "credential_file option"
  ResponseFields :: "response_fields option"
  Passthrough :: bool

definition zero_oauth :: oauth where
  "zero_oauth = \<lparr>TokenEndpoint = None, ResourceHosts = [], Sentinels = None, CredentialFile = None, ResponseFields = None, Passthrough = False\<rparr>"

definition decode_oauth :: "oauth decoder" where
  "decode_oauth = dStruct
     [(''tokenEndpoint'', fld TokenEndpoint TokenEndpoint_update (dPtr decode_token_endpoint zero_token_endpoint)),
      (''resourceHosts'', fld ResourceHosts ResourceHosts_update (dSlice dStr [])),
      (''sentinels'', fld Sentinels Sentinels_update (dPtr decode_sentinels zero_sentinels)),
      (''credentialFile'', fld CredentialFile CredentialFile_update (dPtr decode_credential_file zero_credential_file)),
      (''responseFields'', fld ResponseFields ResponseFields_update (dPtr decode_response_fields zero_response_fields)),
      (''passthrough'', fld Passthrough Passthrough_update (dBool))]"

record credential =
  Service :: string
  crPhase :: "string list"
  APIKey :: "api_key option"
  OAuth :: "oauth option"

definition zero_credential :: credential where
  "zero_credential = \<lparr>Service = [], crPhase = [], APIKey = None, OAuth = None\<rparr>"

definition decode_credential :: "credential decoder" where
  "decode_credential = dStruct
     [(''service'', fld Service Service_update (dStr)),
      (''phase'', fld crPhase crPhase_update (decode_phases)),
      (''apiKey'', fld APIKey APIKey_update (dPtr decode_api_key zero_api_key)),
      (''oauth'', fld OAuth OAuth_update (dPtr decode_oauth zero_oauth))]"

record ssh_agent =
  saPhase :: "string list"
  Unrestricted :: "bool option"
  Sign :: "string list option"
  Authenticate :: "string list option"

definition zero_ssh_agent :: ssh_agent where
  "zero_ssh_agent = \<lparr>saPhase = [], Unrestricted = None, Sign = None, Authenticate = None\<rparr>"

definition decode_ssh_agent :: "ssh_agent decoder" where
  "decode_ssh_agent = dStruct
     [(''phase'', fld saPhase saPhase_update (decode_phases)),
      (''unrestricted'', fld Unrestricted Unrestricted_update (dPtr dBool False)),
      (''sign'', fld Sign Sign_update (dSliceNil dStr [])),
      (''authenticate'', fld Authenticate Authenticate_update (dSliceNil dStr []))]"

record agent_skills =
  skPath :: string
  skMode :: string

definition zero_agent_skills :: agent_skills where
  "zero_agent_skills = \<lparr>skPath = [], skMode = []\<rparr>"

definition decode_agent_skills :: "agent_skills decoder" where
  "decode_agent_skills = dStruct
     [(''path'', fld skPath skPath_update (dStr)),
      (''mode'', fld skMode skMode_update (dStr))]"

record agent_skill =
  asPath :: string
  asName :: string

definition zero_agent_skill :: agent_skill where
  "zero_agent_skill = \<lparr>asPath = [], asName = []\<rparr>"

definition decode_agent_skill :: "agent_skill decoder" where
  "decode_agent_skill = dStruct
     [(''path'', fld asPath asPath_update (dStr)),
      (''name'', fld asName asName_update (dStr))]"

record volume =
  vPath :: string
  vSize :: string
  vTmpfs :: bool
  vMode :: string

definition zero_volume :: volume where
  "zero_volume = \<lparr>vPath = [], vSize = [], vTmpfs = False, vMode = []\<rparr>"

definition decode_volume :: "volume decoder" where
  "decode_volume = dStruct
     [(''path'', fld vPath vPath_update (dStr)),
      (''size'', fld vSize vSize_update (dStr)),
      (''tmpfs'', fld vTmpfs vTmpfs_update (dBool)),
      (''mode'', fld vMode vMode_update (dStr))]"

record port =
  portName :: string
  Container :: int
  Transport :: string

definition zero_port :: port where
  "zero_port = \<lparr>portName = [], Container = 0, Transport = []\<rparr>"

definition decode_port :: "port decoder" where
  "decode_port = dStruct
     [(''name'', fld portName portName_update (dStr)),
      (''container'', fld Container Container_update (dInt)),
      (''transport'', fld Transport Transport_update (dStr))]"

record usb_device =
  VendorID :: string
  ProductID :: string
  usbClass :: string

definition zero_usb_device :: usb_device where
  "zero_usb_device = \<lparr>VendorID = [], ProductID = [], usbClass = []\<rparr>"

definition decode_usb_device :: "usb_device decoder" where
  "decode_usb_device = dStruct
     [(''vendorId'', fld VendorID VendorID_update (dStr)),
      (''productId'', fld ProductID ProductID_update (dStr)),
      (''class'', fld usbClass usbClass_update (dStr))]"

record resources =
  CPU :: string
  Memory :: string
  GPU :: string

definition zero_resources :: resources where
  "zero_resources = \<lparr>CPU = [], Memory = [], GPU = []\<rparr>"

definition decode_resources :: "resources decoder" where
  "decode_resources = dStruct
     [(''cpu'', fld CPU CPU_update (dFloat)),
      (''memory'', fld Memory Memory_update (dStr)),
      (''gpu'', fld GPU GPU_update (dStr))]"

text \<open>A command is a string, run by a shell, or a list of arguments.\<close>

definition decode_command :: "string list option decoder" where
  "decode_command old j =
     (case j of
        JStr s \<Rightarrow> Some (Some [''sh'', ''-c'', s])
      | _ \<Rightarrow> dSliceNil dStr [] old j)"

record agent_sessions =
  ssPrompt :: "string list"
  ssResume :: "string list"
  ssContinue :: "string list"
  ssList :: "string list option"

definition zero_agent_sessions :: agent_sessions where
  "zero_agent_sessions = \<lparr>ssPrompt = [], ssResume = [], ssContinue = [], ssList = None\<rparr>"

definition decode_agent_sessions :: "agent_sessions decoder" where
  "decode_agent_sessions = dStruct
     [(''prompt'', fld ssPrompt ssPrompt_update (dSlice dStr [])),
      (''resume'', fld ssResume ssResume_update (dSlice dStr [])),
      (''continue'', fld ssContinue ssContinue_update (dSlice dStr [])),
      (''list'', fld ssList ssList_update (decode_command))]"

record install_hook =
  ihCommand :: "string list option"
  ihUser :: string
  ihEnv :: "string list"
  ihDescription :: string

definition zero_install_hook :: install_hook where
  "zero_install_hook = \<lparr>ihCommand = None, ihUser = [], ihEnv = [], ihDescription = []\<rparr>"

definition decode_install_hook :: "install_hook decoder" where
  "decode_install_hook = dStruct
     [(''command'', fld ihCommand ihCommand_update (decode_command)),
      (''user'', fld ihUser ihUser_update (dStr)),
      (''env'', fld ihEnv ihEnv_update (dSlice dStr [])),
      (''description'', fld ihDescription ihDescription_update (dStr))]"

record startup_hook =
  shCommand :: "string list option"
  shUser :: string
  shBackground :: bool
  shEnv :: "string list"
  shDescription :: string

definition zero_startup_hook :: startup_hook where
  "zero_startup_hook = \<lparr>shCommand = None, shUser = [], shBackground = False, shEnv = [], shDescription = []\<rparr>"

definition decode_startup_hook :: "startup_hook decoder" where
  "decode_startup_hook = dStruct
     [(''command'', fld shCommand shCommand_update (decode_command)),
      (''user'', fld shUser shUser_update (dStr)),
      (''background'', fld shBackground shBackground_update (dBool)),
      (''env'', fld shEnv shEnv_update (dSlice dStr [])),
      (''description'', fld shDescription shDescription_update (dStr))]"

record file_entry =
  fPath :: string
  fContent :: string
  fMode :: string
  fOverwrite :: "bool option"
  fDescription :: string

definition zero_file_entry :: file_entry where
  "zero_file_entry = \<lparr>fPath = [], fContent = [], fMode = [], fOverwrite = None, fDescription = []\<rparr>"

definition decode_file_entry :: "file_entry decoder" where
  "decode_file_entry = dStruct
     [(''path'', fld fPath fPath_update (dStr)),
      (''content'', fld fContent fContent_update (dStr)),
      (''mode'', fld fMode fMode_update (dStr)),
      (''overwrite'', fld fOverwrite fOverwrite_update (dPtr dBool False)),
      (''description'', fld fDescription fDescription_update (dStr))]"

record lifecycle =
  lcInstall :: "install_hook list"
  lcStartup :: "startup_hook list"
  lcFiles :: "file_entry list"
  Interactive :: "string list option"

definition zero_lifecycle :: lifecycle where
  "zero_lifecycle = \<lparr>lcInstall = [], lcStartup = [], lcFiles = [], Interactive = None\<rparr>"

definition decode_lifecycle :: "lifecycle decoder" where
  "decode_lifecycle = dStruct
     [(''install'', fld lcInstall lcInstall_update (dSlice decode_install_hook zero_install_hook)),
      (''startup'', fld lcStartup lcStartup_update (dSlice decode_startup_hook zero_startup_hook)),
      (''files'', fld lcFiles lcFiles_update (dSlice decode_file_entry zero_file_entry)),
      (''interactive'', fld Interactive Interactive_update (dSliceNil dStr []))]"

record agent_context =
  acFilename :: string
  acContentFile :: string
  acContent :: string

definition zero_agent_context :: agent_context where
  "zero_agent_context = \<lparr>acFilename = [], acContentFile = [], acContent = []\<rparr>"

definition decode_agent_context :: "agent_context decoder" where
  "decode_agent_context = dStruct
     [(''filename'', fld acFilename acFilename_update (dStr)),
      (''contentFile'', fld acContentFile acContentFile_update (dStr)),
      (''content'', fld acContent acContent_update (dStr))]"

end
