(* ===== verification/Capabilities.thy ===== *)
theory Capabilities
  imports Types
begin

text \<open>
  The typed accessors over a capability list (\<open>spec/capabilities.go\<close>) and the functions of
  \<open>spec/groups.go\<close> that walk entries and groups: strict decoding of one entry's config, the
  first request or every request of a type, the network policy of either version in the
  second version's shape, and the enumeration of group members.
\<close>

section \<open>Decoding one config\<close>

datatype config_error =
    EncodeConfig string
  | DecodeConfig string
  | SelectGroupsFirst

definition DecodeCapabilityConfig :: "'a decoder \<Rightarrow> 'a \<Rightarrow> capability \<Rightarrow> config_error + 'a" where
  "DecodeCapabilityConfig d zero n =
     (let doc = (case capConfig n of None \<Rightarrow> JNull | Some kvs \<Rightarrow> JObj kvs) in
      if marshal doc = None then Inl (EncodeConfig (capType n))
      else (case d zero doc of None \<Rightarrow> Inl (DecodeConfig (capType n)) | Some x \<Rightarrow> Inr x))"

text \<open>The inverse direction, over the encoding of the struct.\<close>

definition toConfigMap :: "json \<Rightarrow> config option option" where
  "toConfigMap encoded =
     (if marshal encoded = None then None
      else (case encoded of JObj kvs \<Rightarrow> Some (Some kvs) | JNull \<Rightarrow> Some None | _ \<Rightarrow> None))"

definition CapabilityWithConfig :: "capability \<Rightarrow> json \<Rightarrow> config_error + capability" where
  "CapabilityWithConfig n encoded =
     (case toConfigMap encoded of
        None \<Rightarrow> Inl (EncodeConfig (capType n))
      | Some raw \<Rightarrow> Inr (withConfig raw n))"

section \<open>Entries and groups\<close>

lemma group_smaller: "capGroup c = Some g \<Longrightarrow> size_list size (groupCapabilities g) < size c"
  by (cases c; cases g) simp

function DeclaredCapabilities :: "capability list \<Rightarrow> capability list" where
  "DeclaredCapabilities [] = []"
| "DeclaredCapabilities (c # items) =
     (case capGroup c of
        Some g \<Rightarrow> DeclaredCapabilities (groupCapabilities g) @ DeclaredCapabilities items
      | None \<Rightarrow> c # DeclaredCapabilities items)"
  by pat_completeness auto

termination
  by (relation "measure (size_list size)") (auto dest: group_smaller)

definition HasGroups :: "capability list \<Rightarrow> bool" where
  "HasGroups items \<longleftrightarrow> list_ex (\<lambda>c. capGroup c \<noteq> None \<or> groupSet c) items"

function MapCapabilities :: "(capability \<Rightarrow> 'e + capability) \<Rightarrow> capability list \<Rightarrow> 'e + capability list" where
  "MapCapabilities fn [] = Inr []"
| "MapCapabilities fn (c # items) =
     rbind (case capGroup c of
              None \<Rightarrow> fn c
            | Some g \<Rightarrow>
                rbind (MapCapabilities fn (groupCapabilities g))
                  (\<lambda>members. Inr (withGroup (Some (CapabilityGroup (groupName g) (groupDescription g)
                                                     (groupOptional g) members)) c)))
       (\<lambda>c'. rbind (MapCapabilities fn items) (\<lambda>rest. Inr (c' # rest)))"
  by pat_completeness auto

termination
  by (relation "measure (\<lambda>(_, items). size_list size items)") (auto dest: group_smaller)

definition Supported :: "string list \<Rightarrow> capability \<Rightarrow> bool" where
  "Supported types c \<longleftrightarrow> capType c \<in> set types"

definition KnownCapabilities :: "string list" where
  "KnownCapabilities =
     [CapabilityNetworkPolicy, CapabilityNetworkPolicyV2, CapabilityCredential, CapabilitySSHAgent,
      CapabilityVolume, CapabilityPort, CapabilityUSBDevice, CapabilityResources,
      CapabilityPrivileged, CapabilityLifecycle, CapabilityAgentContext, CapabilityAgentSessions,
      CapabilityAgentSkills, CapabilityAgentSkill, CapabilitySbx, CapabilityLongRunning,
      CapabilityGitIdentity, CapabilityKitRegistry]"

definition CapabilityTypes :: "capability list \<Rightarrow> string" where
  "CapabilityTypes capabilities = join '','' (sort (dedupe (map capType (DeclaredCapabilities capabilities))))"

definition HasCapability :: "capability list \<Rightarrow> string \<Rightarrow> bool" where
  "HasCapability needs typ \<longleftrightarrow> list_ex (\<lambda>n. capType n = typ) needs"

definition PrivilegedOf :: "capability list \<Rightarrow> bool" where
  "PrivilegedOf needs = HasCapability needs CapabilityPrivileged"

section \<open>The accessor loops\<close>

text \<open>The first entry of a type, decoded; the later ones are not looked at.\<close>

fun firstOf :: "string \<Rightarrow> (capability \<Rightarrow> config_error + 'a) \<Rightarrow> capability list \<Rightarrow> config_error + 'a option" where
  "firstOf typ decode [] = Inr None"
| "firstOf typ decode (n # needs) =
     (if capType n \<noteq> typ then firstOf typ decode needs
      else rbind (decode n) (\<lambda>p. Inr (Some p)))"

text \<open>Every entry of a type, decoded, in declaration order.\<close>

fun allOf :: "string \<Rightarrow> (capability \<Rightarrow> config_error + 'a) \<Rightarrow> capability list \<Rightarrow> config_error + 'a list" where
  "allOf typ decode [] = Inr []"
| "allOf typ decode (n # needs) =
     (if capType n \<noteq> typ then allOf typ decode needs
      else rbind (decode n) (\<lambda>x. rbind (allOf typ decode needs) (\<lambda>xs. Inr (x # xs))))"

text \<open>The same, for the accessors that refuse a list whose groups are not selected yet.\<close>

fun allFlat :: "string \<Rightarrow> (capability \<Rightarrow> config_error + 'a) \<Rightarrow> capability list \<Rightarrow> config_error + 'a list" where
  "allFlat typ decode [] = Inr []"
| "allFlat typ decode (n # needs) =
     (if capGroup n \<noteq> None then Inl SelectGroupsFirst
      else if capType n \<noteq> typ then allFlat typ decode needs
      else rbind (decode n) (\<lambda>x. rbind (allFlat typ decode needs) (\<lambda>xs. Inr (x # xs))))"

section \<open>Network policy\<close>

definition NetworkPolicyOf :: "capability list \<Rightarrow> config_error + phased_network option" where
  "NetworkPolicyOf needs =
     firstOf CapabilityNetworkPolicy (DecodeCapabilityConfig decode_phased_network zero_phased_network) needs"

definition hostEntries :: "string list \<Rightarrow> network_entry list" where
  "hostEntries hosts = map hostEntry hosts"

definition liftNetworkRules :: "network_rules option \<Rightarrow> network_rules_v2 option" where
  "liftNetworkRules r =
     (case r of
        None \<Rightarrow> None
      | Some x \<Rightarrow> Some \<lparr>Allow = hostEntries (nrAllow x), Deny = hostEntries (nrDeny x)\<rparr>)"

fun NetworkPolicyV2Of :: "capability list \<Rightarrow> config_error + phased_network_v2 option" where
  "NetworkPolicyV2Of [] = Inr None"
| "NetworkPolicyV2Of (n # needs) =
     (if capType n = CapabilityNetworkPolicyV2
      then rbind (DecodeCapabilityConfig decode_phased_network_v2 zero_phased_network_v2 n) (\<lambda>p. Inr (Some p))
      else if capType n = CapabilityNetworkPolicy
      then rbind (DecodeCapabilityConfig decode_phased_network zero_phased_network n)
             (\<lambda>p. Inr (Some \<lparr>Install = liftNetworkRules (pnInstall p),
                              Runtime = liftNetworkRules (pnRuntime p)\<rparr>))
      else NetworkPolicyV2Of needs)"

definition EntryMethods :: "network_entry \<Rightarrow> string list" where
  "EntryMethods e = (if elems (Methods e) = [] then [MethodAny] else elems (Methods e))"

definition EntryPaths :: "network_entry \<Rightarrow> string list" where
  "EntryPaths e = (if elems (Paths e) = [] then [''/**''] else elems (Paths e))"

section \<open>The other accessors\<close>

record credential_capability =
  credCredential :: credential
  credRequired :: bool
  credName :: string
  credDescription :: string

definition CredentialsOf :: "capability list \<Rightarrow> config_error + credential_capability list" where
  "CredentialsOf needs = allOf CapabilityCredential
     (\<lambda>n. rbind (DecodeCapabilityConfig decode_credential zero_credential n)
            (\<lambda>c. Inr \<lparr>credCredential = c, credRequired = (\<not> capOptional n),
                      credName = capName n, credDescription = capDescription n\<rparr>)) needs"

definition CredentialsOfPhase :: "capability list \<Rightarrow> string \<Rightarrow> config_error + credential_capability list" where
  "CredentialsOfPhase needs phase =
     rbind (CredentialsOf needs) (\<lambda>all. Inr (filter (\<lambda>c. phase \<in> set (crPhase (credCredential c))) all))"

record ssh_agent_capability =
  sacAgent :: ssh_agent
  sacOptional :: bool
  sacName :: string
  sacDescription :: string

definition SSHAgentsOf :: "capability list \<Rightarrow> config_error + ssh_agent_capability list" where
  "SSHAgentsOf needs = allOf CapabilitySSHAgent
     (\<lambda>n. rbind (DecodeCapabilityConfig decode_ssh_agent zero_ssh_agent n)
            (\<lambda>a. Inr \<lparr>sacAgent = a, sacOptional = capOptional n,
                      sacName = capName n, sacDescription = capDescription n\<rparr>)) needs"

definition SSHAgentsOfPhase :: "capability list \<Rightarrow> string \<Rightarrow> config_error + ssh_agent_capability list" where
  "SSHAgentsOfPhase needs phase =
     rbind (SSHAgentsOf needs) (\<lambda>all. Inr (filter (\<lambda>a. phase \<in> set (saPhase (sacAgent a))) all))"

record agent_skills_capability =
  askSkills :: agent_skills
  askOptional :: bool
  askName :: string
  askDescription :: string

definition AgentSkillsOf :: "capability list \<Rightarrow> config_error + agent_skills_capability list" where
  "AgentSkillsOf needs = allFlat CapabilityAgentSkills
     (\<lambda>n. rbind (DecodeCapabilityConfig decode_agent_skills zero_agent_skills n)
            (\<lambda>s. Inr \<lparr>askSkills = s, askOptional = capOptional n,
                      askName = capName n, askDescription = capDescription n\<rparr>)) needs"

record agent_skill_capability =
  ascSkill :: agent_skill
  ascOptional :: bool
  ascDisplayName :: string
  ascDescription :: string

definition AgentSkillRequestsOf :: "capability list \<Rightarrow> config_error + agent_skill_capability list" where
  "AgentSkillRequestsOf capabilities = allFlat CapabilityAgentSkill
     (\<lambda>c. rbind (DecodeCapabilityConfig decode_agent_skill zero_agent_skill c)
            (\<lambda>s. Inr \<lparr>ascSkill = s, ascOptional = capOptional c,
                      ascDisplayName = capName c, ascDescription = capDescription c\<rparr>)) capabilities"

definition VolumesOf :: "capability list \<Rightarrow> config_error + volume list" where
  "VolumesOf needs = allOf CapabilityVolume (DecodeCapabilityConfig decode_volume zero_volume) needs"

definition PortsOf :: "capability list \<Rightarrow> config_error + port list" where
  "PortsOf needs = allOf CapabilityPort (DecodeCapabilityConfig decode_port zero_port) needs"

record usb_device_capability =
  udcDevice :: usb_device
  udcOptional :: bool
  udcName :: string
  udcDescription :: string

definition USBDevicesOf :: "capability list \<Rightarrow> config_error + usb_device_capability list" where
  "USBDevicesOf needs = allOf CapabilityUSBDevice
     (\<lambda>n. rbind (DecodeCapabilityConfig decode_usb_device zero_usb_device n)
            (\<lambda>u. Inr \<lparr>udcDevice = u, udcOptional = capOptional n,
                      udcName = capName n, udcDescription = capDescription n\<rparr>)) needs"

definition ResourcesOf :: "capability list \<Rightarrow> config_error + resources option" where
  "ResourcesOf needs = firstOf CapabilityResources (DecodeCapabilityConfig decode_resources zero_resources) needs"

definition LifecycleOf :: "capability list \<Rightarrow> config_error + lifecycle option" where
  "LifecycleOf capabilities =
     firstOf CapabilityLifecycle (DecodeCapabilityConfig decode_lifecycle zero_lifecycle) capabilities"

definition AgentContextOf :: "capability list \<Rightarrow> config_error + agent_context option" where
  "AgentContextOf capabilities =
     firstOf CapabilityAgentContext (DecodeCapabilityConfig decode_agent_context zero_agent_context) capabilities"

definition AgentSessionsOf :: "capability list \<Rightarrow> config_error + agent_sessions option" where
  "AgentSessionsOf needs =
     firstOf CapabilityAgentSessions (DecodeCapabilityConfig decode_agent_sessions zero_agent_sessions) needs"

definition AgentContextsOf :: "capability list \<Rightarrow> config_error + agent_context list" where
  "AgentContextsOf capabilities =
     allFlat CapabilityAgentContext (DecodeCapabilityConfig decode_agent_context zero_agent_context) capabilities"

text \<open>Whether a request of a phased type is bounded at all, and the small readers of
  \<open>types.go\<close>.\<close>

definition sshBounded :: "ssh_agent \<Rightarrow> bool" where
  "sshBounded a \<longleftrightarrow> Unrestricted a = Some False"

definition PortTransport :: "port \<Rightarrow> string" where
  "PortTransport p = (if Transport p = [] then ''tcp'' else Transport p)"

definition PortKey :: "port \<Rightarrow> string" where
  "PortKey p = intStr (Container p) @ ''/'' @ PortTransport p"

definition SkillsReadOnly :: string where
  "SkillsReadOnly = ''readonly''"

definition SkillsReadWrite :: string where
  "SkillsReadWrite = ''readwrite''"

definition SkillsMode :: "agent_skills \<Rightarrow> string" where
  "SkillsMode s = (if skMode s = [] then SkillsReadOnly else skMode s)"

definition SkillsWritable :: "agent_skills \<Rightarrow> bool" where
  "SkillsWritable s \<longleftrightarrow> SkillsMode s = SkillsReadWrite"

section \<open>The accessor loops characterised\<close>

lemma allOf_iff:
  "allOf typ decode needs = Inr xs \<longleftrightarrow>
   list_all2 (\<lambda>n x. decode n = Inr x) (filter (\<lambda>n. capType n = typ) needs) xs"
  by (induction needs arbitrary: xs) (auto simp: rbind_Inr_iff list_all2_Cons1)

lemma allOf_ok:
  "is_ok (allOf typ decode needs) \<longleftrightarrow>
   list_all (\<lambda>n. is_ok (decode n)) (filter (\<lambda>n. capType n = typ) needs)"
  by (induction needs) (auto simp: is_ok_def rbind_def split: sum.splits)

lemma firstOf_eq:
  "firstOf typ decode needs =
   (case filter (\<lambda>n. capType n = typ) needs of
      [] \<Rightarrow> Inr None
    | n # _ \<Rightarrow> rbind (decode n) (\<lambda>p. Inr (Some p)))"
  by (induction needs) auto

lemma allFlat_eq:
  "list_all (\<lambda>n. capGroup n = None) needs \<Longrightarrow> allFlat typ decode needs = allOf typ decode needs"
  by (induction needs) auto

lemma DeclaredCapabilities_flat [simp]:
  "list_all (\<lambda>n. capGroup n = None) items \<Longrightarrow> DeclaredCapabilities items = items"
  by (induction items) auto

lemma DeclaredCapabilities_append [simp]:
  "DeclaredCapabilities (xs @ ys) = DeclaredCapabilities xs @ DeclaredCapabilities ys"
  by (induction xs) (auto split: option.splits)

lemma DeclaredCapabilities_ordinary:
  "c \<in> set (DeclaredCapabilities items) \<Longrightarrow> capGroup c = None"
  by (induction items rule: DeclaredCapabilities.induct) (auto split: option.splits)

section \<open>One decoder simulating another\<close>

text \<open>Whatever the first decoder accepts, the second accepts too, with the image of the value
  under a lifting of the one type into the other.\<close>

locale decoder_simulation =
  fixes lift :: "'a \<Rightarrow> 'b" and d1 :: "'a decoder" and d2 :: "'b decoder"
  assumes simulates: "d1 old j = Some x \<Longrightarrow> d2 (lift old) j = Some (lift x)"
begin

lemma simulates_all:
  assumes "those (map (d1 z) js) = Some xs"
  shows "those (map (d2 (lift z)) js) = Some (map lift xs)"
  using assms by (induction js arbitrary: xs) (auto split: option.splits dest: simulates)

lemma slice:
  assumes "dSlice d1 z old j = Some xs"
  shows "dSlice d2 (lift z) (map lift old) j = Some (map lift xs)"
  using assms simulates_all by (cases j) (auto simp: dSlice_def)

lemma ptr:
  assumes "dPtr d1 z old j = Some p"
  shows "dPtr d2 (lift z) (map_option lift old) j = Some (map_option lift p)"
  using assms by (cases old) (auto simp: dPtr_def split: if_splits dest: simulates)

end

lemma decodeFields_simulation:
  assumes fields: "list_all2 (\<lambda>(n1, f1) (n2, f2). n1 = n2 \<and>
      (\<forall>r v r'. f1 r v = Some r' \<longrightarrow> f2 (g r) v = Some (g r'))) fs1 fs2"
    and "decodeFields fs1 r kvs = Some r'"
  shows "decodeFields fs2 (g r) kvs = Some (g r')"
proof -
  have exact: "rel_option (\<lambda>f1 f2. \<forall>r v r'. f1 r v = Some r' \<longrightarrow> f2 (g r) v = Some (g r'))
      (map_of fs1 k) (map_of fs2 k)" for k
    using fields by (induction fs1 fs2 rule: list_all2_induct) auto
  have folded: "list_all2 (\<lambda>(n1, f1) (n2, f2). n1 = n2 \<and>
      (\<forall>r v r'. f1 r v = Some r' \<longrightarrow> f2 (g r) v = Some (g r')))
      (filter (\<lambda>(n, _). foldName n = foldName k) fs1) (filter (\<lambda>(n, _). foldName n = foldName k) fs2)" for k
    using fields by (induction fs1 fs2 rule: list_all2_induct) auto
  have named: "rel_option (\<lambda>f1 f2. \<forall>r v r'. f1 r v = Some r' \<longrightarrow> f2 (g r) v = Some (g r'))
      (fieldNamed fs1 k) (fieldNamed fs2 k)" for k
    using exact [of k] folded [of k]
    by (auto simp: fieldNamed_def option_rel_Some1 list_all2_Cons1 split: option.splits list.splits)
  show ?thesis
    using assms(2)
  proof (induction kvs arbitrary: r)
    case Nil
    then show ?case by simp
  next
    case (Cons kv kvs)
    obtain k v where kv: "kv = (k, v)" by (cases kv)
    obtain f1 r1 where f1: "fieldNamed fs1 k = Some f1" "f1 r v = Some r1" "decodeFields fs1 r1 kvs = Some r'"
      using Cons.prems by (auto simp: kv split: option.splits)
    obtain f2 where "fieldNamed fs2 k = Some f2" "f2 (g r) v = Some (g r1)"
      using named [of k] f1(1,2) by (auto simp: option_rel_Some1)
    then show ?case
      using Cons.IH [OF f1(3)] by (simp add: kv)
  qed
qed

definition liftRules :: "network_rules \<Rightarrow> network_rules_v2" where
  "liftRules x = \<lparr>Allow = hostEntries (nrAllow x), Deny = hostEntries (nrDeny x)\<rparr>"

definition liftPhased :: "phased_network \<Rightarrow> phased_network_v2" where
  "liftPhased p = \<lparr>Install = liftNetworkRules (pnInstall p), Runtime = liftNetworkRules (pnRuntime p)\<rparr>"

lemma liftNetworkRules_map: "liftNetworkRules r = map_option liftRules r"
  by (cases r) (simp_all add: liftNetworkRules_def liftRules_def)

text \<open>Elements are decoded from the zero value, where a plain string is a host.\<close>

definition dStrZero :: "string decoder" where
  "dStrZero old j = dStr [] j"

lemma dStrZero_zero: "dStrZero [] = dStr []"
  by (intro ext) (simp add: dStrZero_def)

lemma dSlice_dStr: "dSlice dStr [] = dSlice dStrZero []"
  by (intro ext) (simp add: dSlice_def dStrZero_zero split: json.splits)

lemma decode_network_entry_old: "decode_network_entry old = decode_network_entry old'"
  by (intro ext) (simp add: decode_network_entry_def)

interpretation host_entry: decoder_simulation hostEntry dStrZero decode_network_entry
  by unfold_locales (auto simp: dStrZero_def dStr_def decode_network_entry_def split: json.splits)

lemma dSlice_entry_zero:
  "dSlice decode_network_entry zero_network_entry old = dSlice decode_network_entry (hostEntry []) old'"
  by (intro ext) (simp add: dSlice_def decode_network_entry_old [of "hostEntry []" zero_network_entry] split: json.splits)

lemma hosts_slice:
  assumes "dSlice dStr [] old j = Some xs"
  shows "dSlice decode_network_entry zero_network_entry (hostEntries old) j = Some (hostEntries xs)"
  using host_entry.slice [of "[]" old j xs] assms
  by (simp add: hostEntries_def dSlice_dStr dSlice_entry_zero [of _ "map hostEntry old"])

interpretation rules: decoder_simulation liftRules decode_network_rules decode_network_rules_v2
proof unfold_locales
  fix old j x
  assume "decode_network_rules old j = Some x"
  then show "decode_network_rules_v2 (liftRules old) j = Some (liftRules x)"
    by (cases j)
      (auto simp: decode_network_rules_def decode_network_rules_v2_def dStruct_def fld_def liftRules_def
        intro!: decodeFields_simulation [of liftRules, unfolded liftRules_def] dest!: hosts_slice)
qed

interpretation phased: decoder_simulation liftPhased decode_phased_network decode_phased_network_v2
proof unfold_locales
  fix old j x
  assume "decode_phased_network old j = Some x"
  moreover have "liftRules zero_network_rules = zero_network_rules_v2"
    by (simp add: liftRules_def hostEntries_def zero_network_rules_def zero_network_rules_v2_def)
  ultimately show "decode_phased_network_v2 (liftPhased old) j = Some (liftPhased x)"
    using rules.ptr [of zero_network_rules]
    by (cases j)
      (auto simp: decode_phased_network_def decode_phased_network_v2_def dStruct_def fld_def
        liftPhased_def liftNetworkRules_map
        intro!: decodeFields_simulation [of liftPhased, unfolded liftPhased_def liftNetworkRules_map])
qed

lemma liftPhased_zero: "liftPhased zero_phased_network = zero_phased_network_v2"
  by (simp add: liftPhased_def liftNetworkRules_def zero_phased_network_def zero_phased_network_v2_def)

text \<open>A kit does not change what consumers of the network policy see by moving
  between versions: when an entry's config is a valid first-version policy, restating the
  same config under the second version's type gives \<open>NetworkPolicyV2Of\<close> the same answer.\<close>

theorem network_policy_version_stable:
  assumes first: "capType n = CapabilityNetworkPolicy"
    and second: "capType m = CapabilityNetworkPolicyV2"
    and config: "capConfig m = capConfig n"
    and valid: "NetworkPolicyOf (n # needs) = Inr (Some p)"
  shows "NetworkPolicyV2Of (m # needs) = NetworkPolicyV2Of (n # needs) \<and> is_ok (NetworkPolicyV2Of (n # needs))"
proof -
  let ?doc = "case capConfig n of None \<Rightarrow> JNull | Some kvs \<Rightarrow> JObj kvs"
  have ne: "CapabilityNetworkPolicy \<noteq> CapabilityNetworkPolicyV2"
    by (simp add: go_eval)
  have dec: "marshal ?doc \<noteq> None" "decode_phased_network zero_phased_network ?doc = Some p"
    using valid
    by (auto simp: NetworkPolicyOf_def first DecodeCapabilityConfig_def Let_def rbind_Inr_iff
        split: if_splits option.splits)
  have "decode_phased_network_v2 zero_phased_network_v2 ?doc = Some (liftPhased p)"
    using phased.simulates [OF dec(2)] by (simp add: liftPhased_zero)
  with dec show ?thesis
    by (simp add: first second ne DecodeCapabilityConfig_def config Let_def liftPhased_def)
qed

theorem network_policy_version_stable_witness:
  "let n = ordinary CapabilityNetworkPolicy
         (Some [(''runtime'', JObj [(''allow'', JArr [JStr ''github.com'', JNull]), (''deny'', JNull)])]);
       m = ordinary CapabilityNetworkPolicyV2 (capConfig n)
   in NetworkPolicyV2Of [m] = NetworkPolicyV2Of [n] \<and> is_ok (NetworkPolicyV2Of [n])"
proof -
  let ?cfg = "Some [(''runtime'', JObj [(''allow'', JArr [JStr ''github.com'', JNull]), (''deny'', JNull)])]"
  have "NetworkPolicyOf [ordinary CapabilityNetworkPolicy ?cfg] =
      Inr (Some \<lparr>pnInstall = None, pnRuntime = Some \<lparr>nrAllow = [''github.com'', []], nrDeny = []\<rparr>\<rparr>)"
    by code_simp
  from network_policy_version_stable [OF _ _ _ this, of "ordinary CapabilityNetworkPolicyV2 ?cfg"]
  show ?thesis by (simp add: ordinary_def)
qed

section \<open>Walking entries and groups\<close>

lemma capGroup_withGroup [simp]: "capGroup (withGroup g c) = g"
  by (cases c) simp

text \<open>\<open>MapCapabilities\<close> applies the function to exactly the ordinary entries that
  \<open>DeclaredCapabilities\<close> enumerates, group members included, in that order, and keeps the
  shape of the list: enumerating its result gives the images one by one.\<close>

theorem map_capabilities_visits_declared:
  assumes "MapCapabilities fn items = Inr out"
    and "\<And>c c'. fn c = Inr c' \<Longrightarrow> capGroup c = None \<Longrightarrow> capGroup c' = None"
  shows "list_all2 (\<lambda>c c'. fn c = Inr c') (DeclaredCapabilities items) (DeclaredCapabilities out) \<and>
    length out = length items"
  using assms
proof (induction fn items arbitrary: out rule: MapCapabilities.induct)
  case (1 fn)
  then show ?case by simp
next
  case (2 fn c items)
  obtain c' rest where out: "out = c' # rest" "MapCapabilities fn items = Inr rest"
    using "2.prems"(1) by (auto simp: rbind_Inr_iff)
  have tail: "list_all2 (\<lambda>c c'. fn c = Inr c') (DeclaredCapabilities items) (DeclaredCapabilities rest)
      \<and> length rest = length items"
    by (rule "2.IH"(2) [OF out(2) "2.prems"(2)])
  show ?case
  proof (cases "capGroup c")
    case None
    then have "fn c = Inr c'" using "2.prems"(1) out by (auto simp: rbind_Inr_iff)
    then show ?thesis using None tail "2.prems"(2) out by (auto split: option.splits)
  next
    case (Some g)
    then obtain members where "MapCapabilities fn (groupCapabilities g) = Inr members"
      "c' = withGroup (Some (CapabilityGroup (groupName g) (groupDescription g) (groupOptional g) members)) c"
      using "2.prems"(1) out by (auto simp: rbind_Inr_iff)
    then show ?thesis
      using "2.IH"(1) [OF Some _ "2.prems"(2)] tail Some out by (auto intro: list_all2_appendI)
  qed
qed

theorem map_capabilities_visits_declared_witness:
  "let c = ordinary CapabilityVolume None;
       items = [c, withGroup (Some (CapabilityGroup ''g'' [] True [c, c])) emptyCapability];
       fn = (\<lambda>c. Inr (withName ''x'' c) :: unit + capability)
   in list_all2 (\<lambda>c c'. fn c = Inr c') (DeclaredCapabilities items) (DeclaredCapabilities
        [withName ''x'' c, withGroup (Some (CapabilityGroup ''g'' [] True [withName ''x'' c, withName ''x'' c])) emptyCapability])"
proof -
  let ?c = "ordinary CapabilityVolume None"
  let ?fn = "\<lambda>c. Inr (withName ''x'' c) :: unit + capability"
  have keep: "capGroup (withName s c) = capGroup c" for s c by (cases c) simp
  have "MapCapabilities ?fn [?c, withGroup (Some (CapabilityGroup ''g'' [] True [?c, ?c])) emptyCapability] =
      Inr [withName ''x'' ?c, withGroup (Some (CapabilityGroup ''g'' [] True [withName ''x'' ?c, withName ''x'' ?c])) emptyCapability]"
    by (simp add: ordinary_def emptyCapability_def)
  from map_capabilities_visits_declared [OF this] show ?thesis
    by (auto simp: Let_def keep)
qed

lemma capability_types_parts:
  assumes "list_all (\<lambda>c. CHR '','' \<notin> set (capType c)) (DeclaredCapabilities xs)"
    and "DeclaredCapabilities xs \<noteq> []"
  shows "split_on CHR '','' (CapabilityTypes xs) = sort (dedupe (map capType (DeclaredCapabilities xs)))"
proof -
  let ?ts = "sort (dedupe (map capType (DeclaredCapabilities xs)))"
  have "set ?ts = capType ` set (DeclaredCapabilities xs)" by (simp add: set_dedupe)
  moreover from this have "?ts \<noteq> []" using assms(2) by (metis image_is_empty list.set(1) set_empty)
  ultimately have "split_on CHR '','' (join '','' ?ts) = ?ts"
    using assms(1) by (intro split_join) (auto simp: list_all_iff)
  then show ?thesis by (simp add: CapabilityTypes_def)
qed

text \<open>The capabilities annotation is a canonical index of the requested types: over
  types without a comma, two non-empty lists carry the same annotation exactly when they
  request the same set of types, in groups or outside them, and splitting the annotation at
  its commas recovers that set without repetition.\<close>

theorem capability_types_canonical:
  assumes "list_all (\<lambda>c. CHR '','' \<notin> set (capType c)) (DeclaredCapabilities xs)"
    and "list_all (\<lambda>c. CHR '','' \<notin> set (capType c)) (DeclaredCapabilities ys)"
    and "DeclaredCapabilities xs \<noteq> []" "DeclaredCapabilities ys \<noteq> []"
  shows "(CapabilityTypes xs = CapabilityTypes ys \<longleftrightarrow>
      capType ` set (DeclaredCapabilities xs) = capType ` set (DeclaredCapabilities ys)) \<and>
    set (split_on CHR '','' (CapabilityTypes xs)) = capType ` set (DeclaredCapabilities xs) \<and>
    distinct (split_on CHR '','' (CapabilityTypes xs))"
proof -
  note parts = capability_types_parts [OF assms(1,3)] capability_types_parts [OF assms(2,4)]
  have sets: "set (split_on CHR '','' (CapabilityTypes zs)) = capType ` set (DeclaredCapabilities zs)"
    if "split_on CHR '','' (CapabilityTypes zs) = sort (dedupe (map capType (DeclaredCapabilities zs)))" for zs
    using that by (simp add: set_dedupe)
  have "CapabilityTypes xs = CapabilityTypes ys"
    if "capType ` set (DeclaredCapabilities xs) = capType ` set (DeclaredCapabilities ys)"
  proof -
    have "sort (dedupe (map capType (DeclaredCapabilities xs))) = sort (dedupe (map capType (DeclaredCapabilities ys)))"
      by (rule sorted_distinct_set_unique) (simp_all add: distinct_dedupe set_dedupe that)
    then show ?thesis by (simp add: CapabilityTypes_def)
  qed
  then show ?thesis using sets [OF parts(1)] sets [OF parts(2)] parts(1)
    by (auto simp: distinct_dedupe)
qed

theorem capability_types_canonical_witness:
  "let v = ordinary CapabilityVolume None; p = ordinary CapabilityPort None;
       xs = [v, withGroup (Some (CapabilityGroup ''g'' [] True [p, v])) emptyCapability]; ys = [p, v]
   in CapabilityTypes xs = CapabilityTypes ys \<and>
      set (split_on CHR '','' (CapabilityTypes xs)) = {CapabilityVolume, CapabilityPort}"
proof -
  let ?v = "ordinary CapabilityVolume None" and ?p = "ordinary CapabilityPort None"
  have "DeclaredCapabilities [?v, withGroup (Some (CapabilityGroup ''g'' [] True [?p, ?v])) emptyCapability] = [?v, ?p, ?v]"
    "DeclaredCapabilities [?p, ?v] = [?p, ?v]"
    by (simp_all add: ordinary_def)
  moreover have "CHR '','' \<notin> set CapabilityVolume" "CHR '','' \<notin> set CapabilityPort"
    by (simp_all add: go_eval)
  ultimately show ?thesis
    using capability_types_canonical [of "[?v, withGroup (Some (CapabilityGroup ''g'' [] True [?p, ?v])) emptyCapability]" "[?p, ?v]"]
    by (auto simp: Let_def ordinary_def)
qed

end
