(* ===== verification/Surface.thy ===== *)
theory Surface
  imports Capabilities
begin

text \<open>
  The permission surface (\<open>spec/surface.go\<close> and the surface functions of
  \<open>spec/ssh_agent.go\<close>): the projection of a descriptor onto what the host must grant, and
  the diff that decides which updates may apply silently. The first six bytes of the SHA-256
  digest of a canonical config, in hexadecimal, are a parameter \<open>digest\<close> of the model:
  nothing that is proved depends on which function of the bytes it is.
\<close>

section \<open>Surfaces\<close>

record surface =
  NetworkInstallAllow :: "string list"
  NetworkInstallDeny :: "string list"
  NetworkRuntimeAllow :: "string list"
  NetworkRuntimeDeny :: "string list"
  NetworkInstallHTTPAllow :: "string list"
  NetworkInstallHTTPDeny :: "string list"
  NetworkRuntimeHTTPAllow :: "string list"
  NetworkRuntimeHTTPDeny :: "string list"
  CredentialsInstall :: "string list"
  CredentialsRuntime :: "string list"
  SSHAgentGrants :: "string list"
  StoragePaths :: "string list"
  SkillsPaths :: "string list"
  SkillsWritePaths :: "string list"
  Ports :: "string list"
  USB :: "string list"
  Privileged :: bool
  Services :: "string list"

definition emptySurface :: surface where
  "emptySurface =
     \<lparr>NetworkInstallAllow = [], NetworkInstallDeny = [], NetworkRuntimeAllow = [], NetworkRuntimeDeny = [],
      NetworkInstallHTTPAllow = [], NetworkInstallHTTPDeny = [], NetworkRuntimeHTTPAllow = [],
      NetworkRuntimeHTTPDeny = [], CredentialsInstall = [], CredentialsRuntime = [], SSHAgentGrants = [],
      StoragePaths = [], SkillsPaths = [], SkillsWritePaths = [], Ports = [], USB = [],
      Privileged = False, Services = []\<rparr>"

definition normalized :: "string list \<Rightarrow> string list" where
  "normalized xs = sort (dedupe xs)"

definition connectionHosts :: "network_entry list \<Rightarrow> string list" where
  "connectionHosts entries = normalized (concat (map (\<lambda>e. if Bounded e then [] else elems (Hosts e)) entries))"

definition entryGrants :: "network_entry \<Rightarrow> string list" where
  "entryGrants e =
     (let methods = (if MethodAny \<in> set (EntryMethods e) then [MethodAny] else EntryMethods e) in
      concat (map (\<lambda>host. concat (map (\<lambda>m. map (\<lambda>p. m @ '' '' @ host @ p) (EntryPaths e)) methods))
               (elems (Hosts e))))"

definition entrySurface :: "network_entry list \<Rightarrow> string list" where
  "entrySurface entries = concat (map entryGrants entries)"

definition capabilitySurfaceEntry :: "(string \<Rightarrow> string) \<Rightarrow> capability \<Rightarrow> string" where
  "capabilitySurfaceEntry digest n =
     (case capConfig n of
        None \<Rightarrow> capType n
      | Some cfg \<Rightarrow>
          if cfg = [] then capType n
          else (case marshal (JObj cfg) of
                  None \<Rightarrow> capType n @ ''+unencodable-config''
                | Some canonical \<Rightarrow> capType n @ ''+'' @ digest canonical))"

definition sshAgentSurface :: "ssh_agent \<Rightarrow> string list" where
  "sshAgentSurface a =
     concat (map (\<lambda>phase.
       if \<not> sshBounded a then [phase]
       else map (\<lambda>ns. phase @ '' sign '' @ ns) (elems (Sign a))
            @ map (\<lambda>d. phase @ '' authenticate '' @ d) (elems (Authenticate a))) (saPhase a))"

section \<open>Projecting a descriptor\<close>

definition addService :: "(string \<Rightarrow> string) \<Rightarrow> capability \<Rightarrow> surface \<Rightarrow> surface" where
  "addService digest n s = s\<lparr>Services := Services s @ [capabilitySurfaceEntry digest n]\<rparr>"

definition addInstallRules :: "network_rules_v2 option \<Rightarrow> surface \<Rightarrow> surface" where
  "addInstallRules r s =
     (case r of
        None \<Rightarrow> s
      | Some x \<Rightarrow>
          s\<lparr>NetworkInstallAllow := NetworkInstallAllow s @ connectionHosts (Allow x),
            NetworkInstallDeny := NetworkInstallDeny s @ connectionHosts (Deny x),
            NetworkInstallHTTPAllow := NetworkInstallHTTPAllow s @ entrySurface (Allow x),
            NetworkInstallHTTPDeny := NetworkInstallHTTPDeny s @ entrySurface (Deny x)\<rparr>)"

definition addRuntimeRules :: "network_rules_v2 option \<Rightarrow> surface \<Rightarrow> surface" where
  "addRuntimeRules r s =
     (case r of
        None \<Rightarrow> s
      | Some x \<Rightarrow>
          s\<lparr>NetworkRuntimeAllow := NetworkRuntimeAllow s @ connectionHosts (Allow x),
            NetworkRuntimeDeny := NetworkRuntimeDeny s @ connectionHosts (Deny x),
            NetworkRuntimeHTTPAllow := NetworkRuntimeHTTPAllow s @ entrySurface (Allow x),
            NetworkRuntimeHTTPDeny := NetworkRuntimeHTTPDeny s @ entrySurface (Deny x)\<rparr>)"

definition addCredential :: "credential \<Rightarrow> surface \<Rightarrow> surface" where
  "addCredential c s =
     foldl (\<lambda>s phase.
       if phase = ''install'' then s\<lparr>CredentialsInstall := CredentialsInstall s @ [Service c]\<rparr>
       else s\<lparr>CredentialsRuntime := CredentialsRuntime s @ [Service c]\<rparr>) s (crPhase c)"

definition addSkills :: "agent_skills \<Rightarrow> surface \<Rightarrow> surface" where
  "addSkills sk s =
     (let s' = s\<lparr>SkillsPaths := SkillsPaths s @ [skPath sk]\<rparr> in
      if SkillsWritable sk then s'\<lparr>SkillsWritePaths := SkillsWritePaths s' @ [skPath sk]\<rparr> else s')"

definition usbEntry :: "usb_device \<Rightarrow> string" where
  "usbEntry u = (if usbClass u \<noteq> [] then ''class:'' @ usbClass u else VendorID u @ '':'' @ ProductID u)"

text \<open>One entry added to the surface; a known entry whose config does not decode counts as a
  service.\<close>

definition decodedOr ::
  "(string \<Rightarrow> string) \<Rightarrow> 'a decoder \<Rightarrow> 'a \<Rightarrow> ('a \<Rightarrow> surface \<Rightarrow> surface) \<Rightarrow> capability \<Rightarrow> surface \<Rightarrow> surface" where
  "decodedOr digest d zero add n s =
     (case DecodeCapabilityConfig d zero n of Inl _ \<Rightarrow> addService digest n s | Inr x \<Rightarrow> add x s)"

definition surfaceStep :: "(string \<Rightarrow> string) \<Rightarrow> surface \<Rightarrow> capability \<Rightarrow> surface" where
  "surfaceStep digest s n =
     (let t = capType n in
      if t = CapabilityNetworkPolicy \<or> t = CapabilityNetworkPolicyV2 then
        (case NetworkPolicyV2Of [n] of
           Inr (Some p) \<Rightarrow> addRuntimeRules (Runtime p) (addInstallRules (Install p) s)
         | _ \<Rightarrow> addService digest n s)
      else if t = CapabilityCredential then
        decodedOr digest decode_credential zero_credential addCredential n s
      else if t = CapabilitySSHAgent then
        decodedOr digest decode_ssh_agent zero_ssh_agent
          (\<lambda>a s. s\<lparr>SSHAgentGrants := SSHAgentGrants s @ sshAgentSurface a\<rparr>) n s
      else if t = CapabilityAgentSkills then
        decodedOr digest decode_agent_skills zero_agent_skills addSkills n s
      else if t = CapabilityVolume then
        decodedOr digest decode_volume zero_volume
          (\<lambda>v s. s\<lparr>StoragePaths := StoragePaths s @ [vPath v]\<rparr>) n s
      else if t = CapabilityPort then
        decodedOr digest decode_port zero_port (\<lambda>p s. s\<lparr>Ports := Ports s @ [PortKey p]\<rparr>) n s
      else if t = CapabilityUSBDevice then
        decodedOr digest decode_usb_device zero_usb_device (\<lambda>u s. s\<lparr>USB := USB s @ [usbEntry u]\<rparr>) n s
      else if t = CapabilityPrivileged then s\<lparr>Privileged := True\<rparr>
      else if t \<in> {CapabilityResources, CapabilityLongRunning, CapabilityAgentSkill,
                  CapabilityAgentSessions, CapabilityLifecycle, CapabilityAgentContext, CapabilitySbx} then s
      else addService digest n s)"

definition normalizedSurface :: "surface \<Rightarrow> surface" where
  "normalizedSurface s =
     \<lparr>NetworkInstallAllow = normalized (NetworkInstallAllow s),
      NetworkInstallDeny = normalized (NetworkInstallDeny s),
      NetworkRuntimeAllow = normalized (NetworkRuntimeAllow s),
      NetworkRuntimeDeny = normalized (NetworkRuntimeDeny s),
      NetworkInstallHTTPAllow = normalized (NetworkInstallHTTPAllow s),
      NetworkInstallHTTPDeny = normalized (NetworkInstallHTTPDeny s),
      NetworkRuntimeHTTPAllow = normalized (NetworkRuntimeHTTPAllow s),
      NetworkRuntimeHTTPDeny = normalized (NetworkRuntimeHTTPDeny s),
      CredentialsInstall = normalized (CredentialsInstall s),
      CredentialsRuntime = normalized (CredentialsRuntime s),
      SSHAgentGrants = normalized (SSHAgentGrants s),
      StoragePaths = normalized (StoragePaths s),
      SkillsPaths = normalized (SkillsPaths s),
      SkillsWritePaths = normalized (SkillsWritePaths s),
      Ports = normalized (Ports s),
      USB = normalized (USB s),
      Privileged = Privileged s,
      Services = normalized (Services s)\<rparr>"

definition SurfaceOf :: "(string \<Rightarrow> string) \<Rightarrow> descriptor \<Rightarrow> surface" where
  "SurfaceOf digest d =
     normalizedSurface (foldl (surfaceStep digest) emptySurface (DeclaredCapabilities (Capabilities d)))"

section \<open>Diffing surfaces\<close>

record widening =
  Category :: string
  Detail :: string

definition widen :: "string \<Rightarrow> string \<Rightarrow> widening" where
  "widen c d = \<lparr>Category = c, Detail = d\<rparr>"

definition WideningString :: "widening \<Rightarrow> string" where
  "WideningString w = Category w @ '': '' @ Detail w"

definition FormatWidenings :: "widening list \<Rightarrow> string" where
  "FormatWidenings ws = join [CHR 0x0A] (map (\<lambda>w. ''  + '' @ WideningString w) ws)"

definition missingFrom :: "string list \<Rightarrow> string list \<Rightarrow> string list" where
  "missingFrom granted candidate = filter (\<lambda>c. c \<notin> set granted) candidate"

definition stripPort :: "string \<Rightarrow> string" where
  "stripPort domain = before (CHR '':'') domain"

record http_entry =
  heMethod :: string
  heHost :: string
  hePath :: string

definition parseHTTPEntry :: "string \<Rightarrow> http_entry" where
  "parseHTTPEntry entry =
     (case cut (CHR '' '') entry of (method, rest, _) \<Rightarrow>
        case cut (CHR ''/'') rest of (host, pathPart, ok) \<Rightarrow>
          if \<not> ok then \<lparr>heMethod = method, heHost = host, hePath = ''/''\<rparr>
          else \<lparr>heMethod = method, heHost = host, hePath = CHR ''/'' # pathPart\<rparr>)"

definition httpEntryHost :: "string \<Rightarrow> string" where
  "httpEntryHost entry =
     (case cut (CHR '' '') entry of (_, rest, ok) \<Rightarrow> if \<not> ok then [] else before (CHR ''/'') rest)"

definition pathPatternCovers :: "string \<Rightarrow> string \<Rightarrow> bool" where
  "pathPatternCovers granted candidate \<longleftrightarrow>
     (if granted = candidate then True
      else if has_suffix granted ''**'' \<and> has_suffix (trim_suffix granted ''**'') ''/''
      then has_prefix candidate (trim_suffix granted ''**'') \<or> candidate @ ''/'' = trim_suffix granted ''**''
      else False)"

definition hostCovers :: "string \<Rightarrow> string \<Rightarrow> bool" where
  "hostCovers granting candidate \<longleftrightarrow>
     (if granting = ''*'' \<or> granting = ''**'' then True
      else before (CHR '':'') granting = before (CHR '':'') candidate \<and>
           (after (CHR '':'') granting = [] \<or> after (CHR '':'') granting = after (CHR '':'') candidate))"

text \<open>The test both HTTP diffs run over the parsed entries of the covering side.\<close>

definition entryCovers :: "http_entry \<Rightarrow> http_entry \<Rightarrow> bool" where
  "entryCovers g c \<longleftrightarrow>
     hostCovers (heHost g) (heHost c) \<and> (heMethod g = heMethod c \<or> heMethod g = MethodAny) \<and>
     pathPatternCovers (hePath g) (hePath c)"

definition suppressed :: "string list \<Rightarrow> string list \<Rightarrow> string \<Rightarrow> bool" where
  "suppressed fresh candidateHosts entryHost =
     (case cut (CHR '':'') entryHost of (name, _, qualified) \<Rightarrow>
        if qualified then entryHost \<in> set fresh \<or> name \<in> set fresh
        else (let named = filter (\<lambda>h. stripPort h = name) candidateHosts in
              named \<noteq> [] \<and> list_all (\<lambda>h. h \<in> set fresh) named))"

definition httpWidenings :: "string list \<Rightarrow> string list \<Rightarrow> string list \<Rightarrow> string list \<Rightarrow> string list" where
  "httpWidenings grantedHosts candidateHosts grantedHTTP candidateHTTP =
     (let fresh = missingFrom grantedHosts candidateHosts in
      filter (\<lambda>e. let c = parseHTTPEntry e in
                \<not> list_ex (\<lambda>g. entryCovers (parseHTTPEntry g) c) grantedHTTP \<and>
                \<not> suppressed fresh candidateHosts (heHost c)) candidateHTTP)"

definition httpDenyRemovals :: "string list \<Rightarrow> string list \<Rightarrow> string list \<Rightarrow> string list \<Rightarrow> string list" where
  "httpDenyRemovals grantedHosts candidateHosts grantedDeny candidateDeny =
     (let dropped = missingFrom candidateHosts grantedHosts in
      filter (\<lambda>e. let g = parseHTTPEntry e in
                heHost g \<notin> set dropped \<and>
                \<not> list_ex (\<lambda>c. entryCovers (parseHTTPEntry c) g) candidateDeny) grantedDeny)"

definition completeHTTPGrants :: "string list \<Rightarrow> string list \<Rightarrow> string list" where
  "completeHTTPGrants hosts grants =
     (let bounded = map (\<lambda>entry. stripPort (httpEntryHost entry)) grants;
          entries = map hostEntry (filter (\<lambda>h. stripPort h \<notin> set bounded) hosts) in
      if entries = [] then grants else normalized (grants @ entrySurface entries))"

definition sshDestinationHost :: "string \<Rightarrow> string" where
  "sshDestinationHost d = (case cut_last (CHR ''@'') d of None \<Rightarrow> d | Some (_, host) \<Rightarrow> host)"

definition sshAgentCovered :: "string list \<Rightarrow> string \<Rightarrow> bool" where
  "sshAgentCovered granted c =
     (case cut (CHR '' '') c of (phase, rest, _) \<Rightarrow>
        if c \<in> set granted \<or> (phase \<in> set granted \<and> CHR '' '' \<notin> set phase) then True
        else if has_prefix rest ''authenticate '' then
          (let d = trim_prefix rest ''authenticate ''; host = sshDestinationHost d in
           host \<noteq> d \<and> (phase @ '' authenticate '' @ host) \<in> set granted)
        else False)"

definition sshAgentWidenings :: "string list \<Rightarrow> string list \<Rightarrow> string list" where
  "sshAgentWidenings granted candidate = filter (\<lambda>c. \<not> sshAgentCovered granted c) candidate"

definition DiffWidenings :: "surface \<Rightarrow> surface \<Rightarrow> widening list" where
  "DiffWidenings granted candidate =
     map (widen ''network.install.allow'') (missingFrom (NetworkInstallAllow granted) (NetworkInstallAllow candidate))
   @ map (widen ''network.runtime.allow'') (missingFrom (NetworkRuntimeAllow granted) (NetworkRuntimeAllow candidate))
   @ map (widen ''network.install.deny-removed'') (missingFrom (NetworkInstallDeny candidate) (NetworkInstallDeny granted))
   @ map (widen ''network.runtime.deny-removed'') (missingFrom (NetworkRuntimeDeny candidate) (NetworkRuntimeDeny granted))
   @ map (widen ''network.install.http.allow'')
       (httpWidenings (NetworkInstallAllow granted) (NetworkInstallAllow candidate)
          (completeHTTPGrants (NetworkInstallAllow granted) (NetworkInstallHTTPAllow granted))
          (NetworkInstallHTTPAllow candidate))
   @ map (widen ''network.runtime.http.allow'')
       (httpWidenings (NetworkRuntimeAllow granted) (NetworkRuntimeAllow candidate)
          (completeHTTPGrants (NetworkRuntimeAllow granted) (NetworkRuntimeHTTPAllow granted))
          (NetworkRuntimeHTTPAllow candidate))
   @ map (widen ''network.install.http.deny-removed'')
       (httpDenyRemovals (NetworkInstallDeny granted) (NetworkInstallDeny candidate)
          (NetworkInstallHTTPDeny granted) (NetworkInstallHTTPDeny candidate))
   @ map (widen ''network.runtime.http.deny-removed'')
       (httpDenyRemovals (NetworkRuntimeDeny granted) (NetworkRuntimeDeny candidate)
          (NetworkRuntimeHTTPDeny granted) (NetworkRuntimeHTTPDeny candidate))
   @ map (widen ''credentials.install'') (missingFrom (CredentialsInstall granted) (CredentialsInstall candidate))
   @ map (widen ''credentials.runtime'') (missingFrom (CredentialsRuntime granted) (CredentialsRuntime candidate))
   @ map (widen ''ssh-agent'') (sshAgentWidenings (SSHAgentGrants granted) (SSHAgentGrants candidate))
   @ map (widen ''storage'') (missingFrom (StoragePaths granted) (StoragePaths candidate))
   @ map (widen ''skills'') (missingFrom (SkillsPaths granted) (SkillsPaths candidate))
   @ map (widen ''skills.write'') (missingFrom (SkillsWritePaths granted) (SkillsWritePaths candidate))
   @ map (widen ''ports'') (missingFrom (Ports granted) (Ports candidate))
   @ map (widen ''usb'') (missingFrom (USB granted) (USB candidate))
   @ (if \<not> Privileged granted \<and> Privileged candidate
      then [widen ''privileged'' ''requests privileged execution''] else [])
   @ map (widen ''services'') (missingFrom (Services granted) (Services candidate))"

end
