(* ===== verification/Gate.thy ===== *)
theory Gate
  imports Surface
begin

text \<open>
  What the permission gate promises. An abstract relation states when one surface stays within
  another; the diff of \<open>DiffWidenings\<close> is empty exactly then, the relation is a preorder on
  the surfaces descriptors project to, narrowing never prompts, and no request of a
  descriptor escapes its surface.
\<close>

section \<open>Surfaces within surfaces\<close>

definition http_within :: "string list \<Rightarrow> string list \<Rightarrow> bool" where
  "http_within granted candidate \<longleftrightarrow>
     (\<forall>c \<in> set candidate. \<exists>g \<in> set granted. entryCovers (parseHTTPEntry g) (parseHTTPEntry c))"

definition surface_within :: "surface \<Rightarrow> surface \<Rightarrow> bool" where
  "surface_within g c \<longleftrightarrow>
     set (NetworkInstallAllow c) \<subseteq> set (NetworkInstallAllow g) \<and>
     set (NetworkRuntimeAllow c) \<subseteq> set (NetworkRuntimeAllow g) \<and>
     set (NetworkInstallDeny g) \<subseteq> set (NetworkInstallDeny c) \<and>
     set (NetworkRuntimeDeny g) \<subseteq> set (NetworkRuntimeDeny c) \<and>
     http_within (completeHTTPGrants (NetworkInstallAllow g) (NetworkInstallHTTPAllow g)) (NetworkInstallHTTPAllow c) \<and>
     http_within (completeHTTPGrants (NetworkRuntimeAllow g) (NetworkRuntimeHTTPAllow g)) (NetworkRuntimeHTTPAllow c) \<and>
     http_within (NetworkInstallHTTPDeny c) (NetworkInstallHTTPDeny g) \<and>
     http_within (NetworkRuntimeHTTPDeny c) (NetworkRuntimeHTTPDeny g) \<and>
     set (CredentialsInstall c) \<subseteq> set (CredentialsInstall g) \<and>
     set (CredentialsRuntime c) \<subseteq> set (CredentialsRuntime g) \<and>
     (\<forall>a \<in> set (SSHAgentGrants c). sshAgentCovered (SSHAgentGrants g) a) \<and>
     set (StoragePaths c) \<subseteq> set (StoragePaths g) \<and>
     set (SkillsPaths c) \<subseteq> set (SkillsPaths g) \<and>
     set (SkillsWritePaths c) \<subseteq> set (SkillsWritePaths g) \<and>
     set (Ports c) \<subseteq> set (Ports g) \<and>
     set (USB c) \<subseteq> set (USB g) \<and>
     (Privileged c \<longrightarrow> Privileged g) \<and>
     set (Services c) \<subseteq> set (Services g)"

lemma missingFrom_empty [simp]: "missingFrom g c = [] \<longleftrightarrow> set c \<subseteq> set g"
  by (auto simp: missingFrom_def filter_empty_conv)

text \<open>The suppression of entries of newly allowed hosts never hides the whole difference:
  when no host is newly allowed it suppresses nothing.\<close>

lemma not_suppressed: "\<not> suppressed [] hosts h"
  by (auto simp: suppressed_def cut_def Let_def list_all_iff filter_empty_conv)

lemma httpWidenings_empty:
  "set candidateHosts \<subseteq> set grantedHosts \<Longrightarrow>
   httpWidenings grantedHosts candidateHosts grantedHTTP candidateHTTP = [] \<longleftrightarrow>
   http_within grantedHTTP candidateHTTP"
proof -
  assume "set candidateHosts \<subseteq> set grantedHosts"
  then have none: "missingFrom grantedHosts candidateHosts = []" by simp
  show ?thesis
    unfolding httpWidenings_def none
    by (auto simp: Let_def not_suppressed filter_empty_conv http_within_def list_ex_iff)
qed

lemma httpDenyRemovals_empty:
  "set grantedHosts \<subseteq> set candidateHosts \<Longrightarrow>
   httpDenyRemovals grantedHosts candidateHosts grantedDeny candidateDeny = [] \<longleftrightarrow>
   http_within candidateDeny grantedDeny"
proof -
  assume "set grantedHosts \<subseteq> set candidateHosts"
  then have none: "missingFrom candidateHosts grantedHosts = []" by simp
  show ?thesis
    unfolding httpDenyRemovals_def none
    by (auto simp: Let_def filter_empty_conv http_within_def list_ex_iff)
qed

lemma sshAgentWidenings_empty:
  "sshAgentWidenings g c = [] \<longleftrightarrow> (\<forall>a \<in> set c. sshAgentCovered g a)"
  by (auto simp: sshAgentWidenings_def filter_empty_conv)

lemma diff_empty_iff: "DiffWidenings g c = [] \<longleftrightarrow> surface_within g c"
  unfolding DiffWidenings_def surface_within_def
  by (simp add: sshAgentWidenings_empty httpWidenings_empty httpDenyRemovals_empty cong: conj_cong)

section \<open>Coverage is a preorder\<close>

lemma pathPatternCovers_iff:
  "pathPatternCovers g c \<longleftrightarrow> g = c \<or> (\<exists>p. g = p @ ''/**'' \<and> (c = p \<or> (\<exists>r. c = p @ ''/'' @ r)))"
proof -
  have "has_suffix g ''**'' \<and> has_suffix (trim_suffix g ''**'') ''/'' \<longleftrightarrow> (\<exists>p. g = p @ ''/**'')"
  proof
    assume "has_suffix g ''**'' \<and> has_suffix (trim_suffix g ''**'') ''/''"
    then obtain r where "g = r @ ''**''" "has_suffix r ''/''"
      by (auto simp: has_suffix_iff trim_suffix_append)
    then show "\<exists>p. g = p @ ''/**''" by (auto simp: has_suffix_iff)
  next
    assume "\<exists>p. g = p @ ''/**''"
    then obtain p where "g = (p @ ''/'') @ ''**''" by auto
    then show "has_suffix g ''**'' \<and> has_suffix (trim_suffix g ''**'') ''/''"
      by (metis has_suffix_iff trim_suffix_append)
  qed
  moreover have "trim_suffix (p @ ''/**'') ''**'' = p @ ''/''" for p
    using trim_suffix_append [of "p @ ''/''" "''**''"] by simp
  ultimately show ?thesis
    by (auto simp: pathPatternCovers_def has_prefix_iff)
qed

lemma pathPatternCovers_refl [simp]: "pathPatternCovers p p"
  by (simp add: pathPatternCovers_iff)

lemma pathPatternCovers_trans:
  assumes "pathPatternCovers a b" "pathPatternCovers b c" "\<not> has_suffix a ''/**/**''"
  shows "pathPatternCovers a c"
proof (cases "a = b \<or> b = c")
  case False
  then obtain p where a: "a = p @ ''/**''" "b = p \<or> (\<exists>r. b = p @ ''/'' @ r)"
    using assms(1) by (auto simp: pathPatternCovers_iff)
  obtain q where b: "b = q @ ''/**''" "c = q \<or> (\<exists>s. c = q @ ''/'' @ s)"
    using assms(2) False by (auto simp: pathPatternCovers_iff)
  have "b \<noteq> p" using assms(3) a(1) b(1) by (auto simp: has_suffix_iff)
  then obtain r where r: "p @ ''/'' @ r = q @ ''/**''" using a(2) b(1) by auto
  have "\<exists>us. q = p @ us \<and> ''/'' @ r = us @ ''/**''"
  proof -
    consider us where "p = q @ us" "us @ ''/'' @ r = ''/**''" | us where "q = p @ us" "''/'' @ r = us @ ''/**''"
      using r by (auto simp: append_eq_append_conv2)
    then show ?thesis
    proof cases
      case 1
      then have "us = []" by (cases us) (auto simp: Cons_eq_append_conv append_eq_Cons_conv)
      with 1 show ?thesis by simp
    qed auto
  qed
  then obtain us where us: "q = p @ us" "''/'' @ r = us @ ''/**''" by blast
  show ?thesis
  proof (cases us)
    case Nil
    then show ?thesis using a(1) b(2) us(1) by (auto simp: pathPatternCovers_iff)
  next
    case (Cons x xs)
    then have "us = ''/'' @ xs" using us(2) by simp
    then show ?thesis using a(1) b(2) us(1) by (auto simp: pathPatternCovers_iff)
  qed
qed (use assms in auto)

lemma hostCovers_refl [simp]: "hostCovers h h"
  by (simp add: hostCovers_def)

lemma hostCovers_trans:
  assumes "hostCovers a b" "hostCovers b c" "a \<noteq> ''*:''" "a \<noteq> ''**:''"
  shows "hostCovers a c"
proof -
  have parts: "h = before (CHR '':'') h @ (if CHR '':'' \<in> set h then CHR '':'' # after (CHR '':'') h else [])" for h
    by (simp add: before_after)
  show ?thesis
  proof (cases "b = ''*'' \<or> b = ''**''")
    case True
    then have "a = ''*'' \<or> a = ''**''"
      using assms(1,3,4) parts [of a]
      by (auto simp: hostCovers_def before_def after_def split: if_splits)
    then show ?thesis by (auto simp: hostCovers_def)
  next
    case False
    then show ?thesis using assms(1,2) by (auto simp: hostCovers_def split: if_splits)
  qed
qed

lemma entryCovers_refl [simp]: "entryCovers e e"
  by (simp add: entryCovers_def)

text \<open>Entries outside two odd spellings: a universal pattern followed by an empty port, and a
  path that ends in two wildcard segments. On them containment is not spelled the way the
  comparison reads it.\<close>

definition tame_entry :: "string \<Rightarrow> bool" where
  "tame_entry e \<longleftrightarrow>
     heHost (parseHTTPEntry e) \<notin> {''*:'', ''**:''} \<and> \<not> has_suffix (hePath (parseHTTPEntry e)) ''/**/**''"

lemma entryCovers_trans:
  assumes "entryCovers (parseHTTPEntry a) b" "entryCovers b c" "tame_entry a"
  shows "entryCovers (parseHTTPEntry a) c"
  using assms
  by (auto simp: entryCovers_def tame_entry_def intro: hostCovers_trans pathPatternCovers_trans)

lemma http_within_refl: "set c \<subseteq> set g \<Longrightarrow> http_within g c"
  unfolding http_within_def by (meson entryCovers_refl subsetD)

lemma http_within_trans:
  assumes "http_within a b" "http_within b c" "list_all tame_entry a"
  shows "http_within a c"
  unfolding http_within_def
proof
  fix x assume "x \<in> set c"
  then obtain y where y: "y \<in> set b" "entryCovers (parseHTTPEntry y) (parseHTTPEntry x)"
    using assms(2) by (auto simp: http_within_def)
  then obtain z where "z \<in> set a" "entryCovers (parseHTTPEntry z) (parseHTTPEntry y)"
    using assms(1) by (auto simp: http_within_def)
  with y show "\<exists>z \<in> set a. entryCovers (parseHTTPEntry z) (parseHTTPEntry x)"
    using assms(3) unfolding list_all_iff by (blast intro: entryCovers_trans)
qed

lemma before_no_sep: "c \<notin> set (before c s)"
  by (auto simp: before_def dest: set_takeWhileD)

lemma sshAgentCovered_iff:
  "sshAgentCovered g c \<longleftrightarrow>
   c \<in> set g \<or> before (CHR '' '') c \<in> set g \<or>
   (\<exists>d. after (CHR '' '') c = ''authenticate '' @ d \<and> sshDestinationHost d \<noteq> d \<and>
      before (CHR '' '') c @ '' authenticate '' @ sshDestinationHost d \<in> set g)"
proof -
  have "trim_prefix (''authenticate '' @ d) ''authenticate '' = d" for d
    by (simp add: trim_prefix_def has_prefix_def)
  then show ?thesis
    by (auto simp: sshAgentCovered_def cut_def before_no_sep Let_def has_prefix_iff)
qed

lemma sshDestinationHost_idem: "sshDestinationHost (sshDestinationHost d) = sshDestinationHost d"
proof -
  have "CHR ''@'' \<notin> set (sshDestinationHost d)"
    by (auto simp: sshDestinationHost_def cut_last_def dest: set_takeWhileD split: option.splits)
  then show ?thesis by (simp add: sshDestinationHost_def [of "sshDestinationHost d"] cut_last_def)
qed

lemma sshAgentCovered_trans:
  assumes all: "\<forall>b \<in> set bs. sshAgentCovered as b" and c: "sshAgentCovered bs c"
  shows "sshAgentCovered as c"
proof -
  let ?ph = "before (CHR '' '') c"
  have ph: "before (CHR '' '') ?ph = ?ph" "after (CHR '' '') ?ph = []"
    by (simp_all add: before_no_sep)
  consider "c \<in> set bs" | "?ph \<in> set bs" |
    d where "after (CHR '' '') c = ''authenticate '' @ d" "sshDestinationHost d \<noteq> d"
      "?ph @ '' authenticate '' @ sshDestinationHost d \<in> set bs"
    using c by (auto simp: sshAgentCovered_iff)
  then show ?thesis
  proof cases
    case 1
    then show ?thesis using all by blast
  next
    case 2
    then have "sshAgentCovered as ?ph" using all by blast
    then have "?ph \<in> set as" by (simp add: sshAgentCovered_iff [of as ?ph] ph)
    then show ?thesis by (simp add: sshAgentCovered_iff)
  next
    case 3
    let ?b = "?ph @ '' authenticate '' @ sshDestinationHost d"
    have b: "before (CHR '' '') ?b = ?ph" "after (CHR '' '') ?b = ''authenticate '' @ sshDestinationHost d"
      using before_append [of "CHR '' ''" ?ph "''authenticate '' @ sshDestinationHost d"]
        after_append [of "CHR '' ''" ?ph "''authenticate '' @ sshDestinationHost d"]
      by (simp_all add: before_no_sep)
    have "sshAgentCovered as ?b" using all 3 by blast
    then have "?b \<in> set as \<or> ?ph \<in> set as"
      unfolding sshAgentCovered_iff [of as ?b] b using sshDestinationHost_idem by auto
    then show ?thesis using 3 by (auto simp: sshAgentCovered_iff)
  qed
qed

section \<open>Reconstructed HTTP grants\<close>

lemma set_normalized [simp]: "set (normalized xs) = set xs"
  by (simp add: normalized_def)

lemma completeHTTPGrants_superset: "set grants \<subseteq> set (completeHTTPGrants hosts grants)"
  by (auto simp: completeHTTPGrants_def Let_def)

definition accounted :: "string list \<Rightarrow> string list \<Rightarrow> bool" where
  "accounted hosts grants \<longleftrightarrow> (\<forall>h \<in> set hosts. MethodAny @ '' '' @ h @ ''/**'' \<in> set grants)"

lemma unbounded_grant:
  assumes "CHR ''/'' \<notin> set h"
  shows "httpEntryHost (MethodAny @ '' '' @ h @ ''/**'') = h"
  using assms before_append [of "CHR ''/''" h "''**''"]
  by (simp add: httpEntryHost_def MethodAny_def cut_def before_def after_def)

lemma completeHTTPGrants_accounted:
  assumes "accounted hosts grants" "list_all (\<lambda>h. CHR ''/'' \<notin> set h) hosts"
  shows "completeHTTPGrants hosts grants = grants"
proof -
  have "stripPort h \<in> (\<lambda>e. stripPort (httpEntryHost e)) ` set grants" if "h \<in> set hosts" for h
    using assms that unbounded_grant [of h] unfolding accounted_def list_all_iff by (metis imageI)
  then have "filter (\<lambda>h. stripPort h \<notin> set (map (\<lambda>e. stripPort (httpEntryHost e)) grants)) hosts = []"
    by (auto simp: filter_empty_conv)
  then show ?thesis by (simp add: completeHTTPGrants_def Let_def)
qed

section \<open>The projection entry by entry\<close>

definition surface_append :: "surface \<Rightarrow> surface \<Rightarrow> surface" where
  "surface_append s t =
     \<lparr>NetworkInstallAllow = NetworkInstallAllow s @ NetworkInstallAllow t,
      NetworkInstallDeny = NetworkInstallDeny s @ NetworkInstallDeny t,
      NetworkRuntimeAllow = NetworkRuntimeAllow s @ NetworkRuntimeAllow t,
      NetworkRuntimeDeny = NetworkRuntimeDeny s @ NetworkRuntimeDeny t,
      NetworkInstallHTTPAllow = NetworkInstallHTTPAllow s @ NetworkInstallHTTPAllow t,
      NetworkInstallHTTPDeny = NetworkInstallHTTPDeny s @ NetworkInstallHTTPDeny t,
      NetworkRuntimeHTTPAllow = NetworkRuntimeHTTPAllow s @ NetworkRuntimeHTTPAllow t,
      NetworkRuntimeHTTPDeny = NetworkRuntimeHTTPDeny s @ NetworkRuntimeHTTPDeny t,
      CredentialsInstall = CredentialsInstall s @ CredentialsInstall t,
      CredentialsRuntime = CredentialsRuntime s @ CredentialsRuntime t,
      SSHAgentGrants = SSHAgentGrants s @ SSHAgentGrants t,
      StoragePaths = StoragePaths s @ StoragePaths t,
      SkillsPaths = SkillsPaths s @ SkillsPaths t,
      SkillsWritePaths = SkillsWritePaths s @ SkillsWritePaths t,
      Ports = Ports s @ Ports t,
      USB = USB s @ USB t,
      Privileged = (Privileged s \<or> Privileged t),
      Services = Services s @ Services t\<rparr>"

lemma surface_append_assoc: "surface_append (surface_append s t) u = surface_append s (surface_append t u)"
  by (simp add: surface_append_def)

lemma surface_append_empty [simp]: "surface_append s emptySurface = s" "surface_append emptySurface s = s"
  by (simp_all add: surface_append_def emptySurface_def)

text \<open>A step adds what it would have made of the empty surface.\<close>

definition additive :: "(surface \<Rightarrow> surface) \<Rightarrow> bool" where
  "additive f \<longleftrightarrow> (\<forall>s. f s = surface_append s (f emptySurface))"

lemma additive_id: "additive (\<lambda>s. s)"
  by (simp add: additive_def)

lemma additive_comp:
  assumes "additive f" "additive g"
  shows "additive (\<lambda>s. f (g s))"
  unfolding additive_def
proof
  fix s
  have "f (g s) = surface_append (surface_append s (g emptySurface)) (f emptySurface)"
    using assms unfolding additive_def by metis
  also have "\<dots> = surface_append s (surface_append (g emptySurface) (f emptySurface))"
    by (rule surface_append_assoc)
  also have "surface_append (g emptySurface) (f emptySurface) = f (g emptySurface)"
    using assms(1) unfolding additive_def by metis
  finally show "f (g s) = surface_append s (f (g emptySurface))" .
qed

lemma additive_foldl:
  assumes "\<And>x. additive (\<lambda>s. step s x)"
  shows "additive (\<lambda>s. foldl step s xs)"
proof (induction xs)
  case (Cons x xs)
  show ?case using additive_comp [OF Cons assms [of x]] by simp
qed (simp add: additive_id)

lemma additive_if: "additive f \<Longrightarrow> additive g \<Longrightarrow> additive (\<lambda>s. if b then f s else g s)"
  by (cases b) simp_all

lemma additive_fields:
  "additive (\<lambda>s. s\<lparr>SSHAgentGrants := SSHAgentGrants s @ xs\<rparr>)"
  "additive (\<lambda>s. s\<lparr>StoragePaths := StoragePaths s @ xs\<rparr>)"
  "additive (\<lambda>s. s\<lparr>Ports := Ports s @ xs\<rparr>)"
  "additive (\<lambda>s. s\<lparr>USB := USB s @ xs\<rparr>)"
  "additive (\<lambda>s. s\<lparr>Privileged := True\<rparr>)"
  "additive (\<lambda>s. s\<lparr>CredentialsInstall := CredentialsInstall s @ xs\<rparr>)"
  "additive (\<lambda>s. s\<lparr>CredentialsRuntime := CredentialsRuntime s @ xs\<rparr>)"
  "additive (\<lambda>s. s\<lparr>SkillsPaths := SkillsPaths s @ xs\<rparr>)"
  "additive (\<lambda>s. s\<lparr>SkillsWritePaths := SkillsWritePaths s @ xs\<rparr>)"
  "additive (addService digest n)"
  by (simp_all add: additive_def surface_append_def emptySurface_def addService_def)

lemma additive_rules: "additive (addInstallRules r)" "additive (addRuntimeRules r)"
  by (cases r; simp add: additive_def addInstallRules_def addRuntimeRules_def surface_append_def emptySurface_def)+

lemma additive_credential: "additive (addCredential c)"
  unfolding addCredential_def by (intro additive_foldl additive_if additive_fields)

lemma additive_skills: "additive (addSkills sk)"
proof -
  have "additive (\<lambda>s. if SkillsWritable sk
      then (s\<lparr>SkillsPaths := SkillsPaths s @ [skPath sk]\<rparr>)
        \<lparr>SkillsWritePaths := SkillsWritePaths (s\<lparr>SkillsPaths := SkillsPaths s @ [skPath sk]\<rparr>) @ [skPath sk]\<rparr>
      else s\<lparr>SkillsPaths := SkillsPaths s @ [skPath sk]\<rparr>)"
    by (rule additive_if [OF additive_comp [OF additive_fields(9) additive_fields(8)] additive_fields(8)])
  then show ?thesis by (simp only: addSkills_def [abs_def] Let_def)
qed

lemma additive_decoded: "(\<And>x. additive (add x)) \<Longrightarrow> additive (decodedOr digest d zero add n)"
  by (cases "DecodeCapabilityConfig d zero n") (simp_all add: decodedOr_def [abs_def] additive_fields)

lemma additive_network:
  "additive (\<lambda>s. case p of
      Inr (Some x) \<Rightarrow> addRuntimeRules (Runtime x) (addInstallRules (Install x) s)
    | _ \<Rightarrow> addService digest n s)"
proof (cases p)
  case (Inr q)
  then show ?thesis
    by (cases q) (simp_all add: additive_fields additive_comp [OF additive_rules(2) additive_rules(1)])
qed (simp add: additive_fields)

lemma additive_step: "additive (\<lambda>s. surfaceStep digest s n)"
  unfolding surfaceStep_def Let_def
  by (intro additive_if additive_network additive_decoded additive_credential additive_skills
      additive_fields additive_id)

definition contribution :: "(string \<Rightarrow> string) \<Rightarrow> capability \<Rightarrow> surface" where
  "contribution digest n = surfaceStep digest emptySurface n"

text \<open>Any list field of the projection collects the contributions of the declared entries.\<close>

lemma projected_field:
  assumes app: "\<And>s t. F (surface_append s t) = F s @ F t" and emp: "F emptySurface = []"
  shows "F (foldl (surfaceStep digest) emptySurface ns) = concat (map (\<lambda>n. F (contribution digest n)) ns)"
proof -
  have "F (foldl (surfaceStep digest) s ns) = F s @ concat (map (\<lambda>n. F (contribution digest n)) ns)" for s
  proof (induction ns arbitrary: s)
    case (Cons n ns)
    have "surfaceStep digest s n = surface_append s (contribution digest n)"
      by (rule additive_step [unfolded additive_def, THEN spec, folded contribution_def])
    then show ?case by (simp add: Cons.IH app)
  qed simp
  then show ?thesis by (simp add: emp)
qed

lemma SurfaceOf_field:
  assumes "\<And>s. F (normalizedSurface s) = normalized (F s)"
    and "\<And>s t. F (surface_append s t) = F s @ F t" and "F emptySurface = []"
  shows "set (F (SurfaceOf digest d)) =
    (\<Union>n \<in> set (DeclaredCapabilities (Capabilities d)). set (F (contribution digest n)))"
  by (simp add: SurfaceOf_def assms(1) projected_field [of F, OF assms(2,3)])

lemma SurfaceOf_sets:
  "set (NetworkInstallAllow (SurfaceOf digest d)) = (\<Union>n \<in> set (DeclaredCapabilities (Capabilities d)). set (NetworkInstallAllow (contribution digest n)))"
  "set (NetworkInstallDeny (SurfaceOf digest d)) = (\<Union>n \<in> set (DeclaredCapabilities (Capabilities d)). set (NetworkInstallDeny (contribution digest n)))"
  "set (NetworkRuntimeAllow (SurfaceOf digest d)) = (\<Union>n \<in> set (DeclaredCapabilities (Capabilities d)). set (NetworkRuntimeAllow (contribution digest n)))"
  "set (NetworkRuntimeDeny (SurfaceOf digest d)) = (\<Union>n \<in> set (DeclaredCapabilities (Capabilities d)). set (NetworkRuntimeDeny (contribution digest n)))"
  "set (NetworkInstallHTTPAllow (SurfaceOf digest d)) = (\<Union>n \<in> set (DeclaredCapabilities (Capabilities d)). set (NetworkInstallHTTPAllow (contribution digest n)))"
  "set (NetworkInstallHTTPDeny (SurfaceOf digest d)) = (\<Union>n \<in> set (DeclaredCapabilities (Capabilities d)). set (NetworkInstallHTTPDeny (contribution digest n)))"
  "set (NetworkRuntimeHTTPAllow (SurfaceOf digest d)) = (\<Union>n \<in> set (DeclaredCapabilities (Capabilities d)). set (NetworkRuntimeHTTPAllow (contribution digest n)))"
  "set (NetworkRuntimeHTTPDeny (SurfaceOf digest d)) = (\<Union>n \<in> set (DeclaredCapabilities (Capabilities d)). set (NetworkRuntimeHTTPDeny (contribution digest n)))"
  "set (CredentialsInstall (SurfaceOf digest d)) = (\<Union>n \<in> set (DeclaredCapabilities (Capabilities d)). set (CredentialsInstall (contribution digest n)))"
  "set (CredentialsRuntime (SurfaceOf digest d)) = (\<Union>n \<in> set (DeclaredCapabilities (Capabilities d)). set (CredentialsRuntime (contribution digest n)))"
  "set (SSHAgentGrants (SurfaceOf digest d)) = (\<Union>n \<in> set (DeclaredCapabilities (Capabilities d)). set (SSHAgentGrants (contribution digest n)))"
  "set (StoragePaths (SurfaceOf digest d)) = (\<Union>n \<in> set (DeclaredCapabilities (Capabilities d)). set (StoragePaths (contribution digest n)))"
  "set (SkillsPaths (SurfaceOf digest d)) = (\<Union>n \<in> set (DeclaredCapabilities (Capabilities d)). set (SkillsPaths (contribution digest n)))"
  "set (SkillsWritePaths (SurfaceOf digest d)) = (\<Union>n \<in> set (DeclaredCapabilities (Capabilities d)). set (SkillsWritePaths (contribution digest n)))"
  "set (Ports (SurfaceOf digest d)) = (\<Union>n \<in> set (DeclaredCapabilities (Capabilities d)). set (Ports (contribution digest n)))"
  "set (USB (SurfaceOf digest d)) = (\<Union>n \<in> set (DeclaredCapabilities (Capabilities d)). set (USB (contribution digest n)))"
  "set (Services (SurfaceOf digest d)) = (\<Union>n \<in> set (DeclaredCapabilities (Capabilities d)). set (Services (contribution digest n)))"
  by (rule SurfaceOf_field; simp add: normalizedSurface_def surface_append_def emptySurface_def)+

lemma SurfaceOf_Privileged:
  "Privileged (SurfaceOf digest d) \<longleftrightarrow>
   (\<exists>n \<in> set (DeclaredCapabilities (Capabilities d)). Privileged (contribution digest n))"
proof -
  have "Privileged (foldl (surfaceStep digest) s ns) \<longleftrightarrow>
      Privileged s \<or> (\<exists>n \<in> set ns. Privileged (contribution digest n))" for s ns
  proof (induction ns arbitrary: s)
    case (Cons n ns)
    have "surfaceStep digest s n = surface_append s (contribution digest n)"
      by (rule additive_step [unfolded additive_def, THEN spec, folded contribution_def])
    then show ?case by (auto simp: Cons.IH surface_append_def)
  qed simp
  then show ?thesis
    by (simp add: SurfaceOf_def normalizedSurface_def) (simp add: emptySurface_def)
qed

lemma normalized_cong: "set xs = set ys \<Longrightarrow> normalized xs = normalized ys"
  unfolding normalized_def by (rule sorted_distinct_set_unique) auto

lemma SurfaceOf_normal: "normalizedSurface (SurfaceOf digest d) = SurfaceOf digest d"
proof -
  have "normalized (normalized xs) = normalized xs" for xs
    by (rule normalized_cong) simp
  then show ?thesis by (simp add: SurfaceOf_def normalizedSurface_def)
qed

text \<open>Surfaces compare structurally: the surface of a descriptor depends only on
  the set of ordinary entries it declares, in groups or outside them, whatever their order
  and repetition.\<close>

theorem surface_canonical:
  assumes "set (DeclaredCapabilities (Capabilities d)) = set (DeclaredCapabilities (Capabilities d'))"
  shows "SurfaceOf digest d = SurfaceOf digest d'"
proof -
  have "normalizedSurface (SurfaceOf digest d) = normalizedSurface (SurfaceOf digest d')"
    unfolding normalizedSurface_def
    by (intro surface.equality; simp only: surface.select_convs; (intro normalized_cong)?;
        simp only: SurfaceOf_sets SurfaceOf_Privileged assms)
  then show ?thesis by (simp only: SurfaceOf_normal)
qed

section \<open>Unbounded hosts and their HTTP grants\<close>

definition hosts_accounted :: "surface \<Rightarrow> bool" where
  "hosts_accounted s \<longleftrightarrow>
     accounted (NetworkInstallAllow s) (NetworkInstallHTTPAllow s) \<and>
     accounted (NetworkRuntimeAllow s) (NetworkRuntimeHTTPAllow s)"

lemma accounted_entries: "accounted (connectionHosts entries) (entrySurface entries)"
proof -
  have "MethodAny @ '' '' @ h @ ''/**'' \<in> set (entryGrants e)" if "\<not> Bounded e" "h \<in> set (elems (Hosts e))" for e h
    using that by (force simp: entryGrants_def Bounded_def EntryMethods_def EntryPaths_def)
  then show ?thesis
    by (fastforce simp: accounted_def connectionHosts_def entrySurface_def split: if_splits)
qed

lemma accounted_append: "accounted hs gs \<Longrightarrow> accounted hs' gs' \<Longrightarrow> accounted (hs @ hs') (gs @ gs')"
  by (auto simp: accounted_def)

lemma accounted_simple:
  "hosts_accounted s \<Longrightarrow> hosts_accounted (addService digest n s)"
  "hosts_accounted s \<Longrightarrow> hosts_accounted (addSkills sk s)"
  "hosts_accounted s \<Longrightarrow> hosts_accounted (addInstallRules r s)"
  "hosts_accounted s \<Longrightarrow> hosts_accounted (addRuntimeRules r s)"
  by (auto simp: hosts_accounted_def addService_def addSkills_def Let_def addInstallRules_def
      addRuntimeRules_def accounted_append accounted_entries split: option.splits)

lemma accounted_credential: "hosts_accounted s \<Longrightarrow> hosts_accounted (addCredential c s)"
proof -
  have "hosts_accounted (foldl (\<lambda>s phase.
       if phase = ''install'' then s\<lparr>CredentialsInstall := CredentialsInstall s @ [Service c]\<rparr>
       else s\<lparr>CredentialsRuntime := CredentialsRuntime s @ [Service c]\<rparr>) s ps)" if "hosts_accounted s" for s ps
    using that by (induction ps arbitrary: s) (auto simp: hosts_accounted_def)
  then show "hosts_accounted s \<Longrightarrow> ?thesis" by (simp add: addCredential_def)
qed

lemma accounted_decoded:
  "(\<And>x s. hosts_accounted s \<Longrightarrow> hosts_accounted (add x s)) \<Longrightarrow> hosts_accounted s \<Longrightarrow>
   hosts_accounted (decodedOr digest d zero add n s)"
  by (auto simp: decodedOr_def accounted_simple split: sum.splits)

lemma accounted_step:
  assumes "hosts_accounted s"
  shows "hosts_accounted (surfaceStep digest s n)"
proof -
  have net: "hosts_accounted (case NetworkPolicyV2Of [n] of
      Inr (Some p) \<Rightarrow> addRuntimeRules (Runtime p) (addInstallRules (Install p) s)
    | _ \<Rightarrow> addService digest n s)"
    using assms by (auto simp: accounted_simple split: sum.splits option.splits)
  have fields: "hosts_accounted (t\<lparr>SSHAgentGrants := xs\<rparr>)" "hosts_accounted (t\<lparr>StoragePaths := xs\<rparr>)"
    "hosts_accounted (t\<lparr>Ports := xs\<rparr>)" "hosts_accounted (t\<lparr>USB := xs\<rparr>)" "hosts_accounted (t\<lparr>Privileged := b\<rparr>)"
    if "hosts_accounted t" for t xs b
    using that by (simp_all add: hosts_accounted_def)
  show ?thesis
    unfolding surfaceStep_def Let_def
    using assms net fields accounted_simple accounted_credential
    by (simp add: accounted_decoded split del: if_split) (simp add: accounted_decoded)
qed

lemma accounted_foldl:
  "hosts_accounted s \<Longrightarrow> hosts_accounted (foldl (surfaceStep digest) s ns)"
  by (induction ns arbitrary: s) (auto intro: accounted_step)

lemma SurfaceOf_accounted: "hosts_accounted (SurfaceOf digest d)"
proof -
  have "hosts_accounted (foldl (surfaceStep digest) emptySurface (DeclaredCapabilities (Capabilities d)))"
    by (rule accounted_foldl) (simp add: hosts_accounted_def accounted_def emptySurface_def)
  then show ?thesis
    by (simp add: SurfaceOf_def normalizedSurface_def hosts_accounted_def accounted_def)
qed

definition plain_hosts :: "surface \<Rightarrow> bool" where
  "plain_hosts s \<longleftrightarrow> list_all (\<lambda>h. CHR ''/'' \<notin> set h) (NetworkInstallAllow s @ NetworkRuntimeAllow s)"

lemma complete_SurfaceOf:
  assumes "plain_hosts (SurfaceOf digest d)"
  shows "completeHTTPGrants (NetworkInstallAllow (SurfaceOf digest d)) (NetworkInstallHTTPAllow (SurfaceOf digest d))
      = NetworkInstallHTTPAllow (SurfaceOf digest d)"
    "completeHTTPGrants (NetworkRuntimeAllow (SurfaceOf digest d)) (NetworkRuntimeHTTPAllow (SurfaceOf digest d))
      = NetworkRuntimeHTTPAllow (SurfaceOf digest d)"
  using assms SurfaceOf_accounted [of digest d]
  by (simp_all add: completeHTTPGrants_accounted plain_hosts_def hosts_accounted_def)

section \<open>The gate\<close>


text \<open>Narrowing never prompts: a candidate that drops grants and keeps or adds denies
  has an empty diff, and so has an unchanged surface.\<close>

theorem narrowing_silent:
  assumes "set (NetworkInstallAllow c) \<subseteq> set (NetworkInstallAllow g)"
    "set (NetworkRuntimeAllow c) \<subseteq> set (NetworkRuntimeAllow g)"
    "set (NetworkInstallHTTPAllow c) \<subseteq> set (NetworkInstallHTTPAllow g)"
    "set (NetworkRuntimeHTTPAllow c) \<subseteq> set (NetworkRuntimeHTTPAllow g)"
    "set (NetworkInstallDeny g) \<subseteq> set (NetworkInstallDeny c)"
    "set (NetworkRuntimeDeny g) \<subseteq> set (NetworkRuntimeDeny c)"
    "set (NetworkInstallHTTPDeny g) \<subseteq> set (NetworkInstallHTTPDeny c)"
    "set (NetworkRuntimeHTTPDeny g) \<subseteq> set (NetworkRuntimeHTTPDeny c)"
    "set (CredentialsInstall c) \<subseteq> set (CredentialsInstall g)"
    "set (CredentialsRuntime c) \<subseteq> set (CredentialsRuntime g)"
    "set (SSHAgentGrants c) \<subseteq> set (SSHAgentGrants g)" "set (StoragePaths c) \<subseteq> set (StoragePaths g)"
    "set (SkillsPaths c) \<subseteq> set (SkillsPaths g)" "set (SkillsWritePaths c) \<subseteq> set (SkillsWritePaths g)"
    "set (Ports c) \<subseteq> set (Ports g)" "set (USB c) \<subseteq> set (USB g)" "Privileged c \<longrightarrow> Privileged g"
    "set (Services c) \<subseteq> set (Services g)"
  shows "DiffWidenings g c = [] \<and> DiffWidenings g g = []"
proof -
  have "http_within (completeHTTPGrants hs gs) cs" if "set cs \<subseteq> set gs" for hs gs cs
    using that completeHTTPGrants_superset [of gs hs] by (intro http_within_refl) blast
  then show ?thesis
    using assms by (auto simp: diff_empty_iff surface_within_def http_within_refl sshAgentCovered_iff)
qed

definition tame_surface :: "surface \<Rightarrow> bool" where
  "tame_surface s \<longleftrightarrow>
     plain_hosts s \<and>
     list_all tame_entry (NetworkInstallHTTPAllow s @ NetworkRuntimeHTTPAllow s @
       NetworkInstallHTTPDeny s @ NetworkRuntimeHTTPDeny s)"

text \<open>Property C9. Silent updates compose: when a first update of a kit stays within the granted
  surface and a second one within the first, installing the second directly would not have
  prompted either, so no sequence of silent updates gains what one update would have to
  ask for. The surfaces are those of descriptors, over hosts without a slash and entries
  outside the two odd spellings.\<close>

theorem silent_updates_compose:
  assumes "DiffWidenings (SurfaceOf digest d1) (SurfaceOf digest d2) = []"
    and "DiffWidenings (SurfaceOf digest d2) (SurfaceOf digest d3) = []"
    and "tame_surface (SurfaceOf digest d1)" "tame_surface (SurfaceOf digest d2)" "tame_surface (SurfaceOf digest d3)"
  shows "DiffWidenings (SurfaceOf digest d1) (SurfaceOf digest d3) = []"
proof -
  have plain: "plain_hosts (SurfaceOf digest d1)" "plain_hosts (SurfaceOf digest d2)"
    using assms by (simp_all add: tame_surface_def)
  note complete = complete_SurfaceOf [OF plain(1)] complete_SurfaceOf [OF plain(2)]
  have 12: "surface_within (SurfaceOf digest d1) (SurfaceOf digest d2)"
    and 23: "surface_within (SurfaceOf digest d2) (SurfaceOf digest d3)"
    using assms(1,2) by (simp_all add: diff_empty_iff)
  have tame1: "list_all tame_entry (NetworkInstallHTTPAllow (SurfaceOf digest d1))"
    "list_all tame_entry (NetworkRuntimeHTTPAllow (SurfaceOf digest d1))"
    and tame3: "list_all tame_entry (NetworkInstallHTTPDeny (SurfaceOf digest d3))"
    "list_all tame_entry (NetworkRuntimeHTTPDeny (SurfaceOf digest d3))"
    using assms(3,5) by (simp_all add: tame_surface_def)
  show ?thesis
    using 12 23 tame1 tame3 unfolding diff_empty_iff surface_within_def complete
    by (elim conjE, intro conjI)
      (auto intro: http_within_trans sshAgentCovered_trans)
qed

text \<open>Reconstructing the HTTP grants that older surfaces leave implicit adds nothing
  to a surface \<open>SurfaceOf\<close> produced, over hosts without a slash.\<close>

theorem complete_grants_idle:
  assumes "plain_hosts (SurfaceOf digest d)"
  shows "completeHTTPGrants (NetworkInstallAllow (SurfaceOf digest d)) (NetworkInstallHTTPAllow (SurfaceOf digest d))
      = NetworkInstallHTTPAllow (SurfaceOf digest d) \<and>
    completeHTTPGrants (NetworkRuntimeAllow (SurfaceOf digest d)) (NetworkRuntimeHTTPAllow (SurfaceOf digest d))
      = NetworkRuntimeHTTPAllow (SurfaceOf digest d)"
  using complete_SurfaceOf [OF assms] by simp

section \<open>No request escapes the surface\<close>

text \<open>The types the projection reads into fields of their own, and those that ask the host for
  nothing across the boundary.\<close>

definition projectedTypes :: "string list" where
  "projectedTypes =
     [CapabilityNetworkPolicy, CapabilityNetworkPolicyV2, CapabilityCredential, CapabilitySSHAgent,
      CapabilityAgentSkills, CapabilityVolume, CapabilityPort, CapabilityUSBDevice, CapabilityPrivileged]"

definition contentTypes :: "string list" where
  "contentTypes =
     [CapabilityResources, CapabilityLongRunning, CapabilityAgentSkill, CapabilityAgentSessions,
      CapabilityLifecycle, CapabilityAgentContext, CapabilitySbx]"

lemma credential_foldl:
  fixes s :: surface
  defines "step \<equiv> \<lambda>c (s :: surface) phase.
       if phase = ''install'' then s\<lparr>CredentialsInstall := CredentialsInstall s @ [Service c]\<rparr>
       else s\<lparr>CredentialsRuntime := CredentialsRuntime s @ [Service c]\<rparr>"
  shows "CredentialsInstall (foldl (step c) s ps) = CredentialsInstall s @ map (\<lambda>_. Service c) (filter (\<lambda>p. p = ''install'') ps) \<and>
    CredentialsRuntime (foldl (step c) s ps) = CredentialsRuntime s @ map (\<lambda>_. Service c) (filter (\<lambda>p. p \<noteq> ''install'') ps)"
  by (induction ps arbitrary: s) (simp_all add: step_def)

lemma addCredential_lists:
  "CredentialsInstall (addCredential c s) = CredentialsInstall s @ map (\<lambda>_. Service c) (filter (\<lambda>p. p = ''install'') (crPhase c))"
  "CredentialsRuntime (addCredential c s) = CredentialsRuntime s @ map (\<lambda>_. Service c) (filter (\<lambda>p. p \<noteq> ''install'') (crPhase c))"
  using credential_foldl [of c s "crPhase c"] by (simp_all only: addCredential_def)

definition credential_marked :: "surface \<Rightarrow> credential \<Rightarrow> bool" where
  "credential_marked s c \<longleftrightarrow>
     (''install'' \<in> set (crPhase c) \<longrightarrow> Service c \<in> set (CredentialsInstall s)) \<and>
     (set (crPhase c) \<subseteq> {''install''} \<or> Service c \<in> set (CredentialsRuntime s))"

lemma credential_mark: "credential_marked (addCredential c s) c"
  unfolding credential_marked_def addCredential_lists by auto

text \<open>An entry leaves its mark on a surface: under its type and config digest among the services
  when its type is unknown or its config does not decode, under its own identity otherwise.\<close>

definition decoded_mark :: "'a decoder \<Rightarrow> 'a \<Rightarrow> bool \<Rightarrow> ('a \<Rightarrow> bool) \<Rightarrow> capability \<Rightarrow> bool" where
  "decoded_mark d zero service mark n =
     (case DecodeCapabilityConfig d zero n of Inl _ \<Rightarrow> service | Inr x \<Rightarrow> mark x)"

definition rules_mark :: "network_rules_v2 option \<Rightarrow> string list \<Rightarrow> string list \<Rightarrow> bool" where
  "rules_mark r hosts grants =
     (case r of
        None \<Rightarrow> True
      | Some x \<Rightarrow> set (connectionHosts (Allow x)) \<subseteq> set hosts \<and> set (entrySurface (Allow x)) \<subseteq> set grants)"

definition network_mark :: "(string \<Rightarrow> string) \<Rightarrow> capability \<Rightarrow> surface \<Rightarrow> bool" where
  "network_mark digest n s =
     (case NetworkPolicyV2Of [n] of
        Inr (Some p) \<Rightarrow>
          rules_mark (Install p) (NetworkInstallAllow s) (NetworkInstallHTTPAllow s) \<and>
          rules_mark (Runtime p) (NetworkRuntimeAllow s) (NetworkRuntimeHTTPAllow s)
      | _ \<Rightarrow> capabilitySurfaceEntry digest n \<in> set (Services s))"

definition leaves_mark :: "(string \<Rightarrow> string) \<Rightarrow> capability \<Rightarrow> surface \<Rightarrow> bool" where
  "leaves_mark digest n s \<longleftrightarrow>
     (let t = capType n; service = (capabilitySurfaceEntry digest n \<in> set (Services s)) in
      if t = CapabilityPrivileged then Privileged s
      else if t = CapabilityVolume then
        decoded_mark decode_volume zero_volume service (\<lambda>v. vPath v \<in> set (StoragePaths s)) n
      else if t = CapabilityPort then
        decoded_mark decode_port zero_port service (\<lambda>p. PortKey p \<in> set (Ports s)) n
      else if t = CapabilityUSBDevice then
        decoded_mark decode_usb_device zero_usb_device service (\<lambda>u. usbEntry u \<in> set (USB s)) n
      else if t = CapabilityAgentSkills then
        decoded_mark decode_agent_skills zero_agent_skills service
          (\<lambda>sk. skPath sk \<in> set (SkillsPaths s) \<and> (SkillsWritable sk \<longrightarrow> skPath sk \<in> set (SkillsWritePaths s))) n
      else if t = CapabilityCredential then
        decoded_mark decode_credential zero_credential service
          (credential_marked s) n
      else if t = CapabilitySSHAgent then
        decoded_mark decode_ssh_agent zero_ssh_agent service
          (\<lambda>a. set (sshAgentSurface a) \<subseteq> set (SSHAgentGrants s)) n
      else if t = CapabilityNetworkPolicy \<or> t = CapabilityNetworkPolicyV2 then network_mark digest n s
      else t \<in> set contentTypes \<or> service)"

lemma capability_types_differ:
  "distinct [CapabilityPrivileged, CapabilityVolume, CapabilityPort, CapabilityUSBDevice, CapabilityAgentSkills,
     CapabilityCredential, CapabilitySSHAgent, CapabilityNetworkPolicy, CapabilityNetworkPolicyV2]"
  "distinct [CapabilityNetworkPolicyV2, CapabilityNetworkPolicy, CapabilitySSHAgent, CapabilityCredential,
     CapabilityAgentSkills, CapabilityUSBDevice, CapabilityPort, CapabilityVolume, CapabilityPrivileged]"
  by code_simp+

lemma type_cases:
  obtains "capType n = CapabilityPrivileged" | "capType n = CapabilityVolume" | "capType n = CapabilityPort"
  | "capType n = CapabilityUSBDevice" | "capType n = CapabilityAgentSkills" | "capType n = CapabilityCredential"
  | "capType n = CapabilitySSHAgent" | "capType n = CapabilityNetworkPolicy" | "capType n = CapabilityNetworkPolicyV2"
  | "capType n \<notin> set projectedTypes"
  unfolding projectedTypes_def by auto

lemma addService_marks: "capabilitySurfaceEntry digest n \<in> set (Services (addService digest n s))"
  by (simp add: addService_def)

lemma decoded_mark_step:
  assumes "\<And>x. mark (add x emptySurface) x" and "t = decodedOr digest d zero add n emptySurface"
  shows "decoded_mark d zero (capabilitySurfaceEntry digest n \<in> set (Services t)) (mark t) n"
  using assms by (cases "DecodeCapabilityConfig d zero n") (simp_all add: decoded_mark_def decodedOr_def addService_marks)

lemma network_mark_step:
  "network_mark digest n (case NetworkPolicyV2Of [n] of
      Inr (Some p) \<Rightarrow> addRuntimeRules (Runtime p) (addInstallRules (Install p) emptySurface)
    | _ \<Rightarrow> addService digest n emptySurface)"
proof (cases "NetworkPolicyV2Of [n]")
  case (Inr p)
  then show ?thesis
    by (cases p) (auto simp: network_mark_def rules_mark_def addInstallRules_def addRuntimeRules_def
        addService_marks split: option.splits)
qed (simp add: network_mark_def addService_marks)

lemma leaves_mark_contribution: "leaves_mark digest n (contribution digest n)"
proof -
  note neq = capability_types_differ [unfolded distinct.simps list.set insert_iff empty_iff simp_thms de_Morgan_disj]
  note defs = leaves_mark_def contribution_def surfaceStep_def Let_def
  show ?thesis
  proof (cases n rule: type_cases)
    case 1
    then show ?thesis using neq by (simp add: defs)
  next
    case 2
    show ?thesis using neq 2
      by (simp add: defs) (rule decoded_mark_step [where mark = "\<lambda>s v. vPath v \<in> set (StoragePaths s)"]; simp)
  next
    case 3
    show ?thesis using neq 3
      by (simp add: defs) (rule decoded_mark_step [where mark = "\<lambda>s p. PortKey p \<in> set (Ports s)"]; simp)
  next
    case 4
    show ?thesis using neq 4
      by (simp add: defs) (rule decoded_mark_step [where mark = "\<lambda>s u. usbEntry u \<in> set (USB s)"]; simp)
  next
    case 5
    show ?thesis using neq 5
      by (simp add: defs)
        (rule decoded_mark_step [where mark = "\<lambda>s sk. skPath sk \<in> set (SkillsPaths s) \<and>
            (SkillsWritable sk \<longrightarrow> skPath sk \<in> set (SkillsWritePaths s))"]; simp add: addSkills_def Let_def)
  next
    case 6
    show ?thesis using neq 6
      by (simp add: defs)
        (rule decoded_mark_step [where mark = credential_marked], rule credential_mark, rule refl)
  next
    case 7
    show ?thesis using neq 7
      by (simp add: defs) (rule decoded_mark_step [where mark = "\<lambda>s a. set (sshAgentSurface a) \<subseteq> set (SSHAgentGrants s)"]; simp)
  next
    case 8
    show ?thesis using neq 8 network_mark_step [of digest n] by (simp add: defs)
  next
    case 9
    show ?thesis using neq 9 network_mark_step [of digest n] by (simp add: defs)
  next
    case 10
    then show ?thesis
      using addService_marks [of digest n emptySurface] by (simp add: defs projectedTypes_def contentTypes_def)
  qed
qed

lemma decoded_mark_mono:
  assumes "decoded_mark d zero service mark n" "service \<Longrightarrow> service'" "\<And>x. mark x \<Longrightarrow> mark' x"
  shows "decoded_mark d zero service' mark' n"
  using assms by (auto simp: decoded_mark_def split: sum.splits)

lemma network_mark_mono:
  assumes "network_mark digest n s" "set (Services s) \<subseteq> set (Services t)"
    "set (NetworkInstallAllow s) \<subseteq> set (NetworkInstallAllow t)" "set (NetworkInstallHTTPAllow s) \<subseteq> set (NetworkInstallHTTPAllow t)"
    "set (NetworkRuntimeAllow s) \<subseteq> set (NetworkRuntimeAllow t)" "set (NetworkRuntimeHTTPAllow s) \<subseteq> set (NetworkRuntimeHTTPAllow t)"
  shows "network_mark digest n t"
proof -
  have "rules_mark r hs gs \<Longrightarrow> set hs \<subseteq> set hs' \<Longrightarrow> set gs \<subseteq> set gs' \<Longrightarrow> rules_mark r hs' gs'" for r hs gs hs' gs'
    by (auto simp: rules_mark_def split: option.splits)
  note mono = this
  show ?thesis
  proof (cases "NetworkPolicyV2Of [n]")
    case (Inl e)
    then show ?thesis using assms(1,2) by (auto simp: network_mark_def simp del: NetworkPolicyV2Of.simps)
  next
    case (Inr p)
    then show ?thesis
      using assms mono
      by (cases p) (auto simp: network_mark_def simp del: NetworkPolicyV2Of.simps)
  qed
qed

lemma if_mono:
  "(if b then p else q) \<Longrightarrow> (p \<Longrightarrow> p') \<Longrightarrow> (q \<Longrightarrow> q') \<Longrightarrow> (if b then p' else q')"
  by (simp split: if_splits)

text \<open>Nothing a kit requests escapes its surface: every entry a descriptor declares, in
  a group or outside one, leaves its mark on the projected surface, whether or not the
  library knows its type and whether or not its config decodes.\<close>

theorem no_request_escapes:
  assumes "n \<in> set (DeclaredCapabilities (Capabilities d))"
  shows "leaves_mark digest n (SurfaceOf digest d)"
proof -
  let ?s = "contribution digest n" and ?t = "SurfaceOf digest d"
  have up: "set (Services ?s) \<subseteq> set (Services ?t)" "Privileged ?s \<longrightarrow> Privileged ?t"
    "set (StoragePaths ?s) \<subseteq> set (StoragePaths ?t)" "set (Ports ?s) \<subseteq> set (Ports ?t)" "set (USB ?s) \<subseteq> set (USB ?t)"
    "set (SkillsPaths ?s) \<subseteq> set (SkillsPaths ?t)" "set (SkillsWritePaths ?s) \<subseteq> set (SkillsWritePaths ?t)"
    "set (CredentialsInstall ?s) \<subseteq> set (CredentialsInstall ?t)" "set (CredentialsRuntime ?s) \<subseteq> set (CredentialsRuntime ?t)"
    "set (SSHAgentGrants ?s) \<subseteq> set (SSHAgentGrants ?t)"
    "set (NetworkInstallAllow ?s) \<subseteq> set (NetworkInstallAllow ?t)" "set (NetworkInstallHTTPAllow ?s) \<subseteq> set (NetworkInstallHTTPAllow ?t)"
    "set (NetworkRuntimeAllow ?s) \<subseteq> set (NetworkRuntimeAllow ?t)" "set (NetworkRuntimeHTTPAllow ?s) \<subseteq> set (NetworkRuntimeHTTPAllow ?t)"
    using assms unfolding SurfaceOf_sets SurfaceOf_Privileged by blast+
  from leaves_mark_contribution [of digest n] show ?thesis
    unfolding leaves_mark_def Let_def credential_marked_def [abs_def]
    by (elim if_mono decoded_mark_mono network_mark_mono; use up in blast)
qed

section \<open>Worked surfaces\<close>

definition policyOf :: "json list \<Rightarrow> json list \<Rightarrow> descriptor" where
  "policyOf allow deny = emptyDescriptor\<lparr>Capabilities :=
     [ordinary CapabilityNetworkPolicyV2 (Some [(''runtime'', JObj [(''allow'', JArr allow), (''deny'', JArr deny)])])]\<rparr>"

definition boundedEntry :: "string \<Rightarrow> string \<Rightarrow> string \<Rightarrow> json" where
  "boundedEntry method host path =
     JObj [(''hosts'', eStrs [host]), (''methods'', eStrs [method]), (''paths'', eStrs [path])]"


theorem narrowing_silent_witness:
  "let g = SurfaceOf (\<lambda>c. c) (policyOf [JStr ''a.example.com'', JStr ''b.example.com''] []);
       c = SurfaceOf (\<lambda>c. c) (policyOf [JStr ''a.example.com''] [boundedEntry ''GET'' ''a.example.com'' ''/x'' ])
   in DiffWidenings g c = []"
proof -
  let ?g = "SurfaceOf (\<lambda>c. c) (policyOf [JStr ''a.example.com'', JStr ''b.example.com''] [])"
  let ?c = "SurfaceOf (\<lambda>c. c) (policyOf [JStr ''a.example.com''] [boundedEntry ''GET'' ''a.example.com'' ''/x'' ])"
  have g: "?g = emptySurface\<lparr>NetworkRuntimeAllow := [''a.example.com'', ''b.example.com''],
      NetworkRuntimeHTTPAllow := [''ANY a.example.com/**'', ''ANY b.example.com/**'']\<rparr>"
    by code_simp
  have c: "?c = emptySurface\<lparr>NetworkRuntimeAllow := [''a.example.com''],
      NetworkRuntimeHTTPAllow := [''ANY a.example.com/**''], NetworkRuntimeHTTPDeny := [''GET a.example.com/x'']\<rparr>"
    by code_simp
  show ?thesis
    using narrowing_silent [of ?c ?g] unfolding g c Let_def by (simp add: emptySurface_def)
qed

theorem surface_canonical_witness:
  "let v = ordinary CapabilityVolume (Some [(''path'', JStr ''/data'')]); p = ordinary CapabilityPrivileged None
   in SurfaceOf (\<lambda>c. c) (emptyDescriptor\<lparr>Capabilities := [v, p, v]\<rparr>) =
      SurfaceOf (\<lambda>c. c) (emptyDescriptor\<lparr>Capabilities := [p, v]\<rparr>)"
  unfolding Let_def by (rule surface_canonical) (auto simp: ordinary_def)

theorem complete_grants_idle_witness:
  "let s = SurfaceOf (\<lambda>c. c) (policyOf [JStr ''a.example.com'', boundedEntry ''GET'' ''b.example.com'' ''/x''] [])
   in completeHTTPGrants (NetworkRuntimeAllow s) (NetworkRuntimeHTTPAllow s) = NetworkRuntimeHTTPAllow s"
proof -
  have "plain_hosts (SurfaceOf (\<lambda>c. c) (policyOf [JStr ''a.example.com'', boundedEntry ''GET'' ''b.example.com'' ''/x''] []))"
    by code_simp
  from complete_grants_idle [OF this] show ?thesis by (simp add: Let_def)
qed

theorem silent_updates_compose_witness:
  "DiffWidenings (SurfaceOf (\<lambda>c. c) (policyOf [boundedEntry ''ANY'' ''a.example.com'' ''/x/**''] []))
     (SurfaceOf (\<lambda>c. c) (policyOf [boundedEntry ''GET'' ''a.example.com'' ''/x/y''] [])) = []"
proof -
  let ?s = "\<lambda>m p. SurfaceOf (\<lambda>c. c) (policyOf [boundedEntry m ''a.example.com'' p] [])"
  have "DiffWidenings (?s ''ANY'' ''/x/**'') (?s ''GET'' ''/x/**'') = []"
    "DiffWidenings (?s ''GET'' ''/x/**'') (?s ''GET'' ''/x/y'') = []"
    "tame_surface (?s ''ANY'' ''/x/**'')" "tame_surface (?s ''GET'' ''/x/**'')" "tame_surface (?s ''GET'' ''/x/y'')"
    by code_simp+
  from silent_updates_compose [OF this] show ?thesis by simp
qed

theorem no_request_escapes_witness:
  "let n = ordinary ''org.example/gpu@1'' (Some [(''count'', JNum ''2'')])
   in leaves_mark (\<lambda>c. c) n (SurfaceOf (\<lambda>c. c) (emptyDescriptor\<lparr>Capabilities := [n]\<rparr>))"
  using no_request_escapes [of n "emptyDescriptor\<lparr>Capabilities := [n]\<rparr>" "\<lambda>c. c" for n]
  by (simp add: Let_def ordinary_def)

end
