(* ===== verification/Resolve.thy ===== *)
theory Resolve
  imports Capabilities
begin

text \<open>
  The resolver (\<open>resolve/resolve.go\<close>): it judges a set of kits for coherence and derives the
  order in which they compose. Units are held by pointer and compared by pointer, so a
  set is a list of pointers (natural numbers) into a heap of units; the functions take the
  heap as their first argument. A coherence check reports its problems through a callback,
  here by returning the list of what it would have added.
\<close>

section \<open>Units and resolutions\<close>

record kit_unit =
  Reference :: string
  Digest :: string
  Image :: string
  UnitDescriptor :: "descriptor option"
  UnitArgs :: "(string \<times> string) list"
  UnitEnv :: "(string \<times> string) list"

type_synonym unit_ptr = nat
type_synonym unit_heap = "unit_ptr \<Rightarrow> kit_unit"

text \<open>The descriptor behind a unit; \<open>resolve\<close> refuses a unit without one before any check
  reads it.\<close>

definition desc :: "unit_heap \<Rightarrow> unit_ptr \<Rightarrow> descriptor" where
  "desc h u = (case UnitDescriptor (h u) of None \<Rightarrow> emptyDescriptor | Some d \<Rightarrow> d)"

abbreviation ref :: "unit_heap \<Rightarrow> unit_ptr \<Rightarrow> string" where
  "ref h u \<equiv> Reference (h u)"

record resolution =
  Workload :: "unit_ptr option"
  Mixins :: "unit_ptr list"
  topological :: "unit_ptr list"

definition Topological :: "resolution \<Rightarrow> unit_ptr list" where
  "Topological r = topological r"

definition Ordered :: "resolution \<Rightarrow> unit_ptr list" where
  "Ordered r = (case Workload r of None \<Rightarrow> Mixins r | Some w \<Rightarrow> w # Mixins r)"

record provider =
  provUnit :: unit_ptr
  provProvide :: provide

type_synonym provides_index = "(string \<times> provider list) list"

datatype problem =
    TwoWorkloads string string
  | NoWorkload
  | BadProvideEntry string entry_error
  | NameProvidedTwice string "(string \<times> string) list"
  | UnselectedGroup string nat
  | CredentialDeclaredTwice string string "string list"
  | BadRequireEntry string entry_error
  | RequiresNothingProvides string string string
  | RequiresOnlyOffers string string "string list"
  | IntegratesOnlyOffers string string "string list"
  | ConflictsWith string string string

datatype resolve_error =
    EmptyKitSet
  | NoDescriptor string
  | NotCoherent "problem list"
  | DependencyCycle "string list"

section \<open>The version a reference carries\<close>

text \<open>\<open>url.ParseQuery\<close> and \<open>Values.Get\<close>: fields between ampersands, one with a semicolon
  or a bad escape makes the whole query an error, an empty field is skipped.\<close>

definition hexValue :: "char \<Rightarrow> nat option" where
  "hexValue c =
     (if isDigit c then Some (of_char c - 48)
      else if CHR ''a'' \<le> c \<and> c \<le> CHR ''f'' then Some (of_char c - 87)
      else if CHR ''A'' \<le> c \<and> c \<le> CHR ''F'' then Some (of_char c - 55)
      else None)"

fun queryUnescape :: "string \<Rightarrow> string option" where
  "queryUnescape [] = Some []"
| "queryUnescape (c # s) =
     (if c = CHR ''%'' then
        (case s of
           a # b # rest \<Rightarrow>
             (case (hexValue a, hexValue b) of
                (Some x, Some y) \<Rightarrow> map_option (Cons (char_of (16 * x + y))) (queryUnescape rest)
              | _ \<Rightarrow> None)
         | _ \<Rightarrow> None)
      else map_option (Cons (if c = CHR ''+'' then CHR '' '' else c)) (queryUnescape s))"

definition queryField :: "string \<Rightarrow> (string \<times> string) option option" where
  "queryField f =
     (if CHR '';'' \<in> set f then None
      else if f = [] then Some None
      else (case (queryUnescape (before (CHR ''='') f), queryUnescape (after (CHR ''='') f)) of
              (Some k, Some v) \<Rightarrow> Some (Some (k, v))
            | _ \<Rightarrow> None))"

definition ParseQuery :: "string \<Rightarrow> (string \<times> string) list option" where
  "ParseQuery q =
     map_option (List.map_filter (\<lambda>x. x)) (those (map queryField (split_on (CHR ''&'') q)))"

definition versionFromGitReference :: "string \<Rightarrow> string" where
  "versionFromGitReference r =
     (case cut (CHR ''#'') r of (_, fragment, found) \<Rightarrow>
        if \<not> found then []
        else (case ParseQuery fragment of
                None \<Rightarrow> []
              | Some values \<Rightarrow>
                  TagVersion (case map_of values ''ref'' of None \<Rightarrow> [] | Some v \<Rightarrow> v)))"

definition VersionFromReference :: "string \<Rightarrow> string" where
  "VersionFromReference r =
     (if has_prefix r ''git+'' then versionFromGitReference r
      else (let r' = before (CHR ''@'') r;
                slash = last_index (CHR ''/'') r';
                colon = last_index (CHR '':'') r' in
            if colon \<le> slash then [] else TagVersion (drop (nat (colon + 1)) r')))"

definition EffectiveProvideVersion :: "string \<Rightarrow> descriptor option \<Rightarrow> string" where
  "EffectiveProvideVersion reference d =
     (let v = VersionFromReference reference in
      if v \<noteq> [] then v else (case d of None \<Rightarrow> [] | Some x \<Rightarrow> VersionOf x))"

section \<open>The coherence checks\<close>

fun workloadLoop :: "unit_heap \<Rightarrow> unit_ptr option \<Rightarrow> unit_ptr list \<Rightarrow> unit_ptr option \<times> problem list" where
  "workloadLoop h w [] = (w, [])"
| "workloadLoop h w (u # units) =
     (if Kind (desc h u) \<noteq> KindWorkload then workloadLoop h w units
      else (case w of
              Some w' \<Rightarrow>
                (let (w'', ps) = workloadLoop h w units in (w'', TwoWorkloads (ref h w') (ref h u) # ps))
            | None \<Rightarrow> workloadLoop h (Some u) units))"

definition checkOneWorkload :: "unit_heap \<Rightarrow> unit_ptr list \<Rightarrow> bool \<Rightarrow> unit_ptr option \<times> problem list" where
  "checkOneWorkload h units partial =
     (let (w, ps) = workloadLoop h None units in
      (w, ps @ (if w = None \<and> \<not> partial then [NoWorkload] else [])))"

text \<open>One unit's provides, each with the version it is judged by, and the malformed ones.\<close>

definition unitProvide :: "unit_heap \<Rightarrow> unit_ptr \<Rightarrow> string \<Rightarrow> problem + provider" where
  "unitProvide h u s =
     (let carried = VersionFromReference (ref h u);
          fallback = (if carried = [] then VersionOf (desc h u) else carried) in
      case ParseProvide s of
        Inl e \<Rightarrow> Inl (BadProvideEntry (ref h u) e)
      | Inr p \<Rightarrow>
          Inr \<lparr>provUnit = u,
               provProvide = (if pVersion p = [] \<and> fallback \<noteq> [] then p\<lparr>pVersion := fallback\<rparr> else p)\<rparr>)"

definition offered :: "unit_heap \<Rightarrow> unit_ptr list \<Rightarrow> (problem + provider) list" where
  "offered h units = concat (map (\<lambda>u. map (unitProvide h u) (Provides (desc h u))) units)"

definition lefts :: "('e + 'a) list \<Rightarrow> 'e list" where
  "lefts rs = List.map_filter (\<lambda>r. case r of Inl e \<Rightarrow> Some e | Inr _ \<Rightarrow> None) rs"

definition rights :: "('e + 'a) list \<Rightarrow> 'a list" where
  "rights rs = List.map_filter (\<lambda>r. case r of Inl _ \<Rightarrow> None | Inr a \<Rightarrow> Some a) rs"

definition providesIndex :: "unit_heap \<Rightarrow> unit_ptr list \<Rightarrow> provides_index \<times> problem list" where
  "providesIndex h units =
     (index_of (map (\<lambda>p. (pName (provProvide p), p)) (rights (offered h units))), lefts (offered h units))"

text \<open>The first provider record of every owner of a name.\<close>

fun firstPerOwner :: "unit_ptr list \<Rightarrow> provider list \<Rightarrow> provider list" where
  "firstPerOwner seen [] = []"
| "firstPerOwner seen (p # ps) =
     (if provUnit p \<in> set seen then firstPerOwner seen ps
      else p # firstPerOwner (provUnit p # seen) ps)"

definition checkOneProviderPerName :: "unit_heap \<Rightarrow> provides_index \<Rightarrow> problem list" where
  "checkOneProviderPerName h provides =
     (let names = sort (map fst (filter (\<lambda>(_, ps). length (dedupe (map provUnit ps)) > 1) provides)) in
      map (\<lambda>name. NameProvidedTwice name
             (map (\<lambda>p. (ref h (provUnit p),
                        if pVersion (provProvide p) = [] then ''unversioned'' else pVersion (provProvide p)))
                (firstPerOwner [] (index_at provides name)))) names)"

definition credentialKeys :: "unit_heap \<Rightarrow> unit_ptr \<Rightarrow> ((string \<times> string) \<times> string) list" where
  "credentialKeys h u =
     (case CredentialsOf (Capabilities (desc h u)) of
        Inl _ \<Rightarrow> []
      | Inr creds \<Rightarrow>
          concat (map (\<lambda>c. map (\<lambda>phase. ((Service (credCredential c), phase), ref h u))
                             (crPhase (credCredential c))) creds))"

definition checkOneCredentialOwner :: "unit_heap \<Rightarrow> unit_ptr list \<Rightarrow> problem list" where
  "checkOneCredentialOwner h units =
     (let owners = index_of (concat (map (credentialKeys h) units));
          keys = sort_key fst (sort_key snd (map fst (filter (\<lambda>(_, refs). length refs > 1) owners))) in
      map (\<lambda>k. CredentialDeclaredTwice (fst k) (snd k) (index_at owners k)) keys)"

definition checkGroups :: "unit_heap \<Rightarrow> unit_ptr list \<Rightarrow> problem list" where
  "checkGroups h units =
     concat (map (\<lambda>u. map (\<lambda>(i, c). UnselectedGroup (ref h u) i)
                        (filter (\<lambda>(i, c). capGroup c \<noteq> None)
                           (enumerate 0 (Capabilities (desc h u))))) units)"

definition othersProviding :: "string \<Rightarrow> provides_index \<Rightarrow> unit_ptr \<Rightarrow> provider list" where
  "othersProviding name provides self = filter (\<lambda>c. provUnit c \<noteq> self) (index_at provides name)"

fun satisfiedByLoop :: "require \<Rightarrow> unit_ptr \<Rightarrow> provider list \<Rightarrow> unit_ptr option" where
  "satisfiedByLoop r self [] = None"
| "satisfiedByLoop r self (c # cs) =
     (if provUnit c = self then satisfiedByLoop r self cs
      else if Satisfies (provProvide c) r then Some (provUnit c)
      else satisfiedByLoop r self cs)"

definition satisfiedBy :: "require \<Rightarrow> provides_index \<Rightarrow> unit_ptr \<Rightarrow> unit_ptr option" where
  "satisfiedBy r provides self = satisfiedByLoop r self (index_at provides (rName r))"

definition describeProvide :: "unit_heap \<Rightarrow> provider \<Rightarrow> string" where
  "describeProvide h c =
     (let name = DisplayCapabilityName (pName (provProvide c)); v = pVersion (provProvide c) in
      if v = [] then name @ '' (unversioned, from '' @ ref h (provUnit c) @ '')''
      else name @ ''@'' @ v @ '' (from '' @ ref h (provUnit c) @ '')'')"

definition requireProblems :: "unit_heap \<Rightarrow> provides_index \<Rightarrow> unit_ptr \<Rightarrow> string \<Rightarrow> problem list" where
  "requireProblems h provides u s =
     (case ParseRequire s of
        Inl e \<Rightarrow> [BadRequireEntry (ref h u) e]
      | Inr r \<Rightarrow>
          (if satisfiedBy r provides u \<noteq> None then []
           else (case index_at provides (rName r) of
                   [] \<Rightarrow> [RequiresNothingProvides (ref h u) s (rName r)]
                 | candidates \<Rightarrow>
                     [RequiresOnlyOffers (ref h u) s (map (describeProvide h) candidates)])))"

definition checkRequires :: "unit_heap \<Rightarrow> unit_ptr list \<Rightarrow> provides_index \<Rightarrow> problem list" where
  "checkRequires h units provides =
     concat (map (\<lambda>u. concat (map (requireProblems h provides u) (Requires (desc h u)))) units)"

definition integrateProblems :: "unit_heap \<Rightarrow> provides_index \<Rightarrow> unit_ptr \<Rightarrow> string \<Rightarrow> problem list" where
  "integrateProblems h provides u s =
     (case ParseRequire s of
        Inl e \<Rightarrow> [BadRequireEntry (ref h u) e]
      | Inr r \<Rightarrow>
          (let candidates = othersProviding (rName r) provides u in
           if candidates = [] \<or> satisfiedBy r provides u \<noteq> None then []
           else [IntegratesOnlyOffers (ref h u) s (map (describeProvide h) candidates)]))"

definition checkIntegrates :: "unit_heap \<Rightarrow> unit_ptr list \<Rightarrow> provides_index \<Rightarrow> problem list" where
  "checkIntegrates h units provides =
     concat (map (\<lambda>u. concat (map (integrateProblems h provides u) (Integrates (desc h u)))) units)"

definition conflictProblems :: "unit_heap \<Rightarrow> provides_index \<Rightarrow> unit_ptr \<Rightarrow> string \<Rightarrow> problem list" where
  "conflictProblems h provides u name =
     map (\<lambda>c. ConflictsWith (ref h u) name (ref h (provUnit c)))
       (othersProviding (NormalizeCapabilityName name) provides u)"

definition checkConflicts :: "unit_heap \<Rightarrow> unit_ptr list \<Rightarrow> provides_index \<Rightarrow> problem list" where
  "checkConflicts h units provides =
     concat (map (\<lambda>u. concat (map (conflictProblems h provides u) (Conflicts (desc h u)))) units)"

section \<open>Ordering\<close>

text \<open>A map from pointers to counters; a missing key reads as zero.\<close>

type_synonym counters = "(unit_ptr \<times> int) list"

definition degree :: "counters \<Rightarrow> unit_ptr \<Rightarrow> int" where
  "degree m u = (case map_of m u of None \<Rightarrow> 0 | Some n \<Rightarrow> n)"

fun bump :: "int \<Rightarrow> unit_ptr \<Rightarrow> counters \<Rightarrow> counters" where
  "bump d u [] = [(u, d)]"
| "bump d u ((k, n) # m) = (if k = u then (k, n + d) # m else (k, n) # bump d u m)"

text \<open>The units that the entries of one unit depend on, each once, in entry order.\<close>

fun depsOf :: "provides_index \<Rightarrow> unit_ptr \<Rightarrow> unit_ptr list \<Rightarrow> string list \<Rightarrow> unit_ptr list" where
  "depsOf provides u deps [] = []"
| "depsOf provides u deps (s # entries) =
     (case ParseRequire s of
        Inl _ \<Rightarrow> depsOf provides u deps entries
      | Inr r \<Rightarrow>
          (case satisfiedBy r provides u of
             None \<Rightarrow> depsOf provides u deps entries
           | Some p \<Rightarrow>
               if p \<in> set deps then depsOf provides u deps entries
               else p # depsOf provides u (p # deps) entries))"

definition dependencies :: "unit_heap \<Rightarrow> provides_index \<Rightarrow> unit_ptr \<Rightarrow> unit_ptr list" where
  "dependencies h provides u = depsOf provides u [] (Requires (desc h u) @ Integrates (desc h u))"

fun buildGraph ::
  "unit_heap \<Rightarrow> provides_index \<Rightarrow> unit_ptr list \<Rightarrow> counters \<Rightarrow> (unit_ptr \<times> unit_ptr list) list
    \<Rightarrow> counters \<times> (unit_ptr \<times> unit_ptr list) list" where
  "buildGraph h provides [] indegree dependents = (indegree, dependents)"
| "buildGraph h provides (u # units) indegree dependents =
     (let deps = dependencies h provides u in
      buildGraph h provides units
        (foldl (\<lambda>m _. bump 1 u m) indegree deps)
        (foldl (\<lambda>m p. index_add p u m) dependents deps))"

text \<open>The inner loop over the dependents of the unit just placed.\<close>

fun release :: "counters \<Rightarrow> unit_ptr list \<Rightarrow> unit_ptr list \<Rightarrow> counters \<times> unit_ptr list" where
  "release indegree ready [] = (indegree, ready)"
| "release indegree ready (dep # deps) =
     (let indegree' = bump (- 1) dep indegree in
      release indegree' (if degree indegree' dep = 0 then ready @ [dep] else ready) deps)"

definition pending :: "counters \<Rightarrow> nat" where
  "pending m = sum_list (map (\<lambda>(_, n). nat n) m)"

lemma pending_bump: "pending (bump (- 1) u m) + (if degree m u > 0 then 1 else 0) = pending m"
  by (induction m) (auto simp: pending_def degree_def)

lemma degree_bump: "degree (bump d u m) v = (if v = u then degree m v + d else degree m v)"
  by (induction m) (auto simp: degree_def)

lemma release_bound:
  "release indegree ready deps = (indegree', ready') \<Longrightarrow>
   pending indegree' + length ready' \<le> pending indegree + length ready"
proof (induction indegree ready deps rule: release.induct)
  case (2 indegree ready dep deps)
  let ?m = "bump (- 1) dep indegree"
  let ?r = "if degree ?m dep = 0 then ready @ [dep] else ready"
  have "pending ?m + length ?r \<le> pending indegree + length ready"
    using pending_bump [of dep indegree] by (auto simp: degree_bump split: if_splits)
  moreover have "pending indegree' + length ready' \<le> pending ?m + length ?r"
    using 2 by (simp add: Let_def)
  ultimately show ?case by linarith
qed simp

text \<open>The main loop: sort the ready units by reference, place the first, release its
  dependents. It ends because placing a unit shortens the ready list, and a unit enters it
  only when a positive counter drops to zero.\<close>

function orderLoop ::
  "unit_heap \<Rightarrow> (unit_ptr \<times> unit_ptr list) list \<Rightarrow> counters \<Rightarrow> unit_ptr list
    \<Rightarrow> unit_ptr list \<times> counters" where
  "orderLoop h dependents indegree ready =
     (case sort_key (ref h) ready of
        [] \<Rightarrow> ([], indegree)
      | next # rest \<Rightarrow>
          (let (indegree', ready') = release indegree rest (index_at dependents next);
               (placed, final) = orderLoop h dependents indegree' ready' in
           (next # placed, final)))"
  by pat_completeness auto

termination
proof (relation "measure (\<lambda>(h, dependents, indegree, ready). pending indegree + length ready)")
  fix h dependents indegree ready nxt rest x indegree' ready'
  assume sorted: "sort_key (ref h) ready = nxt # rest"
    and "x = release indegree rest (index_at dependents nxt)" "(indegree', ready') = x"
  then have "pending indegree' + length ready' \<le> pending indegree + length rest"
    by (metis release_bound)
  moreover have "length ready = Suc (length rest)"
    using sorted by (metis length_Cons length_sort)
  ultimately show "((h, dependents, indegree', ready'), (h, dependents, indegree, ready)) \<in>
      measure (\<lambda>(h, dependents, indegree, ready). pending indegree + length ready)"
    by simp
qed simp

declare orderLoop.simps [simp del]

definition order :: "unit_heap \<Rightarrow> unit_ptr list \<Rightarrow> provides_index \<Rightarrow> resolve_error + unit_ptr list" where
  "order h units provides =
     (let (indegree, dependents) = buildGraph h provides units (foldl (\<lambda>m u. (u, 0) # m) [] units) [];
          ready = filter (\<lambda>u. degree indegree u = 0) units;
          (ordered, final) = orderLoop h dependents indegree ready in
      if length ordered \<noteq> length units
      then Inl (DependencyCycle (sort (map (ref h) (filter (\<lambda>u. degree final u > 0) units))))
      else Inr ordered)"

section \<open>Resolving\<close>

definition problemsOf :: "unit_heap \<Rightarrow> unit_ptr list \<Rightarrow> bool \<Rightarrow> bool \<Rightarrow> problem list" where
  "problemsOf h units partial capabilities =
     (let (provides, ps) = providesIndex h units in
      snd (checkOneWorkload h units partial) @ ps @ checkOneProviderPerName h provides
      @ (if capabilities then checkGroups h units @ checkOneCredentialOwner h units else [])
      @ checkRequires h units provides @ checkIntegrates h units provides @ checkConflicts h units provides)"

definition resolve :: "unit_heap \<Rightarrow> unit_ptr list \<Rightarrow> bool \<Rightarrow> bool \<Rightarrow> resolve_error + resolution" where
  "resolve h units partial capabilities =
     (if units = [] then Inl EmptyKitSet
      else (case filter (\<lambda>u. UnitDescriptor (h u) = None) units of
              u # _ \<Rightarrow> Inl (NoDescriptor (ref h u))
            | [] \<Rightarrow>
                (let workload = fst (checkOneWorkload h units partial);
                     problems = problemsOf h units partial capabilities in
                 if problems \<noteq> [] then Inl (NotCoherent problems)
                 else rbind (order h units (fst (providesIndex h units)))
                        (\<lambda>ordered. Inr \<lparr>Workload = workload,
                                        Mixins = filter (\<lambda>u. Some u \<noteq> workload) ordered,
                                        topological = ordered\<rparr>))))"

definition Resolve :: "unit_heap \<Rightarrow> unit_ptr list \<Rightarrow> resolve_error + resolution" where
  "Resolve h units = resolve h units False True"

definition ResolvePartial :: "unit_heap \<Rightarrow> unit_ptr list \<Rightarrow> resolve_error + resolution" where
  "ResolvePartial h units = resolve h units True True"

definition Dependencies :: "unit_heap \<Rightarrow> unit_ptr list \<Rightarrow> bool \<Rightarrow> resolve_error + resolution" where
  "Dependencies h units partial = resolve h units partial False"

end
