(* ===== verification/Resolve_Order.thy ===== *)
theory Resolve_Order
  imports Resolve "HOL-Library.Multiset"
begin

text \<open>
  The ordering loop of the resolver, proved once for any dependency graph in the shape the
  loop reads (counters of unmet dependencies and lists of dependents) and then for the graph
  \<open>order\<close> builds: it places every unit exactly once, after everything it depends on, or it
  stops short exactly when the dependencies have a cycle.
\<close>

section \<open>Orders that respect dependencies\<close>

text \<open>Every element comes after all it depends on, given a set already placed.\<close>

fun deps_first :: "('a \<Rightarrow> 'a set) \<Rightarrow> 'a set \<Rightarrow> 'a list \<Rightarrow> bool" where
  "deps_first D P [] = True"
| "deps_first D P (x # xs) = (D x \<subseteq> P \<and> deps_first D (insert x P) xs)"

definition precedes :: "'a list \<Rightarrow> 'a \<Rightarrow> 'a \<Rightarrow> bool" where
  "precedes xs v u \<longleftrightarrow> (\<exists>as bs cs. xs = as @ v # bs @ u # cs)"



lemma deps_first_append:
  "deps_first D P (xs @ ys) \<longleftrightarrow> deps_first D P xs \<and> deps_first D (P \<union> set xs) ys"
  by (induction xs arbitrary: P) auto

lemma deps_first_precedes:
  assumes "deps_first D {} xs" "u \<in> set xs" "v \<in> D u"
  shows "precedes xs v u"
proof -
  obtain as cs where xs: "xs = as @ u # cs" using assms(2) by (meson split_list)
  then have "v \<in> set as" using assms(1,3) by (auto simp: deps_first_append)
  then obtain bs ds where "as = bs @ v # ds" by (meson split_list)
  then show ?thesis using xs by (auto simp: precedes_def)
qed

lemma deps_first_before:
  assumes "deps_first D P xs" "u \<in> set xs" "v \<in> D u" "v \<notin> P" "distinct xs"
  shows "v \<in> set xs"
  using assms
proof (induction xs arbitrary: P)
  case (Cons x xs)
  then show ?case by (cases "u = x") auto
qed simp

text \<open>The tie-break: every element is the least, by its key, of all that were ready.\<close>

fun least_first :: "'a set \<Rightarrow> ('a \<Rightarrow> 'a set) \<Rightarrow> ('a \<Rightarrow> 'k::linorder) \<Rightarrow> 'a set \<Rightarrow> 'a list \<Rightarrow> bool" where
  "least_first N D key P [] = True"
| "least_first N D key P (x # xs) =
     (x \<in> N - P \<and> D x \<subseteq> P \<and> (\<forall>u \<in> N - P. D u \<subseteq> P \<longrightarrow> key x \<le> key u) \<and>
      least_first N D key (insert x P) xs)"

lemma least_first_unique:
  assumes "inj_on key N" "least_first N D key P xs" "least_first N D key P ys" "length xs = length ys"
  shows "xs = ys"
  using assms(2-)
proof (induction xs arbitrary: P ys)
  case (Cons x xs)
  then obtain y ys' where ys: "ys = y # ys'" by (cases ys) auto
  have "x \<in> N" "y \<in> N" "key x = key y"
    using Cons.prems by (auto simp: ys intro: antisym)
  then have "x = y" using assms(1) by (simp add: inj_onD)
  then show ?case using Cons by (auto simp: ys)
qed simp

lemma deps_first_cong: "(\<And>u. u \<in> set xs \<Longrightarrow> D1 u = D2 u) \<Longrightarrow> deps_first D1 P xs = deps_first D2 P xs"
  by (induction xs arbitrary: P) auto

lemma least_first_cong:
  "(\<And>u. u \<in> N \<Longrightarrow> D1 u = D2 u) \<Longrightarrow> least_first N D1 key P xs = least_first N D2 key P xs"
  by (induction xs arbitrary: P) auto

text \<open>Such an order exists only without cycles.\<close>

lemma deps_first_acyclic:
  assumes "deps_first D {} xs" "distinct xs"
  shows "acyclic {(u, v). u \<in> set xs \<and> v \<in> D u}"
proof -
  define pos where "pos x = (THE i. i < length xs \<and> xs ! i = x)" for x
  have pos: "pos (xs ! i) = i" if "i < length xs" for i
    unfolding pos_def using that assms(2) by (auto simp: nth_eq_iff_index_eq)
  have "pos v < pos u" if uv: "u \<in> set xs" "v \<in> D u" for u v
  proof -
    obtain as bs cs where "xs = as @ v # bs @ u # cs"
      using deps_first_precedes [OF assms(1) uv] by (auto simp: precedes_def)
    then have "v = xs ! length as" "u = xs ! (length as + 1 + length bs)"
      "length as + 1 + length bs < length xs"
      by (auto simp: nth_append)
    then show ?thesis using pos by simp
  qed
  then have "{(u, v). u \<in> set xs \<and> v \<in> D u} \<subseteq> (inv_image less_than pos)\<inverse>"
    by auto
  moreover have "acyclic ((inv_image less_than pos)\<inverse>)"
    unfolding acyclic_converse by (intro wf_acyclic wf_inv_image wf_less_than)
  ultimately show ?thesis by (rule acyclic_subset [rotated])
qed

lemma deps_first_cycle_free:
  assumes "deps_first D {} xs" "distinct xs" "u \<in> set xs"
  shows "(u, u) \<notin> {(u, v). u \<in> N \<and> v \<in> D u}\<^sup>+"
proof
  have closed: "v \<in> set xs \<and> (u, v) \<in> {(u, v). u \<in> set xs \<and> v \<in> D u}\<^sup>+"
    if "(u, v) \<in> {(u, v). u \<in> N \<and> v \<in> D u}\<^sup>+" for v
    using that
  proof (induction rule: trancl_induct)
    case (base v)
    then show ?case using assms deps_first_before [OF assms(1), of u v] by auto
  next
    case (step v w)
    then show ?case using assms deps_first_before [OF assms(1), of v w] by (auto intro: trancl_into_trancl)
  qed
  assume "(u, u) \<in> {(u, v). u \<in> N \<and> v \<in> D u}\<^sup>+"
  then show False
    using closed [of u] deps_first_acyclic [OF assms(1,2)] by (simp add: acyclic_def)
qed

section \<open>The loop over an abstract graph\<close>

lemma release_effect:
  assumes "release m r ds = (m', r')" "distinct ds"
  shows "(\<forall>u. degree m' u = degree m u - (if u \<in> set ds then 1 else 0)) \<and>
    r' = r @ filter (\<lambda>d. degree m d = 1) ds"
  using assms
proof (induction m r ds rule: release.induct)
  case (2 m r d ds)
  let ?m = "bump (- 1) d m"
  have "(\<forall>u. degree m' u = degree ?m u - (if u \<in> set ds then 1 else 0)) \<and>
      r' = (if degree ?m d = 0 then r @ [d] else r) @ filter (\<lambda>x. degree ?m x = 1) ds"
    using 2 by (simp add: Let_def)
  moreover have "filter (\<lambda>x. degree ?m x = 1) ds = filter (\<lambda>x. degree m x = 1) ds"
    using "2.prems"(2) by (intro filter_cong) (auto simp: degree_bump)
  ultimately show ?case
    using "2.prems"(2) by (auto simp: degree_bump)
qed simp

text \<open>A run of the loop: as long as a node is ready, the one with the least key is placed and its
  dependents are released. The resolver runs it with the references as keys.\<close>

inductive ready_run ::
  "(unit_ptr \<Rightarrow> 'k::linorder) \<Rightarrow> (unit_ptr \<times> unit_ptr list) list \<Rightarrow> counters \<Rightarrow> unit_ptr list
   \<Rightarrow> unit_ptr list \<Rightarrow> counters \<Rightarrow> bool" where
  ready_stop: "ready_run key dpts m [] [] m"
| ready_step:
    "sort_key key r = x # rest \<Longrightarrow> release m rest (index_at dpts x) = (m', r') \<Longrightarrow>
     ready_run key dpts m' r' os final \<Longrightarrow> ready_run key dpts m r (x # os) final"

lemma orderLoop_run: "orderLoop h dpts m r = (os, final) \<Longrightarrow> ready_run (ref h) dpts m r os final"
proof (induction h dpts m r arbitrary: os rule: orderLoop.induct)
  case (1 h dpts m r)
  show ?case
  proof (cases "sort_key (ref h) r")
    case Nil
    then have "r = []" by (metis length_0_conv length_sort)
    then show ?thesis using "1.prems" by (simp add: orderLoop.simps ready_stop)
  next
    case (Cons x rest)
    obtain m' r' where rel: "release m rest (index_at dpts x) = (m', r')" by fastforce
    obtain os' where os: "orderLoop h dpts m' r' = (os', final)" "os = x # os'"
      using "1.prems" Cons rel by (subst (asm) orderLoop.simps) (auto split: prod.splits)
    show ?thesis
      unfolding os(2) by (rule ready_step [OF Cons rel "1.IH" [OF Cons refl rel [symmetric] os(1)]])
  qed
qed

text \<open>What the loop relies on: the counters count the dependencies of every node and the
  dependents list the nodes that wait for one.\<close>

locale dependency_graph =
  fixes wf_graph :: "'g \<Rightarrow> bool"
    and nodes :: "'g \<Rightarrow> unit_ptr list"
    and deps :: "'g \<Rightarrow> unit_ptr \<Rightarrow> unit_ptr list"
    and indegree :: "'g \<Rightarrow> counters"
    and dependents :: "'g \<Rightarrow> (unit_ptr \<times> unit_ptr list) list"
  assumes distinct_nodes: "wf_graph g \<Longrightarrow> distinct (nodes g)"
    and distinct_deps: "wf_graph g \<Longrightarrow> u \<in> set (nodes g) \<Longrightarrow> distinct (deps g u)"
    and deps_nodes: "wf_graph g \<Longrightarrow> u \<in> set (nodes g) \<Longrightarrow> set (deps g u) \<subseteq> set (nodes g)"
    and indegree_degree: "wf_graph g \<Longrightarrow> u \<in> set (nodes g) \<Longrightarrow> degree (indegree g) u = int (length (deps g u))"
    and dependents_list:
      "wf_graph g \<Longrightarrow> index_at (dependents g) v = filter (\<lambda>u. v \<in> set (deps g u)) (nodes g)"
begin

definition unmet :: "'g \<Rightarrow> unit_ptr set \<Rightarrow> unit_ptr \<Rightarrow> nat" where
  "unmet g P u = card (set (deps g u) - P)"

text \<open>The invariant: the placed set, the counters of what is still unmet, and the ready list
  holding exactly the unplaced nodes with nothing unmet.\<close>

definition loop_inv :: "'g \<Rightarrow> unit_ptr set \<Rightarrow> counters \<Rightarrow> unit_ptr list \<Rightarrow> bool" where
  "loop_inv g P m r \<longleftrightarrow>
     P \<subseteq> set (nodes g) \<and> (\<forall>u \<in> P. set (deps g u) \<subseteq> P) \<and> distinct r \<and>
     (\<forall>u \<in> set (nodes g). degree m u = int (unmet g P u)) \<and>
     set r = {u \<in> set (nodes g) - P. unmet g P u = 0}"

lemma loop_inv_start:
  assumes "wf_graph g"
  shows "loop_inv g {} (indegree g) (filter (\<lambda>u. degree (indegree g) u = 0) (nodes g))"
  using assms distinct_nodes
  by (auto simp: loop_inv_def unmet_def indegree_degree distinct_card distinct_deps)

lemma loop_inv_step:
  assumes wf: "wf_graph g" and inv: "loop_inv g P m r" and sorted: "sort_key f r = x # rest"
    and rel: "release m rest (index_at (dependents g) x) = (m', r')"
  shows "x \<in> set (nodes g)" "x \<notin> P" "set (deps g x) \<subseteq> P" "loop_inv g (insert x P) m' r'"
proof -
  have within: "P \<subseteq> set (nodes g)" and closed0: "\<forall>u \<in> P. set (deps g u) \<subseteq> P" and "distinct r"
    and degrees: "\<forall>u \<in> set (nodes g). degree m u = int (unmet g P u)"
    and ready0: "set r = {u \<in> set (nodes g) - P. unmet g P u = 0}"
    using inv unfolding loop_inv_def by blast+
  have "mset (x # rest) = mset r" by (metis sorted mset_sort)
  then have r: "set r = insert x (set rest)" "distinct (x # rest)"
    using \<open>distinct r\<close> by (metis list.simps(15) mset_eq_setD, metis mset_eq_imp_distinct_iff)
  then have "x \<in> {u \<in> set (nodes g) - P. unmet g P u = 0}"
    using ready0 by blast
  then show x: "x \<in> set (nodes g)" "x \<notin> P" "set (deps g x) \<subseteq> P"
    by (auto simp: unmet_def)
  let ?waiting = "filter (\<lambda>u. x \<in> set (deps g u)) (nodes g)"
  have unmet': "unmet g (insert x P) u = (if x \<in> set (deps g u) then unmet g P u - 1 else unmet g P u)"
    for u
  proof -
    have "set (deps g u) - insert x P = (set (deps g u) - P) - {x}" by blast
    then show ?thesis using x(2) by (simp add: unmet_def card_Diff_singleton_if)
  qed
  have pos: "unmet g P u > 0" if "x \<in> set (deps g u)" for u
    using that x(2) by (auto simp: unmet_def card_gt_0_iff)
  have "distinct ?waiting" using distinct_nodes [OF wf] by simp
  then have m': "degree m' u = degree m u - (if u \<in> set ?waiting then 1 else 0)"
    and r': "r' = rest @ filter (\<lambda>d. degree m d = 1) ?waiting" for u
    using release_effect [OF rel] by (simp_all add: dependents_list [OF wf])
  have counts: "\<forall>u \<in> set (nodes g). degree m' u = int (unmet g (insert x P) u)"
    using degrees pos by (auto simp: m' unmet' of_nat_diff Suc_leI)
  have newly: "set (filter (\<lambda>d. degree m d = 1) ?waiting) =
      {u \<in> set (nodes g). x \<in> set (deps g u) \<and> unmet g P u = 1}"
    using degrees by auto
  have closed: "\<forall>u \<in> insert x P. set (deps g u) \<subseteq> insert x P"
    using closed0 x(3) by blast
  have "set rest = set r - {x}" using r by auto
  then have rest: "set rest = {u \<in> set (nodes g) - insert x P. unmet g P u = 0}"
    using ready0 by blast
  have fresh: "u \<notin> insert x P" if "x \<in> set (deps g u)" for u
    using that x(2,3) closed0 by blast
  have ready: "set r' = {u \<in> set (nodes g) - insert x P. unmet g (insert x P) u = 0}"
    unfolding r' set_append newly rest
    using pos fresh by (auto simp: unmet' le_Suc_eq split: if_splits)
  have "distinct r'"
    unfolding r' distinct_append newly rest using r(2) distinct_nodes [OF wf] by auto
  then show "loop_inv g (insert x P) m' r'"
    using within x(1) closed counts ready unfolding loop_inv_def by blast
qed

lemma run_correct:
  assumes "ready_run key dpts m r os final" "wf_graph g" "loop_inv g P m r" "dpts = dependents g"
  shows "distinct os \<and> set os \<inter> P = {} \<and> deps_first (\<lambda>u. set (deps g u)) P os \<and>
    loop_inv g (P \<union> set os) final []"
  using assms
proof (induction arbitrary: P rule: ready_run.induct)
  case (ready_step key r x rest m dpts m' r' os final)
  have "release m rest (index_at (dependents g) x) = (m', r')" using ready_step by blast
  note step = loop_inv_step [OF \<open>wf_graph g\<close> \<open>loop_inv g P m r\<close> ready_step.hyps(1) this]
  have "distinct os \<and> set os \<inter> insert x P = {} \<and> deps_first (\<lambda>u. set (deps g u)) (insert x P) os \<and>
      loop_inv g (insert x P \<union> set os) final []"
    by (rule ready_step.IH [OF \<open>wf_graph g\<close> step(4) \<open>dpts = dependents g\<close>])
  then show ?case using step(2,3) by auto
qed simp

lemma run_least:
  assumes "ready_run key dpts m r os final" "wf_graph g" "loop_inv g P m r" "dpts = dependents g"
  shows "least_first (set (nodes g)) (\<lambda>u. set (deps g u)) key P os"
  using assms
proof (induction arbitrary: P rule: ready_run.induct)
  case (ready_step key r x rest m dpts m' r' os final)
  have "release m rest (index_at (dependents g) x) = (m', r')" using ready_step by blast
  note step = loop_inv_step [OF \<open>wf_graph g\<close> \<open>loop_inv g P m r\<close> ready_step.hyps(1) this]
  have "sorted (map key (x # rest))" "set r = insert x (set rest)"
    using ready_step.hyps(1) by (metis sorted_sort_key, metis list.simps(15) set_sort)
  then have "\<forall>u \<in> set r. key x \<le> key u" by auto
  moreover have "set r = {u \<in> set (nodes g) - P. unmet g P u = 0}"
    using \<open>loop_inv g P m r\<close> unfolding loop_inv_def by blast
  moreover have "unmet g P u = 0 \<longleftrightarrow> set (deps g u) \<subseteq> P" for u
    by (simp add: unmet_def)
  ultimately show ?case
    using ready_step.IH [OF \<open>wf_graph g\<close> step(4) \<open>dpts = dependents g\<close>] step(1-3) by simp
qed simp

text \<open>The loop from the start: what it placed, and why it stopped.\<close>

lemma run_from_start:
  assumes wf: "wf_graph g"
    and run: "ready_run key (dependents g) (indegree g) (filter (\<lambda>u. degree (indegree g) u = 0) (nodes g)) os final"
  shows "distinct os" "set os \<subseteq> set (nodes g)" "deps_first (\<lambda>u. set (deps g u)) {} os"
    "\<forall>u \<in> set (nodes g). degree final u = int (unmet g (set os) u)"
    "\<forall>u \<in> set (nodes g) - set os. \<exists>v \<in> set (nodes g) - set os. v \<in> set (deps g u)"
proof -
  have end_inv: "distinct os \<and> deps_first (\<lambda>u. set (deps g u)) {} os \<and> loop_inv g (set os) final []"
    using run_correct [OF run wf loop_inv_start [OF wf] refl] by simp
  then show "distinct os" "deps_first (\<lambda>u. set (deps g u)) {} os" "set os \<subseteq> set (nodes g)"
    "\<forall>u \<in> set (nodes g). degree final u = int (unmet g (set os) u)"
    by (simp_all add: loop_inv_def)
  show "\<forall>u \<in> set (nodes g) - set os. \<exists>v \<in> set (nodes g) - set os. v \<in> set (deps g u)"
  proof
    fix u assume u: "u \<in> set (nodes g) - set os"
    then have "unmet g (set os) u \<noteq> 0" using end_inv by (auto simp: loop_inv_def)
    then obtain v where "v \<in> set (deps g u)" "v \<notin> set os" by (auto simp: unmet_def)
    then show "\<exists>v \<in> set (nodes g) - set os. v \<in> set (deps g u)"
      using deps_nodes [OF wf] u by blast
  qed
qed

lemma run_complete_iff:
  assumes wf: "wf_graph g"
    and run: "ready_run key (dependents g) (indegree g) (filter (\<lambda>u. degree (indegree g) u = 0) (nodes g)) os final"
  shows "length os = length (nodes g) \<longleftrightarrow> acyclic {(u, v). u \<in> set (nodes g) \<and> v \<in> set (deps g u)}"
proof
  note loop = run_from_start [OF wf run]
  {
    assume "length os = length (nodes g)"
    then have "set os = set (nodes g)"
      using loop(1,2) distinct_nodes [OF wf] by (metis List.finite_set card_subset_eq distinct_card)
    then show "acyclic {(u, v). u \<in> set (nodes g) \<and> v \<in> set (deps g u)}"
      using deps_first_acyclic [OF loop(3,1)] by simp
  next
    assume "acyclic {(u, v). u \<in> set (nodes g) \<and> v \<in> set (deps g u)}"
    moreover have "finite {(u, v). u \<in> set (nodes g) \<and> v \<in> set (deps g u)}"
      by (rule finite_subset [of _ "set (nodes g) \<times> set (nodes g)"]) (use deps_nodes [OF wf] in auto)
    ultimately have wfp: "wf ({(u, v). u \<in> set (nodes g) \<and> v \<in> set (deps g u)}\<inverse>)"
      by (rule finite_acyclic_wf_converse [rotated])
    have "set (nodes g) - set os = {}"
    proof (rule ccontr)
      assume nonempty: "set (nodes g) - set os \<noteq> {}"
      show False
      proof (rule wfE_min' [OF wfp nonempty])
        fix u
        assume "u \<in> set (nodes g) - set os"
          and "\<And>v. (v, u) \<in> {(u, v). u \<in> set (nodes g) \<and> v \<in> set (deps g u)}\<inverse> \<Longrightarrow> v \<notin> set (nodes g) - set os"
        then show False using loop(5) by blast
      qed
    qed
    then show "length os = length (nodes g)"
      using loop(1,2) distinct_nodes [OF wf] by (metis Diff_eq_empty_iff distinct_card subset_antisym)
  }
qed

text \<open>A complete run places every node, and a node on a cycle is left with unmet dependencies.\<close>

lemma run_places_all:
  assumes "wf_graph g"
    and "ready_run key (dependents g) (indegree g) (filter (\<lambda>u. degree (indegree g) u = 0) (nodes g)) os final"
    and "length os = length (nodes g)"
  shows "mset os = mset (nodes g)"
proof -
  note loop = run_from_start [OF assms(1,2)]
  have "set os = set (nodes g)"
    using loop(1,2) distinct_nodes [OF assms(1)] assms(3) by (metis List.finite_set card_subset_eq distinct_card)
  then show ?thesis
    using loop(1) distinct_nodes [OF assms(1)] by (simp add: set_eq_iff_mset_eq_distinct)
qed

lemma run_cycle_unmet:
  assumes wf: "wf_graph g"
    and run: "ready_run key (dependents g) (indegree g) (filter (\<lambda>u. degree (indegree g) u = 0) (nodes g)) os final"
    and cyc: "(u, u) \<in> {(u, v). u \<in> set (nodes g) \<and> v \<in> set (deps g u)}\<^sup>+"
  shows "u \<in> set (nodes g) \<and> degree final u > 0"
proof -
  note loop = run_from_start [OF wf run]
  have u: "u \<in> set (nodes g)" using tranclD [OF cyc] by auto
  have "u \<notin> set os"
    using deps_first_cycle_free [OF loop(3,1), of u "set (nodes g)"] cyc by auto
  then obtain v where "v \<notin> set os" "v \<in> set (deps g u)"
    using loop(5) u by blast
  then have "unmet g (set os) u > 0" by (auto simp: unmet_def card_gt_0_iff)
  then show ?thesis using loop(4) u by simp
qed

end

section \<open>The graph the resolver builds\<close>

lemma set_depsOf:
  "set (depsOf provides u deps entries) =
   {p. \<exists>s \<in> set entries. \<exists>r. ParseRequire s = Inr r \<and> satisfiedBy r provides u = Some p} - set deps"
proof (induction provides u deps entries rule: depsOf.induct)
  case (2 provides u deps s entries)
  then show ?case
    by (cases "ParseRequire s"; cases "satisfiedBy (projr (ParseRequire s)) provides u") auto
qed simp

lemma distinct_depsOf: "distinct (depsOf provides u deps entries)"
  by (induction provides u deps entries rule: depsOf.induct)
    (auto simp: set_depsOf split: sum.splits option.splits)

lemma dependencies_iff:
  "p \<in> set (dependencies h provides u) \<longleftrightarrow>
   (\<exists>s \<in> set (Requires (desc h u)) \<union> set (Integrates (desc h u)).
      \<exists>r. ParseRequire s = Inr r \<and> satisfiedBy r provides u = Some p)"
  by (auto simp: dependencies_def set_depsOf)

lemma distinct_dependencies [simp]: "distinct (dependencies h provides u)"
  by (simp add: dependencies_def distinct_depsOf)

lemma degree_bumps: "degree (foldl (\<lambda>m _. bump 1 u m) m ds) v = degree m v + (if v = u then int (length ds) else 0)"
  by (induction ds arbitrary: m) (auto simp: degree_bump)

lemma index_at_adds:
  "distinct ds \<Longrightarrow>
   index_at (foldl (\<lambda>m p. index_add p u m) m ds) v = index_at m v @ (if v \<in> set ds then [u] else [])"
  by (induction ds arbitrary: m) auto

lemma buildGraph_effect:
  assumes "buildGraph h provides units m dpts = (m', dpts')" "distinct units"
  shows "degree m' v = degree m v + (if v \<in> set units then int (length (dependencies h provides v)) else 0) \<and>
    index_at dpts' v = index_at dpts v @ filter (\<lambda>u. v \<in> set (dependencies h provides u)) units"
  using assms
  by (induction h provides units m dpts rule: buildGraph.induct)
    (auto simp: Let_def degree_bumps index_at_adds)

lemma degree_zeros: "degree (foldl (\<lambda>m u. (u, 0) # m) m0 units) v = (if v \<in> set units then 0 else degree m0 v)"
  by (induction units arbitrary: m0) (auto simp: degree_def)

definition initialGraph :: "unit_heap \<times> unit_ptr list \<times> provides_index \<Rightarrow> counters \<times> (unit_ptr \<times> unit_ptr list) list" where
  "initialGraph g = (case g of (h, units, provides) \<Rightarrow>
     buildGraph h provides units (foldl (\<lambda>m u. (u, 0) # m) [] units) [])"

definition graph_ok :: "unit_heap \<times> unit_ptr list \<times> provides_index \<Rightarrow> bool" where
  "graph_ok g \<longleftrightarrow> (case g of (h, units, provides) \<Rightarrow>
     distinct units \<and> (\<forall>name. provUnit ` set (index_at provides name) \<subseteq> set units))"

lemma satisfiedByLoop_Some:
  "satisfiedByLoop r self cs = Some p \<Longrightarrow>
   \<exists>c \<in> set cs. provUnit c = p \<and> p \<noteq> self \<and> Satisfies (provProvide c) r"
  by (induction cs) (auto split: if_splits)

lemma satisfiedByLoop_None:
  "satisfiedByLoop r self cs = None \<longleftrightarrow> (\<forall>c \<in> set cs. provUnit c = self \<or> \<not> Satisfies (provProvide c) r)"
  by (induction cs) auto

lemma satisfiedBy_Some:
  "satisfiedBy r provides self = Some p \<Longrightarrow>
   \<exists>c \<in> set (index_at provides (rName r)). provUnit c = p \<and> p \<noteq> self \<and> Satisfies (provProvide c) r"
  by (simp add: satisfiedBy_def satisfiedByLoop_Some)

interpretation kits: dependency_graph graph_ok "\<lambda>(h, units, provides). units"
  "\<lambda>(h, units, provides). dependencies h provides" "\<lambda>g. fst (initialGraph g)" "\<lambda>g. snd (initialGraph g)"
proof unfold_locales
  fix g :: "unit_heap \<times> unit_ptr list \<times> provides_index" and u v
  obtain h units provides where g: "g = (h, units, provides)" by (cases g)
  assume ok: "graph_ok g"
  note effect = buildGraph_effect [of h provides units "foldl (\<lambda>m u. (u, 0) # m) [] units" "[]"
      "fst (initialGraph g)" "snd (initialGraph g)"]
  show "distinct (case g of (h, units, provides) \<Rightarrow> units)"
    using ok by (simp add: g graph_ok_def)
  show "index_at (snd (initialGraph g)) v =
      filter (\<lambda>u. v \<in> set ((case g of (h, units, provides) \<Rightarrow> dependencies h provides) u))
        (case g of (h, units, provides) \<Rightarrow> units)"
    using effect ok by (simp add: g initialGraph_def graph_ok_def)
  assume u: "u \<in> set (case g of (h, units, provides) \<Rightarrow> units)"
  show "distinct ((case g of (h, units, provides) \<Rightarrow> dependencies h provides) u)"
    by (simp add: g)
  show "degree (fst (initialGraph g)) u =
      int (length ((case g of (h, units, provides) \<Rightarrow> dependencies h provides) u))"
    using effect ok u by (simp add: g initialGraph_def graph_ok_def degree_zeros)
  show "set ((case g of (h, units, provides) \<Rightarrow> dependencies h provides) u)
      \<subseteq> set (case g of (h, units, provides) \<Rightarrow> units)"
    using ok by (auto simp: g graph_ok_def dependencies_iff image_subset_iff dest!: satisfiedBy_Some)
qed

text \<open>The dependency relation of a set: the first unit depends on the second.\<close>

definition depends_on :: "unit_heap \<Rightarrow> unit_ptr list \<Rightarrow> provides_index \<Rightarrow> (unit_ptr \<times> unit_ptr) set" where
  "depends_on h units provides = {(u, v). u \<in> set units \<and> v \<in> set (dependencies h provides u)}"

lemma order_result:
  assumes ok: "graph_ok (h, units, provides)"
  shows "is_ok (order h units provides) \<longleftrightarrow> acyclic (depends_on h units provides)"
    "order h units provides = Inr os \<Longrightarrow>
       mset os = mset units \<and> deps_first (\<lambda>u. set (dependencies h provides u)) {} os \<and>
       least_first (set units) (\<lambda>u. set (dependencies h provides u)) (ref h) {} os"
    "order h units provides = Inl e \<Longrightarrow>
       \<exists>refs. e = DependencyCycle refs \<and> {ref h u |u. (u, u) \<in> (depends_on h units provides)\<^sup>+} \<subseteq> set refs"
proof -
  obtain m dpts where g: "initialGraph (h, units, provides) = (m, dpts)" by fastforce
  obtain os' final where run: "orderLoop h dpts m (filter (\<lambda>u. degree m u = 0) units) = (os', final)" by fastforce
  have ord: "order h units provides =
      (if length os' \<noteq> length units
       then Inl (DependencyCycle (sort (map (ref h) (filter (\<lambda>u. degree final u > 0) units))))
       else Inr os')"
    using g run by (simp add: order_def initialGraph_def)
  note run' = orderLoop_run [OF run]
  note loop = kits.run_from_start [OF ok, of "ref h" os' final, simplified g, simplified, OF run']
  have complete: "length os' = length units \<longleftrightarrow> acyclic (depends_on h units provides)"
    using kits.run_complete_iff [OF ok, of "ref h" os' final] run' by (simp add: g depends_on_def)
  show "is_ok (order h units provides) \<longleftrightarrow> acyclic (depends_on h units provides)"
    using complete by (simp add: ord)
  have "distinct units" using ok by (simp add: graph_ok_def)
  have least: "least_first (set units) (\<lambda>u. set (dependencies h provides u)) (ref h) {} os'"
    using kits.run_least [OF _ ok kits.loop_inv_start [OF ok] refl, of "ref h" os' final] run' by (simp add: g)
  show "mset os = mset units \<and> deps_first (\<lambda>u. set (dependencies h provides u)) {} os \<and>
      least_first (set units) (\<lambda>u. set (dependencies h provides u)) (ref h) {} os"
    if "order h units provides = Inr os"
  proof -
    have "os = os'" "length os' = length units" using that by (auto simp: ord split: if_splits)
    then show ?thesis
      using kits.run_places_all [OF ok, of "ref h" os' final] run' loop(3) least by (simp add: g)
  qed
  show "\<exists>refs. e = DependencyCycle refs \<and> {ref h u |u. (u, u) \<in> (depends_on h units provides)\<^sup>+} \<subseteq> set refs"
    if "order h units provides = Inl e"
  proof -
    have "u \<in> set units \<and> degree final u > 0" if "(u, u) \<in> (depends_on h units provides)\<^sup>+" for u
      using kits.run_cycle_unmet [OF ok, of "ref h" os' final u] run' that by (simp add: g depends_on_def)
    then show ?thesis using that by (fastforce simp: ord split: if_splits)
  qed
qed

end
