(* ===== verification/Resolution.thy ===== *)
theory Resolution
  imports Resolve_Order Entries
begin

text \<open>
  What the resolver promises: an abstract statement of a coherent kit set, the theorem that
  the checks of \<open>resolve\<close> report nothing exactly on the coherent sets, that a resolution
  exists exactly when a coherent set has no dependency cycle, and that it does not depend on
  the order in which the caller lists the kits.
\<close>

section \<open>Coherent sets\<close>

text \<open>Everything the kits of a set offer: a unit with one of its provides, at the version the
  resolver judges it by.\<close>

definition offers :: "unit_heap \<Rightarrow> unit_ptr list \<Rightarrow> provider set" where
  "offers h units = {p. \<exists>u \<in> set units. \<exists>s \<in> set (Provides (desc h u)). unitProvide h u s = Inr p}"

definition meets :: "unit_heap \<Rightarrow> unit_ptr list \<Rightarrow> unit_ptr \<Rightarrow> require \<Rightarrow> unit_ptr \<Rightarrow> bool" where
  "meets h units u r v \<longleftrightarrow>
     v \<noteq> u \<and> (\<exists>p \<in> offers h units. provUnit p = v \<and> Satisfies (provProvide p) r)"

definition workloads :: "unit_heap \<Rightarrow> unit_ptr list \<Rightarrow> unit_ptr list" where
  "workloads h units = filter (\<lambda>u. Kind (desc h u) = KindWorkload) units"

definition coherent :: "unit_heap \<Rightarrow> unit_ptr list \<Rightarrow> bool \<Rightarrow> bool" where
  "coherent h units partial \<longleftrightarrow>
     (if partial then length (workloads h units) \<le> 1 else length (workloads h units) = 1) \<and>
     (\<forall>u \<in> set units. \<forall>s \<in> set (Provides (desc h u)). is_ok (ParseProvide s)) \<and>
     (\<forall>p \<in> offers h units. \<forall>q \<in> offers h units.
        pName (provProvide p) = pName (provProvide q) \<longrightarrow> provUnit p = provUnit q) \<and>
     (\<forall>u \<in> set units. \<forall>s \<in> set (Requires (desc h u)).
        \<exists>r v. ParseRequire s = Inr r \<and> meets h units u r v) \<and>
     (\<forall>u \<in> set units. \<forall>s \<in> set (Integrates (desc h u)).
        \<exists>r. ParseRequire s = Inr r \<and>
          ((\<forall>p \<in> offers h units. pName (provProvide p) = rName r \<longrightarrow> provUnit p = u) \<or>
           (\<exists>v. meets h units u r v))) \<and>
     (\<forall>u \<in> set units. \<forall>name \<in> set (Conflicts (desc h u)). \<forall>p \<in> offers h units.
        pName (provProvide p) = NormalizeCapabilityName name \<longrightarrow> provUnit p = u)"

definition capability_coherent :: "unit_heap \<Rightarrow> unit_ptr list \<Rightarrow> bool" where
  "capability_coherent h units \<longleftrightarrow>
     (\<forall>u \<in> set units. \<forall>c \<in> set (Capabilities (desc h u)). capGroup c = None) \<and>
     distinct (map fst (concat (map (credentialKeys h) units)))"

section \<open>Each check decides its clause\<close>

lemma set_rights: "set (rights rs) = {a. Inr a \<in> set rs}"
  by (induction rs) (auto simp: rights_def map_filter_simps split: sum.splits)

lemma lefts_empty: "lefts rs = [] \<longleftrightarrow> (\<forall>r \<in> set rs. is_ok r)"
  by (induction rs) (auto simp: lefts_def map_filter_simps is_ok_def split: sum.splits)

lemma unitProvide_unit: "unitProvide h u s = Inr p \<Longrightarrow> provUnit p = u"
  by (cases "ParseProvide s") (auto simp: unitProvide_def Let_def)

lemma unitProvide_ok [simp]: "is_ok (unitProvide h u s) = is_ok (ParseProvide s)"
  by (cases "ParseProvide s") (auto simp: unitProvide_def Let_def)

lemma offers_eq: "offers h units = set (rights (offered h units))"
proof -
  have "Inr p \<in> set (offered h units) \<longleftrightarrow>
      (\<exists>u \<in> set units. \<exists>s \<in> set (Provides (desc h u)). unitProvide h u s = Inr p)" for p
    by (simp add: offered_def image_iff) metis
  then show ?thesis by (simp add: offers_def set_rights)
qed

lemma index_offers:
  "set (index_at (fst (providesIndex h units)) name) =
   {p \<in> offers h units. pName (provProvide p) = name}"
  by (force simp: providesIndex_def index_at_of offers_eq image_iff)

lemma offer_unit: "p \<in> offers h units \<Longrightarrow> provUnit p \<in> set units"
  by (auto simp: offers_def dest: unitProvide_unit)

lemma Satisfies_name: "Satisfies p r \<Longrightarrow> pName p = rName r"
  by (simp add: Satisfies_def split: if_splits)

lemma satisfiedBy_None:
  "satisfiedBy r (fst (providesIndex h units)) u = None \<longleftrightarrow> (\<forall>v. \<not> meets h units u r v)"
  by (auto simp: satisfiedBy_def satisfiedByLoop_None index_offers meets_def dest: Satisfies_name)

lemma workloadLoop_eq:
  "fst (workloadLoop h w units) = (case w of Some x \<Rightarrow> Some x | None \<Rightarrow>
     (case workloads h units of [] \<Rightarrow> None | x # _ \<Rightarrow> Some x))"
  "snd (workloadLoop h w units) = [] \<longleftrightarrow>
     length (workloads h units) + (if w = None then 0 else 1) \<le> 1"
  by (induction h w units rule: workloadLoop.induct)
    (auto simp: workloads_def split: option.splits prod.splits list.splits)

lemma index_entries:
  assumes "distinct (map fst m)"
  shows "filter (\<lambda>(_, vs). \<not> P vs) m = [] \<longleftrightarrow> (\<forall>k \<in> fst ` set m. P (index_at m k))"
  using assms by (auto simp: filter_empty_conv index_at_def)

lemma sort_key_empty [simp]: "sort_key f xs = [] \<longleftrightarrow> xs = []"
  by (metis length_0_conv length_sort)

lemma length_dedupe_le: "length (dedupe xs) \<le> 1 \<longleftrightarrow> (\<forall>x \<in> set xs. \<forall>y \<in> set xs. x = y)"
  using distinct_card [of "dedupe xs"] card_le_Suc0_iff_eq [of "set xs"] by simp

lemma distinct_keys_iff:
  "distinct (map fst kvs) \<longleftrightarrow> (\<forall>k \<in> fst ` set kvs. length (index_at (index_of kvs) k) \<le> 1)"
proof -
  have "distinct (map fst kvs) \<longleftrightarrow> (\<forall>k. length (filter (\<lambda>kv. fst kv = k) kvs) \<le> 1)"
    by (induction kvs) (force simp: filter_empty_conv)+
  moreover have "length (filter (\<lambda>kv. fst kv = k) kvs) \<le> 1"
    if "\<forall>k \<in> fst ` set kvs. length (filter (\<lambda>kv. fst kv = k) kvs) \<le> 1" for k
  proof (cases "k \<in> fst ` set kvs")
    case False
    then have "filter (\<lambda>kv. fst kv = k) kvs = []" by (auto simp: filter_empty_conv)
    then show ?thesis by simp
  qed (use that in blast)
  ultimately have "distinct (map fst kvs) \<longleftrightarrow>
      (\<forall>k \<in> fst ` set kvs. length (filter (\<lambda>kv. fst kv = k) kvs) \<le> 1)" by blast
  then show ?thesis by (simp add: index_at_of)
qed

lemma checkOneWorkload_iff:
  "snd (checkOneWorkload h units partial) = [] \<longleftrightarrow>
   (if partial then length (workloads h units) \<le> 1 else length (workloads h units) = 1)"
  using workloadLoop_eq [of h None units]
  by (cases "workloads h units") (auto simp: checkOneWorkload_def split: prod.splits)

lemma providesIndex_problems_iff:
  "snd (providesIndex h units) = [] \<longleftrightarrow>
   (\<forall>u \<in> set units. \<forall>s \<in> set (Provides (desc h u)). is_ok (ParseProvide s))"
  by (auto simp: providesIndex_def lefts_empty offered_def)

lemma checkOneProviderPerName_iff:
  "checkOneProviderPerName h (fst (providesIndex h units)) = [] \<longleftrightarrow>
   (\<forall>p \<in> offers h units. \<forall>q \<in> offers h units.
      pName (provProvide p) = pName (provProvide q) \<longrightarrow> provUnit p = provUnit q)"
proof -
  let ?pi = "fst (providesIndex h units)"
  have "checkOneProviderPerName h ?pi = [] \<longleftrightarrow>
      filter (\<lambda>(_, ps). \<not> length (dedupe (map provUnit ps)) \<le> 1) ?pi = []"
    by (simp add: checkOneProviderPerName_def Let_def not_le)
  also have "\<dots> \<longleftrightarrow> (\<forall>k \<in> fst ` set ?pi. length (dedupe (map provUnit (index_at ?pi k))) \<le> 1)"
    by (rule index_entries) (simp add: providesIndex_def)
  also have "fst ` set ?pi = (\<lambda>p. pName (provProvide p)) ` offers h units"
    by (simp add: providesIndex_def keys_index_of offers_eq image_image)
  finally have "checkOneProviderPerName h ?pi = [] \<longleftrightarrow>
      (\<forall>k \<in> (\<lambda>p. pName (provProvide p)) ` offers h units. length (dedupe (map provUnit (index_at ?pi k))) \<le> 1)" .
  moreover have "length (dedupe (map provUnit (index_at ?pi k))) \<le> 1 \<longleftrightarrow>
      (\<forall>p \<in> offers h units. \<forall>q \<in> offers h units.
         pName (provProvide p) = k \<and> pName (provProvide q) = k \<longrightarrow> provUnit p = provUnit q)" for k
    unfolding length_dedupe_le set_map index_offers by blast
  ultimately have "checkOneProviderPerName h ?pi = [] \<longleftrightarrow>
      (\<forall>k \<in> (\<lambda>p. pName (provProvide p)) ` offers h units. \<forall>p \<in> offers h units. \<forall>q \<in> offers h units.
         pName (provProvide p) = k \<and> pName (provProvide q) = k \<longrightarrow> provUnit p = provUnit q)"
    by simp
  then show ?thesis by (metis (no_types, lifting) image_eqI imageE)
qed

lemma checkOneCredentialOwner_iff:
  "checkOneCredentialOwner h units = [] \<longleftrightarrow> distinct (map fst (concat (map (credentialKeys h) units)))"
proof -
  let ?kvs = "concat (map (credentialKeys h) units)"

  have "checkOneCredentialOwner h units = [] \<longleftrightarrow> filter (\<lambda>(_, refs). \<not> length refs \<le> 1) (index_of ?kvs) = []"
    by (simp add: checkOneCredentialOwner_def Let_def not_le)
  also have "\<dots> \<longleftrightarrow> (\<forall>k \<in> fst ` set (index_of ?kvs). length (index_at (index_of ?kvs) k) \<le> 1)"
    by (rule index_entries) simp
  finally show ?thesis
    by (simp add: keys_index_of distinct_keys_iff)
qed

lemma checkGroups_iff:
  "checkGroups h units = [] \<longleftrightarrow> (\<forall>u \<in> set units. \<forall>c \<in> set (Capabilities (desc h u)). capGroup c = None)"
proof -
  have "filter (\<lambda>(i, c). capGroup c \<noteq> None) (enumerate n cs) = [] \<longleftrightarrow> (\<forall>c \<in> set cs. capGroup c = None)"
    for n cs
    by (induction cs arbitrary: n) auto
  then show ?thesis by (auto simp: checkGroups_def)
qed

lemma requireProblems_iff:
  "requireProblems h (fst (providesIndex h units)) u s = [] \<longleftrightarrow>
   (\<exists>r v. ParseRequire s = Inr r \<and> meets h units u r v)"
  using satisfiedBy_None [of _ h units u]
  by (auto simp: requireProblems_def split: sum.splits list.splits)

lemma integrateProblems_iff:
  "integrateProblems h (fst (providesIndex h units)) u s = [] \<longleftrightarrow>
   (\<exists>r. ParseRequire s = Inr r \<and>
      ((\<forall>p \<in> offers h units. pName (provProvide p) = rName r \<longrightarrow> provUnit p = u) \<or>
       (\<exists>v. meets h units u r v)))"
proof -
  have "othersProviding name (fst (providesIndex h units)) u = [] \<longleftrightarrow>
      (\<forall>p \<in> offers h units. pName (provProvide p) = name \<longrightarrow> provUnit p = u)" for name
    by (auto simp: othersProviding_def filter_empty_conv index_offers)
  then show ?thesis
    using satisfiedBy_None [of _ h units u]
    by (auto simp: integrateProblems_def Let_def split: sum.splits)
qed

lemma conflictProblems_iff:
  "conflictProblems h (fst (providesIndex h units)) u name = [] \<longleftrightarrow>
   (\<forall>p \<in> offers h units. pName (provProvide p) = NormalizeCapabilityName name \<longrightarrow> provUnit p = u)"
  by (auto simp: conflictProblems_def othersProviding_def filter_empty_conv index_offers)

lemma problemsOf_iff:
  "problemsOf h units partial capabilities = [] \<longleftrightarrow>
   coherent h units partial \<and> (capabilities \<longrightarrow> capability_coherent h units)"
proof -
  have relations:
    "checkRequires h units (fst (providesIndex h units)) = [] \<longleftrightarrow>
       (\<forall>u \<in> set units. \<forall>s \<in> set (Requires (desc h u)). \<exists>r v. ParseRequire s = Inr r \<and> meets h units u r v)"
    "checkIntegrates h units (fst (providesIndex h units)) = [] \<longleftrightarrow>
       (\<forall>u \<in> set units. \<forall>s \<in> set (Integrates (desc h u)). \<exists>r. ParseRequire s = Inr r \<and>
          ((\<forall>p \<in> offers h units. pName (provProvide p) = rName r \<longrightarrow> provUnit p = u) \<or>
           (\<exists>v. meets h units u r v)))"
    "checkConflicts h units (fst (providesIndex h units)) = [] \<longleftrightarrow>
       (\<forall>u \<in> set units. \<forall>name \<in> set (Conflicts (desc h u)). \<forall>p \<in> offers h units.
          pName (provProvide p) = NormalizeCapabilityName name \<longrightarrow> provUnit p = u)"
    by (simp_all add: checkRequires_def checkIntegrates_def checkConflicts_def
        requireProblems_iff integrateProblems_iff conflictProblems_iff)
  have split: "problemsOf h units partial capabilities = [] \<longleftrightarrow>
      snd (checkOneWorkload h units partial) = [] \<and> snd (providesIndex h units) = [] \<and>
      checkOneProviderPerName h (fst (providesIndex h units)) = [] \<and>
      (capabilities \<longrightarrow> checkGroups h units = [] \<and> checkOneCredentialOwner h units = []) \<and>
      checkRequires h units (fst (providesIndex h units)) = [] \<and>
      checkIntegrates h units (fst (providesIndex h units)) = [] \<and>
      checkConflicts h units (fst (providesIndex h units)) = []"
    by (simp add: problemsOf_def case_prod_beta)
  show ?thesis
    unfolding split checkOneWorkload_iff providesIndex_problems_iff checkOneProviderPerName_iff
      checkGroups_iff checkOneCredentialOwner_iff relations coherent_def capability_coherent_def
    by blast
qed

section \<open>The resolution of a coherent set\<close>

text \<open>The dependencies of a set stated over what its kits offer: a kit needs the other kits
  that meet one of its requires or integrates entries.\<close>

definition needs :: "unit_heap \<Rightarrow> unit_ptr list \<Rightarrow> (unit_ptr \<times> unit_ptr) set" where
  "needs h units =
     {(u, v). u \<in> set units \<and>
        (\<exists>s \<in> set (Requires (desc h u)) \<union> set (Integrates (desc h u)).
           \<exists>r. ParseRequire s = Inr r \<and> meets h units u r v)}"

lemma graph_ok_units: "distinct units \<Longrightarrow> graph_ok (h, units, fst (providesIndex h units))"
  by (auto simp: graph_ok_def index_offers dest: offer_unit)

text \<open>With one owner per name, whichever provider the search meets first is the only one.\<close>

lemma satisfiedBy_unique:
  assumes "coherent h units partial"
  shows "satisfiedBy r (fst (providesIndex h units)) u = Some v \<longleftrightarrow> meets h units u r v"
proof
  assume "satisfiedBy r (fst (providesIndex h units)) u = Some v"
  then show "meets h units u r v"
    by (auto simp: meets_def index_offers dest!: satisfiedBy_Some)
next
  assume v: "meets h units u r v"
  then obtain w where w: "satisfiedBy r (fst (providesIndex h units)) u = Some w"
    using satisfiedBy_None [of r h units u] by blast
  then obtain p q where "p \<in> offers h units" "provUnit p = v" "Satisfies (provProvide p) r"
    "q \<in> offers h units" "provUnit q = w" "Satisfies (provProvide q) r"
    using v by (auto simp: meets_def index_offers dest!: satisfiedBy_Some)
  moreover have "\<forall>p \<in> offers h units. \<forall>q \<in> offers h units.
      pName (provProvide p) = pName (provProvide q) \<longrightarrow> provUnit p = provUnit q"
    using assms unfolding coherent_def by blast
  ultimately have "v = w" by (metis Satisfies_name)
  then show "satisfiedBy r (fst (providesIndex h units)) u = Some v" using w by simp
qed

lemma depends_on_needs:
  assumes "coherent h units partial"
  shows "depends_on h units (fst (providesIndex h units)) = needs h units"
  by (auto simp: depends_on_def needs_def dependencies_iff satisfiedBy_unique [OF assms])

lemma resolve_ok_iff:
  "resolve h units partial capabilities = Inr r \<longleftrightarrow>
   units \<noteq> [] \<and> (\<forall>u \<in> set units. UnitDescriptor (h u) \<noteq> None) \<and>
   coherent h units partial \<and> (capabilities \<longrightarrow> capability_coherent h units) \<and>
   order h units (fst (providesIndex h units)) = Inr (topological r) \<and>
   Workload r = fst (checkOneWorkload h units partial) \<and>
   Mixins r = filter (\<lambda>u. Some u \<noteq> Workload r) (topological r)"
proof -
  have missing: "(\<forall>u \<in> set units. UnitDescriptor (h u) \<noteq> None) \<longleftrightarrow>
      filter (\<lambda>u. UnitDescriptor (h u) = None) units = []"
    by (auto simp: filter_empty_conv)
  have rec: "\<lparr>Workload = w, Mixins = ms, topological = os\<rparr> = r \<longleftrightarrow>
      Workload r = w \<and> Mixins r = ms \<and> topological r = os" for w ms os
    by (cases r) auto
  show ?thesis
    unfolding missing
    by (auto simp: resolve_def Let_def rec rbind_Inr_iff problemsOf_iff split: list.splits if_splits)
qed

lemma resolve_order:
  assumes "distinct units" "resolve h units partial capabilities = Inr r"
  shows "coherent h units partial" "mset (topological r) = mset units"
    "deps_first (\<lambda>u. {v. (u, v) \<in> needs h units}) {} (topological r)"
    "least_first (set units) (\<lambda>u. {v. (u, v) \<in> needs h units}) (ref h) {} (topological r)"
proof -
  let ?pi = "fst (providesIndex h units)"
  have coh: "coherent h units partial" and ord: "order h units ?pi = Inr (topological r)"
    using assms(2) by (auto simp: resolve_ok_iff)
  note res = order_result(2) [OF graph_ok_units [OF assms(1), of h] ord]
  have needs: "{v. (u, v) \<in> needs h units} = set (dependencies h ?pi u)" if "u \<in> set units" for u
    using that by (auto simp: depends_on_needs [OF coh, symmetric] depends_on_def)
  have set: "set (topological r) = set units" using res by (blast dest: mset_eq_setD)
  have "deps_first (\<lambda>u. {v. (u, v) \<in> needs h units}) {} (topological r) =
      deps_first (\<lambda>u. set (dependencies h ?pi u)) {} (topological r)"
    by (rule deps_first_cong) (simp add: needs set)
  moreover have "least_first (set units) (\<lambda>u. {v. (u, v) \<in> needs h units}) (ref h) {} (topological r) =
      least_first (set units) (\<lambda>u. set (dependencies h ?pi u)) (ref h) {} (topological r)"
    by (rule least_first_cong) (rule needs)
  ultimately show "mset (topological r) = mset units"
    "deps_first (\<lambda>u. {v. (u, v) \<in> needs h units}) {} (topological r)"
    "least_first (set units) (\<lambda>u. {v. (u, v) \<in> needs h units}) (ref h) {} (topological r)"
    using res by simp_all
  show "coherent h units partial" by (rule coh)
qed

lemma resolve_defined_iff:
  assumes "distinct units"
  shows "is_ok (resolve h units partial capabilities) \<longleftrightarrow>
    units \<noteq> [] \<and> (\<forall>u \<in> set units. UnitDescriptor (h u) \<noteq> None) \<and>
    coherent h units partial \<and> (capabilities \<longrightarrow> capability_coherent h units) \<and>
    acyclic (needs h units)"
proof -
  have "is_ok (resolve h units partial capabilities) \<longleftrightarrow>
      (\<exists>r. resolve h units partial capabilities = Inr r)"
    by (cases "resolve h units partial capabilities") auto
  also have "\<dots> \<longleftrightarrow> units \<noteq> [] \<and> (\<forall>u \<in> set units. UnitDescriptor (h u) \<noteq> None) \<and>
      coherent h units partial \<and> (capabilities \<longrightarrow> capability_coherent h units) \<and>
      is_ok (order h units (fst (providesIndex h units)))"
  proof -
    have "(\<exists>r :: resolution. order h units (fst (providesIndex h units)) = Inr (topological r) \<and>
        Workload r = fst (checkOneWorkload h units partial) \<and>
        Mixins r = filter (\<lambda>u. Some u \<noteq> Workload r) (topological r)) \<longleftrightarrow>
      is_ok (order h units (fst (providesIndex h units)))"
    proof (cases "order h units (fst (providesIndex h units))")
      case (Inr os)
      let ?w = "fst (checkOneWorkload h units partial)"
      let ?r = "\<lparr>Workload = ?w, Mixins = filter (\<lambda>u. Some u \<noteq> ?w) os, topological = os\<rparr>"
      show ?thesis by (simp add: Inr) (rule exI [of _ ?r], simp)
    qed simp
    then show ?thesis unfolding resolve_ok_iff by blast
  qed
  finally show ?thesis
    using order_result(1) [OF graph_ok_units [OF assms]] depends_on_needs by metis
qed

text \<open>Property C5. The resolver accepts exactly the coherent sets without a dependency cycle: over
  distinct units, a resolution exists if and only if the set is not empty, every unit has a
  descriptor, the abstract coherence conditions hold (with those on capabilities when they
  are asked for), and the needs of the kits have no cycle.\<close>

theorem resolve_exact:
  assumes "distinct units"
  shows "is_ok (resolve h units partial capabilities) \<longleftrightarrow>
    units \<noteq> [] \<and> (\<forall>u \<in> set units. UnitDescriptor (h u) \<noteq> None) \<and>
    coherent h units partial \<and> (capabilities \<longrightarrow> capability_coherent h units) \<and>
    acyclic (needs h units)"
  using assms by (rule resolve_defined_iff)

text \<open>Property C6. The order of a resolution: it holds every unit once, every kit comes after the
  kits it needs, and among the kits that were ready at a position the one with the least
  reference stands there.\<close>

theorem resolution_topological:
  assumes "distinct units" "resolve h units partial capabilities = Inr r"
  shows "mset (Topological r) = mset units \<and>
    (\<forall>(u, v) \<in> needs h units. precedes (Topological r) v u) \<and>
    least_first (set units) (\<lambda>u. {v. (u, v) \<in> needs h units}) (ref h) {} (Topological r)"
proof -
  note ord = resolve_order [OF assms]
  have "u \<in> set (topological r)" if "(u, v) \<in> needs h units" for u v
    using that mset_eq_setD [OF ord(2)] by (auto simp: needs_def)
  then show ?thesis
    using ord deps_first_precedes [OF ord(3)] by (auto simp: Topological_def)
qed

lemma checkOneWorkload_workloads:
  "fst (checkOneWorkload h units partial) = (case workloads h units of [] \<Rightarrow> None | w # _ \<Rightarrow> Some w)"
  using workloadLoop_eq(1) [of h None units] by (simp add: checkOneWorkload_def case_prod_beta)

lemma filter_precedes: "precedes xs v u \<Longrightarrow> P v \<Longrightarrow> P u \<Longrightarrow> precedes (filter P xs) v u"
  by (force simp: precedes_def)

lemma resolve_workload:
  assumes "resolve h units partial capabilities = Inr r"
  shows "set (workloads h units) = set_option (Workload r)"
    "Workload r = Some w \<Longrightarrow> w \<in> set units \<and> Kind (desc h w) = KindWorkload"
proof -
  have "length (workloads h units) \<le> 1"
    using assms by (auto simp: resolve_ok_iff coherent_def split: if_splits)
  moreover have w: "Workload r = (case workloads h units of [] \<Rightarrow> None | w # _ \<Rightarrow> Some w)"
    using assms by (simp add: resolve_ok_iff checkOneWorkload_workloads)
  ultimately show sets: "set (workloads h units) = set_option (Workload r)"
    by (auto split: list.splits)
  show "w \<in> set units \<and> Kind (desc h w) = KindWorkload" if "Workload r = Some w"
    using sets that by (auto simp: workloads_def)
qed

lemma resolve_ordered:
  assumes "distinct units" "resolve h units partial capabilities = Inr r"
  shows "Mixins r = filter (\<lambda>u. Some u \<noteq> Workload r) (topological r)" "mset (Ordered r) = mset units"
proof -
  note ord = resolve_order [OF assms]
  show mixins: "Mixins r = filter (\<lambda>u. Some u \<noteq> Workload r) (topological r)"
    using assms(2) by (simp add: resolve_ok_iff)
  have dist: "distinct (topological r)" using assms(1) ord(2) by (metis mset_eq_imp_distinct_iff)
  have "mset (Ordered r) = mset (topological r)"
  proof (cases "Workload r")
    case None
    then show ?thesis by (simp add: Ordered_def mixins)
  next
    case (Some w)
    then have "w \<in> set (topological r)"
      using resolve_workload(2) [OF assms(2)] mset_eq_setD [OF ord(2)] by simp
    then have "mset (w # Mixins r) = mset (topological r)"
      using dist by (intro iffD1 [OF set_eq_iff_mset_eq_distinct]) (auto simp: mixins Some)
    then show ?thesis by (simp add: Ordered_def Some)
  qed
  with ord(2) show "mset (Ordered r) = mset units" by simp
qed

text \<open>The composition order: it starts with the workload, the one kit of that kind,
  when the set has one, holds every unit once, and keeps every mixin after the mixins it
  needs. Without permission for a partial set there is a workload.\<close>

theorem ordered_composition:
  assumes "distinct units" "resolve h units partial capabilities = Inr r"
  shows "mset (Ordered r) = mset units \<and>
    {u \<in> set units. Kind (desc h u) = KindWorkload} = set_option (Workload r) \<and>
    (partial \<or> Workload r \<noteq> None) \<and>
    (case Workload r of None \<Rightarrow> Ordered r = Mixins r | Some w \<Rightarrow> Ordered r = w # Mixins r) \<and>
    (\<forall>(u, v) \<in> needs h units. u \<in> set (Mixins r) \<and> v \<in> set (Mixins r) \<longrightarrow> precedes (Mixins r) v u)"
proof -
  note ord = resolve_order [OF assms]
  note mixins = resolve_ordered(1) [OF assms]
  have order: "precedes (Mixins r) v u"
    if "(u, v) \<in> needs h units" "u \<in> set (Mixins r)" "v \<in> set (Mixins r)" for u v
    unfolding mixins
  proof (rule filter_precedes)
    show "precedes (topological r) v u"
      using deps_first_precedes [OF ord(3)] that by (simp add: mixins)
  qed (use that mixins in auto)
  have "partial \<or> Workload r \<noteq> None"
    using assms(2) resolve_workload(1) [OF assms(2)]
    by (cases "workloads h units") (auto simp: resolve_ok_iff coherent_def split: if_splits)
  moreover have "{u \<in> set units. Kind (desc h u) = KindWorkload} = set_option (Workload r)"
    using resolve_workload(1) [OF assms(2)] by (simp add: workloads_def)
  ultimately show ?thesis
    using resolve_ordered(2) [OF assms] order by (auto simp: Ordered_def split: option.splits)
qed

section \<open>Independence from the listing order\<close>

lemma offers_set: "set units' = set units \<Longrightarrow> offers h units' = offers h units"
  by (simp add: offers_def)

lemma needs_set:
  assumes "set units' = set units"
  shows "needs h units' = needs h units"
  by (simp only: needs_def meets_def offers_set [OF assms] assms)

lemma coherent_mset:
  assumes "mset units' = mset units"
  shows "coherent h units' partial = coherent h units partial"
proof -
  have "mset (workloads h units') = mset (workloads h units)"
    by (simp add: workloads_def assms)
  then have "length (workloads h units') = length (workloads h units)" by (rule mset_eq_length)
  then show ?thesis
    by (simp only: coherent_def meets_def offers_set [OF mset_eq_setD [OF assms]] mset_eq_setD [OF assms])
qed

lemma capability_coherent_mset:
  assumes "mset units' = mset units"
  shows "capability_coherent h units' = capability_coherent h units"
proof -
  have all: "mset (concat (map f us)) = \<Sum>\<^sub># (image_mset (\<lambda>u. mset (f u)) (mset us))" for f :: "unit_ptr \<Rightarrow> 'a list" and us
    by (induction us) auto
  have "mset (map fst (concat (map (credentialKeys h) units'))) = mset (map fst (concat (map (credentialKeys h) units)))"
    by (simp only: mset_map all assms)
  from mset_eq_imp_distinct_iff [OF this] show ?thesis
    by (simp only: capability_coherent_def mset_eq_setD [OF assms])
qed

text \<open>The resolution is a function of the set: when the references of the units are
  distinct, listing the same units in another order gives the same resolution, so neither
  the order of the caller's list nor that of the provides index shows in the result.\<close>

theorem resolve_listing_independent:
  assumes perm: "mset units' = mset units" and dist: "distinct units" and refs: "inj_on (ref h) (set units)"
    and res: "resolve h units partial capabilities = Inr r"
  shows "resolve h units' partial capabilities = Inr r"
proof -
  have sets: "set units' = set units" by (rule mset_eq_setD [OF perm])
  have dist': "distinct units'" using dist mset_eq_imp_distinct_iff [OF perm] by simp
  have "is_ok (resolve h units' partial capabilities)"
  proof -
    have "is_ok (resolve h units partial capabilities)" by (simp add: res)
    then show ?thesis
      unfolding resolve_defined_iff [OF dist] resolve_defined_iff [OF dist'] needs_set [OF sets] sets
        coherent_mset [OF perm] capability_coherent_mset [OF perm]
      using sets by (metis set_empty)
  qed
  then obtain r' where res': "resolve h units' partial capabilities = Inr r'"
    by (cases "resolve h units' partial capabilities") auto
  note ord = resolve_order [OF dist res] and ord' = resolve_order [OF dist' res']
  have "topological r' = topological r"
  proof (rule least_first_unique [OF refs])
    show "least_first (set units) (\<lambda>u. {v. (u, v) \<in> needs h units}) (ref h) {} (topological r')"
      using ord'(4) by (simp add: sets needs_set [OF sets])
    show "length (topological r') = length (topological r)"
      using ord(2) ord'(2) perm by (metis mset_eq_length)
  qed (rule ord(4))
  moreover have "set_option (Workload r') = set_option (Workload r)"
    using resolve_workload(1) [OF res] resolve_workload(1) [OF res'] sets by (simp add: workloads_def)
  then have "Workload r' = Workload r" by (cases "Workload r"; cases "Workload r'") auto
  ultimately have "r' = r"
    using res res' by (cases r; cases r') (simp add: resolve_ok_iff)
  then show ?thesis using res' by simp
qed

text \<open>When ordering fails the error is a dependency cycle, there is one, and every
  kit that lies on a cycle is named in it.\<close>

theorem cycle_reported:
  assumes "distinct units" "resolve h units partial capabilities = Inl (DependencyCycle refs)"
  shows "\<not> acyclic (needs h units) \<and> {ref h u |u. (u, u) \<in> (needs h units)\<^sup>+} \<subseteq> set refs \<and>
    coherent h units partial"
proof -
  let ?pi = "fst (providesIndex h units)"
  have coh: "coherent h units partial" and ord: "order h units ?pi = Inl (DependencyCycle refs)"
    using assms(2)
    by (auto simp: resolve_def Let_def problemsOf_iff rbind_def split: list.splits if_splits sum.splits)
  note res = order_result [OF graph_ok_units [OF assms(1), of h]]
  from res(3) [OF ord] res(1) ord coh show ?thesis
    by (simp add: depends_on_needs [OF coh])
qed

section \<open>A worked set\<close>

text \<open>A workload that offers a shell at the version of its tag, a kit that requires it and one
  that integrates with that kit; and two kits that require each other.\<close>

definition exampleKit :: "string \<Rightarrow> string \<Rightarrow> string list \<Rightarrow> string list \<Rightarrow> string list \<Rightarrow> kit_unit" where
  "exampleKit r kind prov req integ =
     \<lparr>Reference = r, Digest = ''sha256:0'', Image = r,
      UnitDescriptor = Some (emptyDescriptor \<lparr>Kind := kind, Provides := prov, Requires := req, Integrates := integ\<rparr>),
      UnitArgs = [], UnitEnv = []\<rparr>"

definition exampleHeap :: unit_heap where
  "exampleHeap u =
     (if u = 0 then exampleKit ''reg.io/base:1.2.0'' KindWorkload [''shell''] [] []
      else if u = 1 then exampleKit ''reg.io/git:2'' KindMixin [''git@2.0''] [''shell >= 1.0''] []
      else if u = 2 then exampleKit ''reg.io/aux'' KindMixin [] [] [''git'']
      else if u = 3 then exampleKit ''reg.io/x'' KindMixin [''x''] [''y''] []
      else exampleKit ''reg.io/y'' KindMixin [''y''] [''x''] [])"

lemma example_resolved:
  "resolve exampleHeap [2, 1, 0] False True = Inr \<lparr>Workload = Some 0, Mixins = [1, 2], topological = [0, 1, 2]\<rparr>"
  by code_simp

lemma example_cycle:
  "resolve exampleHeap [3, 4] True True = Inl (DependencyCycle [''reg.io/x'', ''reg.io/y''])"
  by code_simp

theorem resolve_exact_witness:
  "coherent exampleHeap [2, 1, 0] False \<and> acyclic (needs exampleHeap [2, 1, 0])"
  using resolve_exact [of "[2, 1, 0]" exampleHeap False True, unfolded example_resolved] by simp

theorem resolution_topological_witness:
  "mset (Topological \<lparr>Workload = Some 0, Mixins = [1, 2], topological = [0, 1, 2]\<rparr>) = mset [2, 1, 0] \<and>
   needs exampleHeap [2, 1, 0] \<subseteq> {(u, v). precedes [0, 1, 2] v u}"
  using resolution_topological [OF _ example_resolved] by (auto simp: Topological_def)

theorem ordered_composition_witness:
  "mset [0, 1, 2] = mset [2, 1, 0 :: nat] \<and>
   {u \<in> set [2, 1, 0]. Kind (desc exampleHeap u) = KindWorkload} = {0} \<and>
   needs exampleHeap [2, 1, 0] \<inter> {1, 2} \<times> {1, 2} \<subseteq> {(u, v). precedes [1, 2] v u}"
  using ordered_composition [OF _ example_resolved] by (auto simp: Ordered_def)

theorem resolve_listing_independent_witness:
  "resolve exampleHeap [0, 2, 1] False True = Inr \<lparr>Workload = Some 0, Mixins = [1, 2], topological = [0, 1, 2]\<rparr>"
proof (rule resolve_listing_independent [OF _ _ _ example_resolved])
  show "inj_on (ref exampleHeap) (set [2, 1, 0])"
    by (auto simp: inj_on_def exampleHeap_def exampleKit_def)
qed simp_all

theorem cycle_reported_witness:
  "\<not> acyclic (needs exampleHeap [3, 4]) \<and>
   {ref exampleHeap u |u. (u, u) \<in> (needs exampleHeap [3, 4])\<^sup>+} \<subseteq> {''reg.io/x'', ''reg.io/y''}"
  using cycle_reported [OF _ example_cycle] by simp

end
