(* ===== verification/Lock.thy ===== *)
theory Lock
  imports Gate Resolution
begin

text \<open>
  The lock of a resolution (\<open>resolve/lock.go\<close>): what is recorded, the recreate check and
  the gate over a whole set. A unit's descriptor is read through the pointer as in the
  resolver; the digest function of the surface is a parameter, as there. The JSON text of a
  lock is not modelled, only the version check of \<open>ParseLock\<close>.
\<close>

definition LockVersion :: int where
  "LockVersion = 1"

record locked_kit =
  lkReference :: string
  lkDigest :: string
  lkImage :: string
  lkKind :: string
  lkArgs :: "(string \<times> string) list"
  lkPermissions :: surface

record lock =
  lockVersion :: int
  lockKits :: "locked_kit list"

definition lockUnit :: "(string \<Rightarrow> string) \<Rightarrow> unit_heap \<Rightarrow> unit_ptr \<Rightarrow> locked_kit" where
  "lockUnit digest h u =
     \<lparr>lkReference = Reference (h u), lkDigest = Digest (h u), lkImage = Image (h u), lkKind = Kind (desc h u),
      lkArgs = UnitArgs (h u), lkPermissions = SurfaceOf digest (desc h u)\<rparr>"

definition LockFrom :: "(string \<Rightarrow> string) \<Rightarrow> unit_heap \<Rightarrow> resolution \<Rightarrow> lock" where
  "LockFrom digest h r = \<lparr>lockVersion = LockVersion, lockKits = map (lockUnit digest h) (Ordered r)\<rparr>"

datatype lock_error =
    UnsupportedLock int
  | KitCount nat nat
  | KitMoved nat string string
  | DigestMoved string string string

text \<open>The check that follows the decoding of a lock file.\<close>

definition checkLockVersion :: "lock \<Rightarrow> lock_error + lock" where
  "checkLockVersion l = (if lockVersion l \<noteq> LockVersion then Inl (UnsupportedLock (lockVersion l)) else Inr l)"

text \<open>The surfaces a lock granted; a later entry for a reference replaces an earlier one, and a
  reference it does not hold was granted nothing.\<close>

definition grantedTo :: "lock \<Rightarrow> string \<Rightarrow> surface" where
  "grantedTo l reference =
     (case map_of (rev (map (\<lambda>k. (lkReference k, lkPermissions k)) (lockKits l))) reference of
        None \<Rightarrow> emptySurface
      | Some s \<Rightarrow> s)"

definition LockGate :: "(string \<Rightarrow> string) \<Rightarrow> unit_heap \<Rightarrow> lock \<Rightarrow> resolution \<Rightarrow> widening list" where
  "LockGate digest h l r =
     concat (map (\<lambda>u. DiffWidenings (grantedTo l (Reference (h u))) (SurfaceOf digest (desc h u))) (Ordered r))"

fun verifyKits :: "unit_heap \<Rightarrow> nat \<Rightarrow> unit_ptr list \<Rightarrow> locked_kit list \<Rightarrow> lock_error option" where
  "verifyKits h i (u # us) (k # ks) =
     (if lkReference k \<noteq> Reference (h u) then Some (KitMoved i (lkReference k) (Reference (h u)))
      else if lkDigest k \<noteq> Digest (h u) then Some (DigestMoved (Reference (h u)) (Digest (h u)) (lkDigest k))
      else verifyKits h (Suc i) us ks)"
| "verifyKits h i _ _ = None"

definition VerifyRecreate :: "unit_heap \<Rightarrow> lock \<Rightarrow> resolution \<Rightarrow> lock_error option" where
  "VerifyRecreate h l r =
     (let ordered = Ordered r in
      if length ordered \<noteq> length (lockKits l) then Some (KitCount (length (lockKits l)) (length ordered))
      else verifyKits h 0 ordered (lockKits l))"

section \<open>Recreating from a lock\<close>

lemma verifyKits_None:
  "length us = length ks \<Longrightarrow>
   verifyKits h i us ks = None \<longleftrightarrow>
   map (\<lambda>k. (lkReference k, lkDigest k)) ks = map (\<lambda>u. (Reference (h u), Digest (h u))) us"
  by (induction h i us ks rule: verifyKits.induct) auto

text \<open>Recreating verifies exactly the record: the check accepts a resolution if and only
  if it yields, in composition order, the references and digests the lock holds. A lock
  taken from a resolution accepts that resolution.\<close>

theorem recreate_exact:
  "(VerifyRecreate h l r = None \<longleftrightarrow>
      map (\<lambda>k. (lkReference k, lkDigest k)) (lockKits l) = map (\<lambda>u. (Reference (h u), Digest (h u))) (Ordered r)) \<and>
   VerifyRecreate h (LockFrom digest h r) r = None"
proof -
  have iff: "VerifyRecreate h l r = None \<longleftrightarrow>
      map (\<lambda>k. (lkReference k, lkDigest k)) (lockKits l) = map (\<lambda>u. (Reference (h u), Digest (h u))) (Ordered r)" for l
    using verifyKits_None [of "Ordered r" "lockKits l" h 0]
    by (auto simp: VerifyRecreate_def Let_def dest: map_eq_imp_length_eq)
  show ?thesis using iff [of l] iff [of "LockFrom digest h r"] by (simp add: LockFrom_def lockUnit_def)
qed

section \<open>The gate over a set\<close>

lemma grantedTo_LockFrom:
  assumes "inj_on (ref h) (set (Ordered r))" "u \<in> set (Ordered r)"
  shows "grantedTo (LockFrom digest h r) (ref h u) = SurfaceOf digest (desc h u)"
proof -
  let ?kvs = "rev (map (\<lambda>k. (lkReference k, lkPermissions k)) (lockKits (LockFrom digest h r)))"
  have kvs: "set ?kvs = (\<lambda>u. (ref h u, SurfaceOf digest (desc h u))) ` set (Ordered r)"
    by (auto simp: LockFrom_def lockUnit_def)
  have "map_of ?kvs (ref h u) = Some (SurfaceOf digest (desc h u))"
  proof (cases "map_of ?kvs (ref h u)")
    case None
    then have "ref h u \<notin> fst ` set ?kvs" by (simp add: map_of_eq_None_iff)
    then show ?thesis using assms(2) unfolding kvs by force
  next
    case (Some s)
    then have "(ref h u, s) \<in> set ?kvs" by (rule map_of_SomeD)
    then obtain v where "v \<in> set (Ordered r)" "ref h v = ref h u" "s = SurfaceOf digest (desc h v)"
      unfolding kvs by auto
    then show ?thesis using Some assms by (metis inj_onD)
  qed
  then show ?thesis by (simp add: grantedTo_def)
qed

lemma DiffWidenings_self: "DiffWidenings s s = []"
proof -
  have "http_within (completeHTTPGrants hs gs) gs" for hs gs
    by (intro http_within_refl completeHTTPGrants_superset)
  then show ?thesis
    by (auto simp: diff_empty_iff surface_within_def http_within_refl sshAgentCovered_iff)
qed

text \<open>Property C24. The gate against a lock: an unchanged set applies silently when its references are
  distinct, and a fresh resolution applies silently exactly when every kit stays within the
  surface the lock granted its reference, a kit the lock does not hold being granted
  nothing.\<close>

theorem lock_gate_exact:
  assumes "inj_on (ref h) (set (Ordered r))"
  shows "LockGate digest h (LockFrom digest h r) r = [] \<and>
    (LockGate digest h l r = [] \<longleftrightarrow>
      (\<forall>u \<in> set (Ordered r). surface_within (grantedTo l (ref h u)) (SurfaceOf digest (desc h u))))"
proof -
  have "LockGate digest h l r = [] \<longleftrightarrow>
      (\<forall>u \<in> set (Ordered r). DiffWidenings (grantedTo l (ref h u)) (SurfaceOf digest (desc h u)) = [])" for l
    by (simp add: LockGate_def)
  then show ?thesis
    using grantedTo_LockFrom [OF assms] by (simp add: DiffWidenings_self diff_empty_iff [symmetric])
qed

theorem lock_gate_exact_witness:
  "LockGate (\<lambda>c. c) exampleHeap
     (LockFrom (\<lambda>c. c) exampleHeap \<lparr>Workload = Some 0, Mixins = [1, 2], topological = [0, 1, 2]\<rparr>)
     \<lparr>Workload = Some 0, Mixins = [1, 2], topological = [0, 1, 2]\<rparr> = []"
proof -
  have "inj_on (ref exampleHeap) (set (Ordered \<lparr>Workload = Some 0, Mixins = [1, 2], topological = [0, 1, 2]\<rparr>))"
    by (auto simp: Ordered_def inj_on_def exampleHeap_def exampleKit_def)
  from lock_gate_exact [OF this] show ?thesis by blast
qed

end
