(* ===== verification/Paths.thy ===== *)
theory Paths
  imports Prelude
begin

text \<open>
  Go's package \<open>path\<close>: lexical operations on slash-separated paths, as the filesystem
  model and the inventories call them, and the algebra of clean absolute paths the proofs
  about them rest on. A clean absolute path is \<open>abs_path segs\<close> for a list of components,
  and the lemmas say what \<open>Clean\<close>, \<open>Split\<close> and \<open>Join\<close> do to one.
\<close>

section \<open>The functions of the package\<close>

text \<open>\<open>Clean\<close> walks the components and keeps a stack of those written out, here with the
  last one first: an empty component and \<open>.\<close> are dropped, \<open>..\<close> takes back the last
  component written, and with nothing to take back it is dropped in a rooted path and kept in
  a relative one.\<close>

fun clean_step :: "bool \<Rightarrow> string list \<Rightarrow> string \<Rightarrow> string list" where
  "clean_step rooted out seg =
     (if seg = [] \<or> seg = ''.'' then out
      else if seg = ''..''
      then (case out of
              [] \<Rightarrow> if rooted then [] else [''..'']
            | s # rest \<Rightarrow> if \<not> rooted \<and> s = ''..'' then ''..'' # out else rest)
      else seg # out)"

definition clean_segs :: "bool \<Rightarrow> string list \<Rightarrow> string list" where
  "clean_segs rooted segs = rev (foldl (clean_step rooted) [] segs)"

definition abs_path :: "string list \<Rightarrow> string" where
  "abs_path segs = CHR ''/'' # join ''/'' segs"

definition path_clean :: "string \<Rightarrow> string" where
  "path_clean p =
     (if p = [] then ''.''
      else if has_prefix p ''/'' then abs_path (clean_segs True (split_on CHR ''/'' p))
      else (case clean_segs False (split_on CHR ''/'' p) of
              [] \<Rightarrow> ''.''
            | s # segs \<Rightarrow> join ''/'' (s # segs)))"

definition path_split :: "string \<Rightarrow> string \<times> string" where
  "path_split p = (case cut_last CHR ''/'' p of None \<Rightarrow> ([], p) | Some (d, f) \<Rightarrow> (d @ ''/'', f))"

definition path_join :: "string list \<Rightarrow> string" where
  "path_join elems =
     (case dropWhile (\<lambda>e. e = []) elems of
        [] \<Rightarrow> []
      | e # es \<Rightarrow> path_clean (join ''/'' (e # es)))"

definition path_base :: "string \<Rightarrow> string" where
  "path_base p =
     (if p = [] then ''.''
      else let q = snd (path_split (rev (dropWhile (\<lambda>c. c = CHR ''/'') (rev p))))
           in if q = [] then ''/'' else q)"

section \<open>Components and clean absolute paths\<close>

definition component :: "string \<Rightarrow> bool" where
  "component s \<longleftrightarrow> s \<noteq> [] \<and> s \<noteq> ''.'' \<and> s \<noteq> ''..'' \<and> CHR ''/'' \<notin> set s"

definition components :: "string list \<Rightarrow> bool" where
  "components segs = list_all component segs"

lemma components_simps [simp]:
  "components []" "components (s # segs) \<longleftrightarrow> component s \<and> components segs"
  "components (xs @ ys) \<longleftrightarrow> components xs \<and> components ys"
  by (simp_all add: components_def)

lemma components_rev [simp]: "components (rev segs) = components segs"
  by (simp add: components_def)

lemma components_butlast: "components segs \<Longrightarrow> components (butlast segs)"
  by (simp add: components_def list_all_iff) (blast dest: in_set_butlastD)

lemma clean_step_component [simp]: "component s \<Longrightarrow> clean_step rooted out s = s # out"
  by (simp add: component_def)

lemma clean_step_empty [simp]: "clean_step rooted out [] = out"
  by simp

lemma clean_step_root_components:
  "components out \<Longrightarrow> CHR ''/'' \<notin> set seg \<Longrightarrow> components (clean_step True out seg)"
  by (auto simp: component_def split: list.splits)

declare clean_step.simps [simp del]

lemma component_nonempty [simp]: "component s \<Longrightarrow> s \<noteq> []"
  by (simp add: component_def)

lemma component_no_slash [simp]: "component s \<Longrightarrow> CHR ''/'' \<notin> set s"
  by (simp add: component_def)

lemma foldl_clean_components:
  "components segs \<Longrightarrow> foldl (clean_step rooted) out segs = rev segs @ out"
  by (induction segs arbitrary: out) simp_all

lemma clean_segs_components [simp]: "components segs \<Longrightarrow> clean_segs rooted segs = segs"
  by (simp add: clean_segs_def foldl_clean_components)

lemma clean_segs_Nil [simp]: "clean_segs rooted ([] # segs) = clean_segs rooted segs"
  by (simp add: clean_segs_def)

lemma foldl_clean_root:
  "components out \<Longrightarrow> list_all (\<lambda>s. CHR ''/'' \<notin> set s) segs
   \<Longrightarrow> components (foldl (clean_step True) out segs)"
  by (induction segs arbitrary: out) (simp_all add: clean_step_root_components)

lemma clean_segs_root:
  "list_all (\<lambda>s. CHR ''/'' \<notin> set s) segs \<Longrightarrow> components (clean_segs True segs)"
  by (simp add: clean_segs_def foldl_clean_root)

lemma split_on_slashless: "list_all (\<lambda>s. CHR ''/'' \<notin> set s) (split_on CHR ''/'' p)"
  by (simp add: list_all_iff) (blast dest: split_on_parts)

lemma clean_segs_split_components [simp]: "components (clean_segs True (split_on CHR ''/'' p))"
  by (simp add: clean_segs_root split_on_slashless)

section \<open>Splitting and cleaning absolute paths\<close>

lemma cut_last_append: "c \<notin> set b \<Longrightarrow> cut_last c (a @ c # b) = Some (a, b)"
proof -
  assume c: "c \<notin> set b"
  have "dropWhile (\<lambda>x. x \<noteq> c) (rev b @ c # rev a) = c # rev a"
    using c by (induction b rule: rev_induct) auto
  moreover have "takeWhile (\<lambda>x. x \<noteq> c) (rev b @ c # rev a) = rev b"
    using c by (induction b rule: rev_induct) auto
  ultimately show ?thesis by (simp add: cut_last_def)
qed

lemma cut_last_absent: "c \<notin> set s \<Longrightarrow> cut_last c s = None"
  by (simp add: cut_last_def)

lemma cut_last_SomeD: "cut_last c s = Some (a, b) \<Longrightarrow> s = a @ c # b \<and> c \<notin> set b"
proof -
  assume *: "cut_last c s = Some (a, b)"
  then have "c \<in> set s" by (simp add: cut_last_def split: if_splits)
  then obtain u v where s: "s = u @ c # v" "c \<notin> set v" by (metis split_list_last)
  with * cut_last_append [of c v u] show ?thesis by simp
qed

lemma path_split_append: "path_split p = (d, f) \<Longrightarrow> d @ f = p"
  by (auto simp: path_split_def split: option.splits dest: cut_last_SomeD)

lemma path_split_file: "path_split p = (d, f) \<Longrightarrow> CHR ''/'' \<notin> set f"
  by (auto simp: path_split_def cut_last_def split: option.splits if_splits dest: set_takeWhileD)

lemma path_split_dir:
  "path_split p = (d, f) \<Longrightarrow> d = [] \<or> (\<exists>q. d = q @ ''/'')"
  by (auto simp: path_split_def split: option.splits)

lemma path_split_slash: "CHR ''/'' \<notin> set f \<Longrightarrow> path_split (d @ CHR ''/'' # f) = (d @ ''/'', f)"
  by (simp add: path_split_def cut_last_append)

lemma path_split_plain: "CHR ''/'' \<notin> set f \<Longrightarrow> path_split f = ([], f)"
  by (simp add: path_split_def cut_last_absent)

lemma join_snoc: "segs \<noteq> [] \<Longrightarrow> join sep (segs @ [s]) = join sep segs @ sep @ s"
  by (induction sep segs rule: join.induct) simp_all

lemma abs_path_Nil [simp]: "abs_path [] = ''/''"
  by (simp add: abs_path_def)

lemma abs_path_nonempty [simp]: "abs_path segs \<noteq> []"
  by (simp add: abs_path_def)

lemma abs_path_rooted [simp]: "has_prefix (abs_path segs) ''/''"
  by (simp add: abs_path_def has_prefix_def)

lemma abs_path_split:
  "components (segs @ [s]) \<Longrightarrow>
   path_split (abs_path (segs @ [s])) = ((if segs = [] then ''/'' else abs_path segs @ ''/''), s)"
  using path_split_slash [of s "[]"] path_split_slash [of s "abs_path segs"]
  by (auto simp: abs_path_def join_snoc)

lemma split_abs_path:
  "components segs \<Longrightarrow> segs \<noteq> [] \<Longrightarrow> split_on CHR ''/'' (abs_path segs) = [] # segs"
proof -
  assume "components segs" "segs \<noteq> []"
  then have "split_on CHR ''/'' (join ''/'' segs) = segs"
    by (intro split_join) (auto simp: components_def list_all_iff)
  then show ?thesis by (simp add: abs_path_def)
qed

lemma clean_abs_path [simp]:
  assumes "components segs"
  shows "path_clean (abs_path segs) = abs_path segs"
proof (cases "segs = []")
  case True
  then show ?thesis by (simp add: path_clean_def has_prefix_def)
next
  case False
  with assms show ?thesis by (simp add: path_clean_def split_abs_path)
qed

lemma path_clean_rooted:
  "path_clean (CHR ''/'' # p) = abs_path (clean_segs True (split_on CHR ''/'' p))"
  by (simp add: path_clean_def has_prefix_def)

lemma path_clean_dir [simp]:
  assumes "components segs"
  shows "path_clean (abs_path segs @ ''/'') = abs_path segs"
proof -
  have "split_on CHR ''/'' (abs_path segs @ ''/'') = split_on CHR ''/'' (abs_path segs) @ [[]]"
    using split_on_append [of "CHR ''/''" "abs_path segs" "[]"] by simp
  then have "clean_segs True (split_on CHR ''/'' (abs_path segs @ ''/''))
             = clean_segs True (split_on CHR ''/'' (abs_path segs))"
    by (simp add: clean_segs_def)
  moreover have "has_prefix (abs_path segs @ ''/'') ''/''" "has_prefix (abs_path segs) ''/''"
    by (simp_all add: abs_path_def has_prefix_def)
  ultimately show ?thesis
    using clean_abs_path [OF assms] by (simp add: path_clean_def)
qed

lemma abs_path_inject:
  assumes "components segs" "components segs'"
  shows "abs_path segs = abs_path segs' \<longleftrightarrow> segs = segs'"
proof
  assume eq: "abs_path segs = abs_path segs'"
  have "clean_segs True (split_on CHR ''/'' (abs_path segs)) = segs" if "components segs" for segs
    using that by (cases "segs = []") (simp_all add: split_abs_path)
  with assms eq show "segs = segs'" by metis
qed simp

lemma abs_path_length: "components (segs @ [s]) \<Longrightarrow> length (abs_path segs) < length (abs_path (segs @ [s]))"
  by (cases "segs = []") (auto simp: abs_path_def join_snoc)

section \<open>The last component of a cleaned path\<close>

definition name_ok :: "string \<Rightarrow> bool" where
  "name_ok s \<longleftrightarrow> s \<noteq> [] \<and> CHR ''/'' \<notin> set s"

lemma component_name_ok [simp]: "component s \<Longrightarrow> name_ok s"
  by (simp add: name_ok_def)

lemma clean_step_name_ok:
  "list_all name_ok out \<Longrightarrow> CHR ''/'' \<notin> set seg \<Longrightarrow> list_all name_ok (clean_step rooted out seg)"
  by (auto simp: clean_step.simps name_ok_def split: list.splits)

lemma clean_segs_name_ok:
  "list_all (\<lambda>s. CHR ''/'' \<notin> set s) segs \<Longrightarrow> list_all name_ok (clean_segs rooted segs)"
proof -
  have "list_all name_ok out \<Longrightarrow> list_all (\<lambda>s. CHR ''/'' \<notin> set s) segs
        \<Longrightarrow> list_all name_ok (foldl (clean_step rooted) out segs)" for out
    by (induction segs arbitrary: out) (simp_all add: clean_step_name_ok)
  then show "list_all (\<lambda>s. CHR ''/'' \<notin> set s) segs \<Longrightarrow> list_all name_ok (clean_segs rooted segs)"
    by (simp add: clean_segs_def)
qed

lemma path_split_join:
  assumes "list_all name_ok (segs @ [s])"
  shows "snd (path_split (join ''/'' (segs @ [s]))) = s"
proof (cases "segs = []")
  case True
  with assms show ?thesis by (simp add: path_split_plain name_ok_def)
next
  case False
  with assms path_split_slash [of s "join ''/'' segs"] show ?thesis
    by (simp add: join_snoc name_ok_def)
qed

lemma path_clean_base:
  assumes "path_clean p \<noteq> ''/''"
  shows "name_ok (snd (path_split (path_clean p)))"
proof -
  consider "p = []" | "p \<noteq> []" "has_prefix p ''/''" | "p \<noteq> []" "\<not> has_prefix p ''/''" by blast
  then show ?thesis
  proof cases
    case 1
    then show ?thesis by (simp add: path_clean_def path_split_plain name_ok_def)
  next
    case 2
    define segs where "segs = clean_segs True (split_on CHR ''/'' p)"
    have c: "components segs" by (simp add: segs_def)
    from 2 have e: "path_clean p = abs_path segs" by (simp add: path_clean_def segs_def)
    with assms have "segs \<noteq> []" by auto
    then obtain xs x where "segs = xs @ [x]" by (metis append_butlast_last_id)
    with c e abs_path_split [of xs x] show ?thesis by auto
  next
    case 3
    define segs where "segs = clean_segs False (split_on CHR ''/'' p)"
    have c: "list_all name_ok segs"
      by (simp add: segs_def clean_segs_name_ok split_on_slashless)
    show ?thesis
    proof (cases segs rule: rev_cases)
      case Nil
      with 3 show ?thesis
        by (simp add: path_clean_def segs_def path_split_plain name_ok_def)
    next
      case (snoc xs x)
      with 3 have "path_clean p = join ''/'' (xs @ [x])"
        by (auto simp: path_clean_def segs_def [symmetric] split: list.splits)
      with c snoc path_split_join [of xs x] show ?thesis by simp
    qed
  qed
qed

section \<open>Joining onto a clean absolute path\<close>

lemma path_clean_slash_abs [simp]:
  assumes "components segs" shows "path_clean (CHR ''/'' # abs_path segs) = abs_path segs"
  using clean_abs_path [OF assms] by (simp add: path_clean_def has_prefix_def abs_path_def)

lemma path_join_root: "path_join [''/'', p] = path_clean (''/'' @ ''/'' @ p)"
  by (simp add: path_join_def)

lemma path_join_root_abs [simp]:
  "components segs \<Longrightarrow> path_join [''/'', abs_path segs] = abs_path segs"
  using clean_abs_path [of segs]
  by (simp add: path_join_root path_clean_def has_prefix_def abs_path_def)

lemma path_join_root_any:
  "\<exists>segs. components segs \<and> path_join [''/'', p] = abs_path segs"
  by (rule exI [of _ "clean_segs True (split_on CHR ''/'' p)"])
     (simp add: path_join_root path_clean_rooted)

lemma path_join_abs:
  assumes "components segs" "CHR ''/'' \<notin> set f"
  shows "path_join [abs_path segs, f] = abs_path (rev (clean_step True (rev segs) f))"
proof -
  have "split_on CHR ''/'' (abs_path segs @ CHR ''/'' # f) = split_on CHR ''/'' (abs_path segs) @ [f]"
    using assms(2) by (simp add: split_on_append split_on_absent)
  moreover have "foldl (clean_step True) [] (split_on CHR ''/'' (abs_path segs)) = rev segs"
    using assms(1) by (cases "segs = []") (simp_all add: split_abs_path foldl_clean_components)
  moreover have "has_prefix (abs_path segs @ CHR ''/'' # f) ''/''"
    by (simp add: abs_path_def has_prefix_def)
  ultimately show ?thesis
    by (simp add: path_join_def path_clean_def clean_segs_def)
qed

end
