(* ===== verification/Overlay.thy ===== *)
theory Overlay
  imports Paths "HOL-Library.AList"
begin

text \<open>
  The model of an extracted and stacked image (\<open>internal/overlayfs/fs.go\<close>).

  A tree is a value of type \<open>fsNode\<close>. The code shares nodes between a hard link and its
  target and between a layer and the stack above it, but it modifies directories only, and
  neither a hard link nor \<open>stack\<close> ever shares one, so a tree of values is all that can be
  observed. A directory's map is an association list; where the code ranges over the map the
  model ranges over the list. A pointer into the tree being built is the list of names that
  leads to it. The resolver's table of directories already looked up is part of the state the
  functions pass on.
\<close>

section \<open>Archive headers\<close>

text \<open>The fields of \<open>tar.Header\<close> that the code reads, and the type flags it names.\<close>

record tar_header =
  h_Name :: string
  h_Linkname :: string
  h_Typeflag :: char
  h_Mode :: int
  h_Uid :: int
  h_Gid :: int
  h_Devmajor :: int
  h_Devminor :: int

definition TypeReg :: char where "TypeReg = CHR ''0''"
definition TypeLink :: char where "TypeLink = CHR ''1''"
definition TypeSymlink :: char where "TypeSymlink = CHR ''2''"
definition TypeChar :: char where "TypeChar = CHR ''3''"
definition TypeDir :: char where "TypeDir = CHR ''5''"
definition TypeXGlobalHeader :: char where "TypeXGlobalHeader = CHR ''g''"

lemmas typeflag_defs = TypeReg_def TypeLink_def TypeSymlink_def TypeChar_def TypeDir_def
  TypeXGlobalHeader_def

section \<open>Nodes\<close>

definition maxLookupSymlinks :: nat where "maxLookupSymlinks = 40"
definition maxExtractSymlinks :: nat where "maxExtractSymlinks = 255"
definition maxPathLen :: nat where "maxPathLen = 4095"

record dir_attr =
  n_explicit :: bool
  n_uid :: int
  n_gid :: int
  n_mode :: int
  n_opaque :: bool

datatype fsNode =
    Dir (dirAttr: dir_attr) (dirChildren: "(string \<times> fsNode) list")
  | File
  | Symlink (link: string)
  | Whiteout

type_synonym forest = "(string \<times> fsNode) list"

definition newAttr :: dir_attr where
  "newAttr = \<lparr>n_explicit = False, n_uid = 0, n_gid = 0, n_mode = 0, n_opaque = False\<rparr>"

definition newDir :: fsNode where
  "newDir = Dir newAttr []"

text \<open>The map of a node: a node that is not a directory has none.\<close>

fun children :: "fsNode \<Rightarrow> forest" where
  "children (Dir a cs) = cs"
| "children _ = []"

definition child :: "fsNode \<Rightarrow> string \<Rightarrow> fsNode option" where
  "child n s = map_of (children n) s"

text \<open>Assignments through a pointer: \<open>put\<close> sets an entry of a directory's map, \<open>unput\<close>
  deletes one, and \<open>at_loc\<close> applies an assignment to the directory a list of names leads to.\<close>

fun put :: "string \<Rightarrow> fsNode \<Rightarrow> fsNode \<Rightarrow> fsNode" where
  "put s c (Dir a cs) = Dir a (AList.update s c cs)"
| "put s c n = n"

fun unput :: "string \<Rightarrow> fsNode \<Rightarrow> fsNode" where
  "unput s (Dir a cs) = Dir a (AList.delete s cs)"
| "unput s n = n"

fun set_opaque :: "fsNode \<Rightarrow> fsNode" where
  "set_opaque (Dir a cs) = Dir (a\<lparr>n_opaque := True\<rparr>) cs"
| "set_opaque n = n"

fun at_loc :: "string list \<Rightarrow> (fsNode \<Rightarrow> fsNode) \<Rightarrow> fsNode \<Rightarrow> fsNode" where
  "at_loc [] f n = f n"
| "at_loc (s # ss) f n = (case child n s of None \<Rightarrow> n | Some c \<Rightarrow> put s (at_loc ss f c) n)"

fun node_at :: "string list \<Rightarrow> fsNode \<Rightarrow> fsNode option" where
  "node_at [] n = Some n"
| "node_at (s # ss) n = (case child n s of None \<Rightarrow> None | Some c \<Rightarrow> node_at ss c)"

record FS =
  fs_root :: fsNode
  fs_layers :: "fsNode list"

record layer =
  l_root :: fsNode
  l_lowers :: "fsNode list"

record dir_info =
  d_Mode :: int
  d_Uid :: int
  d_Gid :: int

record symlink =
  s_Path :: string
  s_Target :: string

section \<open>Looking up a path\<close>

text \<open>The components still to walk, the next one first.\<close>

definition pushPath :: "string list \<Rightarrow> string \<Rightarrow> string list" where
  "pushPath pending p = split_on CHR ''/'' p @ pending"

text \<open>The loop of \<open>lookup\<close>; the directory stack has its top first. The loop ends because it
  may expand at most \<^const>\<open>maxLookupSymlinks\<close> links and every other step takes a component
  off the list.\<close>

function lookupLoop :: "fsNode \<Rightarrow> fsNode list \<Rightarrow> nat \<Rightarrow> string list \<Rightarrow> fsNode option" where
  "lookupLoop root dirs followed [] = Some (hd dirs)"
| "lookupLoop root dirs followed (seg # pending) =
     (if seg = [] \<or> seg = ''.'' then lookupLoop root dirs followed pending
      else if seg = ''..''
      then lookupLoop root (if length dirs > 1 then tl dirs else dirs) followed pending
      else (case child (hd dirs) seg of
              None \<Rightarrow> None
            | Some (Dir a cs) \<Rightarrow> lookupLoop root (Dir a cs # dirs) followed pending
            | Some (Symlink l) \<Rightarrow>
                (if followed + 1 > maxLookupSymlinks then None
                 else lookupLoop root (if has_prefix l ''/'' then [root] else dirs)
                        (followed + 1) (pushPath pending l))
            | Some File \<Rightarrow> if pending \<noteq> [] then None else Some File
            | Some Whiteout \<Rightarrow> None))"
  by pat_completeness auto
termination
  by (relation "measures [\<lambda>(root, dirs, followed, pending). maxLookupSymlinks - followed,
                          \<lambda>(root, dirs, followed, pending). length pending]") auto

declare lookupLoop.simps [simp del]

definition lookup :: "fsNode \<Rightarrow> fsNode list \<Rightarrow> string \<Rightarrow> nat \<Rightarrow> fsNode option" where
  "lookup root dirs target followed =
     lookupLoop root (if has_prefix target ''/'' then [root] else dirs) followed (pushPath [] target)"

section \<open>What the stacked layers expose\<close>

fun dirStatLoop :: "fsNode \<Rightarrow> string list \<Rightarrow> fsNode option" where
  "dirStatLoop n [] = Some n"
| "dirStatLoop n (seg # segs) =
     (if seg = [] then dirStatLoop n segs
      else (case child n seg of
              Some (Dir a cs) \<Rightarrow> dirStatLoop (Dir a cs) segs
            | _ \<Rightarrow> None))"

definition DirStat :: "FS \<Rightarrow> string \<Rightarrow> dir_info option" where
  "DirStat fs nm =
     (case dirStatLoop (fs_root fs)
             (split_on CHR ''/'' (trim_prefix (path_clean (''/'' @ nm)) ''/'')) of
        Some (Dir a cs) \<Rightarrow>
          if n_explicit a then Some \<lparr>d_Mode = n_mode a, d_Uid = n_uid a, d_Gid = n_gid a\<rparr>
          else None
      | _ \<Rightarrow> None)"

text \<open>The recursive walk of \<open>DanglingSymlinks\<close>: the directories on the way with the current
  one first, its path, and the entries of it still to visit.\<close>

fun walkDangling :: "fsNode \<Rightarrow> fsNode list \<Rightarrow> string \<Rightarrow> forest \<Rightarrow> symlink list" where
  "walkDangling root dirs dirPath [] = []"
| "walkDangling root dirs dirPath ((nm, n) # rest) =
     (let p = dirPath @ ''/'' @ nm in
      (case n of
         Dir a cs \<Rightarrow> walkDangling root (Dir a cs # dirs) p cs
       | Symlink l \<Rightarrow>
           if lookup root dirs l 1 = None then [\<lparr>s_Path = p, s_Target = l\<rparr>] else []
       | _ \<Rightarrow> []) @ walkDangling root dirs dirPath rest)"

definition DanglingSymlinks :: "FS \<Rightarrow> symlink list" where
  "DanglingSymlinks fs =
     sort_key s_Path (walkDangling (fs_root fs) [fs_root fs] [] (children (fs_root fs)))"

section \<open>Resolving a path the way the extractor does\<close>

record dirResult =
  r_n :: "fsNode option"
  r_failed :: bool

record resolver =
  r_t :: fsNode
  r_dirs :: "string \<rightharpoonup> dirResult"

definition newResolver :: "fsNode \<Rightarrow> resolver" where
  "newResolver t = \<lparr>r_t = t, r_dirs = Map.empty\<rparr>"

definition dirNone :: dirResult where "dirNone = \<lparr>r_n = None, r_failed = False\<rparr>"
definition dirFailed :: dirResult where "dirFailed = \<lparr>r_n = None, r_failed = True\<rparr>"
definition dirFound :: "fsNode \<Rightarrow> dirResult" where "dirFound n = \<lparr>r_n = Some n, r_failed = False\<rparr>"

text \<open>Whether a walk meets anything but a directory; a name that is not there is pushed as an
  absent directory, whose own names are absent.\<close>

fun crossesLoop :: "fsNode option list \<Rightarrow> string list \<Rightarrow> bool" where
  "crossesLoop dirs [] = False"
| "crossesLoop dirs (seg # segs) =
     (if seg = [] \<or> seg = ''.'' then crossesLoop dirs segs
      else if seg = ''..'' then crossesLoop (if length dirs > 1 then tl dirs else dirs) segs
      else let n = (case hd dirs of None \<Rightarrow> None | Some d \<Rightarrow> child d seg) in
           (case n of
              Some (Dir a cs) \<Rightarrow> crossesLoop (n # dirs) segs
            | None \<Rightarrow> crossesLoop (n # dirs) segs
            | Some _ \<Rightarrow> True))"

definition crossesSymlink :: "fsNode \<Rightarrow> string \<Rightarrow> bool" where
  "crossesSymlink t p = crossesLoop [Some t] (split_on CHR ''/'' p)"

function hostLoop :: "fsNode list \<Rightarrow> nat \<Rightarrow> string list \<Rightarrow> dirResult" where
  "hostLoop dirs followed [] = dirFound (hd dirs)"
| "hostLoop dirs followed (seg # pending) =
     (if seg = [] \<or> seg = ''.'' then hostLoop dirs followed pending
      else if seg = ''..''
      then if length dirs = 1 then dirNone else hostLoop (tl dirs) followed pending
      else (case child (hd dirs) seg of
              None \<Rightarrow> dirNone
            | Some (Dir a cs) \<Rightarrow> hostLoop (Dir a cs # dirs) followed pending
            | Some (Symlink l) \<Rightarrow>
                (if followed + 1 > maxLookupSymlinks then dirFailed
                 else if has_prefix l ''/'' then dirNone
                 else hostLoop dirs (followed + 1) (pushPath pending l))
            | Some _ \<Rightarrow> dirFailed))"
  by pat_completeness auto
termination
  by (relation "measures [\<lambda>(dirs, followed, pending). maxLookupSymlinks - followed,
                          \<lambda>(dirs, followed, pending). length pending]") auto

declare hostLoop.simps [simp del]

definition hostLookup :: "fsNode \<Rightarrow> string \<Rightarrow> dirResult" where
  "hostLookup root d = hostLoop [root] 0 (pushPath [] d)"

text \<open>\<open>dir\<close> recurses from a clean absolute path to the one above it. The test that the parent
  is shorter always succeeds there (see \<open>dir_unfold\<close> below), so on the paths \<open>lstat\<close> passes
  it is the code's recursion; on other strings the code's recursion might not end.\<close>

function dir :: "resolver \<Rightarrow> string \<Rightarrow> dirResult \<times> resolver" where
  "dir r d =
     (if d = ''/'' then (dirFound (r_t r), r)
      else (case r_dirs r d of
              Some res \<Rightarrow> (res, r)
            | None \<Rightarrow>
                (let (parent, base) = path_split d in
                 if length (path_clean parent) < length d
                 then let (res, r') = dir r (path_clean parent);
                          res' = (case r_n res of
                                    None \<Rightarrow> res
                                  | Some n \<Rightarrow>
                                      (case child n base of
                                         None \<Rightarrow> dirNone
                                       | Some (Dir a cs) \<Rightarrow> dirFound (Dir a cs)
                                       | Some (Symlink l) \<Rightarrow> hostLookup (r_t r) d
                                       | Some _ \<Rightarrow> dirFailed))
                      in (res', r'\<lparr>r_dirs := (r_dirs r')(d \<mapsto> res')\<rparr>)
                 else (dirNone, r))))"
  by pat_completeness auto
termination
  by (relation "measure (\<lambda>(r, d). length d)") auto

declare dir.simps [simp del]

definition lstat :: "resolver \<Rightarrow> string \<Rightarrow> (fsNode option \<times> bool) \<times> resolver" where
  "lstat r p =
     (let (dr, base) = path_split (path_clean (''/'' @ p)) in
      if base = [] then ((Some (r_t r), False), r)
      else let (d, r') = dir r (path_clean dr) in
           (case r_n d of
              None \<Rightarrow> ((None, r_failed d), r')
            | Some n \<Rightarrow> ((child n base, False), r')))"

text \<open>\<open>walkLink\<close> and \<open>walkLinks\<close> return \<^const>\<open>None\<close> where the code returns false, and pass
  on the number of links expanded so far and the resolver.\<close>

definition walkLink ::
  "resolver \<Rightarrow> string \<Rightarrow> nat \<Rightarrow> (string \<times> bool) option \<times> nat \<times> resolver" where
  "walkLink r p walked =
     (if walked > maxExtractSymlinks then (None, walked, r)
      else let p = path_join [''/'', p] in
           if p = ''/'' then (Some (p, False), walked, r)
           else if length p > maxPathLen then (None, walked, r)
           else let ((n, failed), r') = lstat r p in
                if failed then (None, walked, r')
                else (case n of
                        Some (Symlink l) \<Rightarrow> (Some (l, True), walked + 1, r')
                      | _ \<Rightarrow> (Some (p, False), walked, r')))"

function walkLinks :: "resolver \<Rightarrow> string \<Rightarrow> nat \<Rightarrow> string option \<times> nat \<times> resolver" where
  "walkLinks r p walked =
     (let (dr, fil) = path_split p in
      if dr = [] then
        (case walkLink r fil walked of
           (res, walked', r') \<Rightarrow> (map_option fst res, walked', r'))
      else if fil = [] then
        (if dr = ''/'' then (Some dr, walked, r) else walkLinks r (butlast dr) walked)
      else
        (case walkLinks r dr walked of
           (None, walked', r') \<Rightarrow> (None, walked', r')
         | (Some newdir, walked', r') \<Rightarrow>
             (case walkLink r' (path_join [newdir, fil]) walked' of
                (None, walked'', r'') \<Rightarrow> (None, walked'', r'')
              | (Some (next, isLink), walked'', r'') \<Rightarrow>
                  if \<not> isLink \<or> has_prefix next ''/'' then (Some next, walked'', r'')
                  else (Some (path_join [newdir, next]), walked'', r''))))"
  by pat_completeness auto
termination
proof (relation "measure (\<lambda>(r, p, walked). length p)", goal_cases)
  case (2 r p walked s dr fil)
  then have "dr @ fil = p" by (metis path_split_append)
  with 2 show ?case by (cases p) auto
next
  case (3 r p walked s dr fil)
  then have "dr @ fil = p" by (metis path_split_append)
  with 3 show ?case by (cases fil) auto
qed simp

declare walkLinks.simps [simp del]

text \<open>A pass expands links only while no more than the bound have been expanded, so the
  count never passes the bound by more than one; this is what ends \<open>rootPath\<close>'s loop.\<close>

definition expanded :: "nat \<Rightarrow> nat \<Rightarrow> bool" where
  "expanded w w' \<longleftrightarrow> w \<le> w' \<and> (w' = w \<or> w' \<le> maxExtractSymlinks + 1)"

lemma expanded_refl [simp]: "expanded w w"
  by (simp add: expanded_def)

lemma expanded_trans: "expanded a b \<Longrightarrow> expanded b c \<Longrightarrow> expanded a c"
  by (auto simp: expanded_def)

lemma walkLink_expanded: "walkLink r p w = (res, w', r') \<Longrightarrow> expanded w w'"
  by (auto simp: walkLink_def expanded_def Let_def split: if_splits prod.splits option.splits fsNode.splits)

lemma walkLinks_expanded: "walkLinks r p w = (res, w', r') \<Longrightarrow> expanded w w'"
proof (induction r p w arbitrary: res w' r' rule: walkLinks.induct)
  case (1 r p w)
  obtain dr fil where s: "path_split p = (dr, fil)" by fastforce
  show ?case
  proof (cases "dr \<noteq> [] \<and> fil \<noteq> []")
    case True
    obtain nd w1 r1 where rec: "walkLinks r dr w = (nd, w1, r1)" by (metis prod_cases3)
    have e1: "expanded w w1" using 1(2) [OF s [symmetric]] True rec by simp
    show ?thesis
    proof (cases nd)
      case None
      with 1(3) True rec s e1 show ?thesis by (simp add: walkLinks.simps [of r p])
    next
      case (Some newdir)
      obtain lk w2 r2 where wl: "walkLink r1 (path_join [newdir, fil]) w1 = (lk, w2, r2)"
        by (metis prod_cases3)
      have "w' = w2"
        using 1(3) True rec s wl Some
        by (auto simp: walkLinks.simps [of r p] split: option.splits if_splits)
      with e1 walkLink_expanded [OF wl] show ?thesis by (auto intro: expanded_trans)
    qed
  next
    case False
    show ?thesis
    proof (cases "dr = []")
      case True
      with 1(3) s walkLink_expanded show ?thesis
        by (auto simp: walkLinks.simps [of r p] split: prod.splits)
    next
      case False
      with \<open>\<not> (dr \<noteq> [] \<and> fil \<noteq> [])\<close> have "fil = []" by simp
      with False 1(1) [OF s [symmetric]] 1(3) s show ?thesis
        by (auto simp: walkLinks.simps [of r p] split: if_splits)
    qed
  qed
qed

function rootPathLoop :: "resolver \<Rightarrow> string \<Rightarrow> nat \<Rightarrow> string option" where
  "rootPathLoop r p walked =
     (case walkLinks r p walked of
        (None, walked', r') \<Rightarrow> None
      | (Some next, walked', r') \<Rightarrow>
          if walked' = walked then Some (path_clean (''/'' @ next))
          else rootPathLoop r' next walked')"
  by pat_completeness auto
termination
proof (relation "measure (\<lambda>(r, p, walked). maxExtractSymlinks + 1 - walked)", goal_cases)
  case (2 r p walked x y nxt w' r')
  with walkLinks_expanded [of r p walked "Some nxt" w' r'] show ?case
    by (auto simp: expanded_def)
qed simp

declare rootPathLoop.simps [simp del]

definition rootPath :: "fsNode \<Rightarrow> string \<Rightarrow> string option" where
  "rootPath t p =
     (if p = [] then Some ''/''
      else if \<not> crossesSymlink t p then Some (path_clean (''/'' @ p))
      else rootPathLoop (newResolver t) p 0)"

section \<open>Extracting an entry\<close>

text \<open>The metadata of a directory \<open>mkparent\<close> makes: \<^const>\<open>None\<close> where the entry fails. The
  loop runs over the lower layers from the last, nearest one down.\<close>

fun inheritDirInfo ::
  "nat \<Rightarrow> dir_attr \<Rightarrow> fsNode list \<Rightarrow> resolver option list \<Rightarrow> string
   \<Rightarrow> dir_attr option \<times> resolver option list" where
  "inheritDirInfo 0 a lowers resolvers p = (Some a, resolvers)"
| "inheritDirInfo (Suc i) a lowers resolvers p =
     (case rootPath (lowers ! i) p of
        None \<Rightarrow> (None, resolvers)
      | Some resolved \<Rightarrow>
          (let r = (case resolvers ! i of None \<Rightarrow> newResolver (lowers ! i) | Some r \<Rightarrow> r);
               ((found, failed), r') = lstat r resolved;
               resolvers' = resolvers[i := Some r']
           in if failed then (None, resolvers')
              else (case found of
                      None \<Rightarrow> inheritDirInfo i a lowers resolvers' p
                    | Some (Dir b cs) \<Rightarrow>
                        (Some (a\<lparr>n_explicit := n_explicit b, n_uid := n_uid b, n_gid := n_gid b,
                                n_mode := n_mode b\<rparr>), resolvers')
                    | Some _ \<Rightarrow>
                        (Some (a\<lparr>n_explicit := True, n_uid := 0, n_gid := 0, n_mode := 493\<rparr>),
                         resolvers'))))"

text \<open>\<open>mkparent\<close> returns the tree with the directories it made, also where it fails half-way,
  and the place of the last directory.\<close>

fun mkparentLoop ::
  "fsNode list \<Rightarrow> resolver option list \<Rightarrow> string \<Rightarrow> string list \<Rightarrow> fsNode
   \<Rightarrow> fsNode \<times> string list option" where
  "mkparentLoop lowers resolvers at [] cur = (cur, Some [])"
| "mkparentLoop lowers resolvers at (seg # segs) cur =
     (if seg = [] then mkparentLoop lowers resolvers at segs cur
      else let at' = at @ ''/'' @ seg in
           (case child cur seg of
              None \<Rightarrow>
                (case inheritDirInfo (length lowers) newAttr lowers resolvers at' of
                   (None, _) \<Rightarrow> (cur, None)
                 | (Some a, resolvers') \<Rightarrow>
                     (let (n, loc) = mkparentLoop lowers resolvers' at' segs (Dir a [])
                      in (put seg n cur, map_option (Cons seg) loc)))
            | Some (Dir a cs) \<Rightarrow>
                (let (n, loc) = mkparentLoop lowers resolvers at' segs (Dir a cs)
                 in (put seg n cur, map_option (Cons seg) loc))
            | Some _ \<Rightarrow> (cur, None)))"

definition mkparent :: "fsNode \<Rightarrow> fsNode list \<Rightarrow> string \<Rightarrow> fsNode \<times> string list option" where
  "mkparent upper lowers p =
     mkparentLoop lowers (replicate (length lowers) None) [] (split_on CHR ''/'' p) upper"

definition header_attr :: "tar_header \<Rightarrow> dir_attr \<Rightarrow> dir_attr" where
  "header_attr hdr a =
     a\<lparr>n_explicit := True, n_uid := h_Uid hdr, n_gid := h_Gid hdr, n_mode := h_Mode hdr\<rparr>"

text \<open>What \<open>extract\<close> does with an entry once its parent directory is there: the tree, the place
  of the parent in it, and the entry's last component.\<close>

definition placeEntry ::
  "fsNode \<Rightarrow> string list \<Rightarrow> string \<Rightarrow> tar_header \<Rightarrow> fsNode \<times> bool" where
  "placeEntry upper loc base hdr =
     (let parent = (case node_at loc upper of None \<Rightarrow> newDir | Some n \<Rightarrow> n);
          place = (\<lambda>n. (at_loc loc (put base n) upper, True))
      in if base = ''.wh..wh..opq'' then
           (if loc \<noteq> [] then at_loc loc set_opaque upper else upper, True)
         else if has_prefix base ''.wh.'' then
           (let victim = trim_prefix base ''.wh.'' in
            (if victim \<noteq> [] \<and> child parent victim = None
             then at_loc loc (put victim Whiteout) upper else upper, True))
         else if h_Typeflag hdr = TypeXGlobalHeader then (at_loc loc (unput base) upper, True)
         else if h_Typeflag hdr = TypeChar then
           place (if h_Devmajor hdr = 0 \<and> h_Devminor hdr = 0 then Whiteout else File)
         else if h_Typeflag hdr = TypeDir then
           (case child parent base of
              Some (Dir a cs) \<Rightarrow> place (Dir (header_attr hdr a) cs)
            | _ \<Rightarrow> place (Dir (header_attr hdr newAttr) []))
         else if h_Typeflag hdr = TypeSymlink then
           (if h_Linkname hdr = [] \<or> length (h_Linkname hdr) > maxPathLen then (upper, False)
            else place (Symlink (h_Linkname hdr)))
         else if h_Typeflag hdr = TypeLink then
           (let (tdir, tbase) = path_split (h_Linkname hdr) in
            (case rootPath upper tdir of
               None \<Rightarrow> (upper, False)
             | Some tresolved \<Rightarrow>
                 (case fst (fst (lstat (newResolver upper) (path_join [tresolved, tbase]))) of
                    None \<Rightarrow> (upper, False)
                  | Some (Dir a cs) \<Rightarrow> (upper, False)
                  | Some n \<Rightarrow> place n)))
         else place File)"

definition extract_entry :: "fsNode \<Rightarrow> fsNode list \<Rightarrow> tar_header \<Rightarrow> fsNode \<times> bool" where
  "extract_entry upper lowers hdr =
     (let nm = path_clean (h_Name hdr) in
      if nm = ''.'' \<or> nm = ''/'' \<or> path_base nm = ''..'' then (upper, True)
      else if length nm > maxPathLen then (upper, False)
      else let (dr, base) = path_split nm in
           (case rootPath upper dr of
              None \<Rightarrow> (upper, False)
            | Some resolved \<Rightarrow>
                (case mkparent upper lowers resolved of
                   (upper', None) \<Rightarrow> (upper', False)
                 | (upper', Some loc) \<Rightarrow> placeEntry upper' loc base hdr)))"

section \<open>Stacking layers\<close>

text \<open>\<open>stack\<close> modifies the lower directory; here it returns it. It is only called on two
  directories.\<close>

definition stackAttr :: "dir_attr \<Rightarrow> dir_attr \<Rightarrow> dir_attr" where
  "stackAttr la ua =
     (let la = (if n_opaque ua then la\<lparr>n_opaque := True\<rparr> else la)
      in if n_explicit ua
         then la\<lparr>n_explicit := True, n_uid := n_uid ua, n_gid := n_gid ua, n_mode := n_mode ua\<rparr>
         else la)"

definition stackTarget :: "fsNode option \<Rightarrow> fsNode" where
  "stackTarget l =
     (case l of
        Some (Dir a cs) \<Rightarrow> Dir a cs
      | Some _ \<Rightarrow> Dir (newAttr\<lparr>n_opaque := True\<rparr>) []
      | None \<Rightarrow> newDir)"

fun stack :: "fsNode \<Rightarrow> fsNode \<Rightarrow> fsNode"
  and stackChildren :: "forest \<Rightarrow> forest \<Rightarrow> forest" where
  "stack (Dir la lcs) (Dir ua ucs) =
     Dir (stackAttr la ua) (stackChildren (if n_opaque ua then [] else lcs) ucs)"
| "stack l u = l"
| "stackChildren lcs [] = lcs"
| "stackChildren lcs ((nm, u) # us) =
     stackChildren
       (AList.update nm
          (case u of
             Dir ua ucs \<Rightarrow> stack (stackTarget (map_of lcs nm)) (Dir ua ucs)
           | _ \<Rightarrow> u) lcs) us"

definition New :: FS where
  "New = \<lparr>fs_root = newDir, fs_layers = []\<rparr>"

definition NewLayer :: "FS \<Rightarrow> layer" where
  "NewLayer fs = \<lparr>l_root = newDir, l_lowers = fs_layers fs\<rparr>"

definition Add :: "layer \<Rightarrow> tar_header \<Rightarrow> layer \<times> bool" where
  "Add l hdr =
     (let (root, ok) = extract_entry (l_root l) (l_lowers l) hdr
      in (l\<lparr>l_root := root\<rparr>, ok))"

definition Apply :: "FS \<Rightarrow> layer \<Rightarrow> FS" where
  "Apply fs l =
     fs\<lparr>fs_root := stack (fs_root fs) (l_root l), fs_layers := fs_layers fs @ [l_root l]\<rparr>"

section \<open>Walking the stacked tree\<close>

record entry =
  e_Name :: string
  e_Depth :: nat
  e_Directory :: bool
  e_Whiteout :: bool
  e_Opaque :: bool

fun is_dir :: "fsNode \<Rightarrow> bool" where
  "is_dir (Dir a cs) = True"
| "is_dir _ = False"

fun is_opaque :: "fsNode \<Rightarrow> bool" where
  "is_opaque (Dir a cs) = n_opaque a"
| "is_opaque _ = False"

definition entry_of :: "fsNode \<Rightarrow> string \<Rightarrow> nat \<Rightarrow> entry" where
  "entry_of n nm depth =
     \<lparr>e_Name = nm, e_Depth = depth, e_Directory = is_dir n, e_Whiteout = (n = Whiteout),
      e_Opaque = is_opaque n\<rparr>"

lemma map_of_size: "map_of cs s = Some n \<Longrightarrow> size n < size_list (size_prod (\<lambda>x. 0) size) cs"
  by (induction cs) (auto split: if_splits)

text \<open>The callback may change its captured variables, so it is given a state and returns the
  next one or an error; the walk stops at the first error.\<close>

function walk :: "('s \<Rightarrow> entry \<Rightarrow> 'e + 's) \<Rightarrow> 's \<Rightarrow> fsNode \<Rightarrow> string \<Rightarrow> nat \<Rightarrow> 'e + 's"
  and walkNames :: "('s \<Rightarrow> entry \<Rightarrow> 'e + 's) \<Rightarrow> 's \<Rightarrow> forest \<Rightarrow> string list \<Rightarrow> nat \<Rightarrow> 'e + 's" where
  "walk fn s n nm depth =
     (case fn s (entry_of n nm depth) of
        Inl e \<Rightarrow> Inl e
      | Inr s' \<Rightarrow>
          (case n of
             Dir a cs \<Rightarrow> walkNames fn s' cs (sort (map fst cs)) depth
           | _ \<Rightarrow> Inr s'))"
| "walkNames fn s cs [] depth = Inr s"
| "walkNames fn s cs (c # names) depth =
     (case map_of cs c of
        None \<Rightarrow> walkNames fn s cs names depth
      | Some n \<Rightarrow>
          (case walk fn s n c (depth + 1) of
             Inl e \<Rightarrow> Inl e
           | Inr s' \<Rightarrow> walkNames fn s' cs names depth))"
  by pat_completeness auto
termination
  by (relation "measures
        [case_sum (\<lambda>(fn, s, n, nm, depth). size n)
                  (\<lambda>(fn, s, cs, names, depth). size_list (size_prod (\<lambda>x. 0) size) cs),
         case_sum (\<lambda>x. 0) (\<lambda>(fn, s, cs, names, depth). Suc (length names))]")
     (auto dest: map_of_size)

declare walk.simps [simp del] walkNames.simps [simp del]

definition Walk :: "FS \<Rightarrow> ('s \<Rightarrow> entry \<Rightarrow> 'e + 's) \<Rightarrow> 's \<Rightarrow> 'e + 's" where
  "Walk fs fn s = walk fn s (fs_root fs) [] 0"

end
