(* ===== verification/Inventory.thy ===== *)
theory Inventory
  imports Overlay
begin

text \<open>
  Reading one layer blob (\<open>assemble/inventory.go\<close>): the listings of a layer, the last entry
  for one path, and the check that no two kits contribute one file.

  The formats themselves are parameters: \<open>gzipNew\<close> and \<open>zstdNew\<close> stand for the two
  decompressors, \<open>tarOf\<close> for the archive reader, \<open>digestValid\<close> and \<open>digestMatches\<close> for
  the digest package. A byte stream is its bytes and the error it ends with, if any; an archive
  is its entries in order and the error that \<open>Next\<close> reports after them, or none for the end
  of the archive. Entry bodies are bytes and the error that reading them ends with.
\<close>

section \<open>Streams, archives and entries\<close>

record byte_stream =
  b_bytes :: string
  b_err :: "string option"

record tar_entry =
  t_header :: tar_header
  t_body :: byte_stream

record tar_stream =
  ts_entries :: "tar_entry list"
  ts_err :: "string option"

record codecs =
  gzipNew :: "byte_stream \<Rightarrow> string + byte_stream"
  zstdNew :: "byte_stream \<Rightarrow> string + byte_stream"
  tarOf :: "byte_stream \<Rightarrow> tar_stream"
  digestValid :: "string \<Rightarrow> string option"
  digestMatches :: "string \<Rightarrow> string \<Rightarrow> bool"

datatype layer_error =
    OpenLayer string
  | ReadLayer string
  | ReadBody string string
  | FileTooLarge string
  | LinkNotFollowed string string
  | BadDiffID string
  | ReadUncompressed string
  | DiffIDMismatch string

record layer_link =
  ll_Target :: string
  ll_Hard :: bool

record layer_file_entry =
  fe_Body :: string
  fe_Linked :: bool
  fe_Link :: string
  fe_Hard :: bool
  fe_Index :: nat
  fe_Mode :: int
  fe_Uid :: int
  fe_Gid :: int
  fe_Regular :: bool
  fe_OK :: bool

definition emptyEntry :: layer_file_entry where
  "emptyEntry = \<lparr>fe_Body = [], fe_Linked = False, fe_Link = [], fe_Hard = False, fe_Index = 0,
     fe_Mode = 0, fe_Uid = 0, fe_Gid = 0, fe_Regular = False, fe_OK = False\<rparr>"

definition maxFileEntryBytes :: nat where "maxFileEntryBytes = 16777216"

definition zstdMagic :: string where
  "zstdMagic = map char_of [0x28 :: nat, 0xb5, 0x2f, 0xfd]"

definition gzipMagic :: string where
  "gzipMagic = map char_of [0x1f :: nat, 0x8b]"

definition normalizePath :: "string \<Rightarrow> string" where
  "normalizePath p = trim_prefix (trim_prefix p ''./'') ''/''"

definition regular :: "char \<Rightarrow> bool" where
  "regular typeflag \<longleftrightarrow> typeflag = TypeReg"

section \<open>Opening a layer\<close>

definition openLayerStream :: "codecs \<Rightarrow> byte_stream \<Rightarrow> layer_error + byte_stream" where
  "openLayerStream c r =
     (let magic = take 4 (b_bytes r) in
      if length magic \<ge> 2 \<and> take 2 magic = gzipMagic
      then (case gzipNew c r of Inl e \<Rightarrow> Inl (OpenLayer e) | Inr s \<Rightarrow> Inr s)
      else if length magic \<ge> 4 \<and> magic = zstdMagic
      then (case zstdNew c r of Inl e \<Rightarrow> Inl (OpenLayer e) | Inr s \<Rightarrow> Inr s)
      else Inr r)"

definition openLayer :: "codecs \<Rightarrow> byte_stream \<Rightarrow> layer_error + tar_stream" where
  "openLayer c r = rbind (openLayerStream c r) (\<lambda>s. Inr (tarOf c s))"

section \<open>Listing a layer\<close>

datatype entry_kind = kindFile | kindDir | kindLink

fun layerEntriesLoop ::
  "(string \<rightharpoonup> entry_kind) \<Rightarrow> (string \<rightharpoonup> layer_link) \<Rightarrow> string list \<Rightarrow> tar_header list
   \<Rightarrow> (string \<rightharpoonup> entry_kind) \<times> (string \<rightharpoonup> layer_link) \<times> string list" where
  "layerEntriesLoop kind linkOf ord [] = (kind, linkOf, ord)"
| "layerEntriesLoop kind linkOf ord (hdr # hdrs) =
     (let nm = trim_suffix (normalizePath (h_Name hdr)) ''/'';
          ord' = (if kind nm = None then ord @ [nm] else ord)
      in if h_Typeflag hdr = TypeDir then layerEntriesLoop (kind(nm \<mapsto> kindDir)) linkOf ord' hdrs
         else if h_Typeflag hdr = TypeSymlink \<or> h_Typeflag hdr = TypeLink
         then layerEntriesLoop (kind(nm \<mapsto> kindLink))
                (linkOf(nm \<mapsto> \<lparr>ll_Target = h_Linkname hdr, ll_Hard = (h_Typeflag hdr = TypeLink)\<rparr>)) ord' hdrs
         else layerEntriesLoop (kind(nm \<mapsto> kindFile)) linkOf ord' hdrs)"

definition ReadLayerEntries ::
  "codecs \<Rightarrow> byte_stream \<Rightarrow> layer_error + string list \<times> string list \<times> (string \<rightharpoonup> layer_link)" where
  "ReadLayerEntries c r =
     rbind (openLayer c r) (\<lambda>tr.
       case ts_err tr of
         Some e \<Rightarrow> Inl (ReadLayer e)
       | None \<Rightarrow>
           (let (kind, linkOf, ord) =
                  layerEntriesLoop Map.empty Map.empty [] (map t_header (ts_entries tr))
            in Inr (filter (\<lambda>nm. kind nm \<noteq> Some kindDir) ord,
                    filter (\<lambda>nm. kind nm = Some kindDir) ord,
                    (\<lambda>nm. if nm \<in> set ord \<and> kind nm = Some kindLink then linkOf nm else None))))"

definition ReadInventory :: "codecs \<Rightarrow> byte_stream \<Rightarrow> layer_error + string list" where
  "ReadInventory c r =
     rbind (openLayer c r) (\<lambda>tr.
       case ts_err tr of
         Some e \<Rightarrow> Inl (ReadLayer e)
       | None \<Rightarrow>
           Inr (map (\<lambda>e. normalizePath (h_Name (t_header e)))
                 (filter (\<lambda>e. h_Typeflag (t_header e) \<noteq> TypeDir) (ts_entries tr))))"

section \<open>One path of a layer\<close>

text \<open>The body of an entry, read through a limit of one byte more than the bound.\<close>

definition readBody :: "string \<Rightarrow> byte_stream \<Rightarrow> layer_error + string" where
  "readBody p b =
     (let body = take (maxFileEntryBytes + 1) (b_bytes b) in
      if length body \<le> maxFileEntryBytes \<and> b_err b \<noteq> None then Inl (ReadBody p (the (b_err b)))
      else if length body > maxFileEntryBytes then Inl (FileTooLarge p)
      else Inr body)"

text \<open>The loop of \<open>readEntry\<close>, over the entries still to come; \<open>bound\<close> is the position before
  which entries count, and negative for all of them.\<close>

fun readEntryLoop ::
  "string \<Rightarrow> bool \<Rightarrow> int \<Rightarrow> string option \<Rightarrow> nat \<Rightarrow> layer_file_entry \<Rightarrow> tar_entry list
   \<Rightarrow> layer_error + layer_file_entry" where
  "readEntryLoop p withBody bound err idx entry [] =
     (if err = None \<or> (bound \<ge> 0 \<and> int idx \<ge> bound) then Inr entry
      else Inl (ReadLayer (the err)))"
| "readEntryLoop p withBody bound err idx entry (e # es) =
     (let hdr = t_header e; loop = (\<lambda>entry'. readEntryLoop p withBody bound err (idx + 1) entry' es) in
      if bound \<ge> 0 \<and> int idx \<ge> bound then Inr entry
      else if trim_suffix (normalizePath (h_Name hdr)) ''/'' \<noteq> trim_suffix (normalizePath p) ''/''
      then loop entry
      else if h_Typeflag hdr = TypeDir then loop emptyEntry
      else if h_Typeflag hdr = TypeSymlink \<or> h_Typeflag hdr = TypeLink
      then loop (emptyEntry\<lparr>fe_Linked := True, fe_Link := h_Linkname hdr,
                   fe_Hard := (h_Typeflag hdr = TypeLink), fe_Index := idx, fe_Mode := h_Mode hdr,
                   fe_Uid := h_Uid hdr, fe_Gid := h_Gid hdr, fe_OK := True\<rparr>)
      else let found = emptyEntry\<lparr>fe_Index := idx, fe_Mode := h_Mode hdr, fe_Uid := h_Uid hdr,
                         fe_Gid := h_Gid hdr, fe_Regular := regular (h_Typeflag hdr), fe_OK := True\<rparr> in
           if \<not> withBody then loop found
           else (case readBody p (t_body e) of
                   Inl er \<Rightarrow> Inl er
                 | Inr body \<Rightarrow> loop (found\<lparr>fe_Body := body\<rparr>)))"

definition readEntry :: "tar_stream \<Rightarrow> string \<Rightarrow> bool \<Rightarrow> int \<Rightarrow> layer_error + layer_file_entry" where
  "readEntry tr p withBody bound = readEntryLoop p withBody bound (ts_err tr) 0 emptyEntry (ts_entries tr)"

definition ReadFileEntry :: "codecs \<Rightarrow> byte_stream \<Rightarrow> string \<Rightarrow> layer_error + layer_file_entry" where
  "ReadFileEntry c r p = rbind (openLayer c r) (\<lambda>tr. readEntry tr p True (-1))"

definition StatFileEntryBefore :: "codecs \<Rightarrow> byte_stream \<Rightarrow> string \<Rightarrow> int \<Rightarrow> layer_error + layer_file_entry" where
  "StatFileEntryBefore c r p bound = rbind (openLayer c r) (\<lambda>tr. readEntry tr p False bound)"

definition ReadFileEntryBefore :: "codecs \<Rightarrow> byte_stream \<Rightarrow> string \<Rightarrow> int \<Rightarrow> layer_error + layer_file_entry" where
  "ReadFileEntryBefore c r p bound = rbind (openLayer c r) (\<lambda>tr. readEntry tr p True bound)"

definition StatFileEntry :: "codecs \<Rightarrow> byte_stream \<Rightarrow> string \<Rightarrow> layer_error + layer_file_entry" where
  "StatFileEntry c r p = rbind (openLayer c r) (\<lambda>tr. readEntry tr p False (-1))"

definition ReadFile :: "codecs \<Rightarrow> byte_stream \<Rightarrow> string \<Rightarrow> layer_error + string \<times> bool" where
  "ReadFile c r p =
     rbind (openLayer c r) (\<lambda>tr.
     rbind (readEntry tr p True (-1)) (\<lambda>entry.
       if fe_Linked entry then Inl (LinkNotFollowed p (fe_Link entry))
       else Inr (fe_Body entry, fe_OK entry)))"

section \<open>Walking a layer\<close>

text \<open>The callback is given a state and returns the next one or an error of its own.\<close>

fun walkTarLoop ::
  "('s \<Rightarrow> tar_header \<Rightarrow> 'e + 's) \<Rightarrow> string option \<Rightarrow> 's \<Rightarrow> tar_entry list \<Rightarrow> (layer_error + 'e) + 's" where
  "walkTarLoop fn err s [] =
     (case err of None \<Rightarrow> Inr s | Some e \<Rightarrow> Inl (Inl (ReadLayer e)))"
| "walkTarLoop fn err s (e # es) =
     (case fn s (t_header e) of
        Inl er \<Rightarrow> Inl (Inr er)
      | Inr s' \<Rightarrow> walkTarLoop fn err s' es)"

definition walkTar ::
  "('s \<Rightarrow> tar_header \<Rightarrow> 'e + 's) \<Rightarrow> 's \<Rightarrow> tar_stream \<Rightarrow> (layer_error + 'e) + 's" where
  "walkTar fn s tr = walkTarLoop fn (ts_err tr) s (ts_entries tr)"

definition WalkLayer ::
  "codecs \<Rightarrow> byte_stream \<Rightarrow> ('s \<Rightarrow> tar_header \<Rightarrow> 'e + 's) \<Rightarrow> 's \<Rightarrow> (layer_error + 'e) + 's" where
  "WalkLayer c r fn s =
     (case openLayer c r of Inl e \<Rightarrow> Inl (Inl e) | Inr tr \<Rightarrow> walkTar fn s tr)"

definition WalkLayerVerified ::
  "codecs \<Rightarrow> byte_stream \<Rightarrow> string \<Rightarrow> ('s \<Rightarrow> tar_header \<Rightarrow> 'e + 's) \<Rightarrow> 's \<Rightarrow> (layer_error + 'e) + 's" where
  "WalkLayerVerified c r diffID fn s =
     (case digestValid c diffID of
        Some e \<Rightarrow> Inl (Inl (BadDiffID e))
      | None \<Rightarrow>
          (case openLayerStream c r of
             Inl e \<Rightarrow> Inl (Inl e)
           | Inr strm \<Rightarrow>
               (case walkTar fn s (tarOf c strm) of
                  Inl e \<Rightarrow> Inl e
                | Inr s' \<Rightarrow>
                    (case b_err strm of
                       Some e \<Rightarrow> Inl (Inl (ReadUncompressed e))
                     | None \<Rightarrow>
                         if \<not> digestMatches c diffID (b_bytes strm) then Inl (Inl (DiffIDMismatch diffID))
                         else Inr s'))))"

section \<open>Collisions between kits\<close>

record kit_files =
  inv_Kit :: string
  inv_Files :: "string list"

definition collisionStep ::
  "string \<Rightarrow> (string \<rightharpoonup> string) \<times> (string \<times> string list) list \<Rightarrow> string
   \<Rightarrow> (string \<rightharpoonup> string) \<times> (string \<times> string list) list" where
  "collisionStep kit st f =
     (case st of (owner, collisions) \<Rightarrow>
        (case owner f of
           None \<Rightarrow> (owner(f \<mapsto> kit), collisions)
         | Some prev \<Rightarrow>
             if prev \<noteq> kit
             then (owner, index_add f kit
                     (if index_at collisions f = [] then index_add f prev collisions else collisions))
             else (owner, collisions)))"

definition collisionsOf :: "kit_files list \<Rightarrow> (string \<rightharpoonup> string) \<times> (string \<times> string list) list" where
  "collisionsOf inventories =
     foldl (\<lambda>st inv. foldl (collisionStep (inv_Kit inv)) st (inv_Files inv)) (Map.empty, []) inventories"

definition CheckCollisions :: "kit_files list \<Rightarrow> string option" where
  "CheckCollisions inventories =
     (let collisions = snd (collisionsOf inventories) in
      if collisions = [] then None
      else Some (''kit file collisions:'' @
             concat (map (\<lambda>p. [CHR 0x0A] @ ''  /'' @ p @ '': contributed by '' @
                              join '' and '' (index_at collisions p))
                       (sort (map fst collisions)))))"

end
