(* ===== verification/Inventory_Facts.thy ===== *)
theory Inventory_Facts
  imports Inventory
begin

text \<open>
  The readers of one layer agree with each other: the last entry for a path decides in the
  listing, in the existence check and in the content read alike. The collision check accepts
  exactly the inventories in which every file has one kit.
\<close>

section \<open>The last entry of a name\<close>

definition entryName :: "string \<Rightarrow> string" where
  "entryName p = trim_suffix (normalizePath p) ''/''"

fun lastNamed :: "string \<Rightarrow> tar_header list \<Rightarrow> tar_header option" where
  "lastNamed nm [] = None"
| "lastNamed nm (h # hs) =
     (case lastNamed nm hs of
        Some h' \<Rightarrow> Some h'
      | None \<Rightarrow> if entryName (h_Name h) = nm then Some h else None)"

definition kindOf :: "tar_header \<Rightarrow> entry_kind" where
  "kindOf h =
     (if h_Typeflag h = TypeDir then kindDir
      else if h_Typeflag h = TypeSymlink \<or> h_Typeflag h = TypeLink then kindLink else kindFile)"

definition linkFor :: "tar_header \<Rightarrow> layer_link" where
  "linkFor h = \<lparr>ll_Target = h_Linkname h, ll_Hard = (h_Typeflag h = TypeLink)\<rparr>"

lemma lastNamed_SomeD: "lastNamed nm hs = Some h \<Longrightarrow> h \<in> set hs \<and> entryName (h_Name h) = nm"
  by (induction hs) (auto split: option.splits if_splits)

lemma lastNamed_None: "lastNamed nm hs = None \<longleftrightarrow> nm \<notin> (entryName \<circ> h_Name) ` set hs"
  by (induction hs) (auto split: option.splits if_splits)

lemma kindOf_simps: "kindOf h = kindDir \<longleftrightarrow> h_Typeflag h = TypeDir"
  "kindOf h = kindLink \<longleftrightarrow> h_Typeflag h = TypeSymlink \<or> h_Typeflag h = TypeLink"
  by (auto simp: kindOf_def typeflag_defs)

text \<open>The three maps the listing loop builds, from the headers alone.\<close>

lemma layerEntriesLoop_step:
  "layerEntriesLoop kind linkOf ord (h # hs) =
     layerEntriesLoop (kind(entryName (h_Name h) \<mapsto> kindOf h))
       (if kindOf h = kindLink then linkOf(entryName (h_Name h) \<mapsto> linkFor h) else linkOf)
       (if kind (entryName (h_Name h)) = None then ord @ [entryName (h_Name h)] else ord) hs"
  by (auto simp: kindOf_def linkFor_def entryName_def Let_def)

declare layerEntriesLoop.simps(2) [simp del]

lemma layerEntriesLoop_maps:
  "layerEntriesLoop kind linkOf ord hs = (kind', linkOf', ord') \<Longrightarrow> set ord = dom kind \<Longrightarrow> distinct ord \<Longrightarrow>
   kind' nm = (case lastNamed nm hs of None \<Rightarrow> kind nm | Some h \<Rightarrow> Some (kindOf h))
   \<and> (kind' nm = Some kindLink \<longrightarrow>
        linkOf' nm = (case lastNamed nm hs of None \<Rightarrow> linkOf nm | Some h \<Rightarrow> Some (linkFor h)))
   \<and> set ord' = dom kind' \<and> distinct ord'"
proof (induction hs arbitrary: kind linkOf ord)
  case (Cons h hs)
  let ?nm = "entryName (h_Name h)"
  have "set (if kind ?nm = None then ord @ [?nm] else ord) = dom (kind(?nm \<mapsto> kindOf h))"
    "distinct (if kind ?nm = None then ord @ [?nm] else ord)"
    using Cons.prems(2,3) by auto
  from Cons.IH [OF Cons.prems(1) [unfolded layerEntriesLoop_step] this]
  show ?case by (auto split: option.splits if_splits)
qed simp

section \<open>One path and the listing agree\<close>

definition statOf :: "nat \<Rightarrow> tar_header \<Rightarrow> layer_file_entry" where
  "statOf idx h =
     (case kindOf h of
        kindDir \<Rightarrow> emptyEntry
      | kindLink \<Rightarrow> emptyEntry\<lparr>fe_Linked := True, fe_Link := h_Linkname h, fe_Hard := (h_Typeflag h = TypeLink),
            fe_Index := idx, fe_Mode := h_Mode h, fe_Uid := h_Uid h, fe_Gid := h_Gid h, fe_OK := True\<rparr>
      | kindFile \<Rightarrow> emptyEntry\<lparr>fe_Index := idx, fe_Mode := h_Mode h, fe_Uid := h_Uid h, fe_Gid := h_Gid h,
            fe_Regular := regular (h_Typeflag h), fe_OK := True\<rparr>)"

text \<open>The last of the numbered entries that has the path's name.\<close>

fun lastEntry :: "string \<Rightarrow> nat \<Rightarrow> tar_entry list \<Rightarrow> (nat \<times> tar_entry) option" where
  "lastEntry p idx [] = None"
| "lastEntry p idx (e # es) =
     (case lastEntry p (idx + 1) es of
        Some r \<Rightarrow> Some r
      | None \<Rightarrow> if entryName (h_Name (t_header e)) = entryName p then Some (idx, e) else None)"

lemma lastEntry_header:
  "map_option (\<lambda>(i, e). t_header e) (lastEntry p idx es) = lastNamed (entryName p) (map t_header es)"
proof (induction es arbitrary: idx)
  case (Cons e es)
  from Cons.IH [of "Suc idx"] show ?case by (auto split: option.splits)
qed simp

lemma readEntryLoop_step:
  "readEntryLoop p withBody bound err idx entry (e # es) =
     (if bound \<ge> 0 \<and> int idx \<ge> bound then Inr entry
      else if entryName (h_Name (t_header e)) \<noteq> entryName p
      then readEntryLoop p withBody bound err (idx + 1) entry es
      else if withBody \<and> kindOf (t_header e) = kindFile
      then (case readBody p (t_body e) of
              Inl er \<Rightarrow> Inl er
            | Inr body \<Rightarrow> readEntryLoop p withBody bound err (idx + 1)
                            ((statOf idx (t_header e))\<lparr>fe_Body := body\<rparr>) es)
      else readEntryLoop p withBody bound err (idx + 1) (statOf idx (t_header e)) es)"
  by (auto simp: Let_def entryName_def statOf_def kindOf_def split: sum.splits)

declare readEntryLoop.simps(2) [simp del]

lemma readEntryLoop_stat:
  "err = None \<Longrightarrow>
   readEntryLoop p False bound err idx entry es =
     Inr (case lastEntry p idx (if bound < 0 then es else take (nat bound - idx) es) of
            None \<Rightarrow> entry
          | Some (i, e) \<Rightarrow> statOf i (t_header e))"
proof (induction es arbitrary: idx entry)
  case (Cons e es)
  show ?case
  proof (cases "bound \<ge> 0 \<and> int idx \<ge> bound")
    case True
    then have "nat bound - idx = 0" by (simp add: nat_le_iff)
    with True show ?thesis by (simp add: readEntryLoop_step)
  next
    case False
    then have "bound < 0 \<or> nat bound - idx = Suc (nat bound - (idx + 1))" by auto
    with False Cons show ?thesis
      by (auto simp: readEntryLoop_step split: option.splits)
  qed
qed simp

lemma readEntryLoop_body:
  "readEntryLoop p True bound err idx entry es = Inr r \<Longrightarrow>
   readEntryLoop p False bound err idx (entry\<lparr>fe_Body := []\<rparr>) es = Inr (r\<lparr>fe_Body := []\<rparr>)"
proof (induction es arbitrary: idx entry)
  case (Cons e es)
  have s: "(statOf i h)\<lparr>fe_Body := []\<rparr> = statOf i h" for i h
    by (simp add: statOf_def emptyEntry_def split: entry_kind.split)
  have IH: "readEntryLoop p True bound err (Suc idx) e' es = Inr r \<Longrightarrow> e'\<lparr>fe_Body := []\<rparr> = d \<Longrightarrow>
      readEntryLoop p False bound err (Suc idx) d es = Inr (r\<lparr>fe_Body := []\<rparr>)" for e' d
    using Cons.IH by blast
  from Cons.prems show ?case
    by (auto simp: readEntryLoop_step split: if_splits sum.splits intro!: IH simp: s)
qed (auto split: if_splits)
section \<open>Collisions\<close>

definition claims :: "kit_files list \<Rightarrow> (string \<times> string) list" where
  "claims invs = concat (map (\<lambda>inv. map (Pair (inv_Kit inv)) (inv_Files inv)) invs)"

lemma collisionsOf_claims:
  "collisionsOf invs = foldl (\<lambda>st (kit, f). collisionStep kit st f) (Map.empty, []) (claims invs)"
proof -
  have inner: "foldl (\<lambda>st (kit, f). collisionStep kit st f) st (map (Pair k) fs) = foldl (collisionStep k) st fs"
    for st k fs by (induction fs arbitrary: st) simp_all
  have "foldl (\<lambda>st inv. foldl (collisionStep (inv_Kit inv)) st (inv_Files inv)) st invs
    = foldl (\<lambda>st (kit, f). collisionStep kit st f) st (claims invs)" for st
    by (induction invs arbitrary: st) (simp_all add: claims_def inner)
  then show ?thesis by (simp add: collisionsOf_def)
qed

text \<open>The owner of a file is the first kit that claims it, and the files with a list of
  colliding kits are those another kit claims too.\<close>

lemma collisionStep_cases:
  "collisionStep kit (owner, collisions) f =
     (if owner f = None then (owner(f \<mapsto> kit), collisions)
      else if owner f = Some kit then (owner, collisions)
      else (owner, index_add f kit
              (if index_at collisions f = [] then index_add f (the (owner f)) collisions else collisions)))"
  by (auto simp: collisionStep_def split: option.splits)

lemma collisions_invariant:
  "foldl (\<lambda>st (kit, f). collisionStep kit st f) (Map.empty, []) cl = (owner, collisions) \<Longrightarrow>
   (\<forall>f. owner f = (case find (\<lambda>c. snd c = f) cl of None \<Rightarrow> None | Some c \<Rightarrow> Some (fst c)))
   \<and> fst ` set collisions = {f. \<exists>k k'. (k, f) \<in> set cl \<and> (k', f) \<in> set cl \<and> k \<noteq> k'}"
proof (induction cl arbitrary: owner collisions rule: rev_induct)
  case (snoc c cl)
  obtain kit f where c: "c = (kit, f)" by fastforce
  obtain o1 c1 where st: "foldl (\<lambda>st (kit, f). collisionStep kit st f) (Map.empty, []) cl = (o1, c1)"
    by fastforce
  from snoc.IH [OF st] have IH: "\<And>f. o1 f = (case find (\<lambda>c. snd c = f) cl of None \<Rightarrow> None | Some c \<Rightarrow> Some (fst c))"
    "fst ` set c1 = {f. \<exists>k k'. (k, f) \<in> set cl \<and> (k', f) \<in> set cl \<and> k \<noteq> k'}" by simp_all
  have step: "collisionStep kit (o1, c1) f = (owner, collisions)"
    using snoc.prems st c by simp
  have find_snoc: "find (\<lambda>c. snd c = g) (cl @ [(kit, f)]) =
      (case find (\<lambda>c. snd c = g) cl of None \<Rightarrow> if f = g then Some (kit, f) else None | Some c \<Rightarrow> Some c)" for g
    by (induction cl) auto
  have found: "o1 g = Some k \<Longrightarrow> (k, g) \<in> set cl" for g k
    using IH(1) [of g] by (auto simp: find_Some_iff in_set_conv_nth split: option.splits)
  have absent: "o1 g = None \<Longrightarrow> (k, g) \<notin> set cl" for g k
    using IH(1) [of g] by (auto simp: find_None_iff split: option.splits)
  show ?case
  proof (cases "o1 f")
    case None
    with step have "owner = o1(f \<mapsto> kit)" "collisions = c1" by (simp_all add: collisionStep_cases)
    with None IH c absent show ?thesis by (auto simp: find_snoc split: option.splits)
  next
    case (Some k)
    show ?thesis
    proof (cases "k = kit")
      case True
      with Some step have eq: "owner = o1" "collisions = c1" by (simp_all add: collisionStep_cases)
      have "(kit, f) \<in> set cl" using found Some True by blast
      then have "set (cl @ [c]) = set cl" using c by auto
      then show ?thesis using Some IH eq c by (auto simp: find_snoc split: option.splits)
    next
      case False
      with Some step have co: "owner = o1" "collisions = index_add f kit
          (if index_at c1 f = [] then index_add f k c1 else c1)" by (auto simp: collisionStep_cases)
      then have eq: "owner = o1" "fst ` set collisions = insert f (fst ` set c1)" by simp_all
      have "(k, f) \<in> set cl" using found Some by blast
      with False have "{g. \<exists>k k'. (k, g) \<in> set (cl @ [c]) \<and> (k', g) \<in> set (cl @ [c]) \<and> k \<noteq> k'}
        = insert f {g. \<exists>k k'. (k, g) \<in> set cl \<and> (k', g) \<in> set cl \<and> k \<noteq> k'}"
        using c by auto
      with Some IH eq c show ?thesis by (auto simp: find_snoc split: option.splits)
    qed
  qed
qed simp

lemma set_claims: "(k, f) \<in> set (claims invs) \<longleftrightarrow> (\<exists>inv \<in> set invs. inv_Kit inv = k \<and> f \<in> set (inv_Files inv))"
  by (auto simp: claims_def)

lemma colliding_files:
  "fst ` set (snd (collisionsOf invs)) =
     {f. \<exists>a \<in> set invs. \<exists>b \<in> set invs. inv_Kit a \<noteq> inv_Kit b \<and> f \<in> set (inv_Files a) \<and> f \<in> set (inv_Files b)}"
proof -
  obtain ow cs where c: "collisionsOf invs = (ow, cs)" by fastforce
  from collisions_invariant [OF c [unfolded collisionsOf_claims]] show ?thesis
    unfolding c set_claims by auto
qed

section \<open>Properties\<close>

text \<open>The collision check accepts a composition exactly when no file is
  contributed by two kits of different names; a kit may list a path any number of times.\<close>

theorem check_collisions_exact:
  "CheckCollisions invs = None \<longleftrightarrow>
     {f. \<exists>a b. a \<in> set invs \<and> b \<in> set invs \<and> inv_Kit a \<noteq> inv_Kit b
           \<and> f \<in> set (inv_Files a) \<and> f \<in> set (inv_Files b)} = {}"
proof -
  have "CheckCollisions invs = None \<longleftrightarrow> fst ` set (snd (collisionsOf invs)) = {}"
    by (simp add: CheckCollisions_def Let_def)
  then show ?thesis unfolding colliding_files by auto
qed

text \<open>In every layer the readers agree on what a path is: when the listing
  succeeds, an existence check of any path succeeds; it finds a file exactly when the path is
  among the listed files and not when it is a listed directory; it reports a link with the
  listed target; and a content read that succeeds reports the same entry, body apart. Files and
  directories are listed once each and never under both kinds.\<close>

theorem layer_readers_agree:
  assumes "ReadLayerEntries c r = Inr (files, dirs, links)" "StatFileEntry c r p = res"
  shows "\<exists>e. res = Inr e
    \<and> fe_OK e = (entryName p \<in> set files)
    \<and> (entryName p \<in> set dirs \<longrightarrow> \<not> fe_OK e)
    \<and> (if fe_Linked e then Some \<lparr>ll_Target = fe_Link e, ll_Hard = fe_Hard e\<rparr> else None) = links (entryName p)
    \<and> (\<forall>e'. ReadFileEntry c r p = Inr e' \<longrightarrow> e'\<lparr>fe_Body := []\<rparr> = e)
    \<and> distinct (files @ dirs)"
proof -
  from assms(1) obtain tr kind linkOf ord where tr: "openLayer c r = Inr tr" "ts_err tr = None"
    and loop: "layerEntriesLoop Map.empty Map.empty [] (map t_header (ts_entries tr)) = (kind, linkOf, ord)"
    and out: "files = filter (\<lambda>nm. kind nm \<noteq> Some kindDir) ord" "dirs = filter (\<lambda>nm. kind nm = Some kindDir) ord"
      "links = (\<lambda>nm. if nm \<in> set ord \<and> kind nm = Some kindLink then linkOf nm else None)"
    by (cases "openLayer c r") (auto simp: ReadLayerEntries_def split: option.splits prod.splits)
  define h where "h = lastNamed (entryName p) (map t_header (ts_entries tr))"
  have maps: "kind (entryName p) = map_option kindOf h"
    "kind (entryName p) = Some kindLink \<Longrightarrow> linkOf (entryName p) = map_option linkFor h"
    "set ord = dom kind" "distinct ord"
    using layerEntriesLoop_maps [OF loop, of "entryName p"] by (auto simp: h_def split: option.splits)
  have "\<exists>i. res = Inr (case h of None \<Rightarrow> emptyEntry | Some hdr \<Rightarrow> statOf i hdr)"
  proof (cases "lastEntry p 0 (ts_entries tr)")
    case None
    with assms(2) tr lastEntry_header [of p 0 "ts_entries tr"] show ?thesis
      by (simp add: StatFileEntry_def readEntry_def h_def readEntryLoop_stat)
  next
    case (Some x)
    obtain i e where x: "x = (i, e)" by fastforce
    with Some lastEntry_header [of p 0 "ts_entries tr"] have "h = Some (t_header e)"
      by (simp add: h_def)
    with Some x assms(2) tr show ?thesis
      by (intro exI [of _ i]) (simp add: StatFileEntry_def readEntry_def readEntryLoop_stat)
  qed
  then obtain i where res: "res = Inr (case h of None \<Rightarrow> emptyEntry | Some hdr \<Rightarrow> statOf i hdr)" ..
  have body: "e'\<lparr>fe_Body := []\<rparr> = e" if "ReadFileEntry c r p = Inr e'" "res = Inr e" for e e'
    using that assms(2) tr readEntryLoop_body [of p "-1" None 0 emptyEntry "ts_entries tr" e']
    by (simp add: ReadFileEntry_def StatFileEntry_def readEntry_def emptyEntry_def)
  have mem: "entryName p \<in> set ord \<longleftrightarrow> h \<noteq> None" using maps(1,3) by (auto simp: dom_def)
  have "distinct (files @ dirs)" using maps(4) out by auto
  with res body mem maps(1,2) out show ?thesis
    by (cases h; cases "kindOf (the h)") (auto simp: statOf_def emptyEntry_def linkFor_def)
qed

text \<open>A plain archive, for the closed instances: the codecs never fail and the archive is a
  file, a directory over it, and a link.\<close>

definition plainCodecs :: "tar_entry list \<Rightarrow> codecs" where
  "plainCodecs es = \<lparr>gzipNew = Inr, zstdNew = Inr, tarOf = (\<lambda>b. \<lparr>ts_entries = es, ts_err = None\<rparr>),
     digestValid = (\<lambda>d. None), digestMatches = (\<lambda>d b. True)\<rparr>"

definition tarHeader :: "string \<Rightarrow> char \<Rightarrow> string \<Rightarrow> tar_header" where
  "tarHeader nm flag target = \<lparr>h_Name = nm, h_Linkname = target, h_Typeflag = flag, h_Mode = 420,
     h_Uid = 0, h_Gid = 0, h_Devmajor = 0, h_Devminor = 0\<rparr>"

definition exampleArchive :: "tar_entry list" where
  "exampleArchive = map (\<lambda>h. \<lparr>t_header = h, t_body = \<lparr>b_bytes = ''x'', b_err = None\<rparr>\<rparr>)
     [tarHeader ''./a'' TypeReg [], tarHeader ''a/'' TypeDir [], tarHeader ''/b'' TypeSymlink ''a'']"

theorem layer_readers_agree_witness:
  "\<exists>e. StatFileEntry (plainCodecs exampleArchive) \<lparr>b_bytes = [], b_err = None\<rparr> ''b'' = Inr e
    \<and> fe_OK e \<and> fe_Link e = ''a''"
proof -
  let ?b = "\<lparr>b_bytes = [], b_err = None\<rparr>"
  let ?l = "the (case ReadLayerEntries (plainCodecs exampleArchive) ?b of Inl e \<Rightarrow> None | Inr x \<Rightarrow> Some (snd (snd x)))"
  have "ReadLayerEntries (plainCodecs exampleArchive) ?b = Inr ([''b''], [''a''], ?l)"
    by (simp add: ReadLayerEntries_def openLayer_def openLayerStream_def gzipMagic_def zstdMagic_def
        plainCodecs_def exampleArchive_def tarHeader_def typeflag_defs normalizePath_def
        trim_prefix_def trim_suffix_def has_prefix_def has_suffix_def layerEntriesLoop.simps Let_def)
  moreover have "?l ''b'' = Some \<lparr>ll_Target = ''a'', ll_Hard = False\<rparr>"
    by code_simp
  moreover have "entryName ''b'' = ''b''" by code_simp
  ultimately show ?thesis
    using layer_readers_agree [of "plainCodecs exampleArchive" ?b "[''b'']" "[''a'']" ?l "''b''"]
    by (auto split: if_splits)
qed

end
