(* ===== verification/Images.thy ===== *)
theory Images
  imports Resolution "HOL-Library.AList"
begin

text \<open>
  Composing image metadata (\<open>assemble/assemble.go\<close>, \<open>assemble/image.go\<close>,
  \<open>assemble/resolve.go\<close>): the workload's image with the mixins' layers and additive config.

  The OCI types are records of the fields the code reads or carries. A Go map is an
  association list, written with \<open>AList.update\<close>; a map used as a set is the list of its keys;
  where the code ranges over a map the model ranges over the list. The JSON encoding of an
  image config, the digest of bytes, the platform matcher and the content store are
  parameters.
\<close>

section \<open>OCI metadata\<close>

record oci_descriptor =
  od_MediaType :: string
  od_Digest :: string
  od_Size :: int

record image_config =
  ic_User :: string
  ic_ExposedPorts :: "string list"
  ic_Env :: "string list"
  ic_Entrypoint :: "string list"
  ic_Cmd :: "string list"
  ic_Volumes :: "string list"
  ic_WorkingDir :: string
  ic_Labels :: "(string \<times> string) list"
  ic_StopSignal :: string

record oci_history =
  hi_CreatedBy :: string
  hi_Comment :: string
  hi_EmptyLayer :: bool

record platform =
  p_Architecture :: string
  p_OS :: string
  p_OSVersion :: string
  p_OSFeatures :: "string list"
  p_Variant :: string

definition linuxAmd64 :: platform where
  "linuxAmd64 = \<lparr>p_Architecture = ''amd64'', p_OS = ''linux'', p_OSVersion = [], p_OSFeatures = [], p_Variant = []\<rparr>"

record oci_image =
  im_Platform :: platform
  im_Config :: image_config
  im_RootFSType :: string
  im_DiffIDs :: "string list"
  im_History :: "oci_history list"

record oci_manifest =
  ma_SchemaVersion :: int
  ma_MediaType :: string
  ma_ArtifactType :: string
  ma_Config :: oci_descriptor
  ma_Layers :: "oci_descriptor list"
  ma_Subject :: "oci_descriptor option"
  ma_Annotations :: "(string \<times> string) list"

record input =
  in_Name :: string
  in_Manifest :: oci_manifest
  in_Config :: oci_image

record image =
  img_Config :: oci_image
  img_Layers :: "oci_descriptor list"

datatype merge_error =
    SandboxLayers string nat nat
  | MixinLayers string nat nat
  | EnvConflict string string string

section \<open>Merging configs\<close>

record value_owner =
  vo_value :: string
  vo_kit :: string

record config_owners =
  co_env :: "string \<rightharpoonup> value_owner"
  co_labels :: "string \<rightharpoonup> value_owner"

definition ownEnv :: "string \<Rightarrow> (string \<rightharpoonup> value_owner) \<Rightarrow> string \<Rightarrow> (string \<rightharpoonup> value_owner)" where
  "ownEnv kit env kv =
     (case cut CHR ''='' kv of (k, v, ok) \<Rightarrow>
        if ok then env(k \<mapsto> \<lparr>vo_value = v, vo_kit = kit\<rparr>) else env)"

definition newConfigOwners :: "input \<Rightarrow> config_owners" where
  "newConfigOwners sandbox =
     \<lparr>co_env = foldl (ownEnv (in_Name sandbox)) Map.empty (ic_Env (im_Config (in_Config sandbox))),
      co_labels = foldl (\<lambda>ls (k, v). ls(k \<mapsto> \<lparr>vo_value = v, vo_kit = in_Name sandbox\<rparr>))
                    Map.empty (ic_Labels (im_Config (in_Config sandbox)))\<rparr>"

text \<open>The loop of \<open>mergePath\<close> over the elements to add: the elements already there and the
  value built so far.\<close>

fun pathLoop :: "string list \<Rightarrow> string \<Rightarrow> string list \<Rightarrow> string" where
  "pathLoop seen merged [] = merged"
| "pathLoop seen merged (e # es) =
     (if e = [] \<or> e \<in> set seen then pathLoop seen merged es
      else pathLoop (e # seen) (if merged = [] then e else merged @ '':'' @ e) es)"

definition pathEntry :: "string \<Rightarrow> string" where
  "pathEntry v = ''PATH='' @ v"

fun replacePath :: "string \<Rightarrow> string list \<Rightarrow> string list option" where
  "replacePath merged [] = None"
| "replacePath merged (kv # env) =
     (if has_prefix kv ''PATH='' then Some (pathEntry merged # env)
      else map_option (Cons kv) (replacePath merged env))"

definition setPath :: "string \<Rightarrow> string list \<Rightarrow> string list" where
  "setPath merged env =
     (case replacePath merged env of Some env' \<Rightarrow> env' | None \<Rightarrow> env @ [pathEntry merged])"

definition currentPath :: "config_owners \<Rightarrow> string" where
  "currentPath ow = (case co_env ow ''PATH'' of None \<Rightarrow> [] | Some prev \<Rightarrow> vo_value prev)"

definition mergePath ::
  "image_config \<Rightarrow> config_owners \<Rightarrow> string \<Rightarrow> string \<Rightarrow> image_config \<times> config_owners" where
  "mergePath config ow kit addition =
     (let current = currentPath ow;
          merged = pathLoop (split_on CHR '':'' current) current (split_on CHR '':'' addition)
      in if merged = current \<and> current \<noteq> [] then (config, ow)
         else (config\<lparr>ic_Env := setPath merged (ic_Env config)\<rparr>,
               ow\<lparr>co_env := (co_env ow)(''PATH'' \<mapsto> \<lparr>vo_value = merged, vo_kit = kit\<rparr>)\<rparr>))"

fun mergeEnv ::
  "string \<Rightarrow> image_config \<Rightarrow> config_owners \<Rightarrow> string list \<Rightarrow> merge_error + image_config \<times> config_owners" where
  "mergeEnv kit config ow [] = Inr (config, ow)"
| "mergeEnv kit config ow (kv # env) =
     (case cut CHR ''='' kv of (k, v, ok) \<Rightarrow>
        if \<not> ok then mergeEnv kit config ow env
        else if k = ''PATH'' then (case mergePath config ow kit v of (config', ow') \<Rightarrow> mergeEnv kit config' ow' env)
        else (case co_env ow k of
                Some prev \<Rightarrow>
                  if vo_value prev \<noteq> v then Inl (EnvConflict k (vo_kit prev) kit)
                  else mergeEnv kit config ow env
              | None \<Rightarrow>
                  mergeEnv kit (config\<lparr>ic_Env := ic_Env config @ [kv]\<rparr>)
                    (ow\<lparr>co_env := (co_env ow)(k \<mapsto> \<lparr>vo_value = v, vo_kit = kit\<rparr>)\<rparr>) env))"

definition mergeLabel :: "string \<Rightarrow> image_config \<times> config_owners \<Rightarrow> string \<times> string \<Rightarrow> image_config \<times> config_owners" where
  "mergeLabel kit st kv =
     (case st of (config, ow) \<Rightarrow> case kv of (k, v) \<Rightarrow>
        if co_labels ow k \<noteq> None then st
        else (config\<lparr>ic_Labels := AList.update k v (ic_Labels config)\<rparr>,
              ow\<lparr>co_labels := (co_labels ow)(k \<mapsto> \<lparr>vo_value = v, vo_kit = kit\<rparr>)\<rparr>))"

definition addKey :: "string list \<Rightarrow> string \<Rightarrow> string list" where
  "addKey ks k = (if k \<in> set ks then ks else ks @ [k])"

definition mergeConfig ::
  "config_owners \<Rightarrow> image_config \<Rightarrow> input \<Rightarrow> merge_error + image_config \<times> config_owners" where
  "mergeConfig ow config m =
     (let mc = im_Config (in_Config m) in
      rbind (mergeEnv (in_Name m) config ow (ic_Env mc)) (\<lambda>st.
        (case foldl (mergeLabel (in_Name m)) st (ic_Labels mc) of (config', ow') \<Rightarrow>
           Inr (config'\<lparr>ic_ExposedPorts := foldl addKey (ic_ExposedPorts config') (ic_ExposedPorts mc),
                        ic_Volumes := foldl addKey (ic_Volumes config') (ic_Volumes mc)\<rparr>, ow'))))"

text \<open>The loop of \<open>Merge\<close> over the mixins: the config and the layers composed so far.\<close>

definition kitHistory :: "string \<Rightarrow> oci_history" where
  "kitHistory nm = \<lparr>hi_CreatedBy = ''sandbox-kit assemble '' @ nm, hi_Comment = ''kit overlay layer'',
                    hi_EmptyLayer = False\<rparr>"

fun mergeLoop ::
  "oci_image \<Rightarrow> oci_descriptor list \<Rightarrow> config_owners \<Rightarrow> input list \<Rightarrow> merge_error + image" where
  "mergeLoop config layers ow [] = Inr \<lparr>img_Config = config, img_Layers = layers\<rparr>"
| "mergeLoop config layers ow (m # ms) =
     (let mlayers = ma_Layers (in_Manifest m); diffs = im_DiffIDs (in_Config m) in
      if length mlayers \<noteq> length diffs
      then Inl (MixinLayers (in_Name m) (length mlayers) (length diffs))
      else rbind (mergeConfig ow (im_Config config) m) (\<lambda>(cfg, ow').
             mergeLoop (config\<lparr>im_DiffIDs := im_DiffIDs config @ diffs,
                               im_History := im_History config @ map (\<lambda>l. kitHistory (in_Name m)) mlayers,
                               im_Config := cfg\<rparr>)
               (layers @ mlayers) ow' ms))"

definition Merge :: "input \<Rightarrow> input list \<Rightarrow> merge_error + image" where
  "Merge sandbox mixins =
     (let layers = ma_Layers (in_Manifest sandbox); diffs = im_DiffIDs (in_Config sandbox) in
      if length layers \<noteq> length diffs
      then Inl (SandboxLayers (in_Name sandbox) (length layers) (length diffs))
      else mergeLoop (in_Config sandbox) layers (newConfigOwners sandbox) mixins)"

section \<open>The image record\<close>

definition TagRepository :: string where "TagRepository = ''sandbox-kit-assembled''"

text \<open>\<open>sha256hex\<close> is the hexadecimal SHA-256 of the bytes.\<close>

definition Tag :: "(string \<Rightarrow> string) \<Rightarrow> string \<Rightarrow> string" where
  "Tag sha256hex lockJSON = TagRepository @ '':'' @ take 16 (sha256hex lockJSON)"

definition MediaTypeImageManifest :: string where
  "MediaTypeImageManifest = ''application/vnd.oci.image.manifest.v1+json''"

definition MediaTypeImageConfig :: string where
  "MediaTypeImageConfig = ''application/vnd.oci.image.config.v1+json''"

datatype image_error =
    NoImage
  | LayerCount nat nat
  | MarshalConfig string
  | MarshalManifest string
  | NoDestination
  | WriteConfig string
  | WriteManifest string

text \<open>The encoders, the digest of bytes and the store are parameters; a store returns its next
  state, or an error that says whether the blob was already there.\<close>

record image_codec =
  marshalImage :: "oci_image \<Rightarrow> string + string"
  marshalManifest :: "oci_manifest \<Rightarrow> string + string"
  digestOf :: "string \<Rightarrow> string"

datatype push_result = Pushed | AlreadyExists | PushFailed string

definition finalize :: "image_codec \<Rightarrow> image option \<Rightarrow> image_error + oci_manifest \<times> string" where
  "finalize c img =
     (case img of
        None \<Rightarrow> Inl NoImage
      | Some im \<Rightarrow>
          if length (img_Layers im) \<noteq> length (im_DiffIDs (img_Config im))
          then Inl (LayerCount (length (img_Layers im)) (length (im_DiffIDs (img_Config im))))
          else (case marshalImage c (img_Config im) of
                  Inl e \<Rightarrow> Inl (MarshalConfig e)
                | Inr raw \<Rightarrow>
                    Inr (\<lparr>ma_SchemaVersion = 2, ma_MediaType = MediaTypeImageManifest, ma_ArtifactType = [],
                          ma_Config = \<lparr>od_MediaType = MediaTypeImageConfig, od_Digest = digestOf c raw,
                                       od_Size = int (length raw)\<rparr>,
                          ma_Layers = img_Layers im, ma_Subject = None, ma_Annotations = []\<rparr>, raw)))"

definition Manifest :: "image_codec \<Rightarrow> image option \<Rightarrow> image_error + oci_manifest" where
  "Manifest c img = rbind (finalize c img) (\<lambda>(m, raw). Inr m)"

definition WriteMetadata ::
  "image_codec \<Rightarrow> ('s \<Rightarrow> oci_descriptor \<Rightarrow> string \<Rightarrow> push_result \<times> 's) option \<Rightarrow> 's \<Rightarrow> image option
   \<Rightarrow> (image_error + oci_descriptor) \<times> 's" where
  "WriteMetadata c dst s img =
     (case dst of
        None \<Rightarrow> (Inl NoDestination, s)
      | Some push \<Rightarrow>
          (case finalize c img of
             Inl e \<Rightarrow> (Inl e, s)
           | Inr (m, config) \<Rightarrow>
               (case marshalManifest c m of
                  Inl e \<Rightarrow> (Inl (MarshalManifest e), s)
                | Inr raw \<Rightarrow>
                    (let d = \<lparr>od_MediaType = ma_MediaType m, od_Digest = digestOf c raw,
                              od_Size = int (length raw)\<rparr> in
                     (case push s (ma_Config m) config of
                        (PushFailed e, s') \<Rightarrow> (Inl (WriteConfig e), s')
                      | (_, s') \<Rightarrow>
                          (case push s' d raw of
                             (PushFailed e, s'') \<Rightarrow> (Inl (WriteManifest e), s'')
                           | (_, s'') \<Rightarrow> (Inr d, s'')))))))"

section \<open>Loading and assembling a resolved set\<close>

datatype assemble_error =
    NoLoader
  | KitWithoutDescriptor
  | KitWithoutImage string
  | NotResolved resolve_error
  | LoadFailed string string
  | PlatformMismatch string string
  | MergeFailed merge_error

fun checkUnits :: "unit_heap \<Rightarrow> unit_ptr option list \<Rightarrow> assemble_error option" where
  "checkUnits h [] = None"
| "checkUnits h (u # us) =
     (case u of
        None \<Rightarrow> Some KitWithoutDescriptor
      | Some k \<Rightarrow>
          if UnitDescriptor (h k) = None then Some KitWithoutDescriptor
          else if Image (h k) = [] then Some (KitWithoutImage (Reference (h k)))
          else checkUnits h us)"

text \<open>\<open>samePlatform a b\<close> is \<open>platforms.OnlyStrict(a).Match(b)\<close> on the platforms of two
  configs; a run whose context is cancelled is not modelled.\<close>

fun loadInputs ::
  "(platform \<Rightarrow> platform \<Rightarrow> bool) \<Rightarrow> (string \<Rightarrow> string + input) \<Rightarrow> unit_heap \<Rightarrow> input list \<Rightarrow> unit_ptr list
   \<Rightarrow> assemble_error + input list" where
  "loadInputs samePlatform load h inputs [] = Inr inputs"
| "loadInputs samePlatform load h inputs (k # ks) =
     (case load (Image (h k)) of
        Inl e \<Rightarrow> Inl (LoadFailed (Reference (h k)) e)
      | Inr inp \<Rightarrow>
          (let inp = inp\<lparr>in_Name := Reference (h k)\<rparr> in
           if inputs \<noteq> [] \<and> \<not> samePlatform (im_Platform (in_Config (hd inputs))) (im_Platform (in_Config inp))
           then Inl (PlatformMismatch (Reference (h k)) (in_Name (hd inputs)))
           else loadInputs samePlatform load h (inputs @ [inp]) ks))"

definition Assemble ::
  "(platform \<Rightarrow> platform \<Rightarrow> bool) \<Rightarrow> (string \<Rightarrow> string + input) option \<Rightarrow> unit_heap \<Rightarrow> unit_ptr option list
   \<Rightarrow> assemble_error + image" where
  "Assemble samePlatform load h kits =
     (case load of
        None \<Rightarrow> Inl NoLoader
      | Some ld \<Rightarrow>
          (case checkUnits h kits of
             Some e \<Rightarrow> Inl e
           | None \<Rightarrow>
               (case Resolve h (map the kits) of
                  Inl e \<Rightarrow> Inl (NotResolved e)
                | Inr resolution \<Rightarrow>
                    rbind (loadInputs samePlatform ld h [] (Ordered resolution)) (\<lambda>inputs.
                      (case Merge (hd inputs) (tl inputs) of
                         Inl e \<Rightarrow> Inl (MergeFailed e)
                       | Inr img \<Rightarrow> Inr img)))))"

end
