(* ===== verification/Fetch_Inventory.thy ===== *)
theory Fetch_Inventory
  imports Inventory_Facts Images
begin

text \<open>
  The inventory of a resolved set (\<open>fetch/assemble_inventory.go\<close>, and \<open>progressStep\<close> of
  \<open>fetch/assemble.go\<close>): what each kit's layers hold, read through a budget that bounds the
  whole operation, with blobs already read replayed from a cache.

  A loader returns the bytes of a blob as a stream, with the error that closing it reports.
  The callback that receives progress is modelled by the list of events it was called with. A
  run whose context is cancelled is not modelled.
\<close>

section \<open>Entries and the budget\<close>

record inventory_entry =
  ie_name :: string
  ie_linkname :: string
  ie_mode :: int
  ie_uid :: int
  ie_gid :: int
  ie_devmajor :: int
  ie_devminor :: int
  ie_typeflag :: char

definition header_of :: "inventory_entry \<Rightarrow> tar_header" where
  "header_of e = \<lparr>h_Name = ie_name e, h_Linkname = ie_linkname e, h_Typeflag = ie_typeflag e,
     h_Mode = ie_mode e, h_Uid = ie_uid e, h_Gid = ie_gid e, h_Devmajor = ie_devmajor e,
     h_Devminor = ie_devminor e\<rparr>"

definition entry_from :: "tar_header \<Rightarrow> inventory_entry" where
  "entry_from hdr = \<lparr>ie_name = h_Name hdr, ie_linkname = h_Linkname hdr, ie_mode = h_Mode hdr,
     ie_uid = h_Uid hdr, ie_gid = h_Gid hdr, ie_devmajor = h_Devmajor hdr,
     ie_devminor = h_Devminor hdr, ie_typeflag = h_Typeflag hdr\<rparr>"

record kit_inventory =
  ki_reference :: string
  ki_layers :: "inventory_entry list list"

definition maxInventoryLayers :: int where "maxInventoryLayers = 4096"
definition maxInventoryEntries :: int where "maxInventoryEntries = 250000"
definition maxInventoryPathBytes :: int where "maxInventoryPathBytes = 33554432"
definition maxInventoryComponents :: int where "maxInventoryComponents = 250000"

record inventory_budget =
  layersLeft :: int
  entriesLeft :: int
  pathBytesLeft :: int
  componentsLeft :: int

definition fullBudget :: inventory_budget where
  "fullBudget = \<lparr>layersLeft = maxInventoryLayers, entriesLeft = maxInventoryEntries,
     pathBytesLeft = maxInventoryPathBytes, componentsLeft = maxInventoryComponents\<rparr>"

datatype budget_error = TooManyLayers | TooManyEntries | TooManyPathBytes | TooManyComponents

fun componentsLoop :: "nat \<Rightarrow> bool \<Rightarrow> string \<Rightarrow> nat" where
  "componentsLoop n inComponent [] = n"
| "componentsLoop n inComponent (c # cs) =
     (if c = CHR ''/'' then componentsLoop n False cs
      else if \<not> inComponent then componentsLoop (n + 1) True cs
      else componentsLoop n inComponent cs)"

definition pathComponents :: "string \<Rightarrow> nat" where
  "pathComponents nm = componentsLoop 0 False nm"

definition consumeLayer :: "inventory_budget \<Rightarrow> budget_error + inventory_budget" where
  "consumeLayer b = (if layersLeft b = 0 then Inl TooManyLayers else Inr (b\<lparr>layersLeft := layersLeft b - 1\<rparr>))"

definition consume :: "inventory_budget \<Rightarrow> tar_header \<Rightarrow> budget_error + inventory_budget" where
  "consume b hdr =
     (if entriesLeft b = 0 then Inl TooManyEntries
      else if int (length (h_Name hdr)) > pathBytesLeft b
              \<or> int (length (h_Linkname hdr)) > pathBytesLeft b - int (length (h_Name hdr))
      then Inl TooManyPathBytes
      else let comps = int (pathComponents (h_Name hdr) + pathComponents (h_Linkname hdr)) in
           if comps > componentsLeft b then Inl TooManyComponents
           else Inr (b\<lparr>componentsLeft := componentsLeft b - comps,
                       entriesLeft := entriesLeft b - 1,
                       pathBytesLeft := pathBytesLeft b - int (length (h_Name hdr) + length (h_Linkname hdr))\<rparr>))"

fun consumeAll :: "inventory_budget \<Rightarrow> inventory_entry list \<Rightarrow> budget_error + inventory_budget" where
  "consumeAll b [] = Inr b"
| "consumeAll b (e # es) = rbind (consume b (header_of e)) (\<lambda>b'. consumeAll b' es)"

section \<open>Loaded kits and their layers\<close>

record layer_reader =
  lr_stream :: byte_stream
  lr_close :: "string option"

record loaded_kit =
  lk_Digest :: string
  lk_Manifest :: oci_manifest
  lk_Config :: oci_image
  lk_Image :: string
  lk_Descriptor :: string
  lk_LayerLoader :: "(oci_descriptor \<Rightarrow> string + layer_reader option) option"

datatype inventory_error =
    SizeTooLarge
  | LoaderFailed string
  | NoStream
  | WalkFailed layer_error
  | OverBudget budget_error
  | DrainFailed string
  | SizeMismatch
  | DigestMismatch
  | CloseFailed "inventory_error option" string
  | InventoryUnresolved resolve_error
  | MissingKit string
  | MissingLoader string
  | RootFSMismatch string
  | InLayer string string inventory_error

definition maxInt64 :: int where "maxInt64 = 9223372036854775807"

text \<open>\<open>io.LimitedReader\<close> over a stream: it ends after so many bytes without an error of its own.\<close>

definition limited :: "nat \<Rightarrow> byte_stream \<Rightarrow> byte_stream" where
  "limited n b = (if length (b_bytes b) \<ge> n then \<lparr>b_bytes = take n (b_bytes b), b_err = None\<rparr> else b)"

definition collectEntry ::
  "inventory_entry list \<times> inventory_budget \<Rightarrow> tar_header \<Rightarrow> budget_error + inventory_entry list \<times> inventory_budget" where
  "collectEntry st hdr =
     (case st of (files, b) \<Rightarrow> rbind (consume b hdr) (\<lambda>b'. Inr (files @ [entry_from hdr], b')))"

definition readStream ::
  "codecs \<Rightarrow> oci_descriptor \<Rightarrow> string \<Rightarrow> inventory_budget \<Rightarrow> byte_stream
   \<Rightarrow> inventory_error + inventory_entry list \<times> inventory_budget" where
  "readStream c layer diffID b strm =
     (let lim = limited (nat (od_Size layer + 1)) strm in
      (case WalkLayerVerified c lim diffID collectEntry ([], b) of
         Inl (Inl e) \<Rightarrow> Inl (WalkFailed e)
       | Inl (Inr e) \<Rightarrow> Inl (OverBudget e)
       | Inr (files, b') \<Rightarrow>
           (case b_err lim of
              Some e \<Rightarrow> Inl (DrainFailed e)
            | None \<Rightarrow>
                if int (length (b_bytes lim)) \<noteq> od_Size layer then Inl SizeMismatch
                else if \<not> digestMatches c (od_Digest layer) (b_bytes lim) then Inl DigestMismatch
                else Inr (files, b'))))"

definition readLayerInventory ::
  "codecs \<Rightarrow> (oci_descriptor \<Rightarrow> string + layer_reader option) \<Rightarrow> oci_descriptor \<Rightarrow> string \<Rightarrow> inventory_budget
   \<Rightarrow> inventory_error + inventory_entry list \<times> inventory_budget" where
  "readLayerInventory c load layer diffID b =
     (if od_Size layer = maxInt64 then Inl SizeTooLarge
      else (case load layer of
              Inl e \<Rightarrow> Inl (LoaderFailed e)
            | Inr None \<Rightarrow> Inl NoStream
            | Inr (Some r) \<Rightarrow>
                (case (readStream c layer diffID b (lr_stream r), lr_close r) of
                   (res, None) \<Rightarrow> res
                 | (Inl e, Some ce) \<Rightarrow> Inl (CloseFailed (Some e) ce)
                 | (Inr _, Some ce) \<Rightarrow> Inl (CloseFailed None ce))))"

section \<open>Progress\<close>

datatype stage = StageLoad | StageResolve | StageCompose | StageInventory | StageCollisions
datatype progress_state = ProgressStarted | ProgressCompleted | ProgressFailed

record progress =
  pr_Stage :: stage
  pr_State :: progress_state
  pr_Reference :: string
  pr_Layer :: string

definition progressStep :: "progress list \<Rightarrow> progress \<Rightarrow> 'e + 'a \<Rightarrow> ('e + 'a) \<times> progress list" where
  "progressStep log event res =
     (res, log @ [event\<lparr>pr_State := ProgressStarted\<rparr>,
                  event\<lparr>pr_State := (if is_ok res then ProgressCompleted else ProgressFailed)\<rparr>])"

section \<open>The inventories of a resolved set\<close>

type_synonym blob_key = "string \<times> int \<times> string"

definition blobKey :: "oci_descriptor \<Rightarrow> string \<Rightarrow> blob_key" where
  "blobKey layer diffID = (od_Digest layer, od_Size layer, diffID)"

record inventory_state =
  is_cache :: "blob_key \<rightharpoonup> inventory_entry list"
  is_budget :: inventory_budget
  is_log :: "progress list"

text \<open>One layer: the budget is charged for the layer and for its entries, whether they are
  read or replayed.\<close>

definition layerStep ::
  "codecs \<Rightarrow> (oci_descriptor \<Rightarrow> string + layer_reader option) \<Rightarrow> (blob_key \<rightharpoonup> inventory_entry list) \<Rightarrow> inventory_budget
   \<Rightarrow> oci_descriptor \<Rightarrow> string \<Rightarrow> inventory_error + inventory_entry list \<times> inventory_budget" where
  "layerStep c load cache b layer diffID =
     (case consumeLayer b of
        Inl e \<Rightarrow> Inl (OverBudget e)
      | Inr b' \<Rightarrow>
          (case cache (blobKey layer diffID) of
             Some files \<Rightarrow>
               (case consumeAll b' files of Inl e \<Rightarrow> Inl (OverBudget e) | Inr b'' \<Rightarrow> Inr (files, b''))
           | None \<Rightarrow> readLayerInventory c load layer diffID b'))"

fun inventoryLayers ::
  "codecs \<Rightarrow> string \<Rightarrow> (oci_descriptor \<Rightarrow> string + layer_reader option) \<Rightarrow> inventory_state
   \<Rightarrow> (oci_descriptor \<times> string) list \<Rightarrow> (inventory_error + inventory_entry list list) \<times> inventory_state" where
  "inventoryLayers c reference load s [] = (Inr [], s)"
| "inventoryLayers c reference load s ((layer, diffID) # rest) =
     (case progressStep (is_log s)
             \<lparr>pr_Stage = StageInventory, pr_State = ProgressStarted, pr_Reference = reference,
              pr_Layer = od_Digest layer\<rparr>
             (layerStep c load (is_cache s) (is_budget s) layer diffID) of
        (Inl e, log) \<Rightarrow> (Inl (InLayer reference (od_Digest layer) e), s\<lparr>is_log := log\<rparr>)
      | (Inr (files, b), log) \<Rightarrow>
          (case inventoryLayers c reference load
                  (s\<lparr>is_cache := (is_cache s)(blobKey layer diffID \<mapsto> files), is_budget := b, is_log := log\<rparr>) rest of
             (Inl e, s') \<Rightarrow> (Inl e, s')
           | (Inr ls, s') \<Rightarrow> (Inr (files # ls), s')))"

fun inventoryLoop ::
  "codecs \<Rightarrow> unit_heap \<Rightarrow> (string \<rightharpoonup> loaded_kit) \<Rightarrow> inventory_state \<Rightarrow> unit_ptr list
   \<Rightarrow> (inventory_error + kit_inventory list) \<times> inventory_state" where
  "inventoryLoop c h loaded s [] = (Inr [], s)"
| "inventoryLoop c h loaded s (k # ks) =
     (let reference = Reference (h k) in
      (case loaded reference of
         None \<Rightarrow> (Inl (MissingKit reference), s)
       | Some input \<Rightarrow>
           (case lk_LayerLoader input of
              None \<Rightarrow> (Inl (MissingLoader reference), s)
            | Some load \<Rightarrow>
                if length (im_DiffIDs (lk_Config input)) \<noteq> length (ma_Layers (lk_Manifest input))
                then (Inl (RootFSMismatch reference), s)
                else
                  (case inventoryLayers c reference load s
                          (zip (ma_Layers (lk_Manifest input)) (im_DiffIDs (lk_Config input))) of
                     (Inl e, s') \<Rightarrow> (Inl e, s')
                   | (Inr ls, s') \<Rightarrow>
                       (case inventoryLoop c h loaded s' ks of
                          (Inl e, s'') \<Rightarrow> (Inl e, s'')
                        | (Inr invs, s'') \<Rightarrow>
                            (Inr (\<lparr>ki_reference = reference, ki_layers = ls\<rparr> # invs), s''))))))"

definition inventoryKits ::
  "codecs \<Rightarrow> unit_heap \<Rightarrow> unit_ptr list \<Rightarrow> (string \<rightharpoonup> loaded_kit) \<Rightarrow> progress list
   \<Rightarrow> (inventory_error + kit_inventory list) \<times> progress list" where
  "inventoryKits c h kits loaded log =
     (case Resolve h kits of
        Inl e \<Rightarrow> (Inl (InventoryUnresolved e), log)
      | Inr resolution \<Rightarrow>
          (case inventoryLoop c h loaded
                  \<lparr>is_cache = Map.empty, is_budget = fullBudget, is_log = log\<rparr> (Ordered resolution) of
             (res, s) \<Rightarrow> (res, is_log s)))"

end
