(* ===== verification/Registry.thy ===== *)
theory Registry
  imports Fetch_Inventory
begin

text \<open>
  Reading kit metadata from a registry (\<open>fetch/registry.go\<close>, \<open>fetch/image.go\<close>,
  \<open>fetch/load_kit.go\<close> and \<open>Fetch\<close> and \<open>pinnedImage\<close> of \<open>fetch/fetch.go\<close>).

  The libraries underneath are fields of the record \<open>registry_lib\<close>: the JSON decoding of a
  manifest, an index and an image config, the platform matcher of \<open>platforms.Only\<close> and
  \<open>platforms.OnlyStrict\<close>, the digest package, the reference package, and the decoding and
  published-form validation of a descriptor. \<open>cl_repository\<close> stands for \<open>Client.repository\<close>,
  which sets up the HTTP transport and the credentials. Its answers may depend on when it is
  asked, and a repository's answers on how many requests were made before, so a server that
  changes its mind or lies is covered. A run whose context is cancelled is not modelled.
\<close>

section \<open>Metadata and the libraries\<close>

record reg_descriptor = oci_descriptor +
  od_Platform :: "platform option"

record oci_index =
  ix_SchemaVersion :: int
  ix_ArtifactType :: string
  ix_Manifests :: "reg_descriptor list"
  ix_Annotations :: "(string \<times> string) list"

record named_reference =
  nr_Name :: string
  nr_Tag :: "string option"
  nr_Digest :: "string option"

record registry_lib =
  parseManifest :: "string \<Rightarrow> string + oci_manifest"
  parseIndex :: "string \<Rightarrow> string + oci_index"
  parseImage :: "string \<Rightarrow> string + oci_image"
  platMatch :: "platform \<Rightarrow> platform \<Rightarrow> bool"
  platLess :: "platform \<Rightarrow> platform \<Rightarrow> platform \<Rightarrow> bool"
  platStrict :: "platform \<Rightarrow> platform \<Rightarrow> bool"
  digestError :: "string \<Rightarrow> string option"
  digestFrom :: "string \<Rightarrow> string \<Rightarrow> string"
  parseNormalized :: "string \<Rightarrow> string + named_reference"
  tagNameOnly :: "named_reference \<Rightarrow> named_reference"
  canonicalText :: "string \<Rightarrow> string \<Rightarrow> string + string"
  decodeSpec :: "string \<Rightarrow> string + descriptor"
  publishedError :: "string \<Rightarrow> descriptor \<Rightarrow> string option"

record repository =
  fetchReference :: "nat \<Rightarrow> string \<Rightarrow> string + reg_descriptor \<times> byte_stream"
  fetchBlob :: "nat \<Rightarrow> oci_descriptor \<Rightarrow> string + layer_reader"

record client =
  cl_platform :: platform
  cl_repository :: "nat \<Rightarrow> string \<Rightarrow> string + repository"

datatype registry_error =
    TooManyManifests
  | Remote string
  | ReadMetadata string string
  | MetadataTooLarge string
  | SizeDiffers string int nat
  | InvalidDigest string
  | MetadataMismatch string
  | NotPlainManifest string
  | ParseFailed string
  | BadSchemaVersion int
  | SetsArtifactType string
  | ConfigNotImage string
  | IndexTooDeep
  | NoManifestForPlatform
  | ConfigSizeOutOfBudget int
  | PlatformDisagrees
  | PlatformNotRequested
  | RootFSDiffers
  | BadReference string string
  | NoTagOrDigest string
  | NotAKit
  | BadDescriptor string string
  | FetchKit string registry_error
  | LoadImageOf string registry_error

definition maxIndexDepth :: nat where "maxIndexDepth = 4"
definition maxManifestFetches :: nat where "maxManifestFetches = 32"
definition maxMetadataBytes :: int where "maxMetadataBytes = 8388608"

definition AnnotationDescriptor :: string where
  "AnnotationDescriptor = ''vnd.docker.sandbox.kit.descriptor''"

text \<open>A read of a missing key of an annotation map is the empty string.\<close>

definition annotation :: "(string \<times> string) list \<Rightarrow> string \<Rightarrow> string" where
  "annotation m k = (case map_of m k of None \<Rightarrow> [] | Some v \<Rightarrow> v)"

section \<open>Media types and shapes\<close>

definition MediaTypeImageIndex :: string where
  "MediaTypeImageIndex = ''application/vnd.oci.image.index.v1+json''"

definition isIndex :: "string \<Rightarrow> bool" where
  "isIndex mediaType \<longleftrightarrow> mediaType = MediaTypeImageIndex
     \<or> mediaType = ''application/vnd.docker.distribution.manifest.list.v2+json''"

definition isImageManifest :: "string \<Rightarrow> bool" where
  "isImageManifest mediaType \<longleftrightarrow> mediaType = MediaTypeImageManifest
     \<or> mediaType = ''application/vnd.docker.distribution.manifest.v2+json''"

definition requirePlainImageManifest :: "string \<Rightarrow> oci_manifest \<Rightarrow> registry_error option" where
  "requirePlainImageManifest descMediaType m =
     (let mediaType = (if descMediaType = [] then ma_MediaType m else descMediaType) in
      if ma_SchemaVersion m \<noteq> 2 then Some (BadSchemaVersion (ma_SchemaVersion m))
      else if \<not> isImageManifest mediaType then Some (NotPlainManifest mediaType)
      else if ma_ArtifactType m \<noteq> [] then Some (SetsArtifactType (ma_ArtifactType m))
      else if od_MediaType (ma_Config m) \<noteq> MediaTypeImageConfig
              \<and> od_MediaType (ma_Config m) \<noteq> ''application/vnd.docker.container.image.v1+json''
      then Some (ConfigNotImage (od_MediaType (ma_Config m)))
      else None)"

section \<open>Reading and verifying bytes\<close>

definition consumeManifest :: "nat \<Rightarrow> registry_error + nat" where
  "consumeManifest n = (if n \<ge> maxManifestFetches then Inl TooManyManifests else Inr (n + 1))"

text \<open>\<open>io.LimitReader\<close> ends one byte past the bound, so a stream's own error is met only when
  the stream is not longer than the bound.\<close>

definition readLimited :: "byte_stream \<Rightarrow> string \<Rightarrow> registry_error + string" where
  "readLimited rc nm =
     (if int (length (b_bytes rc)) > maxMetadataBytes then Inl (MetadataTooLarge nm)
      else (case b_err rc of
              Some e \<Rightarrow> Inl (ReadMetadata nm e)
            | None \<Rightarrow> Inr (b_bytes rc)))"

definition readVerified :: "registry_lib \<Rightarrow> byte_stream \<Rightarrow> oci_descriptor \<Rightarrow> registry_error + string" where
  "readVerified lib rc d =
     rbind (readLimited rc (od_Digest d)) (\<lambda>body.
       if int (length body) \<noteq> od_Size d then Inl (SizeDiffers (od_Digest d) (od_Size d) (length body))
       else (case digestError lib (od_Digest d) of
               Some e \<Rightarrow> Inl (InvalidDigest e)
             | None \<Rightarrow>
                 if digestFrom lib (od_Digest d) body \<noteq> od_Digest d then Inl (MetadataMismatch (od_Digest d))
                 else Inr body))"

definition plain_descriptor :: "reg_descriptor \<Rightarrow> oci_descriptor" where
  "plain_descriptor d = \<lparr>od_MediaType = od_MediaType d, od_Digest = od_Digest d, od_Size = od_Size d\<rparr>"

definition fetchManifest ::
  "registry_lib \<Rightarrow> repository \<Rightarrow> string \<Rightarrow> nat \<Rightarrow> (registry_error + reg_descriptor \<times> string) \<times> nat" where
  "fetchManifest lib repo nm n =
     (case consumeManifest n of
        Inl e \<Rightarrow> (Inl e, n)
      | Inr n' \<Rightarrow>
          ((case fetchReference repo n nm of
              Inl e \<Rightarrow> Inl (Remote e)
            | Inr (d, rc) \<Rightarrow> rbind (readVerified lib rc (plain_descriptor d)) (\<lambda>body. Inr (d, body))), n'))"

definition fetchDescriptor ::
  "registry_lib \<Rightarrow> repository \<Rightarrow> reg_descriptor \<Rightarrow> nat \<Rightarrow> (registry_error + string) \<times> nat" where
  "fetchDescriptor lib repo d n =
     (case consumeManifest n of
        Inl e \<Rightarrow> (Inl e, n)
      | Inr n' \<Rightarrow>
          ((case fetchBlob repo n (plain_descriptor d) of
              Inl e \<Rightarrow> Inl (Remote e)
            | Inr rc \<Rightarrow> readVerified lib (lr_stream rc) (plain_descriptor d)), n'))"

section \<open>Choosing a manifest of an index\<close>

record choice =
  ch_matched :: "reg_descriptor option"
  ch_only :: "reg_descriptor option"
  ch_runnable :: nat
  ch_nested :: "reg_descriptor list"

definition chooseStep :: "registry_lib \<Rightarrow> platform \<Rightarrow> choice \<Rightarrow> reg_descriptor \<Rightarrow> choice" where
  "chooseStep lib want c m =
     (if isIndex (od_MediaType m) then c\<lparr>ch_nested := ch_nested c @ [m]\<rparr>
      else if (case od_Platform m of None \<Rightarrow> False | Some p \<Rightarrow> p_OS p = ''unknown'') then c
      else if od_MediaType m \<noteq> [] \<and> \<not> isImageManifest (od_MediaType m) then c
      else let c' = c\<lparr>ch_runnable := ch_runnable c + 1,
                      ch_only := (if ch_only c = None then Some m else ch_only c)\<rparr> in
           (case od_Platform m of
              None \<Rightarrow> c'
            | Some p \<Rightarrow>
                if platMatch lib want p
                   \<and> (case ch_matched c of
                        None \<Rightarrow> True
                      | Some b \<Rightarrow> (case od_Platform b of None \<Rightarrow> False | Some bp \<Rightarrow> platLess lib want p bp))
                then c'\<lparr>ch_matched := Some m\<rparr> else c'))"

definition chooseManifest ::
  "registry_lib \<Rightarrow> oci_index \<Rightarrow> platform \<Rightarrow> reg_descriptor option \<times> reg_descriptor list" where
  "chooseManifest lib index want =
     (let c = foldl (chooseStep lib want)
                \<lparr>ch_matched = None, ch_only = None, ch_runnable = 0, ch_nested = []\<rparr> (ix_Manifests index) in
      (case ch_matched c of
         Some m \<Rightarrow>
           if ch_nested c = [] \<or> (case od_Platform m of None \<Rightarrow> False | Some p \<Rightarrow> \<not> platLess lib want want p)
           then (Some m, []) else (Some m, ch_nested c)
       | None \<Rightarrow>
           if ch_runnable c = 1 \<and> (case ch_only c of None \<Rightarrow> False | Some m \<Rightarrow> od_Platform m = None)
           then (ch_only c, ch_nested c) else (None, ch_nested c)))"

section \<open>The walk through an index\<close>

type_synonym found = "(string \<times> platform option) option"

definition exact :: "registry_lib \<Rightarrow> platform \<Rightarrow> platform option \<Rightarrow> bool" where
  "exact lib want plat = (case plat of None \<Rightarrow> False | Some p \<Rightarrow> \<not> platLess lib want want p)"

definition betterPlatform :: "registry_lib \<Rightarrow> platform \<Rightarrow> platform option \<Rightarrow> platform option \<Rightarrow> bool" where
  "betterPlatform lib want a b =
     (case a of
        None \<Rightarrow> False
      | Some p \<Rightarrow> (case b of None \<Rightarrow> True | Some q \<Rightarrow> platLess lib want p q))"

definition considerFound :: "registry_lib \<Rightarrow> platform \<Rightarrow> found \<Rightarrow> string \<times> platform option \<Rightarrow> found" where
  "considerFound lib want best r =
     (case best of
        None \<Rightarrow> Some r
      | Some b \<Rightarrow>
          (case snd r of
             None \<Rightarrow> best
           | Some p \<Rightarrow>
               if (case snd b of None \<Rightarrow> True | Some q \<Rightarrow> platLess lib want p q) then Some r else best))"

text \<open>Reading one candidate gives nothing, a result with its platform, or an error, and
  counts the manifests it read. A search also says whether it ended at an exact match.\<close>

type_synonym reader = "reg_descriptor \<Rightarrow> nat \<Rightarrow> (registry_error + found) \<times> nat"

fun searchNested ::
  "registry_lib \<Rightarrow> platform \<Rightarrow> reader \<Rightarrow> found \<Rightarrow> reg_descriptor list \<Rightarrow> nat
   \<Rightarrow> (registry_error + found \<times> bool) \<times> nat" where
  "searchNested lib want rd best [] n = (Inr (best, False), n)"
| "searchNested lib want rd best (d # ds) n =
     (case rd d n of
        (Inl e, n') \<Rightarrow> (Inl e, n')
      | (Inr None, n') \<Rightarrow> searchNested lib want rd best ds n'
      | (Inr (Some r), n') \<Rightarrow>
          if exact lib want (snd r) then (Inr (Some r, True), n')
          else searchNested lib want rd (considerFound lib want best r) ds n')"

definition searchFallback ::
  "registry_lib \<Rightarrow> platform \<Rightarrow> reader \<Rightarrow> found \<Rightarrow> reg_descriptor \<Rightarrow> nat \<Rightarrow> (registry_error + found) \<times> nat" where
  "searchFallback lib want rd best d n =
     (case rd d n of
        (Inl e, n') \<Rightarrow>
          (case best of
             Some b \<Rightarrow> if \<not> betterPlatform lib want (od_Platform d) (snd b) then (Inr best, n') else (Inl e, n')
           | None \<Rightarrow> (Inl e, n'))
      | (Inr None, n') \<Rightarrow> (Inr best, n')
      | (Inr (Some r), n') \<Rightarrow>
          (case best of
             None \<Rightarrow> (Inr (Some r), n')
           | Some b \<Rightarrow> if \<not> betterPlatform lib want (snd b) (snd r) then (Inr (Some r), n') else (Inr best, n')))"

definition searchIndex ::
  "registry_lib \<Rightarrow> platform \<Rightarrow> reader \<Rightarrow> reg_descriptor option \<times> reg_descriptor list \<Rightarrow> nat
   \<Rightarrow> (registry_error + found) \<times> nat" where
  "searchIndex lib want rd choice n =
     (let child = fst choice; nested = snd choice;
          now = (case child of None \<Rightarrow> False | Some d \<Rightarrow> exact lib want (od_Platform d) \<or> nested = []);
          first = (if now then searchNested lib want rd None [the child] n else (Inr (None, False), n))
      in (case first of
            (Inl e, n1) \<Rightarrow> (Inl e, n1)
          | (Inr (best, True), n1) \<Rightarrow> (Inr best, n1)
          | (Inr (best, False), n1) \<Rightarrow>
              (case searchNested lib want rd best nested n1 of
                 (Inl e, n2) \<Rightarrow> (Inl e, n2)
               | (Inr (best', True), n2) \<Rightarrow> (Inr best', n2)
               | (Inr (best', False), n2) \<Rightarrow>
                   if child \<noteq> None \<and> \<not> now then searchFallback lib want rd best' (the child) n2
                   else (Inr best', n2))))"

definition readManifest ::
  "registry_lib \<Rightarrow> bool \<Rightarrow> reg_descriptor \<Rightarrow> string \<Rightarrow> registry_error + found" where
  "readManifest lib annotationOnly d body =
     (if \<not> isImageManifest (od_MediaType d) then Inl (NotPlainManifest (od_MediaType d))
      else (case parseManifest lib body of
              Inl e \<Rightarrow> Inl (ParseFailed e)
            | Inr manifest \<Rightarrow>
                (case requirePlainImageManifest (od_MediaType d) manifest of
                   Some e \<Rightarrow> Inl e
                 | None \<Rightarrow>
                     if annotationOnly
                     then Inr (Some (annotation (ma_Annotations manifest) AnnotationDescriptor, od_Platform d))
                     else Inr (Some (body, od_Platform d)))))"

definition openIndex :: "registry_lib \<Rightarrow> string \<Rightarrow> registry_error + oci_index" where
  "openIndex lib body =
     (case parseIndex lib body of
        Inl e \<Rightarrow> Inl (ParseFailed e)
      | Inr index \<Rightarrow>
          if ix_SchemaVersion index \<noteq> 2 then Inl (BadSchemaVersion (ix_SchemaVersion index))
          else if ix_ArtifactType index \<noteq> [] then Inl (SetsArtifactType (ix_ArtifactType index))
          else Inr index)"

function metadata ::
  "registry_lib \<Rightarrow> platform \<Rightarrow> repository \<Rightarrow> bool \<Rightarrow> nat \<Rightarrow> reg_descriptor \<Rightarrow> string \<Rightarrow> nat
   \<Rightarrow> (registry_error + found) \<times> nat" where
  "metadata lib want repo annotationOnly depth d body n =
     (if \<not> isIndex (od_MediaType d) then (readManifest lib annotationOnly d body, n)
      else if depth > maxIndexDepth then (Inl IndexTooDeep, n)
      else (case openIndex lib body of
              Inl e \<Rightarrow> (Inl e, n)
            | Inr index \<Rightarrow>
                if depth = 0 \<and> annotationOnly \<and> annotation (ix_Annotations index) AnnotationDescriptor \<noteq> []
                then (Inr (Some (annotation (ix_Annotations index) AnnotationDescriptor, None)), n)
                else searchIndex lib want
                       (\<lambda>d' n'. case fetchDescriptor lib repo d' n' of
                                  (Inl e, n'') \<Rightarrow> (Inl e, n'')
                                | (Inr body', n'') \<Rightarrow>
                                    metadata lib want repo annotationOnly (Suc depth) d' body' n'')
                       (chooseManifest lib index want) n))"
  by pat_completeness auto
termination
  by (relation "measure (\<lambda>(lib, want, repo, annotationOnly, depth, d, body, n). Suc maxIndexDepth - depth)")
     auto

declare metadata.simps [simp del]

section \<open>References\<close>

definition parseNamed :: "registry_lib \<Rightarrow> string \<Rightarrow> registry_error + named_reference" where
  "parseNamed lib r =
     (case parseNormalized lib r of
        Inl e \<Rightarrow> Inl (BadReference r e)
      | Inr named \<Rightarrow> Inr (tagNameOnly lib named))"

definition splitRef :: "registry_lib \<Rightarrow> string \<Rightarrow> registry_error + string \<times> string" where
  "splitRef lib r =
     rbind (parseNamed lib r) (\<lambda>named.
       case nr_Digest named of
         Some d \<Rightarrow> Inr (nr_Name named, d)
       | None \<Rightarrow>
           (case nr_Tag named of
              Some t \<Rightarrow> Inr (nr_Name named, t)
            | None \<Rightarrow> Inl (NoTagOrDigest r)))"

definition withDigest :: "registry_lib \<Rightarrow> named_reference \<Rightarrow> string \<Rightarrow> registry_error + string" where
  "withDigest lib named dgst =
     (case canonicalText lib (nr_Name named) dgst of Inl e \<Rightarrow> Inl (Remote e) | Inr s \<Rightarrow> Inr s)"

definition pinnedImage :: "registry_lib \<Rightarrow> string \<Rightarrow> string \<Rightarrow> registry_error + string" where
  "pinnedImage lib r dgst =
     rbind (parseNamed lib r) (\<lambda>named.
       case digestError lib dgst of
         Some e \<Rightarrow> Inl (InvalidDigest e)
       | None \<Rightarrow> withDigest lib named dgst)"

section \<open>Reading a kit\<close>

record published_kit =
  pk_Reference :: string
  pk_Digest :: string
  pk_Image :: string
  pk_Descriptor :: "descriptor option"
  pk_Raw :: string

definition openRepository :: "client \<Rightarrow> nat \<Rightarrow> string \<Rightarrow> registry_error + repository" where
  "openRepository c t repoName =
     (case cl_repository c t repoName of Inl e \<Rightarrow> Inl (Remote e) | Inr repo \<Rightarrow> Inr repo)"

definition readDescriptor ::
  "registry_lib \<Rightarrow> client \<Rightarrow> repository \<Rightarrow> string \<Rightarrow> (registry_error + string \<times> string) \<times> nat" where
  "readDescriptor lib c repo referenceName =
     (case fetchManifest lib repo referenceName 0 of
        (Inl e, n) \<Rightarrow> (Inl e, n)
      | (Inr (d, body), n) \<Rightarrow>
          (case metadata lib (cl_platform c) repo True 0 d body n of
             (Inl e, n') \<Rightarrow> (Inl e, n')
           | (Inr None, n') \<Rightarrow> (Inl NoManifestForPlatform, n')
           | (Inr (Some (raw, plat)), n') \<Rightarrow> (Inr (raw, od_Digest d), n')))"

definition fetchKit :: "registry_lib \<Rightarrow> client \<Rightarrow> nat \<Rightarrow> string \<Rightarrow> registry_error + published_kit" where
  "fetchKit lib c t r =
     rbind (splitRef lib r) (\<lambda>(repoName, referenceName).
     rbind (openRepository c t repoName) (\<lambda>repo.
     rbind (fst (readDescriptor lib c repo referenceName)) (\<lambda>(raw, dgst).
       if raw = [] then Inl NotAKit
       else (case decodeSpec lib raw of
               Inl e \<Rightarrow> Inl (BadDescriptor r e)
             | Inr d \<Rightarrow>
                 (case publishedError lib raw d of
                    Some e \<Rightarrow> Inl (BadDescriptor r e)
                  | None \<Rightarrow>
                      Inr \<lparr>pk_Reference = r, pk_Digest = dgst, pk_Image = [], pk_Descriptor = Some d,
                           pk_Raw = raw\<rparr>)))))"

definition Fetch :: "registry_lib \<Rightarrow> client \<Rightarrow> nat \<Rightarrow> string \<Rightarrow> registry_error + published_kit" where
  "Fetch lib c t r = (case fetchKit lib c t r of Inl e \<Rightarrow> Inl (FetchKit r e) | Inr k \<Rightarrow> Inr k)"

section \<open>Loading an image\<close>

definition readConfig ::
  "registry_lib \<Rightarrow> client \<Rightarrow> repository \<Rightarrow> string \<Rightarrow> nat \<Rightarrow> string \<Rightarrow> platform option \<Rightarrow> registry_error + input" where
  "readConfig lib c repo r n raw selectedPlatform =
     (case parseManifest lib raw of
        Inl e \<Rightarrow> Inl (ParseFailed e)
      | Inr manifest \<Rightarrow>
          if od_Size (ma_Config manifest) < 0 \<or> od_Size (ma_Config manifest) > maxMetadataBytes
          then Inl (ConfigSizeOutOfBudget (od_Size (ma_Config manifest)))
          else (case fetchBlob repo n (ma_Config manifest) of
                  Inl e \<Rightarrow> Inl (Remote e)
                | Inr rc \<Rightarrow>
                    rbind (readVerified lib (lr_stream rc) (ma_Config manifest)) (\<lambda>configRaw.
                      case parseImage lib configRaw of
                        Inl e \<Rightarrow> Inl (ParseFailed e)
                      | Inr config \<Rightarrow>
                          if (case selectedPlatform of None \<Rightarrow> False
                                | Some p \<Rightarrow> \<not> platStrict lib p (im_Platform config))
                          then Inl PlatformDisagrees
                          else if \<not> platMatch lib (cl_platform c) (im_Platform config)
                          then Inl PlatformNotRequested
                          else if im_RootFSType config \<noteq> ''layers''
                                  \<or> length (im_DiffIDs config) \<noteq> length (ma_Layers manifest)
                          then Inl RootFSDiffers
                          else Inr \<lparr>in_Name = r, in_Manifest = manifest, in_Config = config\<rparr>)))"

definition loadImage :: "registry_lib \<Rightarrow> client \<Rightarrow> nat \<Rightarrow> string \<Rightarrow> registry_error + input" where
  "loadImage lib c t r =
     rbind (splitRef lib r) (\<lambda>(repoName, nm).
     rbind (openRepository c t repoName) (\<lambda>repo.
       case fetchManifest lib repo nm 0 of
         (Inl e, n) \<Rightarrow> Inl e
       | (Inr (d, body), n) \<Rightarrow>
           (case metadata lib (cl_platform c) repo False 0 d body n of
              (Inl e, n') \<Rightarrow> Inl e
            | (Inr None, n') \<Rightarrow> Inl NoManifestForPlatform
            | (Inr (Some (raw, selectedPlatform)), n') \<Rightarrow> readConfig lib c repo r n' raw selectedPlatform)))"

definition LoadImage :: "registry_lib \<Rightarrow> client \<Rightarrow> nat \<Rightarrow> string \<Rightarrow> registry_error + input" where
  "LoadImage lib c t r = (case loadImage lib c t r of Inl e \<Rightarrow> Inl (LoadImageOf r e) | Inr i \<Rightarrow> Inr i)"

text \<open>The kit, its image and the repository of its layers are asked for at three successive
  times; the layers themselves are opened later, as request \<open>later\<close>.\<close>

definition LoadKit :: "registry_lib \<Rightarrow> client \<Rightarrow> nat \<Rightarrow> nat \<Rightarrow> string \<Rightarrow> registry_error + loaded_kit" where
  "LoadKit lib c t later r =
     rbind (Fetch lib c t r) (\<lambda>kit.
     rbind (pinnedImage lib r (pk_Digest kit)) (\<lambda>pinned.
     rbind (LoadImage lib c (t + 1) pinned) (\<lambda>img.
     rbind (splitRef lib pinned) (\<lambda>(repoName, _).
     rbind (openRepository c (t + 2) repoName) (\<lambda>repo.
       Inr \<lparr>lk_Digest = pk_Digest kit, lk_Manifest = in_Manifest img, lk_Config = in_Config img,
            lk_Image = pinned, lk_Descriptor = pk_Raw kit,
            lk_LayerLoader = Some (\<lambda>layer.
              case fetchBlob repo later layer of
                Inl e \<Rightarrow> Inl (''open layer '' @ od_Digest layer @ '': '' @ e)
              | Inr reader \<Rightarrow> Inr (Some reader))\<rparr>)))))"

end
