(* ===== verification/Kit_Args.thy ===== *)
theory Kit_Args
  imports Types Names "HOL-Library.AList"
begin

text \<open>
  Create-phase arguments of a kit: the placeholder syntax and the resolution of supplied values
  (\<open>spec/expand.go\<close>, \<open>KitArgValues\<close> of \<open>spec/merge.go\<close>), and the variables that arguments
  export (\<open>argExports\<close> and \<open>combineExports\<close> of \<open>fetch/fetch.go\<close>).

  A Go map is an association list with distinct keys, and where the code ranges over a map the
  model ranges over the list: which of several errors is reported may differ between two runs of
  the code, and does between two lists of the same map. The matching of a declaration's own
  regular expression is a parameter.
\<close>

section \<open>Placeholders\<close>

text \<open>The class \<open>\s\<close> of the regular expressions: tab, newline, form feed, return, space.\<close>

definition isSpaceByte :: "char \<Rightarrow> bool" where
  "isSpaceByte c \<longleftrightarrow> c \<in> set (map char_of [9 :: nat, 10, 12, 13, 32])"

definition isIdentStart :: "char \<Rightarrow> bool" where
  "isIdentStart c \<longleftrightarrow> isUpper c \<or> isLower c \<or> c = CHR ''_''"

definition isIdentChar :: "char \<Rightarrow> bool" where
  "isIdentChar c \<longleftrightarrow> isIdentStart c \<or> isDigit c"

text \<open>\<open>argRef\<close> at the start of a string, with what follows the match. The parts of the
  expression are over disjoint classes of bytes, so the greedy match is the only one.\<close>

definition argRefAt :: "string \<Rightarrow> (string \<times> string) option" where
  "argRefAt s =
     (if \<not> has_prefix s ''${{'' then None
      else let s1 = dropWhile isSpaceByte (drop 3 s) in
           if \<not> has_prefix s1 ''kit.args.'' then None
           else let s2 = drop 9 s1; nm = takeWhile isIdentChar s2; s3 = dropWhile isSpaceByte (dropWhile isIdentChar s2) in
                if nm = [] \<or> \<not> isIdentStart (hd nm) \<or> \<not> has_prefix s3 ''}}'' then None
                else Some (nm, drop 2 s3))"

definition suffixes :: "string \<Rightarrow> string list" where
  "suffixes s = map (\<lambda>k. drop k s) [0..<Suc (length s)]"

definition argRef :: "string \<Rightarrow> bool" where
  "argRef s \<longleftrightarrow> list_ex (\<lambda>r. argRefAt r \<noteq> None) (suffixes s)"

definition ContainsArgRef :: "string \<Rightarrow> bool" where
  "ContainsArgRef s \<longleftrightarrow> list_ex (\<lambda>r. has_prefix r ''${{'') (suffixes s) \<and> argRef s"

definition IsWholeArgRef :: "string \<Rightarrow> bool" where
  "IsWholeArgRef s \<longleftrightarrow> (case argRefAt s of None \<Rightarrow> False | Some (nm, rest) \<Rightarrow> rest = [])"

definition kitPlaceholderAt :: "string \<Rightarrow> bool" where
  "kitPlaceholderAt s \<longleftrightarrow>
     has_prefix s ''${{'' \<and>
     (let s1 = dropWhile isSpaceByte (drop 3 s);
          ends = (\<lambda>r. r = [] \<or> \<not> isIdentChar (hd r))
      in has_prefix s1 ''kit.args'' \<and> ends (drop 8 s1) \<or> has_prefix s1 ''kit.env'' \<and> ends (drop 7 s1))"

definition ContainsKitPlaceholder :: "string \<Rightarrow> bool" where
  "ContainsKitPlaceholder s \<longleftrightarrow> list_ex kitPlaceholderAt (suffixes s)"

section \<open>Resolving values\<close>

datatype arg_error =
    ArgUndeclared string
  | ArgRequired string
  | ArgNotInEnum string string
  | ArgBadPattern string string
  | ArgNoMatch string string
  | ArgBaked string
  | ArgEmbedded string string
  | ArgNotLiteral string
  | ArgExportsDiffer string

text \<open>\<open>fullMatch p v\<close> is \<open>regexp.Compile("^(?:" + p + ")$")\<close> with \<open>MatchString(v)\<close>.\<close>

type_synonym matcher = "string \<Rightarrow> string \<Rightarrow> string + bool"

definition checkArgValue :: "matcher \<Rightarrow> string \<Rightarrow> arg \<Rightarrow> string \<Rightarrow> arg_error option" where
  "checkArgValue fullMatch nm decl v =
     (if argEnum decl \<noteq> [] then (if v \<in> set (argEnum decl) then None else Some (ArgNotInEnum nm v))
      else if argPattern decl \<noteq> [] then
        (case fullMatch (argPattern decl) v of
           Inl e \<Rightarrow> Some (ArgBadPattern nm e)
         | Inr ok \<Rightarrow> if ok then None else Some (ArgNoMatch nm v))
      else None)"

fun undeclaredLoop :: "(string \<times> arg) list \<Rightarrow> (string \<times> string) list \<Rightarrow> arg_error option" where
  "undeclaredLoop decls [] = None"
| "undeclaredLoop decls ((nm, v) # supplied) =
     (if map_of decls nm = None then Some (ArgUndeclared nm) else undeclaredLoop decls supplied)"

fun resolveLoop ::
  "matcher \<Rightarrow> (string \<times> string) list \<Rightarrow> (string \<times> arg) list \<Rightarrow> arg_error + (string \<times> string) list" where
  "resolveLoop fullMatch supplied [] = Inr []"
| "resolveLoop fullMatch supplied ((nm, decl) # decls) =
     (let add = (\<lambda>v. case checkArgValue fullMatch nm decl v of
                       Some e \<Rightarrow> Inl e
                     | None \<Rightarrow> rbind (resolveLoop fullMatch supplied decls) (\<lambda>vs. Inr ((nm, v) # vs)))
      in case map_of supplied nm of
           Some v \<Rightarrow> add v
         | None \<Rightarrow>
             if argRequired decl then Inl (ArgRequired nm)
             else (case argDefault decl of
                     None \<Rightarrow> resolveLoop fullMatch supplied decls
                   | Some v \<Rightarrow> add v))"

definition ResolveArgs ::
  "matcher \<Rightarrow> (string \<times> arg) list \<Rightarrow> (string \<times> string) list \<Rightarrow> arg_error + (string \<times> string) list" where
  "ResolveArgs fullMatch decls supplied =
     (case undeclaredLoop decls supplied of
        Some e \<Rightarrow> Inl e
      | None \<Rightarrow> resolveLoop fullMatch supplied decls)"

fun separateLoop ::
  "(string \<times> arg) list \<Rightarrow> (string \<times> string) list
   \<Rightarrow> arg_error + (string \<times> string) list \<times> (string \<times> string) list" where
  "separateLoop decls [] = Inr ([], [])"
| "separateLoop decls ((nm, v) # supplied) =
     (case map_of decls nm of
        None \<Rightarrow> Inl (ArgUndeclared nm)
      | Some decl \<Rightarrow>
          if argBuildArg decl \<noteq> [] then Inl (ArgBaked nm)
          else if IsWholeArgRef v then rbind (separateLoop decls supplied) (\<lambda>(lit, def). Inr (lit, (nm, v) # def))
          else if ContainsArgRef v then Inl (ArgEmbedded nm v)
          else rbind (separateLoop decls supplied) (\<lambda>(lit, def). Inr ((nm, v) # lit, def)))"

definition KitArgValues ::
  "matcher \<Rightarrow> (string \<times> arg) list \<Rightarrow> (string \<times> string) list \<Rightarrow> arg_error + (string \<times> string) list" where
  "KitArgValues fullMatch decls supplied =
     rbind (separateLoop decls supplied) (\<lambda>(literal, deferred).
       let create = filter (\<lambda>(nm, decl). argBuildArg decl = []) decls;
           remaining = filter (\<lambda>(nm, decl). map_of deferred nm = None) create
       in rbind (ResolveArgs fullMatch remaining literal) (\<lambda>vals. Inr (deferred @ vals)))"

section \<open>Exports\<close>

fun argExportsLoop ::
  "(string \<times> string) list \<Rightarrow> (string \<times> string) list \<Rightarrow> (string \<times> arg) list
   \<Rightarrow> arg_error + (string \<times> string) list" where
  "argExportsLoop vals env [] = Inr env"
| "argExportsLoop vals env ((nm, decl) # decls) =
     (if argBuildArg decl \<noteq> [] \<or> argEnv decl = [] then argExportsLoop vals env decls
      else (case map_of vals nm of
              None \<Rightarrow> argExportsLoop vals env decls
            | Some v \<Rightarrow>
                if map_of env (argEnv decl) \<noteq> None \<and> map_of env (argEnv decl) \<noteq> Some v
                then Inl (ArgExportsDiffer (argEnv decl))
                else argExportsLoop vals (AList.update (argEnv decl) v env) decls))"

definition argExports ::
  "(string \<times> arg) list \<Rightarrow> (string \<times> string) list \<Rightarrow> arg_error + (string \<times> string) list" where
  "argExports decls vals = argExportsLoop vals [] decls"

record binding =
  bn_value :: string
  bn_owner :: string

datatype export_conflict = ExportConflict string string string

text \<open>One kit's exports folded into the bindings and the result so far; \<open>owner\<close> is the
  reference of the kit.\<close>

fun combineLoop ::
  "string \<Rightarrow> (string \<times> binding) list \<Rightarrow> (string \<times> string) list \<Rightarrow> (string \<times> string) list
   \<Rightarrow> export_conflict + (string \<times> binding) list \<times> (string \<times> string) list" where
  "combineLoop owner bound out [] = Inr (bound, out)"
| "combineLoop owner bound out ((nm, v) # env) =
     (case map_of bound nm of
        Some held \<Rightarrow>
          if bn_value held \<noteq> v then Inl (ExportConflict (bn_owner held) owner nm)
          else combineLoop owner bound out env
      | None \<Rightarrow>
          combineLoop owner (AList.update nm \<lparr>bn_value = v, bn_owner = owner\<rparr> bound)
            (AList.update nm v out) env)"

fun combineKits ::
  "(string \<times> binding) list \<Rightarrow> (string \<times> string) list \<Rightarrow> (string \<times> (string \<times> string) list) list
   \<Rightarrow> export_conflict + (string \<times> string) list" where
  "combineKits bound out [] = Inr out"
| "combineKits bound out ((owner, env) # rest) =
     rbind (combineLoop owner bound out env) (\<lambda>(bound', out'). combineKits bound' out' rest)"

definition combineExports ::
  "string list \<Rightarrow> (string \<times> string) list list \<Rightarrow> export_conflict + (string \<times> string) list" where
  "combineExports references exports = combineKits [] [] (zip references exports)"

end
