(* ===== verification/Selection.thy ===== *)
theory Selection
  imports Kit_Args Capabilities
begin

text \<open>
  Environment references (\<open>spec/environment.go\<close>) and the selection of capability entries by a
  runtime (\<open>SelectCapabilities\<close> of \<open>spec/groups.go\<close>).

  A config is its JSON document, so the round trip that normalizes the containers of a config
  is the identity on the model's configs, and so is \<open>cloneSelectionCapability\<close>. Two functions the
  selection calls are parameters: \<open>declError\<close> is \<open>Validate\<close> on a descriptor marked
  \<open>declarationsOnly\<close>, and \<open>encodeItem\<close> is \<open>json.Marshal\<close> on an entry.
\<close>

section \<open>Environment references\<close>

definition envOpenerAt :: "string \<Rightarrow> bool" where
  "envOpenerAt s \<longleftrightarrow>
     has_prefix s ''${{'' \<and>
     (let s1 = dropWhile isSpaceByte (drop 3 s)
      in has_prefix s1 ''kit.env'' \<and> (drop 7 s1 = [] \<or> \<not> isIdentChar (hd (drop 7 s1))))"

definition ContainsEnvRef :: "string \<Rightarrow> bool" where
  "ContainsEnvRef s \<longleftrightarrow> list_ex envOpenerAt (suffixes s)"

text \<open>Whether a value holds a reference in a string, and whether it holds one in a key.\<close>

fun envRefs :: "json \<Rightarrow> bool \<times> bool" where
  "envRefs (JStr s) = (ContainsEnvRef s, False)"
| "envRefs (JArr xs) = (list_ex (\<lambda>x. fst (envRefs x)) xs, list_ex (\<lambda>x. snd (envRefs x)) xs)"
| "envRefs (JObj kvs) =
     (list_ex (\<lambda>kv. fst (envRefs (snd kv))) kvs,
      list_ex (\<lambda>kv. ContainsEnvRef (fst kv) \<or> snd (envRefs (snd kv))) kvs)"
| "envRefs _ = (False, False)"

definition environmentReferences :: "config option \<Rightarrow> bool \<times> bool" where
  "environmentReferences c =
     (case c of
        None \<Rightarrow> (False, False)
      | Some kvs \<Rightarrow> if marshal (JObj kvs) = None then (False, False) else envRefs (JObj kvs))"

definition HasEnvReferences :: "capability list \<Rightarrow> bool" where
  "HasEnvReferences items \<longleftrightarrow>
     list_ex (\<lambda>c. fst (environmentReferences (capConfig c)) \<or> snd (environmentReferences (capConfig c)))
       (DeclaredCapabilities items)"

section \<open>Selection\<close>

record selection_record =
  sr_Path :: string
  sr_Name :: string
  sr_Source :: "capability_source option"
  sr_Members :: "string list"
  sr_MemberSources :: "capability_source list"
  sr_Rejected :: "string list"

record selection =
  sl_Capabilities :: "capability list"
  sl_Selected :: "selection_record list"
  sl_Skipped :: "selection_record list"

datatype select_error =
    NoSelector
  | NoSelectDescriptor
  | InvalidDeclarations string
  | ItemNotEncoded nat string
  | UnresolvedArguments nat
  | UnexpandedEnvironment
  | RequiredRejected "(string \<times> string \<times> capability_source) list"

definition emptySelection :: selection where
  "emptySelection = \<lparr>sl_Capabilities = [], sl_Selected = [], sl_Skipped = []\<rparr>"

definition itemPath :: "nat \<Rightarrow> string" where
  "itemPath i = ''capabilities['' @ natStr i @ '']''"

definition memberPath :: "capability \<Rightarrow> string \<Rightarrow> nat \<Rightarrow> string" where
  "memberPath item at j =
     (if capGroup item \<noteq> None then at @ ''.group.capabilities['' @ natStr j @ '']'' else at)"

definition itemMembers :: "capability \<Rightarrow> capability list" where
  "itemMembers item = (case capGroup item of None \<Rightarrow> [item] | Some g \<Rightarrow> groupCapabilities g)"

definition itemOptional :: "capability \<Rightarrow> bool" where
  "itemOptional item = (case capGroup item of None \<Rightarrow> capOptional item | Some g \<Rightarrow> groupOptional g)"

definition itemName :: "capability \<Rightarrow> string" where
  "itemName item = (case capGroup item of None \<Rightarrow> capName item | Some g \<Rightarrow> groupName g)"

definition memberOrigin :: "string \<Rightarrow> capability \<Rightarrow> capability_source" where
  "memberOrigin p c = (case capSource c of None \<Rightarrow> \<lparr>srcKit = [], srcPath = p\<rparr> | Some s \<Rightarrow> s)"

text \<open>The loop over the members of one item: the record, the entries to select if none is
  rejected, and the errors of a required item.\<close>

fun memberLoop ::
  "(capability \<Rightarrow> bool) \<Rightarrow> capability \<Rightarrow> string \<Rightarrow> nat \<Rightarrow> capability list
   \<Rightarrow> selection_record \<times> capability list \<times> (string \<times> string \<times> capability_source) list
   \<Rightarrow> selection_record \<times> capability list \<times> (string \<times> string \<times> capability_source) list" where
  "memberLoop sel item at j [] st = st"
| "memberLoop sel item at j (c # cs) (rec, chosen, errs) =
     (let p = memberPath item at j; origin = memberOrigin p c;
          rec1 = rec\<lparr>sr_Members := sr_Members rec @ [p], sr_MemberSources := sr_MemberSources rec @ [origin]\<rparr>;
          rec2 = (if sel c then rec1 else rec1\<lparr>sr_Rejected := sr_Rejected rec1 @ [p]\<rparr>);
          errs' = (if \<not> sel c \<and> \<not> itemOptional item then errs @ [(p, at, origin)] else errs);
          c' = (if capSource c = None then withSource (Some \<lparr>srcKit = [], srcPath = p\<rparr>) c else c)
      in memberLoop sel item at (j + 1) cs (rec2, chosen @ [c'], errs'))"

fun selectLoop ::
  "(capability \<Rightarrow> bool) \<Rightarrow> nat \<Rightarrow> capability list \<Rightarrow> selection \<times> (string \<times> string \<times> capability_source) list
   \<Rightarrow> selection \<times> (string \<times> string \<times> capability_source) list" where
  "selectLoop sel i [] st = st"
| "selectLoop sel i (item # items) (result, errs) =
     (let at = itemPath i;
          rec0 = \<lparr>sr_Path = at, sr_Name = itemName item, sr_Source = capSource item, sr_Members = [],
                  sr_MemberSources = [], sr_Rejected = []\<rparr>;
          (rec, chosen, errs') = memberLoop sel item at 0 (itemMembers item) (rec0, [], errs);
          result' = (if sr_Rejected rec \<noteq> []
                     then result\<lparr>sl_Skipped := sl_Skipped result @ [rec]\<rparr>
                     else result\<lparr>sl_Selected := sl_Selected result @ [rec],
                                 sl_Capabilities := sl_Capabilities result @ chosen\<rparr>)
      in selectLoop sel (i + 1) items (result', errs'))"

fun encodableLoop :: "(capability \<Rightarrow> string + string) \<Rightarrow> nat \<Rightarrow> capability list \<Rightarrow> select_error option" where
  "encodableLoop encodeItem i [] = None"
| "encodableLoop encodeItem i (item # items) =
     (case encodeItem item of
        Inl e \<Rightarrow> Some (ItemNotEncoded i e)
      | Inr raw \<Rightarrow> if argRef raw then Some (UnresolvedArguments i) else encodableLoop encodeItem (i + 1) items)"

definition SelectCapabilities ::
  "(descriptor \<Rightarrow> string option) \<Rightarrow> (capability \<Rightarrow> string + string) \<Rightarrow> descriptor option
   \<Rightarrow> (capability \<Rightarrow> bool) option \<Rightarrow> selection \<times> select_error option" where
  "SelectCapabilities declError encodeItem d selectCapability =
     (case selectCapability of
        None \<Rightarrow> (emptySelection, Some NoSelector)
      | Some sel \<Rightarrow>
          (case d of
             None \<Rightarrow> (emptySelection, Some NoSelectDescriptor)
           | Some x \<Rightarrow>
               (case declError (x\<lparr>declarationsOnly := True\<rparr>) of
                  Some e \<Rightarrow> (emptySelection, Some (InvalidDeclarations e))
                | None \<Rightarrow>
                    (case encodableLoop encodeItem 0 (Capabilities x) of
                       Some e \<Rightarrow> (emptySelection, Some e)
                     | None \<Rightarrow>
                         if HasEnvReferences (Capabilities x) then (emptySelection, Some UnexpandedEnvironment)
                         else (case selectLoop sel 0 (Capabilities x) (emptySelection, []) of
                                 (result, errs) \<Rightarrow>
                                   (result, if errs = [] then None else Some (RequiredRejected errs)))))))"

end
