(* ===== verification/Environment.thy ===== *)
theory Environment
  imports Selection
begin

text \<open>
  The substitution of the final container environment into capability configs
  (\<open>ExpandEnvironment\<close> of \<open>spec/environment.go\<close>).

  The environment is an association list with distinct keys, and only its lookups are used. The
  byte budget \<open>remaining\<close>, which the closures of the code share, is passed along. An object's
  entries are visited in the order of their keys and come out in that order. The JSON round trip
  of the whole descriptor is a pair of parameters, \<open>encode\<close> and \<open>decode\<close>.
\<close>

section \<open>References\<close>

definition NUL :: char where "NUL = char_of (0 :: nat)"

definition SizeErrorBytes :: int where "SizeErrorBytes = 512 * 1024"

text \<open>\<open>envRef\<close> at the start of a string: the name and what follows the match. The parts of the
  expression are over disjoint classes of bytes, so the greedy match is the only one.\<close>

definition envRefAt :: "string \<Rightarrow> (string \<times> string) option" where
  "envRefAt s =
     (if \<not> has_prefix s ''${{'' then None
      else let s1 = dropWhile isSpaceByte (drop 3 s) in
           if \<not> has_prefix s1 ''kit.env.'' then None
           else let s2 = drop 8 s1; nm = takeWhile isIdentChar s2; s3 = dropWhile isSpaceByte (dropWhile isIdentChar s2) in
                if nm = [] \<or> \<not> isIdentStart (hd nm) \<or> \<not> has_prefix s3 ''}}'' then None
                else Some (nm, drop 2 s3))"

text \<open>\<open>envOpener.FindStringIndex\<close>: the text before the first opener, and the rest from it on.\<close>

fun cutEnvOpener :: "string \<Rightarrow> (string \<times> string) option" where
  "cutEnvOpener [] = (if envOpenerAt [] then Some ([], []) else None)"
| "cutEnvOpener (c # s) =
     (if envOpenerAt (c # s) then Some ([], c # s)
      else map_option (\<lambda>(pre, rest). (c # pre, rest)) (cutEnvOpener s))"

lemma cutEnvOpener_append: "cutEnvOpener s = Some (pre, rest) \<Longrightarrow> s = pre @ rest \<and> envOpenerAt rest"
  by (induction s arbitrary: pre) (auto split: if_splits)

lemma dropWhile_length_le: "length (dropWhile P xs) \<le> length xs"
  by (induction xs) auto

lemma envRefAt_shorter: "envRefAt s = Some (nm, rest) \<Longrightarrow> length rest < length s"
proof -
  assume e: "envRefAt s = Some (nm, rest)"
  let ?s2 = "drop 8 (dropWhile isSpaceByte (drop 3 s))"
  from e have "has_prefix s ''${{''" and rest: "rest = drop 2 (dropWhile isSpaceByte (dropWhile isIdentChar ?s2))"
    by (auto simp: envRefAt_def Let_def split: if_splits)
  then have "3 \<le> length s" by (auto simp: has_prefix_iff)
  moreover have "length rest \<le> length s - 3"
    using dropWhile_length_le [of isSpaceByte "dropWhile isIdentChar ?s2"] dropWhile_length_le [of isIdentChar ?s2]
      dropWhile_length_le [of isSpaceByte "drop 3 s"] by (simp add: rest)
  ultimately show ?thesis by linarith
qed

section \<open>Strings\<close>

datatype expand_error =
    NoExpandDescriptor
  | InvalidOrOversized
  | InvalidEncoded
  | KeyReference string
  | ExpansionOverBudget string
  | MalformedReference string
  | NoSuchVariable string string
  | ForbiddenReplacement string string

definition appendText :: "string \<Rightarrow> string \<Rightarrow> string \<times> int \<Rightarrow> expand_error + string \<times> int" where
  "appendText at text st =
     (if int (length text) > snd st then Inl (ExpansionOverBudget at)
      else Inr (fst st @ text, snd st - int (length text)))"

function expandString ::
  "(string \<times> string) list \<Rightarrow> string \<Rightarrow> string \<Rightarrow> string \<times> int \<Rightarrow> expand_error + string \<times> int" where
  "expandString environment at v st =
     (case cutEnvOpener v of
        None \<Rightarrow> appendText at v st
      | Some (pre, rest) \<Rightarrow>
          (case envRefAt rest of
             None \<Rightarrow> Inl (MalformedReference at)
           | Some (nm, rest') \<Rightarrow>
               (case map_of environment nm of
                  None \<Rightarrow> Inl (NoSuchVariable at nm)
                | Some replacement \<Rightarrow>
                    if NUL \<in> set replacement \<or> ContainsKitPlaceholder replacement
                    then Inl (ForbiddenReplacement at nm)
                    else (case appendText at pre st of
                            Inl e \<Rightarrow> Inl e
                          | Inr st1 \<Rightarrow>
                              (case appendText at replacement st1 of
                                 Inl e \<Rightarrow> Inl e
                               | Inr st2 \<Rightarrow> expandString environment at rest' st2)))))"
  by pat_completeness auto
termination
  by (relation "measure (\<lambda>(_, _, v, _). length v)") (auto dest!: cutEnvOpener_append envRefAt_shorter)

declare expandString.simps [simp del]

section \<open>Configs\<close>

lemma size_list_insort: "size_list f (insort_key g x xs) = Suc (f x + size_list f xs)"
  by (induction xs) auto

lemma size_list_sort: "size_list f (sort_key g xs) = size_list f xs"
  by (induction xs) (simp_all add: size_list_insort)

function expandJson ::
    "(string \<times> string) list \<Rightarrow> string \<Rightarrow> json \<Rightarrow> int \<Rightarrow> expand_error + json \<times> int"
  and expandItems ::
    "(string \<times> string) list \<Rightarrow> string \<Rightarrow> nat \<Rightarrow> json list \<Rightarrow> int \<Rightarrow> expand_error + json list \<times> int"
  and expandPairs ::
    "(string \<times> string) list \<Rightarrow> string \<Rightarrow> (string \<times> json) list \<Rightarrow> int \<Rightarrow> expand_error + (string \<times> json) list \<times> int" where
  "expandJson environment at (JObj kvs) remaining =
     rbind (expandPairs environment at (sort_key fst kvs) remaining) (\<lambda>(kvs', r). Inr (JObj kvs', r))"
| "expandJson environment at (JArr xs) remaining =
     rbind (expandItems environment at 0 xs remaining) (\<lambda>(xs', r). Inr (JArr xs', r))"
| "expandJson environment at (JStr s) remaining =
     rbind (expandString environment at s ([], remaining)) (\<lambda>(s', r). Inr (JStr s', r))"
| "expandJson environment at JNull remaining = Inr (JNull, remaining)"
| "expandJson environment at (JBool b) remaining = Inr (JBool b, remaining)"
| "expandJson environment at (JNum n) remaining = Inr (JNum n, remaining)"
| "expandJson environment at JUnencodable remaining = Inr (JUnencodable, remaining)"
| "expandItems environment at i [] remaining = Inr ([], remaining)"
| "expandItems environment at i (x # xs) remaining =
     rbind (expandJson environment (at @ ''['' @ natStr i @ '']'') x remaining) (\<lambda>(x', r).
     rbind (expandItems environment at (i + 1) xs r) (\<lambda>(xs', r'). Inr (x' # xs', r')))"
| "expandPairs environment at [] remaining = Inr ([], remaining)"
| "expandPairs environment at ((k, x) # kvs) remaining =
     (if ContainsEnvRef k then Inl (KeyReference at)
      else rbind (expandJson environment (at @ ''.'' @ k) x remaining) (\<lambda>(x', r).
           rbind (expandPairs environment at kvs r) (\<lambda>(kvs', r'). Inr ((k, x') # kvs', r'))))"
  by pat_completeness auto
termination
  by (relation "measure (\<lambda>s. case s of Inl (_, _, j, _) \<Rightarrow> size j | Inr (Inl (_, _, _, xs, _)) \<Rightarrow> size_list size xs
        | Inr (Inr (_, _, kvs, _)) \<Rightarrow> size_list (size_prod (\<lambda>_. 0) size) kvs)") (auto simp: size_list_sort)

section \<open>Descriptors\<close>

function expandCapabilities ::
  "(string \<times> string) list \<Rightarrow> string \<Rightarrow> nat \<Rightarrow> capability list \<Rightarrow> int \<Rightarrow> expand_error + capability list \<times> int" where
  "expandCapabilities environment at i [] remaining = Inr ([], remaining)"
| "expandCapabilities environment at i (item # items) remaining =
     (let field = at @ ''['' @ natStr i @ '']'' in
      rbind (case capGroup item of
               Some g \<Rightarrow>
                 rbind (expandCapabilities environment (field @ ''.group.capabilities'') 0 (groupCapabilities g) remaining)
                   (\<lambda>(members, r). Inr (withGroup (Some (CapabilityGroup (groupName g) (groupDescription g)
                      (groupOptional g) members)) item, r))
             | None \<Rightarrow>
                 (case capConfig item of
                    None \<Rightarrow> Inr (item, remaining)
                  | Some config \<Rightarrow>
                      rbind (expandPairs environment (field @ ''.config'') (sort_key fst config) remaining)
                        (\<lambda>(config', r). Inr (withConfig (Some config') item, r))))
        (\<lambda>(item', r).
           rbind (expandCapabilities environment at (i + 1) items r) (\<lambda>(items', r'). Inr (item' # items', r'))))"
  by pat_completeness auto
termination
  by (relation "measure (\<lambda>(_, _, _, items, _). size_list size items)") (auto dest: group_smaller)

definition ExpandEnvironment ::
  "(descriptor \<Rightarrow> string + string) \<Rightarrow> (string \<Rightarrow> string + descriptor) \<Rightarrow> descriptor option \<Rightarrow> (string \<times> string) list
   \<Rightarrow> expand_error + descriptor" where
  "ExpandEnvironment encode decode d environment =
     (case d of
        None \<Rightarrow> Inl NoExpandDescriptor
      | Some x \<Rightarrow>
          (case encode x of
             Inl e \<Rightarrow> Inl InvalidOrOversized
           | Inr raw \<Rightarrow>
               if int (length raw) > SizeErrorBytes then Inl InvalidOrOversized
               else (case decode raw of
                       Inl e \<Rightarrow> Inl InvalidEncoded
                     | Inr out \<Rightarrow>
                         rbind (expandCapabilities environment ''capabilities'' 0 (Capabilities out) SizeErrorBytes)
                           (\<lambda>(items, _). Inr (out\<lparr>Capabilities := items\<rparr>)))))"

end
