(* ===== verification/Fetch_Kits.thy ===== *)
theory Fetch_Kits
  imports Registry Environment
begin

text \<open>
  Resolving a set of fetched kits into one runtime composition (\<open>fetch/fetch.go\<close>): argument
  resolution, expansion, ordering, selection and the merge of the declarations.

  The descriptor functions of package \<open>spec\<close> that are not part of the model are fields of
  \<open>kit_lib\<close>, next to the registry's libraries: \<open>ExpandCreateArgs\<close>, \<open>Compose\<close>, the validators
  of the expanded, the selected and the merged descriptor, and the JSON encoders. An error of a validator is its text and the path of the field it names, if any.
  The units a set is resolved from are numbered by their place in the list.
\<close>

section \<open>Libraries, options and results\<close>

record kit_lib =
  registryLib :: registry_lib
  fullMatchOf :: matcher
  expandCreateArgs :: "string \<Rightarrow> (string \<times> arg) list \<Rightarrow> (string \<times> string) list \<Rightarrow> string + string"
  encodeDescriptor :: "descriptor \<Rightarrow> string + string"
  expandedError :: "string \<Rightarrow> descriptor \<Rightarrow> (string \<times> string option) option"
  declarationError :: "descriptor \<Rightarrow> string option"
  encodeCapability :: "capability \<Rightarrow> string + string"
  composeSpec :: "(string \<times> descriptor) list \<Rightarrow> string + descriptor"
  effectiveCheck :: "string \<Rightarrow> descriptor \<Rightarrow> string + string list"

datatype kits_error =
    EmptySet
  | FetchFailed registry_error
  | KitHasNoDescriptor string
  | PublishedInvalid string string
  | ArgsInvalid string arg_error
  | ArgNotALiteral string string
  | ExportsConflict export_conflict
  | ExpandFailed string string
  | EnvironmentNotExpanded string expand_error
  | ExpandedNotDecoded string string
  | ExpandedNotEncoded string
  | InvalidAfterEnvironment string string
  | ExpandedInvalid string string
  | ImageNotPinned string registry_error
  | SetUnresolved resolve_error
  | SelectionFailed string select_error
  | ComposeFailed string
  | ComposeFailedAfterEnvironment
  | MergedNotEncoded string
  | MergedInvalid string
  | MergedInvalidAfterEnvironment

record request =
  rq_Reference :: string
  rq_Args :: "(string \<times> string) list"

record kit_selection =
  ks_Reference :: string
  ks_PublishedDescriptor :: "descriptor option"
  ks_PublishedBytes :: string
  ks_Selection :: selection

record resolved =
  rs_Selections :: "kit_selection list"
  rs_Descriptor :: descriptor
  rs_Kits :: "kit_unit list"
  rs_ContainerEnv :: "(string \<times> string) list"
  rs_Warnings :: "string list"

record resolve_options =
  ro_selector :: "(capability \<Rightarrow> bool) option"
  ro_environment :: "(string \<times> string) list"
  ro_envOverrides :: "(string \<times> string) list"

type_synonym resolve_option = "resolve_options \<Rightarrow> resolve_options"

definition WithCapabilitySelector :: "(capability \<Rightarrow> bool) option \<Rightarrow> resolve_option" where
  "WithCapabilitySelector sel opts = opts\<lparr>ro_selector := sel\<rparr>"

definition WithEnvironment :: "(string \<times> string) list \<Rightarrow> (string \<times> string) list \<Rightarrow> resolve_option" where
  "WithEnvironment defaults overrides opts =
     opts\<lparr>ro_environment := defaults, ro_envOverrides := overrides\<rparr>"

definition applyOptions :: "resolve_option option list \<Rightarrow> resolve_options" where
  "applyOptions opts =
     foldl (\<lambda>acc opt. case opt of None \<Rightarrow> acc | Some f \<Rightarrow> f acc)
       \<lparr>ro_selector = Some (Supported KnownCapabilities), ro_environment = [], ro_envOverrides = []\<rparr> opts"

text \<open>\<open>maps.Copy\<close>: the entries of the second map replace those of the first.\<close>

definition mapCopy :: "(string \<times> string) list \<Rightarrow> (string \<times> string) list \<Rightarrow> (string \<times> string) list" where
  "mapCopy dst src = foldl (\<lambda>m kv. AList.update (fst kv) (snd kv) m) dst src"

definition refOf :: "published_kit option \<Rightarrow> string" where
  "refOf k =
     (case k of
        None \<Rightarrow> ''(none)''
      | Some x \<Rightarrow> if pk_Reference x = [] then ''(none)'' else pk_Reference x)"

section \<open>One kit\<close>

fun literalLoop :: "string \<Rightarrow> (string \<times> string) list \<Rightarrow> kits_error option" where
  "literalLoop reference [] = None"
| "literalLoop reference ((nm, v) # vals) =
     (if ContainsKitPlaceholder v then Some (ArgNotALiteral reference nm) else literalLoop reference vals)"

definition resolveKitArgs ::
  "kit_lib \<Rightarrow> published_kit option \<Rightarrow> (string \<times> string) list
   \<Rightarrow> kits_error + (string \<times> string) list \<times> (string \<times> string) list" where
  "resolveKitArgs lib kit supplied =
     (case kit of
        None \<Rightarrow> Inl (KitHasNoDescriptor (refOf kit))
      | Some k \<Rightarrow>
          (case pk_Descriptor k of
             None \<Rightarrow> Inl (KitHasNoDescriptor (refOf kit))
           | Some d \<Rightarrow>
               (case publishedError (registryLib lib) (pk_Raw k) d of
                  Some e \<Rightarrow> Inl (PublishedInvalid (pk_Reference k) e)
                | None \<Rightarrow>
                    (case KitArgValues (fullMatchOf lib) (Args d) supplied of
                       Inl e \<Rightarrow> Inl (ArgsInvalid (pk_Reference k) e)
                     | Inr vals \<Rightarrow>
                         (case literalLoop (pk_Reference k) vals of
                            Some e \<Rightarrow> Inl e
                          | None \<Rightarrow>
                              (case argExports (Args d) vals of
                                 Inl e \<Rightarrow> Inl (ArgsInvalid (pk_Reference k) e)
                               | Inr env \<Rightarrow> Inr (vals, env)))))))"

text \<open>\<open>expandedCapabilityPath.FindString\<close>: the declaration's indices at the start of a path,
  and nothing else of it.\<close>

definition indexedAt :: "string \<Rightarrow> string \<Rightarrow> (string \<times> string) option" where
  "indexedAt nm s =
     (let s1 = drop (length nm + 1) s; digits = takeWhile isDigit s1; rest = dropWhile isDigit s1 in
      if has_prefix s (nm @ ''['') \<and> digits \<noteq> [] \<and> has_prefix rest '']''
      then Some (nm @ ''['' @ digits @ '']'', drop 1 rest) else None)"

definition expandedCapabilityPath :: "string \<Rightarrow> string" where
  "expandedCapabilityPath p =
     (case indexedAt ''capabilities'' p of
        None \<Rightarrow> []
      | Some (item, rest) \<Rightarrow>
          (case indexedAt ''.group.capabilities'' rest of
             None \<Rightarrow> item
           | Some (member, _) \<Rightarrow> item @ member))"

record expanded_kit =
  ek_descriptor :: descriptor
  ek_raw :: string
  ek_args :: "(string \<times> string) list"
  ek_env :: "(string \<times> string) list"
  ek_hadEnvironment :: bool

definition expandResolvedKit ::
  "kit_lib \<Rightarrow> published_kit \<Rightarrow> descriptor \<Rightarrow> (string \<times> string) list \<Rightarrow> (string \<times> string) list
   \<Rightarrow> (string \<times> string) list \<Rightarrow> kits_error + expanded_kit" where
  "expandResolvedKit lib k published vals exports environment =
     (let r = pk_Reference k in
      case expandCreateArgs lib (pk_Raw k) (Args published) vals of
        Inl e \<Rightarrow> Inl (ExpandFailed r e)
      | Inr raw0 \<Rightarrow>
          (case decodeSpec (registryLib lib) raw0 of
             Inl e \<Rightarrow> Inl (ExpandedNotDecoded r e)
           | Inr d \<Rightarrow>
               (let hadEnvironment = HasEnvReferences (Capabilities d);
                    substituted =
                      (if hadEnvironment
                       then (case ExpandEnvironment (encodeDescriptor lib) (decodeSpec (registryLib lib)) (Some d) environment of
                               Inl e \<Rightarrow> Inl (EnvironmentNotExpanded r e)
                             | Inr d' \<Rightarrow>
                                 (case encodeDescriptor lib d' of
                                    Inl e \<Rightarrow> Inl (ExpandedNotEncoded r)
                                  | Inr raw \<Rightarrow> Inr (d', raw)))
                       else Inr (d, raw0))
                in rbind substituted (\<lambda>(d', raw).
                     case expandedError lib raw d' of
                       Some (e, field) \<Rightarrow>
                         if hadEnvironment
                         then Inl (InvalidAfterEnvironment r
                                (case field of None \<Rightarrow> [] | Some p \<Rightarrow> expandedCapabilityPath p))
                         else Inl (ExpandedInvalid r e)
                     | None \<Rightarrow>
                         Inr \<lparr>ek_descriptor = d'\<lparr>Args := []\<rparr>, ek_raw = raw, ek_args = vals, ek_env = exports,
                              ek_hadEnvironment = hadEnvironment\<rparr>))))"

definition expandKit ::
  "kit_lib \<Rightarrow> published_kit option \<Rightarrow> (string \<times> string) list \<Rightarrow> kits_error + expanded_kit" where
  "expandKit lib kit supplied =
     rbind (resolveKitArgs lib kit supplied) (\<lambda>(vals, env).
       expandResolvedKit lib (the kit) (the (pk_Descriptor (the kit))) vals env env)"

section \<open>Units\<close>

definition unitOf :: "registry_lib \<Rightarrow> published_kit option \<Rightarrow> kits_error + kit_unit" where
  "unitOf lib kit =
     (case kit of
        None \<Rightarrow> Inl (KitHasNoDescriptor (refOf kit))
      | Some k \<Rightarrow>
          (case pk_Descriptor k of
             None \<Rightarrow> Inl (KitHasNoDescriptor (refOf kit))
           | Some d \<Rightarrow>
               (let pinned = (if pk_Image k \<noteq> [] then Inr (pk_Image k) else pinnedImage lib (pk_Reference k) (pk_Digest k)) in
                case pinned of
                  Inl e \<Rightarrow> Inl (ImageNotPinned (pk_Reference k) e)
                | Inr img \<Rightarrow>
                    Inr \<lparr>Reference = pk_Reference k, Digest = pk_Digest k, Image = img,
                         UnitDescriptor = Some (d\<lparr>VersionOf := EffectiveProvideVersion (pk_Reference k) (Some d)\<rparr>),
                         UnitArgs = [], UnitEnv = []\<rparr>)))"

fun Units :: "registry_lib \<Rightarrow> published_kit option list \<Rightarrow> kits_error + kit_unit list" where
  "Units lib [] = Inr []"
| "Units lib (k # kits) =
     rbind (unitOf lib k) (\<lambda>u. rbind (Units lib kits) (\<lambda>us. Inr (u # us)))"

definition emptyUnit :: kit_unit where
  "emptyUnit = \<lparr>Reference = [], Digest = [], Image = [], UnitDescriptor = None, UnitArgs = [], UnitEnv = []\<rparr>"

definition heapOf :: "kit_unit list \<Rightarrow> unit_heap" where
  "heapOf us = (\<lambda>i. if i < length us then us ! i else emptyUnit)"

section \<open>Sources of the entries\<close>

function copyItems :: "string \<Rightarrow> string \<Rightarrow> nat \<Rightarrow> capability list \<Rightarrow> capability list" where
  "copyItems reference prefix i [] = []"
| "copyItems reference prefix i (c # items) =
     (let path = prefix @ ''['' @ natStr i @ '']'';
          source = (case capSource c of None \<Rightarrow> \<lparr>srcKit = [], srcPath = path\<rparr> | Some s \<Rightarrow> s);
          source' = (if srcKit source = [] then source\<lparr>srcKit := reference\<rparr> else source);
          group = (case capGroup c of
                     None \<Rightarrow> None
                   | Some g \<Rightarrow> Some (CapabilityGroup (groupName g) (groupDescription g) (groupOptional g)
                                 (copyItems reference (path @ ''.group.capabilities'') 0 (groupCapabilities g))))
      in withGroup group (withSource (Some source') c) # copyItems reference prefix (i + 1) items)"
  by pat_completeness auto
termination
  by (relation "measure (\<lambda>(_, _, _, items). size_list size items)") (auto dest: group_smaller)

definition withSelectionSources :: "descriptor \<Rightarrow> string \<Rightarrow> descriptor" where
  "withSelectionSources d reference =
     d\<lparr>Capabilities := copyItems reference ''capabilities'' 0 (Capabilities d)\<rparr>"

section \<open>Merging a set\<close>

fun resolveAll ::
  "kit_lib \<Rightarrow> (published_kit option \<times> (string \<times> string) list) list
   \<Rightarrow> kits_error + ((string \<times> string) list \<times> (string \<times> string) list) list" where
  "resolveAll lib [] = Inr []"
| "resolveAll lib ((k, supplied) # rest) =
     rbind (resolveKitArgs lib k supplied) (\<lambda>ve. rbind (resolveAll lib rest) (\<lambda>ves. Inr (ve # ves)))"

fun prepareAll ::
  "kit_lib \<Rightarrow> (string \<times> string) list
   \<Rightarrow> (published_kit \<times> (string \<times> string) list \<times> (string \<times> string) list) list
   \<Rightarrow> kits_error + (published_kit \<times> bool) list" where
  "prepareAll lib environment [] = Inr []"
| "prepareAll lib environment ((k, vals, exports) # rest) =
     rbind (expandResolvedKit lib k (the (pk_Descriptor k)) vals exports environment) (\<lambda>x.
     rbind (prepareAll lib environment rest) (\<lambda>ks.
       Inr ((k\<lparr>pk_Descriptor := Some (ek_descriptor x)\<rparr>, ek_hadEnvironment x) # ks)))"

text \<open>The loop over the ordered units. A reference two kits share is read by the last of them.\<close>

fun selectKits ::
  "kit_lib \<Rightarrow> (capability \<Rightarrow> bool) option \<Rightarrow> (string \<rightharpoonup> published_kit) \<Rightarrow> kit_unit list
   \<Rightarrow> kits_error + (kit_selection \<times> kit_unit) list" where
  "selectKits lib selector published [] = Inr []"
| "selectKits lib selector published (u # us) =
     (let d = the (UnitDescriptor u); p = the (published (Reference u)) in
      case SelectCapabilities (declarationError lib) (encodeCapability lib)
             (Some (withSelectionSources d (Reference u))) selector of
        (selected, Some e) \<Rightarrow> Inl (SelectionFailed (Reference u) e)
      | (selected, None) \<Rightarrow>
          rbind (selectKits lib selector published us) (\<lambda>rest.
            Inr ((\<lparr>ks_Reference = Reference u, ks_PublishedDescriptor = pk_Descriptor p,
                   ks_PublishedBytes = pk_Raw p, ks_Selection = selected\<rparr>,
                  u\<lparr>UnitDescriptor := Some (d\<lparr>Capabilities := sl_Capabilities selected\<rparr>)\<rparr>) # rest)))"

definition composeKits ::
  "kit_lib \<Rightarrow> bool \<Rightarrow> (string \<times> string) list \<Rightarrow> (kit_selection \<times> kit_unit) list \<Rightarrow> kits_error + resolved" where
  "composeKits lib hadEnvironment env selected =
     (case composeSpec lib (map (\<lambda>su. (Reference (snd su), the (UnitDescriptor (snd su)))) selected) of
        Inl e \<Rightarrow> Inl (if hadEnvironment then ComposeFailedAfterEnvironment else ComposeFailed e)
      | Inr merged \<Rightarrow>
          (case encodeDescriptor lib merged of
             Inl e \<Rightarrow> Inl (MergedNotEncoded e)
           | Inr raw \<Rightarrow>
               (case effectiveCheck lib raw merged of
                  Inl e \<Rightarrow> Inl (if hadEnvironment then MergedInvalidAfterEnvironment else MergedInvalid e)
                | Inr warnings \<Rightarrow>
                    Inr \<lparr>rs_Selections = map fst selected, rs_Descriptor = merged, rs_Kits = map snd selected,
                         rs_ContainerEnv = env, rs_Warnings = warnings\<rparr>)))"

definition mergeKits ::
  "kit_lib \<Rightarrow> published_kit option list \<Rightarrow> (string \<times> string) list list \<Rightarrow> bool \<Rightarrow> resolve_option option list
   \<Rightarrow> kits_error + resolved" where
  "mergeKits lib kits supplied partial opts =
     (let options = applyOptions opts in
      rbind (resolveAll lib (zip kits supplied)) (\<lambda>ves.
      let ks = map the kits; vals = map fst ves; exports = map snd ves in
      (case combineExports (map pk_Reference ks) exports of
         Inl e \<Rightarrow> Inl (ExportsConflict e)
       | Inr env \<Rightarrow>
           (let environment = mapCopy (mapCopy (mapCopy [] (ro_environment options)) env) (ro_envOverrides options) in
            rbind (prepareAll lib environment (zip ks (zip vals exports))) (\<lambda>prepared.
            rbind (Units (registryLib lib) (map (Some \<circ> fst) prepared)) (\<lambda>units.
            let units' = map (\<lambda>(u, v, x). u\<lparr>UnitArgs := v, UnitEnv := x\<rparr>) (zip units (zip vals exports)) in
            (case Dependencies (heapOf units') [0..<length units'] partial of
               Inl e \<Rightarrow> Inl (SetUnresolved e)
             | Inr resolution \<Rightarrow>
                 rbind (selectKits lib (ro_selector options) (map_of (rev (map (\<lambda>k. (pk_Reference k, k)) ks)))
                          (map (heapOf units') (Topological resolution))) (\<lambda>selected.
                   composeKits lib (list_ex snd prepared) env selected))))))))"

fun fetchAll :: "kit_lib \<Rightarrow> client \<Rightarrow> nat \<Rightarrow> request list \<Rightarrow> kits_error + published_kit option list" where
  "fetchAll lib c t [] = Inr []"
| "fetchAll lib c t (req # reqs) =
     (case Fetch (registryLib lib) c t (rq_Reference req) of
        Inl e \<Rightarrow> Inl (FetchFailed e)
      | Inr k \<Rightarrow> rbind (fetchAll lib c (t + 1) reqs) (\<lambda>ks. Inr (Some k # ks)))"

definition resolveRequests ::
  "kit_lib \<Rightarrow> client \<Rightarrow> nat \<Rightarrow> request list \<Rightarrow> bool \<Rightarrow> resolve_option option list \<Rightarrow> kits_error + resolved" where
  "resolveRequests lib c t reqs partial opts =
     (if reqs = [] then Inl EmptySet
      else rbind (fetchAll lib c t reqs) (\<lambda>kits. mergeKits lib kits (map rq_Args reqs) partial opts))"

definition ClientResolve ::
  "kit_lib \<Rightarrow> client \<Rightarrow> nat \<Rightarrow> request list \<Rightarrow> resolve_option option list \<Rightarrow> kits_error + resolved" where
  "ClientResolve lib c t reqs opts = resolveRequests lib c t reqs False opts"

definition ClientResolvePartial ::
  "kit_lib \<Rightarrow> client \<Rightarrow> nat \<Rightarrow> request list \<Rightarrow> resolve_option option list \<Rightarrow> kits_error + resolved" where
  "ClientResolvePartial lib c t reqs opts = resolveRequests lib c t reqs True opts"

end
