(* ===== verification/Fetch_Inventory_Facts.thy ===== *)
theory Fetch_Inventory_Facts
  imports Fetch_Inventory
begin

text \<open>
  What the inventory guarantees: the charges add up to totals within the limits, a replayed
  layer is charged and returned as reading it again would be, and every layer listed is that
  of a blob whose digest, size and diff ID have been verified.
\<close>

section \<open>The budget adds up\<close>

lemma componentsLoop_count:
  "componentsLoop n b s = n + length (filter (\<lambda>p. p \<noteq> []) (split_on CHR ''/'' s))
     - (if b \<and> hd (split_on CHR ''/'' s) \<noteq> [] then 1 else 0)"
proof (induction n b s rule: componentsLoop.induct)
  case (2 n b c cs)
  then show ?case
    by (cases "split_on CHR ''/'' cs") (auto split: if_splits)
qed simp

lemma pathComponents_split: "pathComponents s = length (filter (\<lambda>p. p \<noteq> []) (split_on CHR ''/'' s))"
  by (simp add: pathComponents_def componentsLoop_count)

definition entryBytes :: "inventory_entry \<Rightarrow> nat" where
  "entryBytes e = length (ie_name e) + length (ie_linkname e)"

definition entryComponents :: "inventory_entry \<Rightarrow> nat" where
  "entryComponents e = pathComponents (ie_name e) + pathComponents (ie_linkname e)"

definition solvent :: "inventory_budget \<Rightarrow> bool" where
  "solvent b \<longleftrightarrow> 0 \<le> layersLeft b \<and> 0 \<le> entriesLeft b \<and> 0 \<le> pathBytesLeft b \<and> 0 \<le> componentsLeft b"

lemma consume_eq:
  "solvent b \<Longrightarrow> consume b (header_of e) = Inr b' \<longleftrightarrow>
     1 \<le> entriesLeft b \<and> int (entryBytes e) \<le> pathBytesLeft b \<and> int (entryComponents e) \<le> componentsLeft b
     \<and> b' = b\<lparr>componentsLeft := componentsLeft b - int (entryComponents e), entriesLeft := entriesLeft b - 1,
               pathBytesLeft := pathBytesLeft b - int (entryBytes e)\<rparr>"
  by (auto simp: solvent_def consume_def header_of_def entryBytes_def entryComponents_def Let_def split: if_splits)

definition totalBytes :: "inventory_entry list \<Rightarrow> int" where
  "totalBytes es = sum_list (map (int \<circ> entryBytes) es)"

definition totalComponents :: "inventory_entry list \<Rightarrow> int" where
  "totalComponents es = sum_list (map (int \<circ> entryComponents) es)"

lemma totals_simps [simp]:
  "totalBytes [] = 0" "totalBytes (e # es) = int (entryBytes e) + totalBytes es"
  "totalComponents [] = 0" "totalComponents (e # es) = int (entryComponents e) + totalComponents es"
  "totalBytes (xs @ ys) = totalBytes xs + totalBytes ys"
  "totalComponents (xs @ ys) = totalComponents xs + totalComponents ys"
  by (simp_all add: totalBytes_def totalComponents_def)

lemma totals_nonneg: "0 \<le> totalBytes es" "0 \<le> totalComponents es"
  by (induction es) simp_all

text \<open>What charging a list of entries leaves.\<close>

definition charged :: "inventory_budget \<Rightarrow> inventory_entry list \<Rightarrow> inventory_budget" where
  "charged b es = b\<lparr>componentsLeft := componentsLeft b - totalComponents es,
     entriesLeft := entriesLeft b - int (length es), pathBytesLeft := pathBytesLeft b - totalBytes es\<rparr>"

definition affordable :: "inventory_budget \<Rightarrow> inventory_entry list \<Rightarrow> bool" where
  "affordable b es \<longleftrightarrow> int (length es) \<le> entriesLeft b \<and> totalBytes es \<le> pathBytesLeft b
     \<and> totalComponents es \<le> componentsLeft b"

lemma consumeAll_eq: "solvent b \<Longrightarrow> consumeAll b es = Inr b' \<longleftrightarrow> affordable b es \<and> b' = charged b es"
proof (induction es arbitrary: b)
  case Nil
  then show ?case by (auto simp: affordable_def charged_def solvent_def)
next
  case (Cons e es)
  define b1 where "b1 = b\<lparr>componentsLeft := componentsLeft b - int (entryComponents e),
    entriesLeft := entriesLeft b - 1, pathBytesLeft := pathBytesLeft b - int (entryBytes e)\<rparr>"
  let ?fits = "1 \<le> entriesLeft b \<and> int (entryBytes e) \<le> pathBytesLeft b \<and> int (entryComponents e) \<le> componentsLeft b"
  have s: "?fits \<Longrightarrow> solvent b1" using Cons.prems by (auto simp: solvent_def b1_def)
  have "consumeAll b (e # es) = Inr b' \<longleftrightarrow> ?fits \<and> consumeAll b1 es = Inr b'"
    unfolding consumeAll.simps rbind_Inr_iff consume_eq [OF Cons.prems] b1_def [symmetric] by blast
  also have "\<dots> \<longleftrightarrow> ?fits \<and> affordable b1 es \<and> b' = charged b1 es" using Cons.IH s by blast
  also have "\<dots> \<longleftrightarrow> affordable b (e # es) \<and> b' = charged b (e # es)"
    using totals_nonneg [of es] by (auto simp: affordable_def charged_def b1_def)
  finally show ?case .
qed

section \<open>Reading and replaying a layer\<close>

lemma header_entry [simp]: "header_of (entry_from hdr) = hdr"
  by (simp add: header_of_def entry_from_def)

lemma collectEntry_eq:
  "collectEntry (fs, b) hdr =
     (case consume b hdr of Inl e \<Rightarrow> Inl e | Inr b' \<Rightarrow> Inr (fs @ [entry_from hdr], b'))"
  by (simp add: collectEntry_def rbind_def)

lemma walkTarLoop_collect:
  "walkTarLoop collectEntry err (fs, b) es =
     (case consumeAll b (map (entry_from \<circ> t_header) es) of
        Inl e \<Rightarrow> Inl (Inr e)
      | Inr b' \<Rightarrow>
          (case err of
             None \<Rightarrow> Inr (fs @ map (entry_from \<circ> t_header) es, b')
           | Some e \<Rightarrow> Inl (Inl (ReadLayer e))))"
proof (induction es arbitrary: fs b)
  case (Cons e es)
  show ?case
    by (cases "consume b (t_header e)") (simp_all add: collectEntry_eq Cons split: sum.splits option.splits)
qed (simp split: option.splits)

text \<open>The headers a verified blob holds.\<close>

definition verified :: "codecs \<Rightarrow> string \<Rightarrow> int \<Rightarrow> string \<Rightarrow> inventory_entry list \<Rightarrow> bool" where
  "verified c dg sz diffID files \<longleftrightarrow>
     (\<exists>bytes strm. int (length bytes) = sz \<and> digestMatches c dg bytes
        \<and> openLayerStream c \<lparr>b_bytes = bytes, b_err = None\<rparr> = Inr strm
        \<and> digestMatches c diffID (b_bytes strm) \<and> b_err strm = None
        \<and> ts_err (tarOf c strm) = None
        \<and> files = map (entry_from \<circ> t_header) (ts_entries (tarOf c strm)))"

lemma readStream_cases:
  assumes "readStream c layer diffID b strm = Inr (files, b')"
  shows "verified c (od_Digest layer) (od_Size layer) diffID files \<and> consumeAll b files = Inr b'
    \<and> (\<forall>b0 layer0. od_Digest layer0 = od_Digest layer \<longrightarrow> od_Size layer0 = od_Size layer \<longrightarrow>
         readStream c layer0 diffID b0 strm =
           (case consumeAll b0 files of Inl e \<Rightarrow> Inl (OverBudget e) | Inr b1 \<Rightarrow> Inr (files, b1)))"
proof -
  define lim where "lim = limited (nat (od_Size layer + 1)) strm"
  from assms obtain s where
    valid: "digestValid c diffID = None" and opened: "openLayerStream c lim = Inr s"
    and walk: "walkTar collectEntry ([], b) (tarOf c s) = Inr (files, b')"
    and ends: "b_err s = None" "digestMatches c diffID (b_bytes s)" "b_err lim = None"
      "int (length (b_bytes lim)) = od_Size layer" "digestMatches c (od_Digest layer) (b_bytes lim)"
    by (auto simp: readStream_def lim_def [symmetric] Let_def WalkLayerVerified_def
        split: sum.splits option.splits if_splits)
  define hs where "hs = map (entry_from \<circ> t_header) (ts_entries (tarOf c s))"
  from walk have err: "ts_err (tarOf c s) = None" and files: "files = hs" and cb: "consumeAll b hs = Inr b'"
    by (auto simp: walkTar_def walkTarLoop_collect hs_def split: sum.splits option.splits)
  have "\<lparr>b_bytes = b_bytes lim, b_err = None\<rparr> = lim" using ends(3) by (cases lim) simp
  with opened have o: "openLayerStream c \<lparr>b_bytes = b_bytes lim, b_err = None\<rparr> = Inr s" by simp
  have "verified c (od_Digest layer) (od_Size layer) diffID files"
    unfolding verified_def files hs_def
    using o ends err by (intro exI [of _ "b_bytes lim"] exI [of _ s]) simp
  moreover have "readStream c layer0 diffID b0 strm =
      (case consumeAll b0 files of Inl e \<Rightarrow> Inl (OverBudget e) | Inr b1 \<Rightarrow> Inr (files, b1))"
    if "od_Digest layer0 = od_Digest layer" "od_Size layer0 = od_Size layer" for b0 layer0
    using that valid opened ends err
    by (simp add: readStream_def Let_def lim_def [symmetric] WalkLayerVerified_def walkTar_def
        walkTarLoop_collect files hs_def split: sum.splits)
  ultimately show ?thesis using cb files by blast
qed

lemma readLayerInventory_cases:
  assumes "readLayerInventory c load layer diffID b = Inr (files, b')"
  shows "verified c (od_Digest layer) (od_Size layer) diffID files \<and> consumeAll b files = Inr b'
    \<and> (\<forall>b0 load0 layer0. od_Digest layer0 = od_Digest layer \<longrightarrow> od_Size layer0 = od_Size layer \<longrightarrow>
         load0 layer0 = load layer \<longrightarrow>
         readLayerInventory c load0 layer0 diffID b0 =
           (case consumeAll b0 files of Inl e \<Rightarrow> Inl (OverBudget e) | Inr b1 \<Rightarrow> Inr (files, b1)))"
proof -
  from assms obtain r where r: "od_Size layer \<noteq> maxInt64" "load layer = Inr (Some r)" "lr_close r = None"
    "readStream c layer diffID b (lr_stream r) = Inr (files, b')"
    by (auto simp: readLayerInventory_def split: if_splits sum.splits option.splits)
  from readStream_cases [OF r(4)] r(1-3) show ?thesis
    by (auto simp: readLayerInventory_def split: sum.splits)
qed
section \<open>The whole inventory\<close>

definition cache_ok :: "codecs \<Rightarrow> (blob_key \<rightharpoonup> inventory_entry list) \<Rightarrow> bool" where
  "cache_ok c cache \<longleftrightarrow> (\<forall>dg sz diffID files. cache (dg, sz, diffID) = Some files \<longrightarrow> verified c dg sz diffID files)"

text \<open>The budget left after the entries of some layers.\<close>

definition spent :: "inventory_budget \<Rightarrow> inventory_entry list list \<Rightarrow> inventory_budget \<Rightarrow> bool" where
  "spent b ls b' \<longleftrightarrow> int (length ls) \<le> layersLeft b \<and> affordable b (concat ls)
     \<and> b' = (charged b (concat ls))\<lparr>layersLeft := layersLeft b - int (length ls)\<rparr>"

lemma spent_Nil [simp]: "solvent b \<Longrightarrow> spent b [] b"
  by (simp add: spent_def affordable_def charged_def solvent_def)

lemma spent_append: "spent b ls b1 \<Longrightarrow> spent b1 ls' b2 \<Longrightarrow> spent b (ls @ ls') b2"
  by (auto simp: spent_def affordable_def charged_def)

lemma spent_solvent: "spent b ls b' \<Longrightarrow> solvent b'"
  by (auto simp: spent_def affordable_def charged_def solvent_def)

lemma layerStep_ok:
  assumes "layerStep c load cache b layer diffID = Inr (files, b')" "cache_ok c cache" "solvent b"
  shows "verified c (od_Digest layer) (od_Size layer) diffID files \<and> spent b [files] b'"
proof -
  from assms(1) obtain b1 where b1: "consumeLayer b = Inr b1"
    by (auto simp: layerStep_def split: sum.splits)
  have "verified c (od_Digest layer) (od_Size layer) diffID files \<and> consumeAll b1 files = Inr b'"
  proof (cases "cache (blobKey layer diffID)")
    case None
    with assms(1) b1 have "readLayerInventory c load layer diffID b1 = Inr (files, b')"
      by (simp add: layerStep_def)
    from readLayerInventory_cases [OF this] show ?thesis by blast
  next
    case (Some fs)
    with assms b1 show ?thesis
      by (auto simp: layerStep_def cache_ok_def blobKey_def split: sum.splits)
  qed
  moreover have "solvent b1" "b1 = b\<lparr>layersLeft := layersLeft b - 1\<rparr>" "1 \<le> layersLeft b"
    using b1 assms(3) by (auto simp: consumeLayer_def solvent_def split: if_splits)
  ultimately show ?thesis
    by (auto simp: spent_def consumeAll_eq affordable_def charged_def)
qed

lemma inventoryLayers_ok:
  "inventoryLayers c reference load s lds = (Inr ls, s') \<Longrightarrow> cache_ok c (is_cache s) \<Longrightarrow> solvent (is_budget s) \<Longrightarrow>
   list_all2 (\<lambda>(layer, diffID) files. verified c (od_Digest layer) (od_Size layer) diffID files) lds ls
   \<and> spent (is_budget s) ls (is_budget s') \<and> cache_ok c (is_cache s')"
proof (induction lds arbitrary: s ls)
  case (Cons ld lds)
  obtain layer diffID where ld: "ld = (layer, diffID)" by fastforce
  from Cons.prems(1) ld obtain files b log ls' where
    step: "layerStep c load (is_cache s) (is_budget s) layer diffID = Inr (files, b)"
    and rest: "inventoryLayers c reference load
      (s\<lparr>is_cache := (is_cache s)(blobKey layer diffID \<mapsto> files), is_budget := b, is_log := log\<rparr>) lds = (Inr ls', s')"
    and ls: "ls = files # ls'"
    by (auto simp: progressStep_def split: sum.splits prod.splits)
  note ok = layerStep_ok [OF step Cons.prems(2,3)]
  then have "solvent b" using spent_solvent by blast
  moreover have "cache_ok c ((is_cache s)(blobKey layer diffID \<mapsto> files))"
    using Cons.prems(2) ok by (auto simp: cache_ok_def blobKey_def)
  ultimately have IH: "list_all2 (\<lambda>(layer, diffID) files. verified c (od_Digest layer) (od_Size layer) diffID files) lds ls'"
    "spent b ls' (is_budget s')" "cache_ok c (is_cache s')"
    using Cons.IH [OF rest] by (simp_all del: fun_upd_apply)
  with ok ld ls spent_append [of "is_budget s" "[files]" b ls'] show ?case by simp
qed simp

definition kitVerified :: "codecs \<Rightarrow> loaded_kit \<Rightarrow> kit_inventory \<Rightarrow> bool" where
  "kitVerified c input kinv \<longleftrightarrow>
     list_all2 (\<lambda>(layer, diffID) files. verified c (od_Digest layer) (od_Size layer) diffID files)
       (zip (ma_Layers (lk_Manifest input)) (im_DiffIDs (lk_Config input))) (ki_layers kinv)
     \<and> length (ma_Layers (lk_Manifest input)) = length (im_DiffIDs (lk_Config input))"

lemma inventoryLoop_ok:
  "inventoryLoop c h loaded s ks = (Inr invs, s') \<Longrightarrow> cache_ok c (is_cache s) \<Longrightarrow> solvent (is_budget s) \<Longrightarrow>
   list_all2 (\<lambda>k kinv. ki_reference kinv = Reference (h k)
      \<and> (\<exists>input. loaded (Reference (h k)) = Some input \<and> kitVerified c input kinv)) ks invs
   \<and> spent (is_budget s) (concat (map ki_layers invs)) (is_budget s')"
proof (induction ks arbitrary: s invs)
  case (Cons k ks)
  let ?r = "Reference (h k)"
  from Cons.prems(1) obtain input load ls s1 invs' where
    input: "loaded ?r = Some input" "length (im_DiffIDs (lk_Config input)) = length (ma_Layers (lk_Manifest input))"
    and layers: "inventoryLayers c ?r load s (zip (ma_Layers (lk_Manifest input)) (im_DiffIDs (lk_Config input))) = (Inr ls, s1)"
    and rest: "inventoryLoop c h loaded s1 ks = (Inr invs', s')"
    and invs: "invs = \<lparr>ki_reference = ?r, ki_layers = ls\<rparr> # invs'"
    by (auto simp: Let_def split: option.splits if_splits prod.splits sum.splits)
  note ok = inventoryLayers_ok [OF layers Cons.prems(2,3)]
  then have "solvent (is_budget s1)" using spent_solvent by blast
  with ok Cons.IH [OF rest] have IH: "list_all2 (\<lambda>k kinv. ki_reference kinv = Reference (h k)
      \<and> (\<exists>input. loaded (Reference (h k)) = Some input \<and> kitVerified c input kinv)) ks invs'"
    "spent (is_budget s1) (concat (map ki_layers invs')) (is_budget s')" by simp_all
  have "kitVerified c input \<lparr>ki_reference = ?r, ki_layers = ls\<rparr>"
    using ok input(2) by (simp add: kitVerified_def)
  with IH ok input invs spent_append [of "is_budget s" ls "is_budget s1"] show ?case by simp
qed simp

section \<open>Properties\<close>

lemma inventoryKits_ok:
  assumes "inventoryKits c h kits loaded log = (Inr invs, log')"
  shows "\<exists>res. Resolve h kits = Inr res
    \<and> list_all2 (\<lambda>k kinv. ki_reference kinv = Reference (h k)
        \<and> (\<exists>input. loaded (Reference (h k)) = Some input \<and> kitVerified c input kinv)) (Ordered res) invs
    \<and> int (length (concat (map ki_layers invs))) \<le> maxInventoryLayers
    \<and> int (length (concat (concat (map ki_layers invs)))) \<le> maxInventoryEntries
    \<and> totalBytes (concat (concat (map ki_layers invs))) \<le> maxInventoryPathBytes
    \<and> totalComponents (concat (concat (map ki_layers invs))) \<le> maxInventoryComponents"
proof -
  from assms obtain res s where res: "Resolve h kits = Inr res"
    and loop: "inventoryLoop c h loaded \<lparr>is_cache = Map.empty, is_budget = fullBudget, is_log = log\<rparr>
      (Ordered res) = (Inr invs, s)"
    by (auto simp: inventoryKits_def split: sum.splits prod.splits)
  have "cache_ok c Map.empty" "solvent fullBudget"
    by (simp_all add: cache_ok_def solvent_def fullBudget_def maxInventoryLayers_def maxInventoryEntries_def
        maxInventoryPathBytes_def maxInventoryComponents_def)
  with inventoryLoop_ok [OF loop] res show ?thesis
    by (auto simp: spent_def affordable_def fullBudget_def)
qed

text \<open>Property C22. An inventory that is returned is complete and verified: it lists the kits of
  the resolved set in composition order, each with one list of entries per manifest layer, and
  every such list is the archive of a blob that has the layer's size and digest and whose
  uncompressed stream was read to its end without error and has the layer's diff ID, whether
  the blob was read or replayed. All of it stays within the operation's limits: the layers, the entries, the
  bytes of their names and link names, and their path components.\<close>

theorem inventory_verified_and_bounded:
  assumes "inventoryKits c h kits loaded log = (Inr invs, log')"
  shows "\<exists>res. Resolve h kits = Inr res
    \<and> list_all2 (\<lambda>k kinv. ki_reference kinv = Reference (h k)
        \<and> (\<exists>input. loaded (Reference (h k)) = Some input \<and> kitVerified c input kinv)) (Ordered res) invs
    \<and> int (length (concat (map ki_layers invs))) \<le> maxInventoryLayers
    \<and> int (length (concat (concat (map ki_layers invs)))) \<le> maxInventoryEntries
    \<and> totalBytes (concat (concat (map ki_layers invs))) \<le> maxInventoryPathBytes
    \<and> totalComponents (concat (concat (map ki_layers invs))) \<le> maxInventoryComponents"
  by (rule inventoryKits_ok [OF assms])

text \<open>Replaying a layer from the cache is exactly reading it again: when a blob has
  been read successfully once, with any budget, then for any layer of the same digest, size
  and diff ID whose loader returns the same stream, the step with the cached entries returns the
  same entries, leaves the same budget and fails with the same error as the step without the
  cache.\<close>

theorem cache_replay_exact:
  assumes "readLayerInventory c load layer diffID b = Inr (files, b1)"
    and "blobKey layer' diffID = blobKey layer diffID" "load' layer' = load layer"
  shows "layerStep c load' [blobKey layer' diffID \<mapsto> files] b' layer' diffID
         = layerStep c load' Map.empty b' layer' diffID"
  using readLayerInventory_cases [OF assms(1)] assms(2,3)
  by (simp add: layerStep_def blobKey_def split: sum.split)

text \<open>\<open>pathComponents\<close> counts, without splitting, the nonempty components of a
  path; from a budget with nothing below zero, charging a list of entries succeeds exactly when
  the entries, their name bytes and their components each fit in what is left, and leaves
  exactly the difference.\<close>

theorem budget_exact:
  assumes "solvent b"
  shows "pathComponents s = length (filter (\<lambda>p. p \<noteq> []) (split_on CHR ''/'' s))
    \<and> (consumeAll b es = Inr b') = (affordable b es \<and> b' = charged b es)"
  using pathComponents_split consumeAll_eq [OF assms] by blast

theorem budget_exact_witness:
  "(consumeAll fullBudget [entry_from (tarHeader ''a/b'' TypeReg [])] = Inr (charged fullBudget [entry_from (tarHeader ''a/b'' TypeReg [])]))
   = affordable fullBudget [entry_from (tarHeader ''a/b'' TypeReg [])] \<and> pathComponents ''//a/b'' = 2"
proof -
  have "solvent fullBudget" "length (filter (\<lambda>p. p \<noteq> []) (split_on CHR ''/'' ''//a/b'')) = 2"
    by code_simp+
  with budget_exact [of fullBudget "''//a/b''" "[entry_from (tarHeader ''a/b'' TypeReg [])]"] show ?thesis by simp
qed

definition exampleLoaded :: "string \<rightharpoonup> loaded_kit" where
  "exampleLoaded r =
     Some \<lparr>lk_Digest = ''sha256:0'',
       lk_Manifest = \<lparr>ma_SchemaVersion = 2, ma_MediaType = [], ma_ArtifactType = [],
         ma_Config = \<lparr>od_MediaType = [], od_Digest = ''c'', od_Size = 0\<rparr>,
         ma_Layers = [\<lparr>od_MediaType = [], od_Digest = ''d'', od_Size = 2\<rparr>], ma_Subject = None, ma_Annotations = []\<rparr>,
       lk_Config = \<lparr>im_Platform = linuxAmd64,
         im_Config = \<lparr>ic_User = [], ic_ExposedPorts = [], ic_Env = [], ic_Entrypoint = [], ic_Cmd = [],
           ic_Volumes = [], ic_WorkingDir = [], ic_Labels = [], ic_StopSignal = []\<rparr>,
         im_RootFSType = ''layers'', im_DiffIDs = [''e''], im_History = []\<rparr>,
       lk_Image = [], lk_Descriptor = [],
       lk_LayerLoader = Some (\<lambda>l. Inr (Some \<lparr>lr_stream = \<lparr>b_bytes = ''xy'', b_err = None\<rparr>, lr_close = None\<rparr>))\<rparr>"

theorem inventory_verified_and_bounded_witness:
  "\<exists>invs log. inventoryKits (plainCodecs exampleArchive) exampleHeap [2, 1, 0] exampleLoaded [] = (Inr invs, log)
     \<and> int (length (concat (concat (map ki_layers invs)))) \<le> maxInventoryEntries"
proof -
  let ?r = "inventoryKits (plainCodecs exampleArchive) exampleHeap [2, 1, 0] exampleLoaded []"
  have "is_ok (fst ?r)" by code_simp
  then obtain invs where "?r = (Inr invs, snd ?r)" by (metis is_ok_iff prod.collapse)
  with inventory_verified_and_bounded [of "plainCodecs exampleArchive" exampleHeap "[2, 1, 0]" exampleLoaded "[]" invs "snd ?r"]
  show ?thesis by blast
qed

theorem cache_replay_exact_witness:
  "let load = (\<lambda>l. Inr (Some \<lparr>lr_stream = \<lparr>b_bytes = ''xy'', b_err = None\<rparr>, lr_close = None\<rparr>));
       layer = \<lparr>od_MediaType = [], od_Digest = ''d'', od_Size = 2\<rparr>;
       files = map (entry_from \<circ> t_header) exampleArchive
   in layerStep (plainCodecs exampleArchive) load [blobKey layer ''e'' \<mapsto> files] fullBudget layer ''e''
      = layerStep (plainCodecs exampleArchive) load Map.empty fullBudget layer ''e''"
proof -
  let ?load = "\<lambda>l :: oci_descriptor. Inr (Some \<lparr>lr_stream = \<lparr>b_bytes = ''xy'', b_err = None\<rparr>, lr_close = None\<rparr>)"
  let ?layer = "\<lparr>od_MediaType = [], od_Digest = ''d'', od_Size = 2\<rparr>"
  have "readLayerInventory (plainCodecs exampleArchive) ?load ?layer ''e'' fullBudget
      = Inr (map (entry_from \<circ> t_header) exampleArchive, charged fullBudget (map (entry_from \<circ> t_header) exampleArchive))"
    by code_simp
  from cache_replay_exact [OF this refl refl] show ?thesis by simp
qed

end
