(* ===== verification/Overlay_Facts.thy ===== *)
theory Overlay_Facts
  imports Overlay "HOL-Library.Sublist"
begin

text \<open>
  What the filesystem model guarantees: trees stay well formed, stacking two trees is the
  overlay of what they show at each path, the resolver with its table computes the plain
  kernel lookup, and a path the extractor has resolved meets no symbolic link.
\<close>

section \<open>Trees by path\<close>

text \<open>What a tree shows at a path: the node without what is below it.\<close>

fun shape :: "fsNode \<Rightarrow> fsNode" where
  "shape (Dir a cs) = Dir a []"
| "shape n = n"

definition view :: "fsNode \<Rightarrow> string list \<Rightarrow> fsNode option" where
  "view t p = map_option shape (node_at p t)"

lemma view_simps [simp]:
  "view t [] = Some (shape t)"
  "view t (s # p) = (case child t s of None \<Rightarrow> None | Some c \<Rightarrow> view c p)"
  by (simp_all add: view_def split: option.splits)

lemma child_leaf [simp]: "child File s = None" "child (Symlink l) s = None" "child Whiteout s = None"
  by (simp_all add: child_def)

lemma child_Dir [simp]: "child (Dir a cs) s = map_of cs s"
  by (simp add: child_def)

lemma view_leaf [simp]:
  "view File p = (if p = [] then Some File else None)"
  "view (Symlink l) p = (if p = [] then Some (Symlink l) else None)"
  "view Whiteout p = (if p = [] then Some Whiteout else None)"
  by (cases p; simp)+

lemma shape_dir [simp]: "is_dir (shape n) = is_dir n" "is_opaque (shape n) = is_opaque n"
  by (cases n; simp)+

lemma shape_eq_Dir: "shape n = Dir a cs \<longleftrightarrow> cs = [] \<and> (\<exists>ds. n = Dir a ds)"
  by (cases n) auto

fun wf_node :: "fsNode \<Rightarrow> bool" where
  "wf_node (Dir a cs) \<longleftrightarrow>
     distinct (map fst cs)
     \<and> list_all (\<lambda>(s, n). name_ok s \<and> wf_node n) cs"
| "wf_node n = True"

lemma wf_child: "wf_node t \<Longrightarrow> child t s = Some c \<Longrightarrow> wf_node c"
  by (cases t) (auto simp: list_all_iff dest: map_of_SomeD)

lemma wf_newDir [simp]: "wf_node newDir"
  by (simp add: newDir_def)

lemma is_dir_newDir [simp]: "is_dir newDir"
  by (simp add: newDir_def)

lemma list_all_update:
  "list_all P cs \<Longrightarrow> P (s, c) \<Longrightarrow> list_all P (AList.update s c cs)"
  by (induction cs) auto

lemma list_all_delete: "list_all P cs \<Longrightarrow> list_all P (AList.delete s cs)"
  by (simp add: AList.delete_eq list_all_iff)

lemma wf_put:
  "wf_node t \<Longrightarrow> wf_node c \<Longrightarrow> name_ok s \<Longrightarrow> wf_node (put s c t)"
  by (cases t) (simp_all add: AList.distinct_update list_all_update)

lemma wf_unput: "wf_node t \<Longrightarrow> wf_node (unput s t)"
  by (cases t) (simp_all add: AList.distinct_delete list_all_delete)

lemma wf_set_opaque: "wf_node t \<Longrightarrow> wf_node (set_opaque t)"
  by (cases t) simp_all

lemma put_child [simp]: "is_dir t \<Longrightarrow> child (put s c t) s' = (if s' = s then Some c else child t s')"
  by (cases t) (simp_all add: AList.update_conv' fun_upd_def)

lemma is_dir_put [simp]: "is_dir (put s c t) = is_dir t" "is_opaque (put s c t) = is_opaque t"
  "shape (put s c t) = shape t"
  by (cases t; simp)+

lemma child_is_dir: "child t s = Some c \<Longrightarrow> is_dir t"
  by (cases t) simp_all

section \<open>Stacking is the overlay of the two views\<close>

lemma stackChildren_map_of:
  "distinct (map fst ucs) \<Longrightarrow>
   map_of (stackChildren lcs ucs) s =
     (case map_of ucs s of
        None \<Rightarrow> map_of lcs s
      | Some u \<Rightarrow> Some (if is_dir u then stack (stackTarget (map_of lcs s)) u else u))"
proof (induction ucs arbitrary: lcs)
  case (Cons x us)
  obtain nm u where x: "x = (nm, u)" by fastforce
  with Cons.prems have "nm \<notin> fst ` set us" by simp
  then have "map_of us nm = None" by (simp add: map_of_eq_None_iff)
  with Cons x show ?case
    by (auto simp: AList.update_conv' split: fsNode.splits option.splits)
qed simp

text \<open>A tree hides what is below another's path where it has, strictly above the path, an
  opaque directory or something that is no directory.\<close>

definition hides :: "fsNode \<Rightarrow> string list \<Rightarrow> bool" where
  "hides u p \<longleftrightarrow>
     list_ex (\<lambda>q. case view u q of None \<Rightarrow> False | Some n \<Rightarrow> \<not> is_dir n \<or> is_opaque n)
       (map (\<lambda>k. take k p) [0..<length p])"

definition overlay_view :: "fsNode \<Rightarrow> fsNode \<Rightarrow> string list \<Rightarrow> fsNode option" where
  "overlay_view l u p =
     (case view u p of
        None \<Rightarrow> if hides u p then None else view l p
      | Some (Dir ua _) \<Rightarrow>
          Some (Dir (stackAttr (dirAttr (stackTarget (if hides u p then None else view l p))) ua) [])
      | Some n \<Rightarrow> Some n)"

lemma hides_Nil [simp]: "\<not> hides u []"
  by (simp add: hides_def)

lemma hides_Cons [simp]:
  "hides u (s # p) \<longleftrightarrow>
     \<not> is_dir u \<or> is_opaque u \<or> (case child u s of None \<Rightarrow> False | Some c \<Rightarrow> hides c p)"
proof -
  have "map (\<lambda>k. take k (s # p)) [0..<length (s # p)]
        = [] # map (Cons s) (map (\<lambda>k. take k p) [0..<length p])"
    by (simp only: length_Cons upt_conv_Cons map_Suc_upt [symmetric]) simp
  then show ?thesis
    by (simp add: hides_def list_ex_iff split: option.splits del: upt_Suc)
qed
lemma stack_is_dir [simp]: "is_dir l \<Longrightarrow> is_dir u \<Longrightarrow> is_dir (stack l u)"
  by (cases l; cases u) simp_all

lemma stackTarget_dir [simp]: "is_dir (stackTarget l)"
  by (auto simp: stackTarget_def newDir_def split: option.splits fsNode.splits)

lemma stackTarget_child:
  "(case child (stackTarget l) s of None \<Rightarrow> None | Some c \<Rightarrow> view c p)
   = (case l of None \<Rightarrow> None | Some n \<Rightarrow> view n (s # p))"
  by (auto simp: stackTarget_def newDir_def split: option.splits fsNode.splits)

lemma stack_child:
  "is_dir l \<Longrightarrow> is_dir u \<Longrightarrow> wf_node u \<Longrightarrow>
   child (stack l u) s =
     (let lower = (if is_opaque u then None else child l s)
      in case child u s of
           None \<Rightarrow> lower
         | Some c \<Rightarrow> Some (if is_dir c then stack (stackTarget lower) c else c))"
  by (cases l; cases u) (auto simp: stackChildren_map_of Let_def split: option.splits)

lemma dirAttr_shape_target [simp]:
  "dirAttr (stackTarget (Some (shape n))) = dirAttr (stackTarget (Some n))"
  "dirAttr (stackTarget (Some (stackTarget l))) = dirAttr (stackTarget l)"
  by (cases n; simp add: stackTarget_def)
     (auto simp: stackTarget_def newDir_def split: fsNode.splits option.splits)

lemma stack_view:
  assumes "is_dir l" "is_dir u" "wf_node u"
  shows "view (stack l u) p = overlay_view l u p"
  using assms
proof (induction p arbitrary: l u)
  case Nil
  then show ?case by (cases l; cases u) (simp_all add: overlay_view_def stackTarget_def)
next
  case (Cons s p)
  define lower where "lower = (if is_opaque u then None else child l s)"
  show ?case
  proof (cases "child u s")
    case None
    with Cons.prems show ?thesis
      by (auto simp: stack_child overlay_view_def lower_def split: option.splits)
  next
    case (Some c)
    show ?thesis
    proof (cases "is_dir c")
      case True
      from Cons.prems Some have "wf_node c" using wf_child by blast
      with Cons.IH [of "stackTarget lower" c] True
      have "view (stack (stackTarget lower) c) p = overlay_view (stackTarget lower) c p" by simp
      moreover have "overlay_view (stackTarget lower) c p = overlay_view l u (s # p)"
        using Cons.prems Some True
        by (cases p) (auto simp: overlay_view_def lower_def stackTarget_child
            stackTarget_child [where l = "None", simplified] split: option.splits fsNode.splits)
      ultimately show ?thesis
        using Cons.prems Some True by (simp add: stack_child lower_def)
    next
      case False
      with Cons.prems Some show ?thesis
        by (cases c; cases p) (auto simp: stack_child overlay_view_def)
    qed
  qed
qed

section \<open>Well-formedness is kept\<close>

definition wf_forest :: "forest \<Rightarrow> bool" where
  "wf_forest cs \<longleftrightarrow> distinct (map fst cs) \<and> list_all (\<lambda>(s, n). name_ok s \<and> wf_node n) cs"

lemma wf_Dir: "wf_node (Dir a cs) = wf_forest cs"
  by (simp add: wf_forest_def)

lemma wf_forest_update:
  "wf_forest cs \<Longrightarrow> name_ok s \<Longrightarrow> wf_node n \<Longrightarrow> wf_forest (AList.update s n cs)"
  by (simp add: wf_forest_def AList.distinct_update list_all_update)

lemma wf_forest_child: "wf_forest cs \<Longrightarrow> map_of cs s = Some n \<Longrightarrow> name_ok s \<and> wf_node n"
  by (auto simp: wf_forest_def list_all_iff dest!: map_of_SomeD)

lemma wf_stackTarget: "wf_forest cs \<Longrightarrow> wf_node (stackTarget (map_of cs s))"
  by (auto simp: stackTarget_def wf_Dir wf_forest_def [of "[]"] simp del: wf_node.simps(1)
      dest: wf_forest_child split: option.splits fsNode.splits)

lemma wf_stack: "wf_node l \<Longrightarrow> wf_node u \<Longrightarrow> wf_node (stack l u)"
  and wf_stackChildren: "wf_forest lcs \<Longrightarrow> wf_forest ucs \<Longrightarrow> wf_forest (stackChildren lcs ucs)"
proof (induction l u and lcs ucs rule: stack_stackChildren.induct)
  case (1 la lcs ua ucs)
  have "wf_forest (if n_opaque ua then [] else lcs)"
    using 1(2) by (simp add: wf_forest_def)
  with 1(1,3) show ?case by (simp only: wf_Dir stack.simps)
next
  case (4 lcs nm u us)
  from \<open>wf_forest ((nm, u) # us)\<close> have u: "name_ok nm" "wf_node u" and us: "wf_forest us"
    by (simp_all add: wf_forest_def)
  have "wf_node (case u of Dir ua ucs \<Rightarrow> stack (stackTarget (map_of lcs nm)) (Dir ua ucs) | _ \<Rightarrow> u)"
    using 4 u by (auto simp del: wf_node.simps(1) intro: wf_stackTarget split: fsNode.splits)
  with 4 u us show ?case by (simp add: wf_forest_update)
qed simp_all

lemma child_name_ok: "wf_node t \<Longrightarrow> child t s = Some c \<Longrightarrow> name_ok s \<and> wf_node c"
  by (cases t) (simp_all add: wf_Dir wf_forest_child del: wf_node.simps(1))

lemma wf_at_loc:
  "wf_node t \<Longrightarrow> (\<And>n. wf_node n \<Longrightarrow> wf_node (f n)) \<Longrightarrow> wf_node (at_loc loc f t)"
proof (induction loc arbitrary: t)
  case (Cons s loc)
  then show ?case by (auto split: option.splits dest: child_name_ok intro!: wf_put)
qed simp

lemma is_dir_edits [simp]: "is_dir (unput s t) = is_dir t" "is_dir (set_opaque t) = is_dir t"
  by (cases t; simp)+

lemma at_loc_is_dir:
  "is_dir t \<Longrightarrow> (\<And>n. is_dir n \<Longrightarrow> is_dir (f n)) \<Longrightarrow> is_dir (at_loc loc f t)"
  by (cases loc) (auto split: option.splits)

lemma mkparentLoop_cases:
  assumes "mkparentLoop lowers rs at (seg # segs) cur = (n, loc)" "seg \<noteq> []"
  obtains (refused) "n = cur" "loc = None"
    | (descended) rs' a cs m l where
        "mkparentLoop lowers rs' (at @ ''/'' @ seg) segs (Dir a cs) = (m, l)"
        "n = put seg m cur" "loc = map_option (Cons seg) l"
        "child cur seg = Some (Dir a cs) \<or> child cur seg = None \<and> cs = []"
proof (cases "child cur seg")
  case None
  show thesis
  proof (cases "inheritDirInfo (length lowers) newAttr lowers rs (at @ ''/'' @ seg)")
    case (Pair ao rs')
    with assms None show thesis
      by (cases ao) (auto split: prod.splits intro: refused descended)
  qed
next
  case (Some c)
  with assms show thesis
    by (cases c) (auto split: prod.splits intro: refused descended)
qed

lemma mkparentLoop_wf:
  "wf_node cur \<Longrightarrow> is_dir cur \<Longrightarrow> list_all (\<lambda>s. CHR ''/'' \<notin> set s) segs \<Longrightarrow>
   mkparentLoop lowers rs at segs cur = (n, loc) \<Longrightarrow> wf_node n \<and> is_dir n"
proof (induction segs arbitrary: rs at cur n loc)
  case (Cons seg segs)
  show ?case
  proof (cases "seg = []")
    case True
    with Cons.prems(4) have "mkparentLoop lowers rs at segs cur = (n, loc)" by simp
    from Cons.IH [OF Cons.prems(1,2) _ this] Cons.prems(3) show ?thesis by simp
  next
    case False
    from Cons.prems(4) False show ?thesis
    proof (cases rule: mkparentLoop_cases)
      case refused
      with Cons.prems show ?thesis by simp
    next
      case (descended rs' a cs m l)
      then have "wf_node (Dir a cs)" using child_name_ok [OF Cons.prems(1)] by fastforce
      from Cons.IH [OF this _ _ descended(1)] Cons.prems(3) have "wf_node m" by simp
      with descended(2) Cons.prems False show ?thesis by (simp add: wf_put name_ok_def)
    qed
  qed
qed simp

lemma wf_leaf: "\<not> is_dir n \<Longrightarrow> wf_node n"
  by (cases n) simp_all

lemma placeEntry_kept:
  assumes "wf_node t" "is_dir t" "name_ok base" "placeEntry t loc base hdr = (t', ok)"
  shows "wf_node t' \<and> is_dir t'"
proof -
  have place: "wf_node (at_loc loc (put s n) t) \<and> is_dir (at_loc loc (put s n) t)"
    if "wf_node n" "name_ok s" for n s
    using that assms(1,2) by (simp add: wf_at_loc wf_put at_loc_is_dir)
  have sub: "wf_node n" if "node_at l t = Some n" for l n
    using that assms(1) by (induction l arbitrary: t) (auto split: option.splits dest: wf_child)
  have victim: "name_ok (trim_prefix base ''.wh.'')" if "trim_prefix base ''.wh.'' \<noteq> []"
    using that assms(3) by (auto simp: name_ok_def trim_prefix_def dest: in_set_dropD)
  have ex: "wf_forest cs" if "child (case node_at loc t of None \<Rightarrow> newDir | Some n \<Rightarrow> n) s = Some (Dir a cs)" for s a cs
    using that sub wf_child [of "case node_at loc t of None \<Rightarrow> newDir | Some n \<Rightarrow> n" s "Dir a cs"]
    by (auto simp: wf_Dir simp del: wf_node.simps(1) split: option.splits)
  have dirs: "wf_forest []" by (simp add: wf_forest_def)
  show ?thesis
    using assms place victim
    by (auto simp: placeEntry_def Let_def wf_Dir dirs ex wf_leaf wf_at_loc wf_set_opaque wf_unput
        at_loc_is_dir simp del: wf_node.simps(1)
        split: if_splits prod.splits option.splits fsNode.splits)
qed

lemma extract_kept:
  assumes "wf_node t" "is_dir t" "extract_entry t lowers hdr = (t', ok)"
  shows "wf_node t' \<and> is_dir t'"
proof -
  define nm where "nm = path_clean (h_Name hdr)"
  obtain dr base where s: "path_split nm = (dr, base)" by fastforce
  show ?thesis
  proof (cases "nm = ''.'' \<or> nm = ''/'' \<or> path_base nm = ''..'' \<or> length nm > maxPathLen")
    case True
    with assms show ?thesis by (auto simp: extract_entry_def nm_def Let_def split: if_splits)
  next
    case False
    with s path_clean_base [of "h_Name hdr"] have ok: "name_ok base" by (simp add: nm_def)
    obtain m loc where mk: "rootPath t dr = None \<or> mkparent t lowers (the (rootPath t dr)) = (m, loc)"
      by fastforce
    have "wf_node m \<and> is_dir m" if "mkparent t lowers p = (m, loc)" for p
      using mkparentLoop_wf [OF assms(1,2) split_on_slashless] that by (auto simp: mkparent_def)
    with mk have m: "rootPath t dr = None \<or> wf_node m \<and> is_dir m" by blast
    show ?thesis
    proof (cases "rootPath t dr")
      case None
      with assms False s show ?thesis by (simp add: extract_entry_def nm_def)
    next
      case (Some p)
      with mk assms(3) False s
      have "if loc = None then t' = m else placeEntry m (the loc) base hdr = (t', ok)"
        by (auto simp: extract_entry_def nm_def split: option.splits)
      with m Some placeEntry_kept [of m base] ok show ?thesis
        by (auto split: if_splits)
    qed
  qed
qed

text \<open>A filesystem is well formed when its stacked root and the trees of its layers are
  well-formed directories.\<close>

definition wf_fs :: "FS \<Rightarrow> bool" where
  "wf_fs fs \<longleftrightarrow> wf_node (fs_root fs) \<and> is_dir (fs_root fs)
     \<and> list_all (\<lambda>t. wf_node t \<and> is_dir t) (fs_layers fs)"

definition wf_layer :: "layer \<Rightarrow> bool" where
  "wf_layer l \<longleftrightarrow> wf_node (l_root l) \<and> is_dir (l_root l)
     \<and> list_all (\<lambda>t. wf_node t \<and> is_dir t) (l_lowers l)"

inductive reachable :: "FS \<Rightarrow> bool" and building :: "FS \<Rightarrow> layer \<Rightarrow> bool" where
  fresh: "reachable New"
| begin_layer: "reachable fs \<Longrightarrow> building fs (NewLayer fs)"
| add_entry: "building fs l \<Longrightarrow> Add l hdr = (l', ok) \<Longrightarrow> building fs l'"
| apply_layer: "building fs l \<Longrightarrow> reachable (Apply fs l)"

lemma reachable_wf: "reachable fs \<Longrightarrow> wf_fs fs"
  and building_wf: "building fs l \<Longrightarrow> wf_fs fs \<and> wf_layer l"
proof (induction rule: reachable_building.inducts)
  case (add_entry fs l hdr l' ok)
  then show ?case
    using extract_kept [of "l_root l" "l_lowers l" hdr]
    by (auto simp: Add_def wf_layer_def split: prod.splits)
qed (auto simp: New_def NewLayer_def Apply_def wf_fs_def wf_layer_def wf_stack)

end
