(* ===== verification/Overlay_Lookup.thy ===== *)
theory Overlay_Lookup
  imports Overlay_Facts
begin

text \<open>
  Path resolution over a tree. The kernel's lookup runs over the components left to right; a
  run over the first components can be continued over the rest, which is why the resolver may
  look a directory up from the one above it and remember the answer. A path that
  \<open>rootPath\<close> returns is a clean absolute path on which no symbolic link lies.
\<close>

section \<open>The kernel lookup as a run that can be continued\<close>

text \<open>Where a run over the components stops early it has its answer, otherwise it has a stack
  of directories and the number of links followed.\<close>

function hostRun :: "fsNode list \<Rightarrow> nat \<Rightarrow> string list \<Rightarrow> dirResult + fsNode list \<times> nat" where
  "hostRun dirs followed [] = Inr (dirs, followed)"
| "hostRun dirs followed (seg # pending) =
     (if seg = [] \<or> seg = ''.'' then hostRun dirs followed pending
      else if seg = ''..''
      then if length dirs = 1 then Inl dirNone else hostRun (tl dirs) followed pending
      else (case child (hd dirs) seg of
              None \<Rightarrow> Inl dirNone
            | Some (Dir a cs) \<Rightarrow> hostRun (Dir a cs # dirs) followed pending
            | Some (Symlink l) \<Rightarrow>
                (if followed + 1 > maxLookupSymlinks then Inl dirFailed
                 else if has_prefix l ''/'' then Inl dirNone
                 else hostRun dirs (followed + 1) (pushPath pending l))
            | Some _ \<Rightarrow> Inl dirFailed))"
  by pat_completeness auto
termination
  by (relation "measures [\<lambda>(dirs, followed, pending). maxLookupSymlinks - followed,
                          \<lambda>(dirs, followed, pending). length pending]") auto

declare hostRun.simps [simp del]

lemma pushPath_append: "pushPath (xs @ ys) l = pushPath xs l @ ys"
  by (simp add: pushPath_def)

lemma hostLoop_append:
  "hostLoop dirs f (xs @ ys) =
     (case hostRun dirs f xs of Inl res \<Rightarrow> res | Inr (dirs', f') \<Rightarrow> hostLoop dirs' f' ys)"
proof (induction dirs f xs rule: hostRun.induct)
  case (2 dirs f seg pending)
  then show ?case
    by (auto simp: hostRun.simps(2) hostLoop.simps(2) pushPath_append split: option.splits fsNode.splits)
qed (simp add: hostRun.simps)

lemma hostRun_stopped: "hostRun dirs f xs = Inl res \<Longrightarrow> r_n res = None"
  by (induction dirs f xs rule: hostRun.induct)
     (auto simp: hostRun.simps dirNone_def dirFailed_def split: if_splits option.splits fsNode.splits)

lemma hostRun_result:
  "hostLoop dirs f xs =
     (case hostRun dirs f xs of Inl res \<Rightarrow> res | Inr (dirs', f') \<Rightarrow> dirFound (hd dirs'))"
  using hostLoop_append [of dirs f xs "[]"]
  by (simp add: hostLoop.simps split: sum.splits prod.splits)

text \<open>Looking up one more component, from the result for the components before it.\<close>

definition dirStep :: "fsNode \<Rightarrow> string \<Rightarrow> dirResult \<Rightarrow> string \<Rightarrow> dirResult" where
  "dirStep t d res base =
     (case r_n res of
        None \<Rightarrow> res
      | Some n \<Rightarrow>
          (case child n base of
             None \<Rightarrow> dirNone
           | Some (Dir a cs) \<Rightarrow> dirFound (Dir a cs)
           | Some (Symlink l) \<Rightarrow> hostLookup t d
           | Some _ \<Rightarrow> dirFailed))"

lemma component_neq: "component s \<Longrightarrow> s \<noteq> [] \<and> s \<noteq> ''.'' \<and> s \<noteq> ''..''"
  unfolding component_def by blast

lemma hostLookup_snoc:
  assumes "components (segs @ [s])"
  shows "hostLookup t (abs_path (segs @ [s]))
         = dirStep t (abs_path (segs @ [s])) (hostLookup t (abs_path segs)) s"
proof -
  have split: "split_on CHR ''/'' (abs_path (segs @ [s])) = ([] # segs) @ [s]"
    using assms by (subst split_abs_path) simp_all
  have pre: "hostLookup t (abs_path segs) = hostLoop [t] 0 ([] # segs)"
  proof (cases "segs = []")
    case True
    then show ?thesis by (simp add: hostLookup_def pushPath_def hostLoop.simps)
  next
    case False
    with assms show ?thesis by (simp add: hostLookup_def pushPath_def split_abs_path)
  qed
  have all: "hostLookup t (abs_path (segs @ [s])) = hostLoop [t] 0 (([] # segs) @ [s])"
    by (simp add: hostLookup_def pushPath_def split)
  show ?thesis
  proof (cases "hostRun [t] 0 ([] # segs)")
    case (Inl res)
    with hostRun_stopped have "r_n res = None" by blast
    with Inl show ?thesis
      by (simp add: all pre hostLoop_append [of _ _ "[] # segs" "[s]", simplified]
          hostRun_result [of _ _ "[] # segs"] dirStep_def)
  next
    case (Inr x)
    obtain dirs f where x: "x = (dirs, f)" by fastforce
    have step: "hostLoop dirs f [s] =
       (case child (hd dirs) s of
          None \<Rightarrow> dirNone
        | Some (Dir a cs) \<Rightarrow> dirFound (Dir a cs)
        | Some (Symlink l) \<Rightarrow> hostLoop dirs f [s]
        | Some _ \<Rightarrow> dirFailed)"
      using component_neq [of s] assms
      by (auto simp: hostLoop.simps split: option.splits fsNode.splits)
    have loop: "hostLookup t (abs_path (segs @ [s])) = hostLoop dirs f [s]"
      using Inr x by (simp only: all hostLoop_append) simp
    have "r_n (hostLookup t (abs_path segs)) = Some (hd dirs)"
      using Inr x by (simp only: pre hostRun_result) (simp add: dirFound_def)
    then show ?thesis
      using step by (simp add: dirStep_def loop split: option.splits fsNode.splits)
  qed
qed

section \<open>The resolver computes the kernel lookup\<close>

definition table_ok :: "resolver \<Rightarrow> bool" where
  "table_ok r \<longleftrightarrow> (\<forall>d res. r_dirs r d = Some res \<longrightarrow> res = hostLookup (r_t r) d)"

lemma table_ok_new [simp]: "table_ok (newResolver t)" "r_t (newResolver t) = t"
  by (simp_all add: table_ok_def newResolver_def)

text \<open>On a clean absolute path the recursion of \<open>dir\<close> is the code's, and it ends: the path of
  the parent is the components but the last.\<close>

lemma dir_root: "dir r ''/'' = (dirFound (r_t r), r)"
  by (simp add: dir.simps)

lemma dir_unfold:
  assumes "components (segs @ [s])"
  shows "dir r (abs_path (segs @ [s])) =
     (case r_dirs r (abs_path (segs @ [s])) of
        Some res \<Rightarrow> (res, r)
      | None \<Rightarrow>
          (let (res, r') = dir r (abs_path segs);
               res' = dirStep (r_t r) (abs_path (segs @ [s])) res s
           in (res', r'\<lparr>r_dirs := (r_dirs r')(abs_path (segs @ [s]) \<mapsto> res')\<rparr>)))"
proof -
  have ne: "abs_path (segs @ [s]) \<noteq> ''/''"
    using assms abs_path_inject [of "segs @ [s]" "[]"] by auto
  have sp: "\<exists>parent. path_split (abs_path (segs @ [s])) = (parent, s) \<and> path_clean parent = abs_path segs"
    using abs_path_split [OF assms] assms clean_abs_path [of "[]"] by auto
  then obtain parent where "path_split (abs_path (segs @ [s])) = (parent, s)"
    "path_clean parent = abs_path segs" by blast
  then show ?thesis
    using ne abs_path_length [OF assms]
    by (simp add: dir.simps [of r "abs_path (segs @ [s])"] dirStep_def split: option.split)
qed

lemma dir_hostLookup:
  assumes "components segs" "table_ok r"
  shows "\<exists>r'. dir r (abs_path segs) = (hostLookup (r_t r) (abs_path segs), r') \<and> table_ok r' \<and> r_t r' = r_t r"
  using assms
proof (induction segs arbitrary: r rule: rev_induct)
  case Nil
  then show ?case
    by (auto simp: dir_root hostLookup_def pushPath_def hostLoop.simps)
next
  case (snoc s segs)
  show ?case
  proof (cases "r_dirs r (abs_path (segs @ [s]))")
    case None
    from snoc obtain r' where r': "dir r (abs_path segs) = (hostLookup (r_t r) (abs_path segs), r')"
      "table_ok r'" "r_t r' = r_t r" by fastforce
    let ?d = "abs_path (segs @ [s])"
    let ?r = "r'\<lparr>r_dirs := (r_dirs r')(?d \<mapsto> hostLookup (r_t r) ?d)\<rparr>"
    have "dir r ?d = (hostLookup (r_t r) ?d, ?r)"
      using r' None snoc.prems by (simp add: dir_unfold hostLookup_snoc [symmetric] Let_def)
    moreover have "table_ok ?r \<and> r_t ?r = r_t r" using r' by (simp add: table_ok_def)
    ultimately show ?thesis by blast
  next
    case (Some res)
    with snoc.prems show ?thesis by (auto simp: dir_unfold table_ok_def)
  qed
qed
lemma lstat_root: "lstat r ''/'' = ((Some (r_t r), False), r)"
  using clean_abs_path [of "[]"]
  by (simp add: lstat_def path_clean_def has_prefix_def path_split_slash [of "[]" "[]", simplified])

lemma lstat_snoc:
  assumes "components (segs @ [s])" "table_ok r"
  shows "\<exists>r'. lstat r (abs_path (segs @ [s])) =
           ((case r_n (hostLookup (r_t r) (abs_path segs)) of
               None \<Rightarrow> (None, r_failed (hostLookup (r_t r) (abs_path segs)))
             | Some n \<Rightarrow> (child n s, False)), r')
         \<and> table_ok r' \<and> r_t r' = r_t r"
proof -
  obtain parent where p: "path_split (abs_path (segs @ [s])) = (parent, s)"
    "path_clean parent = abs_path segs"
    using abs_path_split [OF assms(1)] assms(1) clean_abs_path [of "[]"] by auto
  obtain r' where "dir r (abs_path segs) = (hostLookup (r_t r) (abs_path segs), r')"
    "table_ok r'" "r_t r' = r_t r"
    using dir_hostLookup [of segs r] assms by auto
  with p assms(1) component_neq [of s] show ?thesis
    by (auto simp: lstat_def split: option.splits)
qed

section \<open>Paths without symbolic links\<close>

fun straight :: "fsNode \<Rightarrow> string list \<Rightarrow> bool" where
  "straight n [] = (case n of Symlink l \<Rightarrow> False | _ \<Rightarrow> True)"
| "straight n (s # segs) =
     (case n of
        Dir a cs \<Rightarrow> (case child n s of None \<Rightarrow> True | Some c \<Rightarrow> straight c segs)
      | Symlink l \<Rightarrow> False
      | _ \<Rightarrow> True)"

lemma straight_snoc:
  "straight t (segs @ [s]) \<longleftrightarrow>
     straight t segs \<and> (case node_at (segs @ [s]) t of Some (Symlink l) \<Rightarrow> False | _ \<Rightarrow> True)"
  by (induction segs arbitrary: t) (auto split: fsNode.splits option.splits)

lemma straight_take: "straight t segs \<Longrightarrow> straight t (take k segs)"
proof (induction segs arbitrary: t k)
  case (Cons s segs)
  then show ?case by (cases k) (auto split: fsNode.splits option.splits)
qed simp

lemma node_at_append:
  "node_at (xs @ ys) t = (case node_at xs t of None \<Rightarrow> None | Some n \<Rightarrow> node_at ys n)"
  by (induction xs arbitrary: t) (auto split: option.splits)

lemma straight_lookup:
  assumes "straight t segs" "components segs" "is_dir t"
  shows "r_n (hostLookup t (abs_path segs)) =
           (case node_at segs t of Some (Dir a cs) \<Rightarrow> Some (Dir a cs) | _ \<Rightarrow> None)"
  using assms
proof (induction segs rule: rev_induct)
  case Nil
  then show ?case
    by (cases t) (simp_all add: hostLookup_def pushPath_def hostLoop.simps dirFound_def)
next
  case (snoc s segs)
  then have "straight t segs" by (simp add: straight_snoc)
  with snoc have IH: "r_n (hostLookup t (abs_path segs)) =
    (case node_at segs t of Some (Dir a cs) \<Rightarrow> Some (Dir a cs) | _ \<Rightarrow> None)" by simp
  have last: "\<not> (\<exists>l. node_at (segs @ [s]) t = Some (Symlink l))"
    using snoc.prems(1) by (auto simp: straight_snoc)
  note lookup = hostLookup_snoc [OF snoc.prems(2), of t]
  show ?case
  proof (cases "r_n (hostLookup t (abs_path segs))")
    case None
    with IH have "node_at (segs @ [s]) t = None"
      by (auto simp: node_at_append split: option.splits fsNode.splits)
    with None show ?thesis by (simp add: lookup dirStep_def)
  next
    case (Some n)
    with IH have "node_at segs t = Some n" by (auto split: option.splits fsNode.splits)
    then have "node_at (segs @ [s]) t = child n s"
      by (simp add: node_at_append split: option.splits)
    with Some last show ?thesis
      by (auto simp: lookup dirStep_def dirNone_def dirFailed_def dirFound_def
          split: option.splits fsNode.splits)
  qed
qed

lemma straight_extend:
  assumes "straight t segs" "components (segs @ [s])" "is_dir t" "table_ok r" "r_t r = t"
    and "lstat r (abs_path (segs @ [s])) = ((n, f), r')" "\<And>l. n \<noteq> Some (Symlink l)"
  shows "straight t (segs @ [s])"
proof -
  have "r_n (hostLookup t (abs_path segs)) =
          (case node_at segs t of Some (Dir a cs) \<Rightarrow> Some (Dir a cs) | _ \<Rightarrow> None)"
    using straight_lookup assms(1-3) by simp
  moreover have "(case r_n (hostLookup t (abs_path segs)) of
               None \<Rightarrow> (None, r_failed (hostLookup t (abs_path segs)))
             | Some n \<Rightarrow> (child n s, False)) = (n, f)"
    using lstat_snoc [OF assms(2,4)] assms(5,6) by auto
  ultimately show ?thesis
    using assms(1,7)
    by (auto simp: straight_snoc node_at_append split: option.splits fsNode.splits)
qed

section \<open>What the extractor resolves\<close>

lemma lstat_ok:
  assumes "table_ok r" "components segs"
  shows "\<exists>v r'. lstat r (abs_path segs) = (v, r') \<and> table_ok r' \<and> r_t r' = r_t r"
proof (cases segs rule: rev_cases)
  case Nil
  with assms show ?thesis by (auto simp: lstat_root)
next
  case (snoc xs x)
  with assms lstat_snoc [of xs x r] show ?thesis by auto
qed

lemma walkLink_ok:
  assumes "table_ok r" "walkLink r p w = (res, w', r')"
  shows "table_ok r' \<and> r_t r' = r_t r"
proof -
  obtain segs where segs: "components segs" "path_join [''/'', p] = abs_path segs"
    using path_join_root_any by blast
  obtain v r1 where v: "lstat r (abs_path segs) = (v, r1)" "table_ok r1" "r_t r1 = r_t r"
    using lstat_ok [OF assms(1) segs(1)] by blast
  have "r' = r \<or> r' = r1"
    using assms(2) segs(2) v(1)
    by (auto simp: walkLink_def Let_def split: if_splits prod.splits option.splits fsNode.splits)
  with v assms(1) show ?thesis by auto
qed

text \<open>A call of \<open>walkLink\<close> that expands nothing hands the path back, cleaned, and no link is
  there.\<close>

lemma walkLink_plain:
  assumes "walkLink r p w = (Some (nxt, isLink), w, r')"
  shows "\<not> isLink \<and> nxt = path_join [''/'', p]
    \<and> (nxt = ''/'' \<or> (\<exists>n r1. lstat r nxt = ((n, False), r1) \<and> (\<forall>l. n \<noteq> Some (Symlink l))))"
  using assms
  by (auto simp: walkLink_def Let_def split: if_splits prod.splits option.splits fsNode.splits)

lemma walkLinks_cases:
  assumes "walkLinks r p w = (res, w', r')" "path_split p = (dr, fil)"
  obtains (top) lk where "dr = []" "walkLink r fil w = (lk, w', r')" "res = map_option fst lk"
    | (root) "dr = ''/''" "fil = []" "res = Some ''/''" "w' = w" "r' = r"
    | (slash) "dr \<noteq> []" "dr \<noteq> ''/''" "fil = []" "walkLinks r (butlast dr) w = (res, w', r')"
    | (failed) "dr \<noteq> []" "fil \<noteq> []" "walkLinks r dr w = (None, w', r')" "res = None"
    | (below) newdir w1 r1 lk where "dr \<noteq> []" "fil \<noteq> []" "walkLinks r dr w = (Some newdir, w1, r1)"
        "walkLink r1 (path_join [newdir, fil]) w1 = (lk, w', r')"
        "res = map_option (\<lambda>(nxt, isLink).
                 if \<not> isLink \<or> has_prefix nxt ''/'' then nxt else path_join [newdir, nxt]) lk"
proof (cases "dr = []")
  case True
  with assms show thesis
    by (cases "walkLink r fil w") (auto simp: walkLinks.simps [of r p] intro: top)
next
  case dr: False
  show thesis
  proof (cases "fil = []")
    case True
    with dr assms show thesis
      by (auto simp: walkLinks.simps [of r p] split: if_splits intro: root slash)
  next
    case False
    obtain nd w1 r1 where rec: "walkLinks r dr w = (nd, w1, r1)" by (metis prod_cases3)
    show thesis
    proof (cases nd)
      case None
      with dr False assms rec show thesis
        by (auto simp: walkLinks.simps [of r p] intro: failed)
    next
      case (Some newdir)
      obtain lk w2 r2 where wl: "walkLink r1 (path_join [newdir, fil]) w1 = (lk, w2, r2)"
        by (metis prod_cases3)
      with dr False assms rec Some show thesis
        by (cases lk) (auto simp: walkLinks.simps [of r p] split: if_splits intro!: below)
    qed
  qed
qed

lemma walkLinks_ok:
  "table_ok r \<Longrightarrow> walkLinks r p w = (res, w', r') \<Longrightarrow> table_ok r' \<and> r_t r' = r_t r"
proof (induction r p w arbitrary: res w' r' rule: walkLinks.induct)
  case (1 r p w)
  obtain dr fil where s: "path_split p = (dr, fil)" by fastforce
  from 1(4) s show ?case
  proof (cases rule: walkLinks_cases)
    case (top lk)
    with 1(3) walkLink_ok show ?thesis by blast
  next
    case root
    with 1(3) show ?thesis by simp
  next
    case slash
    with 1(1) [OF s [symmetric] refl] 1(3) show ?thesis by blast
  next
    case failed
    with 1(2) [OF s [symmetric] refl] 1(3) show ?thesis by blast
  next
    case (below newdir w1 r1 lk)
    with 1(2) [OF s [symmetric] refl] 1(3) walkLink_ok show ?thesis by metis
  qed
qed

lemma straight_join:
  assumes "components segs" "straight (r_t r) segs" "fil \<noteq> []" "CHR ''/'' \<notin> set fil"
    and "is_dir (r_t r)" "table_ok r"
    and "path_join [abs_path segs, fil] = ''/'' \<or>
         (\<exists>n r2. lstat r (path_join [abs_path segs, fil]) = ((n, False), r2) \<and> (\<forall>l. n \<noteq> Some (Symlink l)))"
  shows "\<exists>segs'. components segs' \<and> path_join [abs_path segs, fil] = abs_path segs' \<and> straight (r_t r) segs'"
proof (cases "component fil")
  case True
  with assms have j: "path_join [abs_path segs, fil] = abs_path (segs @ [fil])"
    by (simp add: path_join_abs)
  with assms True abs_path_inject [of "segs @ [fil]" "[]"] have "abs_path (segs @ [fil]) \<noteq> ''/''" by auto
  with assms j have "straight (r_t r) (segs @ [fil])"
    using straight_extend [of "r_t r" segs fil r] True by auto
  with assms True j show ?thesis by (intro exI [of _ "segs @ [fil]"]) simp
next
  case False
  with assms consider "fil = ''.''" | "fil = ''..''" by (auto simp: component_def)
  then show ?thesis
  proof cases
    case 1
    with assms show ?thesis by (auto simp: path_join_abs clean_step.simps)
  next
    case 2
    then have "rev (clean_step True (rev segs) fil) = butlast segs"
      by (cases segs rule: rev_cases) (simp_all add: clean_step.simps)
    with assms have "path_join [abs_path segs, fil] = abs_path (butlast segs)"
      by (simp add: path_join_abs)
    with assms show ?thesis
      by (metis butlast_conv_take components_butlast straight_take)
  qed
qed

lemma walkLinks_straight:
  "table_ok r \<Longrightarrow> is_dir (r_t r) \<Longrightarrow> walkLinks r p w = (Some nxt, w, r') \<Longrightarrow>
   \<exists>segs. components segs \<and> nxt = abs_path segs \<and> straight (r_t r) segs"
proof (induction r p w arbitrary: nxt r' rule: walkLinks.induct)
  case (1 r p w)
  obtain dr fil where s: "path_split p = (dr, fil)" by fastforce
  have fil: "CHR ''/'' \<notin> set fil" using path_split_file [OF s] .
  have base: "straight (r_t r) []" using 1(4) by (cases "r_t r") simp_all
  from 1(5) s show ?case
  proof (cases rule: walkLinks_cases)
    case (top lk)
    then obtain isLink where lk: "walkLink r fil w = (Some (nxt, isLink), w, r')"
      by (cases lk) auto
    from walkLink_plain [OF lk] have pl: "nxt = path_join [''/'', fil]"
      "nxt = ''/'' \<or> (\<exists>n r1. lstat r nxt = ((n, False), r1) \<and> (\<forall>l. n \<noteq> Some (Symlink l)))" by blast+
    show ?thesis
    proof (cases "fil = []")
      case True
      with pl(1) have "nxt = abs_path []" by (simp add: path_join_root path_clean_rooted)
      with base show ?thesis by (intro exI [of _ "[]"]) simp
    next
      case False
      with straight_join [of "[]" r fil] base fil 1(3,4) pl show ?thesis by simp
    qed
  next
    case root
    with base show ?thesis by (intro exI [of _ "[]"]) simp
  next
    case slash
    with 1(1) [OF s [symmetric] refl] 1(3,4) show ?thesis by blast
  next
    case (below newdir w1 r1 lk)
    then obtain nx isLink where lk: "walkLink r1 (path_join [newdir, fil]) w1 = (Some (nx, isLink), w, r')"
      and nxt: "nxt = (if \<not> isLink \<or> has_prefix nx ''/'' then nx else path_join [newdir, nx])"
      by (cases lk) auto
    have "w1 = w"
      using walkLinks_expanded [OF below(3)] walkLink_expanded [OF lk] by (simp add: expanded_def)
    with below(1-3) 1(2) [OF s [symmetric] refl] 1(3,4) obtain segs where segs:
      "components segs" "newdir = abs_path segs" "straight (r_t r) segs" by blast
    have r1: "table_ok r1" "r_t r1 = r_t r" using walkLinks_ok [OF 1(3) below(3)] by blast+
    obtain j where j: "components j" "path_join [newdir, fil] = abs_path j"
      using segs fil by (metis clean_step_root_components components_rev path_join_abs)
    from walkLink_plain [OF lk [unfolded \<open>w1 = w\<close>]] nxt
    have "nxt = path_join [''/'', path_join [newdir, fil]]"
      "nxt = ''/'' \<or> (\<exists>n r2. lstat r1 nxt = ((n, False), r2) \<and> (\<forall>l. n \<noteq> Some (Symlink l)))"
      by auto
    moreover have "path_join [''/'', path_join [newdir, fil]] = path_join [newdir, fil]"
      using j by simp
    ultimately have "nxt = path_join [newdir, fil]"
      "nxt = ''/'' \<or> (\<exists>n r2. lstat r1 nxt = ((n, False), r2) \<and> (\<forall>l. n \<noteq> Some (Symlink l)))"
      by (simp_all only:)
    with straight_join [of segs r1 fil] segs below(2) fil r1 1(4) show ?thesis by simp
  qed simp
qed

lemma rootPathLoop_straight:
  "table_ok r \<Longrightarrow> is_dir (r_t r) \<Longrightarrow> rootPathLoop r p w = Some q \<Longrightarrow>
   \<exists>segs. components segs \<and> q = abs_path segs \<and> straight (r_t r) segs"
proof (induction r p w rule: rootPathLoop.induct)
  case (1 r p w)
  obtain res w' r' where wl: "walkLinks r p w = (res, w', r')" by (metis prod_cases3)
  with 1(4) obtain nxt where res: "res = Some nxt"
    by (cases res) (simp_all add: rootPathLoop.simps [of r p])
  have r': "table_ok r'" "r_t r' = r_t r" using walkLinks_ok [OF 1(2) wl] by blast+
  show ?case
  proof (cases "w' = w")
    case True
    with 1(4) wl res have "q = path_clean (''/'' @ nxt)" by (simp add: rootPathLoop.simps [of r p])
    with True walkLinks_straight [OF 1(2,3)] wl res show ?thesis by fastforce
  next
    case False
    with 1(4) wl res have "rootPathLoop r' nxt w' = Some q" by (simp add: rootPathLoop.simps [of r p])
    with 1(1) [OF wl [symmetric] res refl False] r' 1(3) show ?thesis by simp
  qed
qed

text \<open>The walk that looks for links keeps the directories of the components cleaned so far.\<close>

inductive chain :: "fsNode \<Rightarrow> string list \<Rightarrow> fsNode option list \<Rightarrow> bool" for t where
  chain_root: "chain t [] [Some t]"
| chain_down: "chain t out (d # dirs) \<Longrightarrow> component s \<Longrightarrow>
    n = (case d of None \<Rightarrow> None | Some m \<Rightarrow> child m s) \<Longrightarrow> (\<forall>m. n = Some m \<longrightarrow> is_dir m) \<Longrightarrow>
    chain t (s # out) (n # d # dirs)"

inductive_cases chain_NilE: "chain t [] dirs"
inductive_cases chain_ConsE: "chain t (s # out) dirs"

lemma chain_nonempty: "chain t out dirs \<Longrightarrow> dirs \<noteq> [] \<and> length dirs = Suc (length out)"
  by (induction rule: chain.induct) simp_all

lemma chain_straight:
  "chain t out dirs \<Longrightarrow> is_dir t \<Longrightarrow>
   components out \<and> straight t (rev out) \<and> hd dirs = node_at (rev out) t"
proof (induction rule: chain.induct)
  case chain_root
  then show ?case by (cases t) simp_all
next
  case (chain_down out d dirs s n)
  then have IH: "components out" "straight t (rev out)" "d = node_at (rev out) t" by simp_all
  have n: "n = node_at (rev out @ [s]) t"
    using chain_down(3) IH(3) by (auto simp: node_at_append split: option.splits)
  with chain_down(4) have "case node_at (rev out @ [s]) t of Some (Symlink l) \<Rightarrow> False | _ \<Rightarrow> True"
    by (auto split: option.splits fsNode.splits)
  with IH n chain_down(2) show ?case by (simp add: straight_snoc)
qed

lemma crossesLoop_chain:
  "chain t out dirs \<Longrightarrow> list_all (\<lambda>s. CHR ''/'' \<notin> set s) segs \<Longrightarrow> \<not> crossesLoop dirs segs \<Longrightarrow>
   \<exists>dirs'. chain t (foldl (clean_step True) out segs) dirs'"
proof (induction segs arbitrary: out dirs)
  case (Cons seg segs)
  consider "seg = [] \<or> seg = ''.''" | "seg = ''..''" | "component seg"
    using Cons.prems(2) unfolding component_def by auto
  then show ?case
  proof cases
    case 1
    with Cons show ?thesis by (auto simp: clean_step.simps)
  next
    case 2
    have "chain t (clean_step True out seg) (if length dirs > 1 then tl dirs else dirs)"
    proof (cases out)
      case Nil
      with Cons.prems(1) 2 show ?thesis by (auto simp: clean_step.simps elim: chain_NilE intro: chain_root)
    next
      case (Cons s rest)
      with \<open>chain t out dirs\<close> 2 show ?thesis by (auto simp: clean_step.simps elim: chain_ConsE)
    qed
    with Cons 2 show ?thesis by simp
  next
    case 3
    obtain d ds where dirs: "dirs = d # ds" using chain_nonempty [OF Cons.prems(1)] by (cases dirs) auto
    define n where "n = (case d of None \<Rightarrow> None | Some m \<Rightarrow> child m seg)"
    have cr: "\<not> crossesLoop (n # dirs) segs" "\<forall>m. n = Some m \<longrightarrow> is_dir m"
      using Cons.prems(3) component_neq [OF 3]
      by (auto simp: dirs n_def [symmetric] Let_def split: option.splits fsNode.splits)
    have "chain t (seg # out) (n # dirs)"
      using Cons.prems(1) 3 cr(2) unfolding dirs by (intro chain_down) (simp_all add: n_def)
    with Cons.IH [OF this _ cr(1)] Cons.prems(2) 3 show ?thesis by simp
  qed
qed auto

lemma rootPath_resolved:
  assumes "is_dir t" "rootPath t p = Some q"
  shows "\<exists>segs. components segs \<and> q = abs_path segs \<and> straight t segs"
proof -
  have base: "straight t []" using assms(1) by (cases t) simp_all
  consider "p = []" | "p \<noteq> []" "\<not> crossesSymlink t p" | "p \<noteq> []" "crossesSymlink t p" by blast
  then show ?thesis
  proof cases
    case 1
    with assms base show ?thesis by (intro exI [of _ "[]"]) (simp add: rootPath_def)
  next
    case 2
    obtain dirs where "chain t (foldl (clean_step True) [] (split_on CHR ''/'' p)) dirs"
      using crossesLoop_chain [OF chain_root split_on_slashless] 2 by (auto simp: crossesSymlink_def)
    from chain_straight [OF this assms(1)] have "straight t (clean_segs True (split_on CHR ''/'' p))"
      by (simp add: clean_segs_def)
    with assms 2 show ?thesis
      by (intro exI [of _ "clean_segs True (split_on CHR ''/'' p)"])
         (simp add: rootPath_def path_clean_rooted)
  next
    case 3
    with assms rootPathLoop_straight [of "newResolver t" p 0] show ?thesis
      by (simp add: rootPath_def)
  qed
qed

end
