(* ===== verification/Overlay_Extract.thy ===== *)
theory Overlay_Extract
  imports Overlay_Lookup
begin

text \<open>
  What extracting an entry does to the tree: an entry is placed at the path its parent
  resolves to, through real directories only, and nothing else that the tree already shows
  changes; stacking and walking the result is determined by what the trees show.
\<close>

section \<open>Assignments through a place in the tree\<close>

lemma view_put:
  "is_dir t \<Longrightarrow> view (put s c t) q = (case q of [] \<Rightarrow> Some (shape t)
     | s' # q' \<Rightarrow> if s' = s then view c q' else view t q)"
  by (cases q) simp_all

lemma view_at_loc:
  assumes "node_at loc t = Some d" "is_dir d"
  shows "view (at_loc loc (put base c) t) q =
    (if prefix (loc @ [base]) q then view c (drop (Suc (length loc)) q) else view t q)"
  using assms
proof (induction loc arbitrary: t q)
  case Nil
  then show ?case by (cases q) (simp_all add: view_put)
next
  case (Cons s loc)
  then obtain n where n: "child t s = Some n" "node_at loc n = Some d"
    by (auto split: option.splits)
  then have "is_dir t" using child_is_dir by blast
  with Cons n show ?case by (cases q) (simp_all add: view_put)
qed

lemma view_is_dir_prefix: "view t (q @ r) \<noteq> None \<Longrightarrow> view t q \<noteq> None"
  by (induction q arbitrary: t) (auto split: option.splits)

section \<open>Making the parent directories\<close>

lemma mkparentLoop_frame:
  "is_dir cur \<Longrightarrow> mkparentLoop lowers rs at segs cur = (n, loc) \<Longrightarrow> view cur q \<noteq> None \<Longrightarrow>
   view n q = view cur q"
proof (induction segs arbitrary: rs at cur n loc q)
  case (Cons seg segs)
  show ?case
  proof (cases "seg = []")
    case True
    with Cons.prems(2) have "mkparentLoop lowers rs at segs cur = (n, loc)" by simp
    from Cons.IH [OF Cons.prems(1) this Cons.prems(3)] show ?thesis .
  next
    case False
    from Cons.prems(2) False show ?thesis
    proof (cases rule: mkparentLoop_cases)
      case refused
      then show ?thesis by simp
    next
      case (descended rs' a cs m l)
      have "view m q' = view (Dir a cs) q'" if "view (Dir a cs) q' \<noteq> None" for q'
        using Cons.IH [OF _ descended(1) that] by simp
      with descended(2,4) Cons.prems(1,3) show ?thesis
        by (cases q) (auto simp: view_put split: option.splits)
    qed
  qed
qed simp

lemma mkparentLoop_made:
  "is_dir cur \<Longrightarrow> mkparentLoop lowers rs at segs cur = (n, Some loc) \<Longrightarrow>
   loc = filter (\<lambda>s. s \<noteq> []) segs
   \<and> (\<exists>d. node_at loc n = Some d \<and> is_dir d)
   \<and> (\<forall>q. view n q \<noteq> None \<longrightarrow> view cur q \<noteq> None \<or> prefix q loc)"
proof (induction segs arbitrary: rs at cur n loc)
  case (Cons seg segs)
  show ?case
  proof (cases "seg = []")
    case True
    with Cons.prems(2) have "mkparentLoop lowers rs at segs cur = (n, Some loc)" by simp
    from Cons.IH [OF Cons.prems(1) this] True show ?thesis by auto
  next
    case False
    from Cons.prems(2) False show ?thesis
    proof (cases rule: mkparentLoop_cases)
      case (descended rs' a cs m l)
      then obtain loc' where l: "l = Some loc'" "loc = seg # loc'" by (cases l) auto
      from Cons.IH [OF _ descended(1) [unfolded l]]
      have IH: "loc' = filter (\<lambda>s. s \<noteq> []) segs" "\<exists>d. node_at loc' m = Some d \<and> is_dir d"
        "\<And>q. view m q \<noteq> None \<Longrightarrow> view (Dir a cs) q \<noteq> None \<or> prefix q loc'" by auto
      have "view cur q \<noteq> None \<or> prefix q loc" if q: "view n q \<noteq> None" for q
      proof (cases q)
        case (Cons s q')
        show ?thesis
        proof (cases "s = seg")
          case True
          with q Cons descended(2) Cons.prems(1) have "view m q' \<noteq> None" by (simp add: view_put)
          from IH(3) [OF this] descended(4) True Cons l(2) show ?thesis by (cases q') auto
        next
          case False
          with q Cons descended(2) Cons.prems(1) show ?thesis by (simp add: view_put)
        qed
      qed simp
      with IH(1,2) l False descended(2) Cons.prems(1) show ?thesis by simp
    qed simp
  qed
qed simp
lemma mkparent_made:
  assumes "is_dir t" "components segs" "mkparent t lowers (abs_path segs) = (t', Some loc)"
  shows "loc = segs" "\<exists>d. node_at segs t' = Some d \<and> is_dir d"
    "view t' q \<noteq> None \<Longrightarrow> view t q \<noteq> None \<or> prefix q segs"
    "view t q \<noteq> None \<Longrightarrow> view t' q = view t q"
proof -
  have m: "mkparentLoop lowers (replicate (length lowers) None) [] (split_on CHR ''/'' (abs_path segs)) t
      = (t', Some loc)"
    using assms(3) by (simp add: mkparent_def)
  have "filter (\<lambda>s. s \<noteq> []) segs = segs"
    using assms(2) by (simp add: components_def list_all_iff filter_id_conv)
  then have "filter (\<lambda>s. s \<noteq> []) (split_on CHR ''/'' (abs_path segs)) = segs"
    using assms(2) by (cases "segs = []") (simp_all add: split_abs_path)
  with mkparentLoop_made [OF assms(1) m]
  show "loc = segs" "\<exists>d. node_at segs t' = Some d \<and> is_dir d"
    "view t' q \<noteq> None \<Longrightarrow> view t q \<noteq> None \<or> prefix q segs" by auto
  show "view t q \<noteq> None \<Longrightarrow> view t' q = view t q"
    by (rule mkparentLoop_frame [OF assms(1) m])
qed

section \<open>Placing an entry\<close>

text \<open>The entries that put a new leaf at their own path: neither a whiteout nor an opaque
  marker by name, and neither a directory, a link nor a global header by type.\<close>

definition plain_file :: "tar_header \<Rightarrow> bool" where
  "plain_file hdr \<longleftrightarrow>
     \<not> has_prefix (snd (path_split (path_clean (h_Name hdr)))) ''.wh.''
     \<and> h_Typeflag hdr \<notin> {TypeXGlobalHeader, TypeChar, TypeDir, TypeSymlink, TypeLink}"

definition skipped :: "tar_header \<Rightarrow> bool" where
  "skipped hdr \<longleftrightarrow> path_clean (h_Name hdr) \<in> {''.'', ''/''} \<or> path_base (path_clean (h_Name hdr)) = ''..''"

lemma extract_parent:
  assumes "is_dir t" "\<not> skipped hdr" "extract_entry t lowers hdr = (t', True)"
    and "path_split (path_clean (h_Name hdr)) = (dr, base)"
  obtains segs m where "components segs" "rootPath t dr = Some (abs_path segs)" "straight t segs"
    "mkparent t lowers (abs_path segs) = (m, Some segs)" "placeEntry m segs base hdr = (t', True)"
proof -
  have ns: "\<not> (path_clean (h_Name hdr) = ''.'' \<or> path_clean (h_Name hdr) = ''/''
      \<or> path_base (path_clean (h_Name hdr)) = ''..'')"
    using assms(2) by (simp add: skipped_def)
  from assms(3,4) ns obtain p m loc where
    p: "rootPath t dr = Some p" "mkparent t lowers p = (m, Some loc)" "placeEntry m loc base hdr = (t', True)"
    by (auto simp: extract_entry_def Let_def split: if_splits option.splits prod.splits)
  moreover from rootPath_resolved [OF assms(1) p(1)] obtain segs where
    segs: "components segs" "p = abs_path segs" "straight t segs" by blast
  moreover have "loc = segs" using mkparent_made(1) [OF assms(1) segs(1)] p(2) segs(2) by blast
  ultimately show thesis using that by blast
qed

lemma placeEntry_plain:
  assumes "plain_file hdr" "path_split (path_clean (h_Name hdr)) = (dr, base)"
  shows "placeEntry m loc base hdr = (at_loc loc (put base File) m, True)"
proof -
  have nw: "\<not> has_prefix base ''.wh.''" using assms by (simp add: plain_file_def)
  then have "base \<noteq> ''.wh..wh..opq''" by (auto simp: has_prefix_def)
  with nw assms(1) show ?thesis by (simp add: placeEntry_def plain_file_def Let_def)
qed

lemma plain_file_placed:
  assumes "is_dir t" "\<not> skipped hdr" "plain_file hdr" "extract_entry t lowers hdr = (t', True)"
    and "path_split (path_clean (h_Name hdr)) = (dr, base)"
  shows "\<exists>segs. rootPath t dr = Some (abs_path segs) \<and> straight t segs
    \<and> view t' (segs @ [base]) = Some File
    \<and> (\<forall>q. view t q \<noteq> None \<and> \<not> prefix (segs @ [base]) q \<longrightarrow> view t' q = view t q)
    \<and> (\<forall>q. view t' q \<noteq> None \<longrightarrow> view t q \<noteq> None \<or> prefix q (segs @ [base]))"
proof -
  obtain segs m where s: "components segs" "rootPath t dr = Some (abs_path segs)" "straight t segs"
    "mkparent t lowers (abs_path segs) = (m, Some segs)" "placeEntry m segs base hdr = (t', True)"
    using extract_parent [OF assms(1,2,4,5)] .
  note made = mkparent_made [OF assms(1) s(1,4)]
  obtain d where d: "node_at segs m = Some d" "is_dir d" using made(2) by blast
  have t': "t' = at_loc segs (put base File) m"
    using s(5) placeEntry_plain [OF assms(3,5)] by simp
  have v: "view t' q = (if prefix (segs @ [base]) q then view File (drop (Suc (length segs)) q) else view m q)" for q
    using view_at_loc [OF d] by (simp add: t')
  have "view t' (segs @ [base]) = Some File" by (simp add: v)
  moreover have "view t' q = view t q" if "view t q \<noteq> None" "\<not> prefix (segs @ [base]) q" for q
    using that made(4) by (simp add: v)
  moreover have "view t q \<noteq> None \<or> prefix q (segs @ [base])" if q: "view t' q \<noteq> None" for q
  proof (cases "prefix (segs @ [base]) q")
    case True
    then obtain r where r: "q = (segs @ [base]) @ r" by (auto simp: prefix_def)
    with q v [of q] have "r = []" by (auto split: if_splits)
    with r show ?thesis by simp
  next
    case False
    with q made(3) [of q] v [of q] show ?thesis by (auto simp: prefix_snoc)
  qed
  ultimately show ?thesis using s(2,3) by blast
qed

section \<open>The walk is a fold over the entries in preorder\<close>

text \<open>A callback run over a list of entries, stopping at the first error.\<close>

fun rfold :: "('s \<Rightarrow> 'a \<Rightarrow> 'e + 's) \<Rightarrow> 's \<Rightarrow> 'a list \<Rightarrow> 'e + 's" where
  "rfold fn s [] = Inr s"
| "rfold fn s (x # xs) = (case fn s x of Inl e \<Rightarrow> Inl e | Inr s' \<Rightarrow> rfold fn s' xs)"

lemma rfold_append:
  "rfold fn s (xs @ ys) = (case rfold fn s xs of Inl e \<Rightarrow> Inl e | Inr s' \<Rightarrow> rfold fn s' ys)"
  by (induction xs arbitrary: s) (auto split: sum.splits)

lemma child_size: "child n s = Some c \<Longrightarrow> size c < size n"
proof (cases n)
  case (Dir a cs)
  assume "child n s = Some c"
  with Dir map_of_size [of cs s c] show ?thesis by simp
qed simp_all

function preorder :: "fsNode \<Rightarrow> string \<Rightarrow> nat \<Rightarrow> entry list" where
  "preorder n nm depth =
     entry_of n nm depth #
     concat (map (\<lambda>s. case child n s of None \<Rightarrow> [] | Some c \<Rightarrow> preorder c s (depth + 1))
               (sort (map fst (children n))))"
  by pat_completeness auto
termination
  by (relation "measure (\<lambda>(n, nm, depth). size n)") (auto dest: child_size)

declare preorder.simps [simp del]

lemma walk_rfold:
  fixes fn :: "'s \<Rightarrow> entry \<Rightarrow> 'e + 's"
  shows "walk fn s n nm depth = rfold fn s (preorder n nm depth)"
    and "walkNames fn s cs names depth =
      rfold fn s (concat (map (\<lambda>x. case map_of cs x of None \<Rightarrow> [] | Some c \<Rightarrow> preorder c x (depth + 1)) names))"
proof (induction fn s n nm depth and fn s cs names depth rule: walk_walkNames.induct)
  case (1 fn s n nm depth)
  then show ?case
    by (auto simp: walk.simps preorder.simps [of n] split: sum.splits fsNode.splits)
next
  case (3 fn s cs c names depth)
  then show ?case
    by (auto simp: walkNames.simps rfold_append split: option.splits sum.splits)
qed (simp add: walkNames.simps)

lemma view_eq_child:
  assumes "\<And>p. view t p = view t' p"
  shows "(child t s = None) = (child t' s = None)"
    and "child t s = Some c \<Longrightarrow> child t' s = Some c' \<Longrightarrow> view c p = view c' p"
proof -
  show "(child t s = None) = (child t' s = None)"
    using assms [of "[s]"] by (auto split: option.splits)
  show "child t s = Some c \<Longrightarrow> child t' s = Some c' \<Longrightarrow> view c p = view c' p"
    using assms [of "s # p"] by simp
qed

lemma children_keys: "fst ` set (children t) = {s. child t s \<noteq> None}"
  by (cases t) (auto simp: map_of_eq_None_iff)

lemma sorted_keys_eq:
  assumes "wf_node t" "wf_node t'" "\<And>s. (child t s = None) = (child t' s = None)"
  shows "sort (map fst (children t)) = sort (map fst (children t'))"
proof -
  have "distinct (map fst (children t))" "distinct (map fst (children t'))"
    using assms(1,2) by (cases t; cases t'; simp)+
  moreover have "set (map fst (children t)) = set (map fst (children t'))"
    using assms(3) by (simp add: children_keys)
  ultimately show ?thesis
    by (metis distinct_sort set_sort sorted_distinct_set_unique sorted_sort)
qed

lemma preorder_view:
  assumes "wf_node t" "wf_node t'" "\<And>p. view t p = view t' p"
  shows "preorder t nm d = preorder t' nm d"
  using assms
proof (induction t nm d arbitrary: t' rule: preorder.induct)
  case (1 t nm d)
  have keys: "sort (map fst (children t)) = sort (map fst (children t'))"
    using sorted_keys_eq [OF 1(2,3)] view_eq_child(1) [OF 1(4)] by blast
  have "shape t = shape t'" using 1(4) [of "[]"] by simp
  then have e: "entry_of t nm d = entry_of t' nm d"
    by (cases t; cases t') (simp_all add: entry_of_def)
  have "(case child t s of None \<Rightarrow> [] | Some c \<Rightarrow> preorder c s (d + 1))
      = (case child t' s of None \<Rightarrow> [] | Some c \<Rightarrow> preorder c s (d + 1))"
    if "s \<in> set (sort (map fst (children t)))" for s
  proof (cases "child t s")
    case None
    then have "child t' s = None" using view_eq_child(1) [OF 1(4)] by blast
    with None show ?thesis by simp
  next
    case (Some c)
    then obtain c' where c': "child t' s = Some c'"
      using view_eq_child(1) [OF 1(4), of s] by (cases "child t' s") simp_all
    have "preorder c s (d + 1) = preorder c' s (d + 1)"
      using 1(1) [OF that Some] wf_child [OF 1(2) Some] wf_child [OF 1(3) c']
        view_eq_child(2) [OF 1(4) Some c'] by blast
    with Some c' show ?thesis by simp
  qed
  then have "map (\<lambda>s. case child t s of None \<Rightarrow> [] | Some c \<Rightarrow> preorder c s (d + 1)) (sort (map fst (children t)))
      = map (\<lambda>s. case child t' s of None \<Rightarrow> [] | Some c \<Rightarrow> preorder c s (d + 1)) (sort (map fst (children t')))"
    using keys by (intro map_cong) simp_all
  with e show ?case by (simp add: preorder.simps [of t] preorder.simps [of t'])
qed

section \<open>Dangling links\<close>

text \<open>Going down a path literally, with the directories passed on the way, the last first.\<close>

fun below :: "fsNode list \<Rightarrow> fsNode \<Rightarrow> string list \<Rightarrow> (fsNode list \<times> fsNode) option" where
  "below dirs n [] = Some (dirs, n)"
| "below dirs n (s # segs) = (case child n s of None \<Rightarrow> None | Some c \<Rightarrow> below (n # dirs) c segs)"

lemma below_leaf [simp]:
  "below dirs File segs = (if segs = [] then Some (dirs, File) else None)"
  "below dirs (Symlink l) segs = (if segs = [] then Some (dirs, Symlink l) else None)"
  "below dirs Whiteout segs = (if segs = [] then Some (dirs, Whiteout) else None)"
  by (cases segs; simp)+

definition slashed :: "string list \<Rightarrow> string" where
  "slashed segs = concat (map (\<lambda>s. ''/'' @ s) segs)"

definition dangles :: "fsNode \<Rightarrow> fsNode list \<Rightarrow> fsNode \<Rightarrow> string list \<Rightarrow> string \<Rightarrow> bool" where
  "dangles root dirs n segs l \<longleftrightarrow>
     (case below dirs n segs of
        Some (ds, Symlink l') \<Rightarrow> l' = l \<and> lookup root ds l 1 = None
      | _ \<Rightarrow> False)"

lemma slashed_simps [simp]: "slashed [] = []" "slashed (s # segs) = ''/'' @ s @ slashed segs"
  by (simp_all add: slashed_def)

lemma conj_absorb_left: "(A \<Longrightarrow> B) \<Longrightarrow> B \<and> A \<longleftrightarrow> A"
  by blast

lemma ex_insert:
  "(\<exists>b c. P k b c) \<or> (\<exists>a b c. a \<in> K \<and> P a b c) \<longleftrightarrow> (\<exists>a b c. (a = k \<or> a \<in> K) \<and> P a b c)"
  by blast

lemma ex_list_Cons:
  "(\<And>l. \<not> Q [] l) \<Longrightarrow> (\<exists>xs l. Q xs l) \<longleftrightarrow> (\<exists>x xs l. Q (x # xs) l)"
  by (metis list.exhaust)

lemma walkDangling_set:
  assumes "wf_forest cs" "set cs \<subseteq> {(s, c). child d s = Some c}"
  shows "x \<in> set (walkDangling root (d # dirs) dp cs) \<longleftrightarrow>
     (\<exists>s segs l. s \<in> fst ` set cs \<and> dangles root dirs d (s # segs) l
        \<and> x = \<lparr>s_Path = dp @ slashed (s # segs), s_Target = l\<rparr>)"
  using assms
proof (induction root "d # dirs" dp cs arbitrary: d dirs rule: walkDangling.induct)
  case (2 root dp nm n rest)
  have wf: "wf_node n" "wf_forest rest" using 2(3) by (simp_all add: wf_forest_def)
  have nm: "child d nm = Some n" using 2(4) by simp
  have rest: "x \<in> set (walkDangling root (d # dirs) dp rest) \<longleftrightarrow>
     (\<exists>s segs l. s \<in> fst ` set rest \<and> dangles root dirs d (s # segs) l
        \<and> x = \<lparr>s_Path = dp @ slashed (s # segs), s_Target = l\<rparr>)"
    using 2(2) [OF refl wf(2)] 2(4) by simp
  have head: "x \<in> set (case n of
         Dir a cs \<Rightarrow> walkDangling root (Dir a cs # d # dirs) (dp @ ''/'' @ nm) cs
       | Symlink l \<Rightarrow>
           if lookup root (d # dirs) l 1 = None then [\<lparr>s_Path = dp @ ''/'' @ nm, s_Target = l\<rparr>] else []
       | _ \<Rightarrow> []) \<longleftrightarrow>
     (\<exists>segs l. dangles root dirs d (nm # segs) l
        \<and> x = \<lparr>s_Path = dp @ slashed (nm # segs), s_Target = l\<rparr>)"
  proof (cases n)
    case (Dir a cs)
    have cs: "wf_forest cs" using wf(1) Dir by (simp add: wf_Dir del: wf_node.simps(1))
    then have "set cs \<subseteq> {(s, c). child (Dir a cs) s = Some c}"
      by (auto simp: wf_forest_def)
    note IH = 2(1) [OF refl Dir cs this]
    have keys: "s \<in> fst ` set cs" if "dangles root (d # dirs) (Dir a cs) (s # segs) l" for s segs l
      using that by (auto simp: dangles_def split: option.splits dest: map_of_SomeD intro: rev_image_eqI)
    define F where "F s segs l = \<lparr>s_Path = dp @ slashed (nm # s # segs), s_Target = l\<rparr>"
      for s :: string and segs :: "string list" and l :: string
    have F: "\<lparr>s_Path = (dp @ ''/'' @ nm) @ slashed (s # segs), s_Target = l\<rparr> = F s segs l" for s segs l
      by (simp add: F_def)
    have "x \<in> set (walkDangling root (Dir a cs # d # dirs) (dp @ ''/'' @ nm) cs) \<longleftrightarrow>
      (\<exists>s segs l. dangles root (d # dirs) (Dir a cs) (s # segs) l
        \<and> x = \<lparr>s_Path = dp @ slashed (nm # s # segs), s_Target = l\<rparr>)"
      unfolding F_def [symmetric] IH [unfolded F] conj_assoc [symmetric]
      using keys by (simp only: conj_absorb_left)
    also have "\<dots> \<longleftrightarrow> (\<exists>segs l. dangles root (d # dirs) (Dir a cs) segs l
        \<and> x = \<lparr>s_Path = dp @ slashed (nm # segs), s_Target = l\<rparr>)"
      by (rule ex_list_Cons [symmetric]) (simp add: dangles_def)
    finally show ?thesis
      using nm Dir by (simp add: dangles_def)
  next
    case (Symlink l)
    with nm show ?thesis by (auto simp: dangles_def)
  qed (use nm in \<open>auto simp: dangles_def\<close>)
  have keys: "fst ` set ((nm, n) # rest) = insert nm (fst ` set rest)" by simp
  show ?case
    unfolding walkDangling.simps Let_def set_append Un_iff head rest keys insert_iff
    by (rule ex_insert)
qed simp

section \<open>Properties\<close>

text \<open>A small image: a layer with a file, a link to nothing and a link to a directory, and a
  header for a file behind that link.\<close>

definition fileHeader :: "string \<Rightarrow> tar_header" where
  "fileHeader nm = \<lparr>h_Name = nm, h_Linkname = [], h_Typeflag = TypeReg, h_Mode = 420, h_Uid = 0,
     h_Gid = 0, h_Devmajor = 0, h_Devminor = 0\<rparr>"

definition linkHeader :: "string \<Rightarrow> string \<Rightarrow> tar_header" where
  "linkHeader nm target = (fileHeader nm)\<lparr>h_Typeflag := TypeSymlink, h_Linkname := target\<rparr>"

definition exampleLayer :: layer where
  "exampleLayer =
     foldl (\<lambda>l hdr. fst (Add l hdr)) (NewLayer New)
       [fileHeader ''a/b'', linkHeader ''a/l'' ''missing'', linkHeader ''k'' ''a'']"

definition exampleFS :: FS where
  "exampleFS = Apply New exampleLayer"

lemma building_add: "building fs l \<Longrightarrow> building fs (fst (Add l hdr))"
  by (metis add_entry prod.collapse)

lemma building_example: "building New exampleLayer"
  unfolding exampleLayer_def by (simp add: building_add begin_layer fresh)

lemma reachable_example: "reachable exampleFS"
  unfolding exampleFS_def by (rule apply_layer [OF building_example])

text \<open>Property C33. Every filesystem built by starting layers, adding entries in any order and
  number (refused ones included) and applying the layers is well formed: its root, and the
  root of every layer below it, is a directory, and no directory of any of these trees holds
  two entries of the same name or an entry whose name is empty or contains a slash.\<close>

theorem extraction_keeps_well_formed:
  assumes "building fs l"
  shows "wf_fs fs \<and> wf_layer l \<and> wf_fs (Apply fs l)"
  using building_wf [OF assms] reachable_wf [OF apply_layer [OF assms]] by blast

theorem extraction_keeps_well_formed_witness:
  "wf_fs New \<and> wf_layer exampleLayer \<and> wf_fs (Apply New exampleLayer)"
  using extraction_keeps_well_formed [OF building_example] .

text \<open>Property C11. Applying a layer to a filesystem shows, at every path, what an overlay of
  the layer over the filesystem shows: what the layer has there and is no directory; where
  it has a directory, that directory with the layer's metadata where the layer states it, and
  otherwise the metadata of the directory it covers; and where the layer has nothing, what
  was there before, unless the layer has an opaque directory or something that is no
  directory above the path.\<close>

theorem apply_is_overlay:
  assumes "building fs l"
  shows "view (fs_root (Apply fs l)) p = overlay_view (fs_root fs) (l_root l) p"
  using building_wf [OF assms] stack_view [of "fs_root fs" "l_root l" p]
  by (simp add: Apply_def wf_fs_def wf_layer_def)

theorem apply_is_overlay_witness:
  "view (fs_root (Apply New exampleLayer)) [''a'', ''b'']
   = overlay_view (fs_root New) (l_root exampleLayer) [''a'', ''b'']"
  using apply_is_overlay [OF building_example] .

text \<open>Property C31. The resolver's \<open>dir\<close>, which goes up to the parent directory and remembers
  every answer, gives on a clean absolute path exactly what one kernel lookup of the whole
  path gives, and leaves a table of which the same is true; in particular it returns on every
  such path.\<close>

theorem resolver_is_lookup:
  assumes "components segs" "table_ok r" "dir r (abs_path segs) = (res, r')"
  shows "res = hostLookup (r_t r) (abs_path segs) \<and> table_ok r' \<and> r_t r' = r_t r"
  using dir_hostLookup [OF assms(1,2)] assms(3) by auto

theorem resolver_is_lookup_witness:
  "fst (dir (newResolver (fs_root exampleFS)) ''/k/l'') = hostLookup (fs_root exampleFS) ''/k/l''"
  using resolver_is_lookup [of "[''k'', ''l'']" "newResolver (fs_root exampleFS)"
      "fst (dir (newResolver (fs_root exampleFS)) ''/k/l'')" "snd (dir (newResolver (fs_root exampleFS)) ''/k/l'')"]
  by (simp add: component_def abs_path_def)

text \<open>Property C27. A path that \<open>rootPath\<close> returns is a clean absolute path, and walking it from
  the root of the tree meets no symbolic link, the last component included: every link on the
  way has been expanded, whichever of the two routes was taken.\<close>

theorem resolved_path_has_no_link:
  assumes "is_dir t" "rootPath t p = Some q"
  shows "\<exists>segs. components segs \<and> q = abs_path segs \<and> straight t segs"
  using rootPath_resolved [OF assms] .

theorem resolved_path_has_no_link_witness:
  "rootPath (fs_root exampleFS) ''k/../k/c'' = Some ''/a/c''
   \<and> (\<exists>segs. components segs \<and> ''/a/c'' = abs_path segs \<and> straight (fs_root exampleFS) segs)"
proof -
  have "rootPath (fs_root exampleFS) ''k/../k/c'' = Some ''/a/c''" "is_dir (fs_root exampleFS)"
    by code_simp+
  with resolved_path_has_no_link show ?thesis by blast
qed

text \<open>When the extractor accepts an entry for an ordinary file, the file is at its
  base name in the directory its parent path resolves to, reached through real directories
  only; everything else the tree showed is shown unchanged, except below the entry's own path;
  and nothing is added but the file and the directories that lead to it.\<close>

theorem extracted_file_placed:
  assumes "is_dir t" "\<not> skipped hdr" "plain_file hdr" "extract_entry t lowers hdr = (t', True)"
    and "path_split (path_clean (h_Name hdr)) = (dr, base)"
  shows "\<exists>segs. rootPath t dr = Some (abs_path segs) \<and> straight t segs
    \<and> view t' (segs @ [base]) = Some File
    \<and> (\<forall>q. view t q \<noteq> None \<and> \<not> prefix (segs @ [base]) q \<longrightarrow> view t' q = view t q)
    \<and> (\<forall>q. view t' q \<noteq> None \<longrightarrow> view t q \<noteq> None \<or> prefix q (segs @ [base]))"
  using plain_file_placed [OF assms] .

theorem extracted_file_placed_witness:
  "snd (extract_entry (fs_root exampleFS) [] (fileHeader ''k/c''))
   \<and> (\<exists>segs. view (fst (extract_entry (fs_root exampleFS) [] (fileHeader ''k/c''))) (segs @ [''c'']) = Some File)"
proof -
  have "is_dir (fs_root exampleFS)" "\<not> skipped (fileHeader ''k/c'')"
    "plain_file (fileHeader ''k/c'')" "snd (extract_entry (fs_root exampleFS) [] (fileHeader ''k/c''))"
    "path_split (path_clean (h_Name (fileHeader ''k/c''))) = (''k/'', ''c'')"
    by code_simp+
  with extracted_file_placed [of "fs_root exampleFS" "fileHeader ''k/c''" "[]"
      "fst (extract_entry (fs_root exampleFS) [] (fileHeader ''k/c''))" "''k/''" "''c''"]
  show ?thesis by (metis prod.collapse)
qed

text \<open>\<open>Walk\<close> depends on nothing but what the filesystem shows: over two well-formed
  filesystems that show the same at every path, the callback is called with the same entries
  in the same order and the walk gives the same result, whatever order the directories' maps
  are kept in.\<close>

theorem walk_deterministic:
  assumes "wf_fs fs" "wf_fs fs'" "\<And>p. view (fs_root fs) p = view (fs_root fs') p"
  shows "Walk fs fn s = Walk fs' fn s"
  using assms by (simp add: Walk_def walk_rfold wf_fs_def preorder_view [of "fs_root fs" "fs_root fs'"])

theorem walk_deterministic_witness:
  "Walk (New\<lparr>fs_root := Dir newAttr [(''x'', File), (''y'', Whiteout)]\<rparr>)
     (\<lambda>es e. Inr (es @ [e]) :: unit + entry list) []
   = Walk (New\<lparr>fs_root := Dir newAttr [(''y'', Whiteout), (''x'', File)]\<rparr>) (\<lambda>es e. Inr (es @ [e])) []"
proof (rule walk_deterministic)
  show "wf_fs (New\<lparr>fs_root := Dir newAttr [(''x'', File), (''y'', Whiteout)]\<rparr>)"
    "wf_fs (New\<lparr>fs_root := Dir newAttr [(''y'', Whiteout), (''x'', File)]\<rparr>)" by code_simp+
  show "view (fs_root (New\<lparr>fs_root := Dir newAttr [(''x'', File), (''y'', Whiteout)]\<rparr>)) p
      = view (fs_root (New\<lparr>fs_root := Dir newAttr [(''y'', Whiteout), (''x'', File)]\<rparr>)) p" for p
    by (cases p) auto
qed

text \<open>Property C32. \<open>DanglingSymlinks\<close> lists exactly the symbolic links of the stacked tree whose
  target the kernel's lookup, started in the link's directory with one expansion already spent,
  does not reach; the list is sorted by path.\<close>

theorem dangling_exact:
  assumes "reachable fs"
  shows "set (DanglingSymlinks fs) =
      {\<lparr>s_Path = slashed segs, s_Target = l\<rparr> | segs l. dangles (fs_root fs) [] (fs_root fs) segs l}
    \<and> sorted (map s_Path (DanglingSymlinks fs))"
proof -
  have wf: "wf_node (fs_root fs)" "is_dir (fs_root fs)"
    using reachable_wf [OF assms] by (simp_all add: wf_fs_def)
  then obtain a cs where t: "fs_root fs = Dir a cs" by (cases "fs_root fs") simp_all
  have cs: "wf_forest cs" "set cs \<subseteq> {(s, c). child (Dir a cs) s = Some c}"
    using wf(1) t by (auto simp: wf_forest_def)
  have keys: "s \<in> fst ` set cs" if "dangles (Dir a cs) [] (Dir a cs) (s # segs) l" for s segs l
    using that by (auto simp: dangles_def split: option.splits dest: map_of_SomeD intro: rev_image_eqI)
  have "x \<in> set (DanglingSymlinks fs) \<longleftrightarrow>
      (\<exists>segs l. dangles (Dir a cs) [] (Dir a cs) segs l \<and> x = \<lparr>s_Path = slashed segs, s_Target = l\<rparr>)" for x
  proof -
    have "x \<in> set (DanglingSymlinks fs) \<longleftrightarrow>
      (\<exists>s segs l. dangles (Dir a cs) [] (Dir a cs) (s # segs) l
         \<and> x = \<lparr>s_Path = slashed (s # segs), s_Target = l\<rparr>)"
      unfolding DanglingSymlinks_def set_sort t children.simps walkDangling_set [OF cs] append_Nil
        conj_assoc [symmetric]
      using keys by (simp only: conj_absorb_left)
    also have "\<dots> \<longleftrightarrow> (\<exists>segs l. dangles (Dir a cs) [] (Dir a cs) segs l
         \<and> x = \<lparr>s_Path = slashed segs, s_Target = l\<rparr>)"
      by (rule ex_list_Cons [symmetric]) (simp add: dangles_def)
    finally show ?thesis .
  qed
  then have "set (DanglingSymlinks fs) =
      {\<lparr>s_Path = slashed segs, s_Target = l\<rparr> | segs l. dangles (fs_root fs) [] (fs_root fs) segs l}"
    unfolding t by blast
  moreover have "sorted (map s_Path (DanglingSymlinks fs))" by (simp add: DanglingSymlinks_def)
  ultimately show ?thesis ..
qed

theorem dangling_exact_witness:
  "map s_Path (DanglingSymlinks exampleFS) = [''/a/l'']
   \<and> sorted (map s_Path (DanglingSymlinks exampleFS))"
proof -
  have "map s_Path (DanglingSymlinks exampleFS) = [''/a/l'']" by code_simp
  with dangling_exact [OF reachable_example] show ?thesis by blast
qed

end
