(* ===== verification/Collisions.thy ===== *)
theory Collisions
  imports Fetch_Inventory_Facts Overlay_Extract
begin

text \<open>
  Collisions between kits over their extracted trees (\<open>fetch/assemble_collisions.go\<close>) and the
  built-in layer validator (\<open>fetch/layer_validator.go\<close>).

  The ownership tree is a store of nodes; the address of a node is the list of names on its
  path, which is what its parent links and names spell out, and the root has the empty list.
  A child of a node is the node one name further. The two callbacks keep a slice of nodes by
  depth; reading or cutting that slice beyond its length is the error \<open>IndexOutOfRange\<close>. A
  run whose context is cancelled is not modelled.
\<close>

section \<open>The ownership tree\<close>

record ownership_node =
  o_kit :: string
  o_directory :: bool
  o_descendant :: "string list option"

type_synonym owners = "string list \<rightharpoonup> ownership_node"

definition ownershipPath :: "string list \<Rightarrow> string" where
  "ownershipPath loc = ''/'' @ join ''/'' loc"

definition newOwners :: owners where
  "newOwners = [[] \<mapsto> \<lparr>o_kit = [], o_directory = False, o_descendant = None\<rparr>]"

datatype collision_error =
    CannotExtract string string
  | FileCollision string string string
  | IndexOutOfRange

definition fileCollision :: "owners \<Rightarrow> string list \<Rightarrow> string \<Rightarrow> collision_error" where
  "fileCollision ow loc upper =
     FileCollision (ownershipPath loc) (case ow loc of None \<Rightarrow> [] | Some nd \<Rightarrow> o_kit nd) upper"

section \<open>Extracting a kit\<close>

fun addEntries :: "layer \<Rightarrow> inventory_entry list \<Rightarrow> string + layer" where
  "addEntries l [] = Inr l"
| "addEntries l (e # es) =
     (case Add l (header_of e) of (l', ok) \<Rightarrow> if ok then addEntries l' es else Inl (ie_name e))"

fun applyLayers :: "string \<Rightarrow> FS \<Rightarrow> inventory_entry list list \<Rightarrow> collision_error + FS" where
  "applyLayers reference fs [] = Inr fs"
| "applyLayers reference fs (es # rest) =
     (case addEntries (NewLayer fs) es of
        Inl nm \<Rightarrow> Inl (CannotExtract reference nm)
      | Inr l \<Rightarrow> applyLayers reference (Apply fs l) rest)"

section \<open>The two walks\<close>

text \<open>The first walk checks the kit against the kits below it. The slice holds the node at each
  depth of the current path, or none where the path is not owned.\<close>

definition checkNode :: "owners \<Rightarrow> string \<Rightarrow> entry \<Rightarrow> string list option \<Rightarrow> collision_error option" where
  "checkNode ow upper e node =
     (case node of
        None \<Rightarrow> None
      | Some loc \<Rightarrow>
          (case ow loc of
             None \<Rightarrow> None
           | Some nd \<Rightarrow>
               if o_kit nd \<noteq> [] \<and> (\<not> e_Directory e \<or> \<not> o_directory nd) then Some (fileCollision ow loc upper)
               else (case o_descendant nd of
                       None \<Rightarrow> None
                     | Some d \<Rightarrow>
                         if \<not> e_Directory e \<or> e_Opaque e then Some (fileCollision ow d upper) else None)))"

definition validateEntry ::
  "owners \<Rightarrow> string \<Rightarrow> string list option list \<Rightarrow> entry \<Rightarrow> collision_error + string list option list" where
  "validateEntry ow upper stk e =
     (let d = e_Depth e in
      if d = 0 then (case checkNode ow upper e (Some []) of Some er \<Rightarrow> Inl er | None \<Rightarrow> Inr stk)
      else if d - 1 \<ge> length stk then Inl IndexOutOfRange
      else let node = (case stk ! (d - 1) of
                         None \<Rightarrow> None
                       | Some loc \<Rightarrow> if ow (loc @ [e_Name e]) = None then None else Some (loc @ [e_Name e]));
               stk' = take d stk @ [node]
           in (case checkNode ow upper e node of Some er \<Rightarrow> Inl er | None \<Rightarrow> Inr stk'))"

text \<open>The second walk records what the kit contributes.\<close>

definition setDescendant :: "owners \<Rightarrow> string list \<Rightarrow> string list \<Rightarrow> owners" where
  "setDescendant ow parent loc =
     ow(parent := map_option (\<lambda>nd. if o_descendant nd = None then nd\<lparr>o_descendant := Some loc\<rparr> else nd) (ow parent))"

definition claimNode :: "owners \<Rightarrow> string \<Rightarrow> string list \<Rightarrow> bool \<Rightarrow> owners" where
  "claimNode ow kit loc isDir =
     (if ow loc = None
      then ow(loc \<mapsto> \<lparr>o_kit = kit, o_directory = isDir, o_descendant = None\<rparr>) else ow)"

definition registerEntry ::
  "string \<Rightarrow> owners \<times> string list list \<Rightarrow> entry \<Rightarrow> collision_error + owners \<times> string list list" where
  "registerEntry kit st e =
     (case st of (ow, stk) \<Rightarrow>
        let d = e_Depth e in
        if d = 0 then Inr st
        else if d > length stk then Inl IndexOutOfRange
        else if e_Whiteout e then Inr (ow, take d stk)
        else let parent = stk ! (d - 1); loc = parent @ [e_Name e]
             in Inr (setDescendant (claimNode ow kit loc (e_Directory e)) parent loc, take d stk @ [loc]))"

section \<open>Checking a set\<close>

fun collisionLoop :: "owners \<Rightarrow> kit_inventory list \<Rightarrow> collision_error + owners" where
  "collisionLoop ow [] = Inr ow"
| "collisionLoop ow (kinv # rest) =
     (case applyLayers (ki_reference kinv) New (ki_layers kinv) of
        Inl e \<Rightarrow> Inl e
      | Inr model \<Rightarrow>
          (case Walk model (validateEntry ow (ki_reference kinv)) [Some []] of
             Inl e \<Rightarrow> Inl e
           | Inr _ \<Rightarrow>
               (case Walk model (registerEntry (ki_reference kinv)) (ow, [[]]) of
                  Inl e \<Rightarrow> Inl e
                | Inr (ow', _) \<Rightarrow> collisionLoop ow' rest)))"

definition checkFileCollisions :: "kit_inventory list \<Rightarrow> collision_error + unit" where
  "checkFileCollisions inventories = rbind (collisionLoop newOwners inventories) (\<lambda>ow. Inr ())"

section \<open>The built-in validator\<close>

datatype validator_error = InventoryFailed inventory_error | CollisionFailed collision_error

definition DefaultLayerValidator ::
  "codecs \<Rightarrow> unit_heap \<Rightarrow> unit_ptr list \<Rightarrow> (string \<rightharpoonup> loaded_kit) \<Rightarrow> progress list
   \<Rightarrow> (validator_error + unit) \<times> progress list" where
  "DefaultLayerValidator c h kits loaded log =
     (case inventoryKits c h kits loaded log of
        (Inl e, log') \<Rightarrow> (Inl (InventoryFailed e), log')
      | (Inr inventories, log') \<Rightarrow>
          progressStep log'
            \<lparr>pr_Stage = StageCollisions, pr_State = ProgressStarted, pr_Reference = [], pr_Layer = []\<rparr>
            (case checkFileCollisions inventories of Inl e \<Rightarrow> Inl (CollisionFailed e) | Inr _ \<Rightarrow> Inr ()))"

end
