(* ===== verification/Fetch_Assemble.thy ===== *)
theory Fetch_Assemble
  imports Fetch_Kits Collisions
begin

text \<open>
  Assembling a closed set of kits (\<open>fetch/assemble.go\<close>): loading and checking every kit, composing
  the image, selecting the declarations under the final environment, and validating the layers.

  The loader and the layer validator are the caller's; the loader a caller leaves out is the
  parameter \<open>defaultLoader\<close>, the result of building a client with Docker credentials. A run whose
  context is cancelled is not modelled.
\<close>

section \<open>Options\<close>

type_synonym kit_loader = "string \<Rightarrow> string + loaded_kit option"

type_synonym 'v layer_validator =
  "unit_heap \<Rightarrow> unit_ptr list \<Rightarrow> (string \<rightharpoonup> loaded_kit) \<Rightarrow> progress list \<Rightarrow> ('v + unit) \<times> progress list"

record overrides =
  ov_Env :: "(string \<times> string) list"
  ov_WorkingDir :: "string option"

record 'v assemble_options =
  ao_Loader :: "kit_loader option"
  ao_CapabilitySelector :: "(capability \<Rightarrow> bool) option"
  ao_Overrides :: overrides
  ao_LayerValidator :: "'v layer_validator option"

record assemble_result =
  ar_Image :: image
  ar_Resolved :: resolved
  ar_Environment :: "(string \<times> string) list"
  ar_WorkingDir :: string

datatype load_error =
    LoaderError string
  | LoaderReturnedNothing
  | KitDigestInvalid string
  | NotAPlainImage registry_error
  | NoLayers
  | ConfigDigestInvalid string
  | ConfigSizeNegative
  | MalformedEnvAt nat
  | DiffIDInvalid string
  | RootFSNotMatching
  | NotLinux
  | LayerDigestInvalid string
  | LayerSizeNegative string
  | NoDescriptorAnnotation
  | DescriptorInvalid string

datatype 'v fetch_assemble_error =
    AssembleEmptySet
  | BadEnvOverride
  | BadWorkingDirOverride
  | NoClient string
  | DuplicateReference string
  | LoadKitFailed string load_error
  | ComposeUnitsFailed kits_error
  | ImageNotAssembled assemble_error
  | MalformedImageEnv
  | NotMerged kits_error
  | LayersRefused 'v

section \<open>Checks\<close>



definition validateOverrides :: "overrides \<Rightarrow> 'v fetch_assemble_error option" where
  "validateOverrides ov =
     (if list_ex (\<lambda>(nm, v). nm = [] \<or> CHR ''='' \<in> set nm \<or> NUL \<in> set nm \<or> NUL \<in> set v) (ov_Env ov)
      then Some BadEnvOverride
      else (case ov_WorkingDir ov of
              None \<Rightarrow> None
            | Some w \<Rightarrow> if \<not> has_prefix w ''/'' \<or> NUL \<in> set w then Some BadWorkingDirOverride else None))"

definition malformedEnv :: "string \<Rightarrow> bool" where
  "malformedEnv entry \<longleftrightarrow> CHR ''='' \<notin> set entry \<or> before CHR ''='' entry = [] \<or> NUL \<in> set entry"

fun envLoop :: "nat \<Rightarrow> string list \<Rightarrow> load_error option" where
  "envLoop i [] = None"
| "envLoop i (entry # es) = (if malformedEnv entry then Some (MalformedEnvAt i) else envLoop (i + 1) es)"

fun diffIDLoop :: "registry_lib \<Rightarrow> string list \<Rightarrow> load_error option" where
  "diffIDLoop lib [] = None"
| "diffIDLoop lib (d # ds) =
     (case digestError lib d of Some e \<Rightarrow> Some (DiffIDInvalid e) | None \<Rightarrow> diffIDLoop lib ds)"

fun layerLoop :: "registry_lib \<Rightarrow> oci_descriptor list \<Rightarrow> load_error option" where
  "layerLoop lib [] = None"
| "layerLoop lib (l # ls) =
     (case digestError lib (od_Digest l) of
        Some e \<Rightarrow> Some (LayerDigestInvalid e)
      | None \<Rightarrow> if od_Size l < 0 then Some (LayerSizeNegative (od_Digest l)) else layerLoop lib ls)"

text \<open>The checks of the manifest and the config, in order; the first that fails is reported.\<close>

definition loadedError :: "registry_lib \<Rightarrow> loaded_kit \<Rightarrow> load_error option" where
  "loadedError lib x =
     (let mf = lk_Manifest x; config = lk_Config x;
          mediaType = (if ma_MediaType mf = [] then MediaTypeImageManifest else ma_MediaType mf) in
      case digestError lib (lk_Digest x) of Some e \<Rightarrow> Some (KitDigestInvalid e) | None \<Rightarrow>
      case requirePlainImageManifest mediaType mf of Some e \<Rightarrow> Some (NotAPlainImage e) | None \<Rightarrow>
      if ma_Layers mf = [] then Some NoLayers else
      case digestError lib (od_Digest (ma_Config mf)) of Some e \<Rightarrow> Some (ConfigDigestInvalid e) | None \<Rightarrow>
      if od_Size (ma_Config mf) < 0 then Some ConfigSizeNegative else
      case envLoop 0 (ic_Env (im_Config config)) of Some e \<Rightarrow> Some e | None \<Rightarrow>
      case diffIDLoop lib (im_DiffIDs config) of Some e \<Rightarrow> Some e | None \<Rightarrow>
      if im_RootFSType config \<noteq> ''layers'' \<or> length (im_DiffIDs config) \<noteq> length (ma_Layers mf)
      then Some RootFSNotMatching else
      if p_OS (im_Platform config) \<noteq> ''linux'' \<or> p_Architecture (im_Platform config) = [] then Some NotLinux
      else layerLoop lib (ma_Layers mf))"

definition validateLoadedKit ::
  "registry_lib \<Rightarrow> string \<Rightarrow> loaded_kit option \<Rightarrow> load_error + published_kit" where
  "validateLoadedKit lib r inp =
     (case inp of
        None \<Rightarrow> Inl LoaderReturnedNothing
      | Some x \<Rightarrow>
          (case loadedError lib x of
             Some e \<Rightarrow> Inl e
           | None \<Rightarrow>
               (let raw = (if lk_Descriptor x = [] then annotation (ma_Annotations (lk_Manifest x)) AnnotationDescriptor
                           else lk_Descriptor x) in
                if raw = [] then Inl NoDescriptorAnnotation
                else (case decodeSpec lib raw of
                        Inl e \<Rightarrow> Inl (DescriptorInvalid e)
                      | Inr d \<Rightarrow>
                          (case publishedError lib raw d of
                             Some e \<Rightarrow> Inl (DescriptorInvalid e)
                           | None \<Rightarrow>
                               Inr \<lparr>pk_Reference = r, pk_Digest = lk_Digest x, pk_Image = lk_Image x,
                                    pk_Descriptor = Some d, pk_Raw = raw\<rparr>)))))"

section \<open>Loading\<close>

definition loadStep ::
  "registry_lib \<Rightarrow> kit_loader \<Rightarrow> string \<Rightarrow> load_error + loaded_kit \<times> published_kit" where
  "loadStep lib load r =
     (case load r of
        Inl e \<Rightarrow> Inl (LoaderError e)
      | Inr inp \<Rightarrow> rbind (validateLoadedKit lib r inp) (\<lambda>k. Inr (the inp, k)))"

fun loadLoop ::
  "registry_lib \<Rightarrow> kit_loader \<Rightarrow> (string \<times> loaded_kit) list \<Rightarrow> published_kit list \<Rightarrow> request list \<Rightarrow> progress list
   \<Rightarrow> ('v fetch_assemble_error + (string \<times> loaded_kit) list \<times> published_kit list) \<times> progress list" where
  "loadLoop lib load loaded kits [] log = (Inr (loaded, kits), log)"
| "loadLoop lib load loaded kits (req # reqs) log =
     (let r = rq_Reference req in
      if map_of loaded r \<noteq> None then (Inl (DuplicateReference r), log)
      else (case progressStep log
                   \<lparr>pr_Stage = StageLoad, pr_State = ProgressStarted, pr_Reference = r, pr_Layer = []\<rparr>
                   (loadStep lib load r) of
              (Inl e, log') \<Rightarrow> (Inl (LoadKitFailed r e), log')
            | (Inr (x, k), log') \<Rightarrow> loadLoop lib load (loaded @ [(r, x)]) (kits @ [k]) reqs log'))"

section \<open>Composing the image\<close>

definition composeImage ::
  "kit_lib \<Rightarrow> (platform \<Rightarrow> platform \<Rightarrow> bool) \<Rightarrow> (string \<times> loaded_kit) list \<Rightarrow> published_kit list
   \<Rightarrow> 'v fetch_assemble_error + image" where
  "composeImage lib samePlatform loaded kits =
     (case Units (registryLib lib) (map Some kits) of
        Inl e \<Rightarrow> Inl (ComposeUnitsFailed e)
      | Inr units \<Rightarrow>
          (let bare = map (\<lambda>u. u\<lparr>UnitDescriptor := map_option (\<lambda>d. d\<lparr>Capabilities := []\<rparr>) (UnitDescriptor u)\<rparr>) units;
               inputs = map_of (rev (map (\<lambda>u. let x = the (map_of loaded (Reference u)) in
                          (Image u, \<lparr>in_Name = [], in_Manifest = lk_Manifest x, in_Config = lk_Config x\<rparr>)) bare));
               load = (\<lambda>r. case inputs r of None \<Rightarrow> Inl (''image '' @ r @ '' was not loaded'') | Some i \<Rightarrow> Inr i)
           in case Images.Assemble samePlatform (Some load) (heapOf bare) (map Some [0..<length bare]) of
                Inl e \<Rightarrow> Inl (ImageNotAssembled e)
              | Inr img \<Rightarrow> Inr img))"

fun imageEnvironment :: "(string \<times> string) list \<Rightarrow> string list \<Rightarrow> (string \<times> string) list option" where
  "imageEnvironment env [] = Some env"
| "imageEnvironment env (entry # es) =
     (if malformedEnv entry then None
      else imageEnvironment (AList.update (before CHR ''='' entry) (after CHR ''='' entry) env) es)"

section \<open>Assembling\<close>

definition finishAssembly ::
  "kit_lib \<Rightarrow> 'v assemble_options \<Rightarrow> request list \<Rightarrow> (string \<times> loaded_kit) list \<Rightarrow> published_kit list \<Rightarrow> image
   \<Rightarrow> (string \<times> string) list \<Rightarrow> progress list \<Rightarrow> ('v fetch_assemble_error + assemble_result) \<times> progress list" where
  "finishAssembly lib options requests loaded kits img environment log =
     (let selector = (case ao_CapabilitySelector options of None \<Rightarrow> Supported KnownCapabilities | Some s \<Rightarrow> s);
          merged = mergeKits lib (map Some kits) (map rq_Args requests) False
                     [Some (WithCapabilitySelector (Some selector)),
                      Some (WithEnvironment environment (ov_Env (ao_Overrides options)))]
      in case progressStep log
                \<lparr>pr_Stage = StageResolve, pr_State = ProgressStarted, pr_Reference = [], pr_Layer = []\<rparr> merged of
           (Inl e, log') \<Rightarrow> (Inl (NotMerged e), log')
         | (Inr res, log') \<Rightarrow>
             (let checked = (case ao_LayerValidator options of
                               None \<Rightarrow> (Inr (), log')
                             | Some validator \<Rightarrow>
                                 validator (heapOf (rs_Kits res)) [0..<length (rs_Kits res)] (map_of loaded) log')
              in case checked of
                   (Inl e, log'') \<Rightarrow> (Inl (LayersRefused e), log'')
                 | (Inr _, log'') \<Rightarrow>
                     (Inr \<lparr>ar_Image = img, ar_Resolved = res,
                          ar_Environment = mapCopy (mapCopy environment (rs_ContainerEnv res)) (ov_Env (ao_Overrides options)),
                          ar_WorkingDir = (case ov_WorkingDir (ao_Overrides options) of
                                             None \<Rightarrow> ic_WorkingDir (im_Config (img_Config img))
                                           | Some w \<Rightarrow> w)\<rparr>, log'')))"

definition AssembleKits ::
  "kit_lib \<Rightarrow> (platform \<Rightarrow> platform \<Rightarrow> bool) \<Rightarrow> (string + kit_loader) \<Rightarrow> request list \<Rightarrow> 'v assemble_options
   \<Rightarrow> progress list \<Rightarrow> ('v fetch_assemble_error + assemble_result) \<times> progress list" where
  "AssembleKits lib samePlatform defaultLoader requests options log =
     (if requests = [] then (Inl AssembleEmptySet, log)
      else case validateOverrides (ao_Overrides options) of Some e \<Rightarrow> (Inl e, log) | None \<Rightarrow>
      case (case ao_Loader options of
              Some l \<Rightarrow> Inr l
            | None \<Rightarrow> (case defaultLoader of Inl e \<Rightarrow> Inl (NoClient e) | Inr l \<Rightarrow> Inr l)) of
        Inl e \<Rightarrow> (Inl e, log)
      | Inr load \<Rightarrow>
          (case loadLoop (registryLib lib) load [] [] requests log of
             (Inl e, log1) \<Rightarrow> (Inl e, log1)
           | (Inr (loaded, kits), log1) \<Rightarrow>
               (case progressStep log1
                       \<lparr>pr_Stage = StageCompose, pr_State = ProgressStarted, pr_Reference = [], pr_Layer = []\<rparr>
                       (composeImage lib samePlatform loaded kits) of
                  (Inl e, log2) \<Rightarrow> (Inl e, log2)
                | (Inr img, log2) \<Rightarrow>
                    (case imageEnvironment [] (ic_Env (im_Config (img_Config img))) of
                       None \<Rightarrow> (Inl MalformedImageEnv, log2)
                     | Some environment \<Rightarrow>
                         finishAssembly lib options requests loaded kits img environment log2))))"

end
