(* ===== verification/Kit_Args_Facts.thy ===== *)
theory Kit_Args_Facts
  imports Kit_Args
begin

text \<open>
  What the resolution of arguments guarantees: it accepts exactly the supplied values the
  declarations allow and yields exactly the stated values and defaults, and exports combine to
  the union of what the kits export exactly when no two of them disagree.
\<close>

section \<open>Argument values\<close>

definition create_phase :: "arg \<Rightarrow> bool" where
  "create_phase decl \<longleftrightarrow> argBuildArg decl = []"

text \<open>What a declared argument stands for: the supplied text or else the default.\<close>

definition arg_value :: "(string \<times> string) list \<Rightarrow> string \<Rightarrow> arg \<Rightarrow> string option" where
  "arg_value supplied nm decl = (case map_of supplied nm of Some v \<Rightarrow> Some v | None \<Rightarrow> argDefault decl)"

definition arg_ok :: "matcher \<Rightarrow> (string \<times> string) list \<Rightarrow> string \<Rightarrow> arg \<Rightarrow> bool" where
  "arg_ok fullMatch supplied nm decl \<longleftrightarrow>
     (case map_of supplied nm of
        Some v \<Rightarrow> checkArgValue fullMatch nm decl v = None
      | None \<Rightarrow> \<not> argRequired decl
          \<and> (case argDefault decl of None \<Rightarrow> True | Some v \<Rightarrow> checkArgValue fullMatch nm decl v = None))"

lemma undeclaredLoop_None: "undeclaredLoop decls supplied = None \<longleftrightarrow> fst ` set supplied \<subseteq> fst ` set decls"
  by (induction decls supplied rule: undeclaredLoop.induct) (auto simp: map_of_eq_None_iff)

lemma resolveLoop_spec:
  "(is_ok (resolveLoop fm supplied decls) \<longleftrightarrow> list_all (\<lambda>(nm, decl). arg_ok fm supplied nm decl) decls)
   \<and> (\<forall>vals. resolveLoop fm supplied decls = Inr vals \<longrightarrow>
        vals = concat (map (\<lambda>(nm, decl). case arg_value supplied nm decl of None \<Rightarrow> [] | Some v \<Rightarrow> [(nm, v)]) decls))"
  by (induction fm supplied decls rule: resolveLoop.induct)
     (auto simp: Let_def arg_ok_def arg_value_def is_ok_iff rbind_Inr_iff split: option.splits)

lemma separateLoop_spec:
  "(is_ok (separateLoop decls supplied) \<longleftrightarrow>
      list_all (\<lambda>(nm, v). (case map_of decls nm of None \<Rightarrow> False | Some d \<Rightarrow> create_phase d)
         \<and> (IsWholeArgRef v \<or> \<not> ContainsArgRef v)) supplied)
   \<and> (\<forall>lit def. separateLoop decls supplied = Inr (lit, def) \<longrightarrow>
        lit = filter (\<lambda>(nm, v). \<not> IsWholeArgRef v) supplied
        \<and> def = filter (\<lambda>(nm, v). IsWholeArgRef v) supplied)"
  by (induction decls supplied rule: separateLoop.induct)
     (auto simp: is_ok_iff rbind_Inr_iff create_phase_def split: option.splits)

lemma map_of_filter_snd:
  "distinct (map fst xs) \<Longrightarrow>
   map_of (filter (\<lambda>(k, v). P v) xs) k = (case map_of xs k of None \<Rightarrow> None | Some v \<Rightarrow> if P v then Some v else None)"
  by (induction xs) (auto simp: map_of_eq_None_iff rev_image_eqI split: option.splits)

lemma map_of_filter_both:
  "distinct (map fst xs) \<Longrightarrow>
   map_of (filter (\<lambda>(k, v). P k v) xs) k = (case map_of xs k of None \<Rightarrow> None | Some v \<Rightarrow> if P k v then Some v else None)"
  by (induction xs) (auto simp: map_of_eq_None_iff rev_image_eqI split: option.splits)

lemma map_of_collect:
  "distinct (map fst ds) \<Longrightarrow>
   map_of (concat (map (\<lambda>(nm, d). case f nm d of None \<Rightarrow> [] | Some v \<Rightarrow> [(nm, v)]) ds)) k
   = (case map_of ds k of None \<Rightarrow> None | Some d \<Rightarrow> f k d)"
proof (induction ds)
  case (Cons x ds)
  obtain nm d where x: "x = (nm, d)" by fastforce
  with Cons have "map_of ds nm = None" by (simp add: map_of_eq_None_iff)
  with Cons x show ?case by (auto simp: map_add_def split: option.splits)
qed simp

text \<open>A supplied value: of a declared create-phase argument, and a whole reference or without
  any.\<close>

definition supplied_ok :: "(string \<times> arg) list \<Rightarrow> string \<times> string \<Rightarrow> bool" where
  "supplied_ok decls nv \<longleftrightarrow>
     (case map_of decls (fst nv) of None \<Rightarrow> False | Some d \<Rightarrow> create_phase d)
     \<and> (IsWholeArgRef (snd nv) \<or> \<not> ContainsArgRef (snd nv))"

definition reexported :: "(string \<times> string) list \<Rightarrow> string \<Rightarrow> bool" where
  "reexported supplied nm \<longleftrightarrow> (case map_of supplied nm of None \<Rightarrow> False | Some v \<Rightarrow> IsWholeArgRef v)"

lemma KitArgValues_eq:
  assumes d: "distinct (map fst decls)" "distinct (map fst supplied)" and ok: "list_all (supplied_ok decls) supplied"
  shows "KitArgValues fm decls supplied =
    rbind (resolveLoop fm supplied
        (filter (\<lambda>(nm, decl). create_phase decl \<and> \<not> reexported supplied nm) decls))
      (\<lambda>vals. Inr (filter (\<lambda>(nm, v). IsWholeArgRef v) supplied @ vals))"
proof -
  let ?lit = "filter (\<lambda>(nm, v). \<not> IsWholeArgRef v) supplied" and ?def = "filter (\<lambda>(nm, v). IsWholeArgRef v) supplied"
  let ?rem = "filter (\<lambda>(nm, decl). create_phase decl \<and> \<not> reexported supplied nm) decls"
  have sep: "separateLoop decls supplied = Inr (?lit, ?def)"
    using separateLoop_spec [of decls supplied] ok
    by (fastforce simp: is_ok_iff supplied_ok_def list_all_iff case_prod_beta split: option.splits)
  have def: "map_of ?def nm = None \<longleftrightarrow> \<not> reexported supplied nm" for nm
    by (simp add: map_of_filter_snd [OF d(2)] reexported_def split: option.splits)
  have rem: "filter (\<lambda>(nm, decl). map_of ?def nm = None) (filter (\<lambda>(nm, decl). argBuildArg decl = []) decls) = ?rem"
    by (auto simp: def create_phase_def intro!: filter_cong)
  have "undeclaredLoop ?rem ?lit = None"
    unfolding undeclaredLoop_None
  proof (rule subsetI)
    fix nm assume "nm \<in> fst ` set ?lit"
    then obtain v where v: "(nm, v) \<in> set supplied" "\<not> IsWholeArgRef v" by auto
    with ok obtain decl where decl: "map_of decls nm = Some decl" "create_phase decl"
      by (auto simp: list_all_iff supplied_ok_def split: option.splits)
    moreover have "\<not> reexported supplied nm" using v d(2) by (simp add: reexported_def)
    ultimately show "nm \<in> fst ` set ?rem" by (force dest: map_of_SomeD)
  qed
  moreover have "resolveLoop fm ?lit ds = resolveLoop fm supplied ds"
    if "\<forall>(nm, decl) \<in> set ds. \<not> reexported supplied nm" for ds
    using that
  proof (induction ds)
    case (Cons x ds)
    obtain nm decl where x: "x = (nm, decl)" by fastforce
    with Cons.prems have "map_of ?lit nm = map_of supplied nm"
      by (auto simp: map_of_filter_snd [OF d(2)] reexported_def split: option.splits)
    with Cons x show ?case by (auto simp: Let_def split: option.splits)
  qed simp
  moreover have "\<forall>(nm, decl) \<in> set ?rem. \<not> reexported supplied nm" by auto
  ultimately have "ResolveArgs fm ?rem ?lit = resolveLoop fm supplied ?rem"
    by (simp add: ResolveArgs_def)
  then show ?thesis
    by (simp only: KitArgValues_def sep Let_def rem rbind_simps prod.case)
qed

lemma KitArgValues_refuses:
  "\<not> list_all (supplied_ok decls) supplied \<Longrightarrow> \<not> is_ok (KitArgValues fm decls supplied)"
  using separateLoop_spec [of decls supplied]
  by (cases "separateLoop decls supplied")
     (auto simp: KitArgValues_def supplied_ok_def list_all_iff case_prod_beta is_ok_def split: option.splits)

section \<open>Exports\<close>

definition graph_of :: "(string \<times> string) list \<Rightarrow> (string \<times> string) set" where
  "graph_of m = {(k, v). map_of m k = Some v}"

lemma graph_of_update:
  "map_of m k = None \<Longrightarrow> graph_of (AList.update k v m) = insert (k, v) (graph_of m)"
  by (auto simp: graph_of_def AList.update_conv' split: if_splits)

lemma graph_of_single: "single_valued (graph_of m)"
  by (auto simp: graph_of_def single_valued_def)

definition bindings_match :: "(string \<times> binding) list \<Rightarrow> (string \<times> string) list \<Rightarrow> bool" where
  "bindings_match bound out \<longleftrightarrow> (\<forall>k. map_of out k = map_option bn_value (map_of bound k))"

text \<open>Folding some pairs into the exports so far succeeds exactly when the two agree, and
  yields their union.\<close>

definition folded :: "(string \<times> string) set \<Rightarrow> (string \<times> string) set \<Rightarrow> 'e + (string \<times> binding) list \<times> (string \<times> string) list \<Rightarrow> bool" where
  "folded held new r \<longleftrightarrow>
     (case r of
        Inl e \<Rightarrow> \<not> single_valued (held \<union> new)
      | Inr (bound, out) \<Rightarrow> single_valued (held \<union> new) \<and> bindings_match bound out \<and> graph_of out = held \<union> new)"

lemma folded_move: "folded (insert x held) new r = folded held (insert x new) r"
  by (simp only: folded_def Un_insert_left Un_insert_right)

lemma combineLoop_folded:
  "bindings_match bound out \<Longrightarrow> folded (graph_of out) (set env) (combineLoop owner bound out env)"
proof (induction owner bound out env rule: combineLoop.induct)
  case (1 owner bound out)
  then show ?case by (simp add: folded_def graph_of_single)
next
  case (2 owner bound out nm v env)
  show ?case
  proof (cases "map_of bound nm")
    case None
    with 2(3) have o: "map_of out nm = None" by (simp add: bindings_match_def)
    have "bindings_match (AList.update nm \<lparr>bn_value = v, bn_owner = owner\<rparr> bound) (AList.update nm v out)"
      using 2(3) by (simp add: bindings_match_def AList.update_conv')
    from 2(1) [OF None this] None show ?thesis
      by (simp add: graph_of_update [OF o] folded_move)
  next
    case (Some held)
    with 2(3) have o: "(nm, bn_value held) \<in> graph_of out" by (simp add: bindings_match_def graph_of_def)
    show ?thesis
    proof (cases "bn_value held = v")
      case True
      with o have same: "insert (nm, v) (graph_of out) = graph_of out" by auto
      have "folded (insert (nm, v) (graph_of out)) (set env) (combineLoop owner bound out env)"
        unfolding same using 2(2) [OF Some _ 2(3)] True by simp
      with True Some show ?thesis by (simp add: folded_move)
    next
      case False
      with o have "\<not> single_valued (graph_of out \<union> set ((nm, v) # env))"
        by (auto simp: single_valued_def)
      with False Some show ?thesis by (simp add: folded_def)
    qed
  qed
qed

definition exported :: "(string \<times> (string \<times> string) list) list \<Rightarrow> (string \<times> string) set" where
  "exported ks = (\<Union>k \<in> set ks. set (snd k))"

lemma single_valued_mono: "single_valued r \<Longrightarrow> s \<subseteq> r \<Longrightarrow> single_valued s"
  by (rule single_valued_subset)

lemma combineKits_exact:
  "bindings_match bound out \<Longrightarrow>
   (case combineKits bound out ks of
      Inl e \<Rightarrow> \<not> single_valued (graph_of out \<union> exported ks)
    | Inr m \<Rightarrow> single_valued (graph_of out \<union> exported ks) \<and> graph_of m = graph_of out \<union> exported ks)"
proof (induction ks arbitrary: bound out)
  case Nil
  then show ?case by (simp add: exported_def graph_of_single)
next
  case (Cons x ks)
  obtain owner env where x: "x = (owner, env)" by fastforce
  have ex: "graph_of out \<union> exported (x # ks) = (graph_of out \<union> set env) \<union> exported ks"
    by (auto simp: exported_def x)
  note step = combineLoop_folded [OF Cons.prems, of env owner]
  show ?case
  proof (cases "combineLoop owner bound out env")
    case (Inl e)
    with step have "\<not> single_valued (graph_of out \<union> set env)" by (simp add: folded_def)
    then have "\<not> single_valued (graph_of out \<union> exported (x # ks))"
      unfolding ex using single_valued_mono by blast
    with Inl x show ?thesis by simp
  next
    case (Inr r)
    obtain bound' out' where r: "r = (bound', out')" by fastforce
    with step Inr have "bindings_match bound' out'" "graph_of out' = graph_of out \<union> set env"
      by (simp_all add: folded_def)
    with Cons.IH [of bound' out'] Inr r x show ?thesis unfolding ex by (simp cong: sum.case_cong)
  qed
qed

section \<open>Properties\<close>



text \<open>The exports of a set of kits combine exactly when no variable is bound to two values,
  and the combination then binds exactly what some kit binds.\<close>

theorem exports_combine_exact:
  assumes "length references = length exports"
  shows "case combineExports references exports of
      Inl e \<Rightarrow> \<not> single_valued (set (concat exports))
    | Inr m \<Rightarrow> single_valued (set (concat exports)) \<and> (\<forall>k v. map_of m k = Some v \<longleftrightarrow> (k, v) \<in> set (concat exports))"
proof -
  have "exported (zip references exports) = (\<Union>env \<in> set (map snd (zip references exports)). set env)"
    by (simp add: exported_def)
  then have ex: "exported (zip references exports) = set (concat exports)"
    using assms by simp
  have "bindings_match [] []" by (simp add: bindings_match_def)
  from combineKits_exact [OF this, of "zip references exports"] show ?thesis
    by (auto simp: combineExports_def ex graph_of_def [of "[]"] graph_of_def set_eq_iff split: sum.splits)
qed

theorem exports_combine_exact_witness:
  "\<not> single_valued (set (concat [[(''A'', ''1'')], [(''A'', ''2'')]]))"
proof -
  have "combineExports [''k'', ''l''] [[(''A'', ''1'')], [(''A'', ''2'')]] = Inl (ExportConflict ''k'' ''l'' ''A'')"
    by code_simp
  with exports_combine_exact [of "[''k'', ''l'']" "[[(''A'', ''1'')], [(''A'', ''2'')]]"] show ?thesis by simp
qed

end
