(* ===== verification/Selection_Facts.thy ===== *)
theory Selection_Facts
  imports Selection
begin

text \<open>
  What the selection guarantees: an item of the list is taken as a whole or not at all, what is
  taken is what the runtime accepted, in order, and a selection succeeds exactly when no required
  item was refused.
\<close>

definition stamped :: "capability \<Rightarrow> string \<Rightarrow> nat \<times> capability \<Rightarrow> capability" where
  "stamped item at jc =
     (let p = memberPath item at (fst jc); c = snd jc in
      if capSource c = None then withSource (Some \<lparr>srcKit = [], srcPath = p\<rparr>) c else c)"

definition refused :: "(capability \<Rightarrow> bool) \<Rightarrow> nat \<Rightarrow> capability list \<Rightarrow> (nat \<times> capability) list" where
  "refused sel j cs = filter (\<lambda>jc. \<not> sel (snd jc)) (enumerate j cs)"

lemma memberLoop_spec:
  "memberLoop sel item at j cs (rec, taken, errs) = (rec', taken', errs') \<Longrightarrow>
   taken' = taken @ map (stamped item at) (enumerate j cs)
   \<and> sr_Path rec' = sr_Path rec
   \<and> sr_Rejected rec' = sr_Rejected rec @ map (memberPath item at \<circ> fst) (refused sel j cs)
   \<and> errs' = errs @ (if itemOptional item then []
        else map (\<lambda>jc. (memberPath item at (fst jc), at, memberOrigin (memberPath item at (fst jc)) (snd jc)))
               (refused sel j cs))"
proof (induction cs arbitrary: j rec taken errs)
  case (Cons c cs)
  from Cons.IH [OF Cons.prems [unfolded memberLoop.simps Let_def]]
  show ?case by (auto simp: refused_def stamped_def Let_def)
qed (simp add: refused_def)

definition accepts :: "(capability \<Rightarrow> bool) \<Rightarrow> capability \<Rightarrow> bool" where
  "accepts sel item \<longleftrightarrow> list_all sel (itemMembers item)"

lemma refused_Nil: "refused sel j cs = [] \<longleftrightarrow> list_all sel cs"
  by (induction cs arbitrary: j) (auto simp: refused_def)

definition taken_members :: "nat \<times> capability \<Rightarrow> capability list" where
  "taken_members ii = map (stamped (snd ii) (itemPath (fst ii))) (enumerate 0 (itemMembers (snd ii)))"

lemma selectLoop_spec:
  "selectLoop sel i items (result, errs) = (result', errs') \<Longrightarrow>
   sl_Capabilities result' =
     sl_Capabilities result @ concat (map taken_members (filter (accepts sel \<circ> snd) (enumerate i items)))
   \<and> map sr_Path (sl_Selected result') =
     map sr_Path (sl_Selected result) @ map (itemPath \<circ> fst) (filter (accepts sel \<circ> snd) (enumerate i items))
   \<and> map sr_Path (sl_Skipped result') =
     map sr_Path (sl_Skipped result) @ map (itemPath \<circ> fst) (filter (Not \<circ> accepts sel \<circ> snd) (enumerate i items))
   \<and> (errs' = [] \<longleftrightarrow> errs = [] \<and> list_all (\<lambda>item. itemOptional item \<or> accepts sel item) items)"
proof (induction items arbitrary: i result errs)
  case (Cons item items)
  define rec0 where "rec0 = \<lparr>sr_Path = itemPath i, sr_Name = itemName item, sr_Source = capSource item,
      sr_Members = [], sr_MemberSources = [], sr_Rejected = []\<rparr>"
  obtain rec taken errs1 where m: "memberLoop sel item (itemPath i) 0 (itemMembers item) (rec0, [], errs) = (rec, taken, errs1)"
    by (metis prod_cases3)
  note ms = memberLoop_spec [OF m]
  have rej: "sr_Rejected rec = [] \<longleftrightarrow> accepts sel item"
    using ms by (simp add: rec0_def refused_Nil accepts_def)
  have path: "sr_Path rec = itemPath i" and taken: "taken = taken_members (i, item)"
    using ms by (simp_all add: rec0_def taken_members_def)
  have errs1: "errs1 = [] \<longleftrightarrow> errs = [] \<and> (itemOptional item \<or> accepts sel item)"
    using ms by (auto simp: refused_Nil accepts_def)
  define result1 where "result1 = (if sr_Rejected rec \<noteq> [] then result\<lparr>sl_Skipped := sl_Skipped result @ [rec]\<rparr>
      else result\<lparr>sl_Selected := sl_Selected result @ [rec], sl_Capabilities := sl_Capabilities result @ taken\<rparr>)"
  have "selectLoop sel (i + 1) items (result1, errs1) = (result', errs')"
    using Cons.prems m by (simp add: rec0_def [symmetric] result1_def Let_def)
  from Cons.IH [OF this] rej path taken errs1 show ?case
    by (auto simp: result1_def)
qed simp

lemma SelectCapabilities_ok:
  "SelectCapabilities declError encodeItem d s = (result, None) \<Longrightarrow>
   \<exists>x sel. d = Some x \<and> s = Some sel \<and> declError (x\<lparr>declarationsOnly := True\<rparr>) = None
     \<and> encodableLoop encodeItem 0 (Capabilities x) = None \<and> \<not> HasEnvReferences (Capabilities x)
     \<and> selectLoop sel 0 (Capabilities x) (emptySelection, []) = (result, [])"
  by (auto simp: SelectCapabilities_def split: option.splits if_splits prod.splits)

section \<open>Properties\<close>

text \<open>Property C23. A selection that succeeds holds exactly the members of the items the runtime accepts
  entirely, in order: an item, and in particular a group, with a refused member contributes
  nothing, and every refused item is optional. The records of the selected and the skipped items
  name each item of the list once.\<close>

theorem selection_atomic:
  assumes "SelectCapabilities declError encodeItem (Some d) (Some sel) = (result, None)"
  shows "sl_Capabilities result =
      concat (map taken_members (filter (accepts sel \<circ> snd) (enumerate 0 (Capabilities d))))
    \<and> list_all (\<lambda>item. itemOptional item \<or> accepts sel item) (Capabilities d)
    \<and> map sr_Path (sl_Selected result) = map (itemPath \<circ> fst) (filter (accepts sel \<circ> snd) (enumerate 0 (Capabilities d)))
    \<and> map sr_Path (sl_Skipped result) = map (itemPath \<circ> fst) (filter (Not \<circ> accepts sel \<circ> snd) (enumerate 0 (Capabilities d)))"
  using SelectCapabilities_ok [OF assms] selectLoop_spec [of sel 0 "Capabilities d" emptySelection "[]" result "[]"]
  by (simp add: emptySelection_def)

definition exampleGroup :: "string list \<Rightarrow> capability" where
  "exampleGroup types = Capability (Some (CapabilityGroup ''g'' [] True (map (\<lambda>t. ordinary t None) types)))
     None False True [] [] False None False []"

theorem selection_atomic_witness:
  "sl_Capabilities (fst (SelectCapabilities (\<lambda>d. None) (\<lambda>c. Inr [])
      (Some (emptyDescriptor\<lparr>Capabilities := [exampleGroup [''a'', ''b''], ordinary ''a'' None]\<rparr>)) (Some (Supported [''a'']))))
   = taken_members (1, ordinary ''a'' None)"
proof -
  let ?d = "emptyDescriptor\<lparr>Capabilities := [exampleGroup [''a'', ''b''], ordinary ''a'' None]\<rparr>"
  let ?r = "SelectCapabilities (\<lambda>d. None) (\<lambda>c. Inr []) (Some ?d) (Some (Supported [''a'']))"
  have "snd ?r = None" by code_simp
  then have "?r = (fst ?r, None)" by (metis prod.collapse)
  from selection_atomic [OF this] show ?thesis
    by (simp add: accepts_def itemMembers_def exampleGroup_def ordinary_def Supported_def)
qed

end
