(* ===== verification/Environment_Facts.thy ===== *)
theory Environment_Facts
  imports Environment
begin

text \<open>
  What the expansion of the environment guarantees: a template is filled in exactly, the result
  stays within the byte budget, and only the values of the variables matter.
\<close>

section \<open>Openers and references\<close>

lemma has_prefix_dollar:
  assumes "has_prefix (y @ CHR ''$'' # s) p" "CHR ''$'' \<notin> set p"
  shows "has_prefix y p"
proof -
  from assms(1) obtain t where "y @ CHR ''$'' # s = p @ t" by (auto simp: has_prefix_iff)
  then obtain us where "y = p @ us \<and> us @ CHR ''$'' # s = t \<or> y @ us = p \<and> CHR ''$'' # s = us @ t"
    by (auto simp: append_eq_append_conv2)
  moreover have False if "y @ us = p" "CHR ''$'' # s = us @ t" "us \<noteq> []"
    using that assms(2) by (cases us) auto
  ultimately show ?thesis by (cases us) (auto simp: has_prefix_iff)
qed

lemma isSpaceByte_dollar [simp]: "\<not> isSpaceByte CHR ''$''"
  by code_simp

lemma dropWhile_space_dollar:
  "dropWhile isSpaceByte (y @ CHR ''$'' # s) = dropWhile isSpaceByte y @ CHR ''$'' # s"
  by (induction y) auto

lemma envOpenerAt_within:
  assumes "envOpenerAt (x @ CHR ''$'' # s)" "x \<noteq> []"
  shows "envOpenerAt x"
proof -
  let ?y = "dropWhile isSpaceByte (drop 3 x)"
  have p: "has_prefix (x @ CHR ''$'' # s) ''${{''" using assms(1) by (simp add: envOpenerAt_def)
  have "3 \<le> length x"
  proof (rule ccontr)
    assume "\<not> 3 \<le> length x"
    with assms(2) consider a where "x = [a]" | a b where "x = [a, b]"
      by (auto simp: numeral_3_eq_3 not_le less_Suc_eq length_Suc_conv)
    then show False using p by cases (simp_all add: has_prefix_def)
  qed
  then have d: "drop 3 (x @ CHR ''$'' # s) = drop 3 x @ CHR ''$'' # s" and x: "has_prefix x ''${{''"
    using p by (simp_all add: has_prefix_def)
  have o: "has_prefix (?y @ CHR ''$'' # s) ''kit.env''"
    "drop 7 (?y @ CHR ''$'' # s) = [] \<or> \<not> isIdentChar (hd (drop 7 (?y @ CHR ''$'' # s)))"
    using assms(1) unfolding envOpenerAt_def d dropWhile_space_dollar Let_def by auto
  have y: "has_prefix ?y ''kit.env''" by (rule has_prefix_dollar [OF o(1)]) simp
  then have "7 \<le> length ?y" by (auto simp: has_prefix_iff)
  with o(2) have "drop 7 ?y = [] \<or> \<not> isIdentChar (hd (drop 7 ?y))" by (cases "drop 7 ?y") auto
  with x y show ?thesis by (simp add: envOpenerAt_def Let_def)
qed

lemma suffixes_Cons: "suffixes (c # s) = (c # s) # suffixes s"
  unfolding suffixes_def by (simp add: upt_conv_Cons map_Suc_upt [symmetric] del: upt_Suc)

lemma ContainsEnvRef_Cons: "ContainsEnvRef (c # s) \<longleftrightarrow> envOpenerAt (c # s) \<or> ContainsEnvRef s"
  by (simp add: ContainsEnvRef_def suffixes_Cons)

lemma ContainsEnvRef_Nil [simp]: "\<not> ContainsEnvRef []"
  by code_simp

lemma cutEnvOpener_None: "cutEnvOpener s = None \<longleftrightarrow> \<not> ContainsEnvRef s"
  by (induction s) (auto simp: ContainsEnvRef_Cons, code_simp)

lemma cutEnvOpener_literal:
  "\<not> ContainsEnvRef l \<Longrightarrow> envOpenerAt (CHR ''$'' # s) \<Longrightarrow> cutEnvOpener (l @ CHR ''$'' # s) = Some (l, CHR ''$'' # s)"
proof (induction l)
  case (Cons c l)
  then have "\<not> envOpenerAt (c # l @ CHR ''$'' # s)"
    using envOpenerAt_within [of "c # l" s] by (auto simp: ContainsEnvRef_Cons)
  with Cons show ?case by (simp add: ContainsEnvRef_Cons)
qed simp

section \<open>Templates\<close>

text \<open>A template is literals, each before a reference, and a last literal.\<close>

definition envReference :: "string \<Rightarrow> string" where
  "envReference nm = ''${{ kit.env.'' @ nm @ '' }}''"

definition validName :: "string \<Rightarrow> bool" where
  "validName nm \<longleftrightarrow> nm \<noteq> [] \<and> isIdentStart (hd nm) \<and> list_all isIdentChar nm"

fun template :: "(string \<times> string) list \<Rightarrow> string \<Rightarrow> string" where
  "template [] tail = tail"
| "template ((l, nm) # ps) tail = l @ envReference nm @ template ps tail"

fun filled :: "(string \<Rightarrow> string) \<Rightarrow> (string \<times> string) list \<Rightarrow> string \<Rightarrow> string" where
  "filled val [] tail = tail"
| "filled val ((l, nm) # ps) tail = l @ val nm @ filled val ps tail"

definition plainTemplate :: "(string \<times> string) list \<Rightarrow> string \<Rightarrow> bool" where
  "plainTemplate ps tail \<longleftrightarrow> list_all (\<lambda>(l, nm). \<not> ContainsEnvRef l \<and> validName nm) ps \<and> \<not> ContainsEnvRef tail"

lemma takeWhile_ident: "list_all isIdentChar nm \<Longrightarrow> \<not> isIdentChar c \<Longrightarrow>
  takeWhile isIdentChar (nm @ c # s) = nm \<and> dropWhile isIdentChar (nm @ c # s) = c # s"
  by (induction nm) auto

lemma reference_opens: "envOpenerAt (envReference nm @ s)"
proof -
  have "\<not> isIdentChar CHR ''.''" "\<not> isSpaceByte CHR ''k''" "isSpaceByte CHR '' ''" by code_simp+
  then show ?thesis by (simp add: envOpenerAt_def envReference_def has_prefix_def Let_def)
qed

lemma reference_read: "validName nm \<Longrightarrow> envRefAt (envReference nm @ s) = Some (nm, s)"
proof -
  assume v: "validName nm"
  have sp: "\<not> isIdentChar CHR '' ''" "\<not> isSpaceByte CHR ''k''" "isSpaceByte CHR '' ''" "\<not> isSpaceByte CHR ''}''" by code_simp+
  let ?s = "nm @ CHR '' '' # ''}}'' @ s"
  have t: "takeWhile isIdentChar ?s = nm" "dropWhile isIdentChar ?s = CHR '' '' # ''}}'' @ s"
    using takeWhile_ident [OF _ sp(1)] v by (auto simp: validName_def)
  have "drop 8 (dropWhile isSpaceByte (drop 3 (envReference nm @ s))) = ?s"
    using sp by (simp add: envReference_def)
  with v t sp show ?thesis
    by (simp add: envRefAt_def validName_def Let_def) (simp add: envReference_def has_prefix_def)
qed

lemma reference_dollar: "\<exists>t. envReference nm @ s = CHR ''$'' # t"
  by (simp add: envReference_def)

lemma expandString_template:
  assumes "plainTemplate ps tail"
    and "\<forall>(l, nm) \<in> set ps. map_of environment nm = Some (val nm) \<and> NUL \<notin> set (val nm) \<and> \<not> ContainsKitPlaceholder (val nm)"
  shows "expandString environment at (template ps tail) (out, r) =
    (if int (length (filled val ps tail)) \<le> r
     then Inr (out @ filled val ps tail, r - int (length (filled val ps tail))) else Inl (ExpansionOverBudget at))"
  using assms
proof (induction ps arbitrary: out r)
  case Nil
  then have "cutEnvOpener tail = None" by (simp add: cutEnvOpener_None plainTemplate_def)
  then show ?case by (simp add: expandString.simps [of _ _ tail] appendText_def)
next
  case (Cons p ps)
  obtain l nm where p: "p = (l, nm)" by (cases p)
  let ?rest = "template ps tail" and ?t = "int (length (filled val ps tail))"
  from Cons.prems p have l: "\<not> ContainsEnvRef l" "validName nm" "plainTemplate ps tail"
    and v: "map_of environment nm = Some (val nm)" "NUL \<notin> set (val nm)" "\<not> ContainsKitPlaceholder (val nm)"
    by (auto simp: plainTemplate_def)
  obtain t where t: "envReference nm @ ?rest = CHR ''$'' # t" using reference_dollar by blast
  have "cutEnvOpener (l @ envReference nm @ ?rest) = Some (l, envReference nm @ ?rest)"
    using cutEnvOpener_literal [OF l(1)] reference_opens [of nm ?rest] by (simp add: t)
  then have "expandString environment at (template (p # ps) tail) (out, r) =
      (case appendText at l (out, r) of Inl e \<Rightarrow> Inl e | Inr st1 \<Rightarrow>
         (case appendText at (val nm) st1 of Inl e \<Rightarrow> Inl e | Inr st2 \<Rightarrow> expandString environment at ?rest st2))"
    using v by (simp add: p expandString.simps [of _ _ "l @ envReference nm @ ?rest"] reference_read [OF l(2)])
  moreover have "expandString environment at ?rest (out', r') =
      (if ?t \<le> r' then Inr (out' @ filled val ps tail, r' - ?t) else Inl (ExpansionOverBudget at))" for out' r'
    using Cons.IH [OF l(3)] Cons.prems(2) by simp
  ultimately show ?case by (auto simp: p appendText_def)
qed

section \<open>Only the values matter\<close>

lemma expandString_lookups:
  "map_of e1 = map_of e2 \<Longrightarrow> expandString e1 at v st = expandString e2 at v st"
proof (induction e1 at v st rule: expandString.induct)
  case (1 e1 at v st)
  show ?case
    unfolding expandString.simps [of e1 at v st] expandString.simps [of e2 at v st] 1(2)
    using 1(1) [OF _ _ _ _ _ _ _ _ 1(2)] 1(2)
    by (auto split: option.split sum.split prod.split)
qed

lemma expandJson_lookups:
  "map_of e1 = map_of e2 \<Longrightarrow> expandJson e1 at j r = expandJson e2 at j r"
  "map_of e1 = map_of e2 \<Longrightarrow> expandItems e1 at i xs r = expandItems e2 at i xs r"
  "map_of e1 = map_of e2 \<Longrightarrow> expandPairs e1 at kvs r = expandPairs e2 at kvs r"
proof (induction e1 at j r and e1 at i xs r and e1 at kvs r rule: expandJson_expandItems_expandPairs.induct)
  case (3 environment at s remaining)
  show ?case by (simp add: expandString_lookups [OF 3])
qed (auto simp: rbind_def split: sum.split)

lemma expandCapabilities_lookups:
  "map_of e1 = map_of e2 \<Longrightarrow> expandCapabilities e1 at i items r = expandCapabilities e2 at i items r"
proof (induction e1 at i items r rule: expandCapabilities.induct)
  case (2 environment at i item items remaining)
  note pairs = expandJson_lookups(3) [OF 2(3)]
  show ?case
  proof (cases "capGroup item")
    case None
    then show ?thesis
      using 2(2) [OF refl] 2(3) by (auto simp: pairs rbind_def Let_def split: sum.split option.split)
  next
    case (Some g)
    then show ?thesis
      using 2(1) [OF refl Some 2(3)] 2(2) [OF refl] 2(3) by (auto simp: rbind_def Let_def split: sum.split)
  qed
qed simp

lemma ExpandEnvironment_lookups:
  "map_of e1 = map_of e2 \<Longrightarrow> ExpandEnvironment encode decode d e1 = ExpandEnvironment encode decode d e2"
  by (simp add: ExpandEnvironment_def expandCapabilities_lookups [of e1 e2] split: option.split sum.split)

section \<open>Size and shape\<close>

text \<open>The bytes of the strings in a value, and the value with every string emptied and the
  entries of every object in the order of their keys.\<close>

fun textBytes :: "json \<Rightarrow> nat" where
  "textBytes (JStr s) = length s"
| "textBytes (JArr xs) = sum_list (map textBytes xs)"
| "textBytes (JObj kvs) = sum_list (map (\<lambda>kv. textBytes (snd kv)) kvs)"
| "textBytes _ = 0"

fun erased :: "json \<Rightarrow> json" where
  "erased (JStr s) = JStr []"
| "erased (JArr xs) = JArr (map erased xs)"
| "erased (JObj kvs) = JObj (sort_key fst (map (\<lambda>kv. (fst kv, erased (snd kv))) kvs))"
| "erased j = j"

lemma appendText_spends:
  "appendText at text st = Inr st' \<Longrightarrow> fst st' = fst st @ text \<and> snd st' = snd st - int (length text) \<and> 0 \<le> snd st'"
  by (auto simp: appendText_def split: if_splits)

definition spends :: "string \<times> int \<Rightarrow> string \<times> int \<Rightarrow> bool" where
  "spends st st' \<longleftrightarrow> (\<exists>t. fst st' = fst st @ t \<and> snd st' = snd st - int (length t) \<and> 0 \<le> snd st')"

lemma spends_trans: "spends st st' \<Longrightarrow> spends st' st'' \<Longrightarrow> spends st st''"
  by (force simp: spends_def)

lemma appendText_spent: "appendText at text st = Inr st' \<Longrightarrow> spends st st'"
  by (drule appendText_spends) (auto simp: spends_def)

lemma expandString_spends: "expandString environment at v st = Inr st' \<Longrightarrow> spends st st'"
proof (induction environment at v st rule: expandString.induct)
  case (1 environment at v st)
  note step = 1(2) [unfolded expandString.simps [of environment at v st]]
  show ?case
  proof (cases "cutEnvOpener v")
    case None
    with step show ?thesis by (auto dest: appendText_spent)
  next
    case (Some pr)
    with step obtain pre rest nm rest' val st1 st2 where s: "cutEnvOpener v = Some (pre, rest)"
      "envRefAt rest = Some (nm, rest')" "map_of environment nm = Some val"
      "\<not> (NUL \<in> set val \<or> ContainsKitPlaceholder val)" "appendText at pre st = Inr st1" "appendText at val st1 = Inr st2"
      "expandString environment at rest' st2 = Inr st'"
      by (cases pr) (auto split: option.splits prod.splits if_splits sum.splits)
    have "spends st2 st'" by (rule 1(1) [OF s(1) refl s(2) refl s(3-7)])
    with s(5,6) show ?thesis by (metis appendText_spent spends_trans)
  qed
qed

lemma sort_key_map: "(\<And>x. g (f x) = g x) \<Longrightarrow> map f (sort_key g xs) = sort_key g (map f xs)"
proof -
  assume "\<And>x. g (f x) = g x"
  then have "map f (insort_key g x ys) = insort_key g (f x) (map f ys)" for x ys
    by (induction ys) auto
  then show ?thesis by (induction xs) auto
qed

lemma erased_sorted:
  assumes "map (\<lambda>kv. (fst kv, erased (snd kv))) kvs' = map (\<lambda>kv. (fst kv, erased (snd kv))) (sort_key fst kvs)"
  shows "erased (JObj kvs') = erased (JObj kvs)"
  using assms by (simp add: sort_key_map sort_key_id_if_sorted)

lemma expandJson_spends:
  "expandJson environment at j r = Inr (j', r') \<Longrightarrow> r' = r - int (textBytes j') \<and> (0 \<le> r \<longrightarrow> 0 \<le> r') \<and> erased j' = erased j"
  "expandItems environment at i xs r = Inr (xs', r') \<Longrightarrow>
     r' = r - int (sum_list (map textBytes xs')) \<and> (0 \<le> r \<longrightarrow> 0 \<le> r') \<and> map erased xs' = map erased xs"
  "expandPairs environment at kvs r = Inr (kvs', r') \<Longrightarrow>
     r' = r - int (sum_list (map (\<lambda>kv. textBytes (snd kv)) kvs')) \<and> (0 \<le> r \<longrightarrow> 0 \<le> r')
     \<and> map (\<lambda>kv. (fst kv, erased (snd kv))) kvs' = map (\<lambda>kv. (fst kv, erased (snd kv))) kvs"
proof (induction environment at j r and environment at i xs r and environment at kvs r
    arbitrary: j' r' and xs' r' and kvs' r' rule: expandJson_expandItems_expandPairs.induct)
  case (1 environment at kvs remaining)
  then obtain kvs' where k: "expandPairs environment at (sort_key fst kvs) remaining = Inr (kvs', r')" "j' = JObj kvs'"
    by (auto simp: rbind_Inr_iff)
  from 1(1) [OF k(1)] k(2) erased_sorted [of kvs' kvs] show ?case by (simp del: erased.simps) linarith
next
  case (3 environment at s remaining)
  then obtain s' where s: "expandString environment at s ([], remaining) = Inr (s', r')" "j' = JStr s'"
    by (auto simp: rbind_Inr_iff)
  from expandString_spends [OF s(1)] s(2) show ?case by (auto simp: spends_def)
next
  case (9 environment at i x xs remaining)
  then obtain x' r1 ys where x: "expandJson environment (at @ ''['' @ natStr i @ '']'') x remaining = Inr (x', r1)"
    "expandItems environment at (i + 1) xs r1 = Inr (ys, r')" "xs' = x' # ys"
    by (auto simp: rbind_Inr_iff)
  from 9(1) [OF x(1)] 9(2) [OF x(2)] x(3) show ?case by auto
next
  case (11 environment at k x kvs remaining)
  then obtain x' r1 ys where x: "\<not> ContainsEnvRef k" "expandJson environment (at @ ''.'' @ k) x remaining = Inr (x', r1)"
    "expandPairs environment at kvs r1 = Inr (ys, r')" "kvs' = (k, x') # ys"
    by (auto simp: rbind_Inr_iff split: if_splits)
  from 11(1) [OF x(1,2)] 11(2) [OF x(1,3)] x(4) show ?case by auto
qed (auto simp: rbind_Inr_iff)

definition configBytes :: "capability \<Rightarrow> nat" where
  "configBytes c = (case capConfig c of None \<Rightarrow> 0 | Some kvs \<Rightarrow> textBytes (JObj kvs))"

text \<open>An entry and its expansion: all of it is the same but the strings of its config.\<close>

definition sameButText :: "capability \<Rightarrow> capability \<Rightarrow> bool" where
  "sameButText c c' \<longleftrightarrow> c' = withConfig (capConfig c') c
     \<and> map_option (\<lambda>kvs. erased (JObj kvs)) (capConfig c') = map_option (\<lambda>kvs. erased (JObj kvs)) (capConfig c)"

lemma with_config_sel [simp]:
  "capConfig (withConfig x c) = x" "capGroup (withConfig x c) = capGroup c" "withConfig (capConfig c) c = c"
  "capGroup (withGroup g c) = g"
  by (cases c; simp)+

lemma expandCapabilities_spends:
  "expandCapabilities environment at i items r = Inr (items', r') \<Longrightarrow>
   r' = r - int (sum_list (map configBytes (DeclaredCapabilities items'))) \<and> (0 \<le> r \<longrightarrow> 0 \<le> r')
   \<and> list_all2 sameButText (DeclaredCapabilities items) (DeclaredCapabilities items')"
proof (induction environment at i items r arbitrary: items' r' rule: expandCapabilities.induct)
  case (2 environment at i item items remaining)
  let ?field = "at @ ''['' @ natStr i @ '']''"
  show ?case
  proof (cases "capGroup item")
    case (Some g)
    with 2(3) obtain members r1 xs where m:
      "expandCapabilities environment (?field @ ''.group.capabilities'') 0 (groupCapabilities g) remaining = Inr (members, r1)"
      "expandCapabilities environment at (i + 1) items r1 = Inr (xs, r')"
      "items' = withGroup (Some (CapabilityGroup (groupName g) (groupDescription g) (groupOptional g) members)) item # xs"
      by (auto simp: rbind_Inr_iff Let_def)
    from 2(1) [OF refl Some m(1)] 2(2) [OF refl m(2)] Some m(3) show ?thesis
      by (auto intro: list_all2_appendI)
  next
    case None
    show ?thesis
    proof (cases "capConfig item")
      case N: None
      with None 2(3) obtain xs where m: "expandCapabilities environment at (i + 1) items remaining = Inr (xs, r')"
        "items' = item # xs" by (auto simp: rbind_Inr_iff Let_def)
      have "sameButText item item" "configBytes item = 0"
        using with_config_sel(3) [of item] by (simp_all add: sameButText_def configBytes_def N)
      with 2(2) [OF refl m(1)] None m(2) show ?thesis by auto
    next
      case S: (Some config)
      with None 2(3) obtain config' r1 xs where m:
        "expandPairs environment (?field @ ''.config'') (sort_key fst config) remaining = Inr (config', r1)"
        "expandCapabilities environment at (i + 1) items r1 = Inr (xs, r')" "items' = withConfig (Some config') item # xs"
        by (auto simp: rbind_Inr_iff Let_def)
      note e = expandJson_spends(3) [OF m(1)]
      then have "sameButText item (withConfig (Some config') item)"
        using S erased_sorted [of config' config] by (simp add: sameButText_def del: erased.simps)
      moreover have "configBytes (withConfig (Some config') item) = (\<Sum>kv\<leftarrow>config'. textBytes (snd kv))"
        by (simp add: configBytes_def)
      ultimately show ?thesis using 2(2) [OF refl m(2)] None m(3) e by auto
    qed
  qed
qed simp

section \<open>Properties\<close>

text \<open>Filling in a template is exact: for literals that hold no opener and references to
  variables of the environment whose values hold no NUL byte and no placeholder, the expansion is
  the literals with the values between them, and it is refused exactly when that text is larger
  than the bytes left of the budget.\<close>

theorem template_expansion_exact:
  assumes "plainTemplate ps tail"
    and "\<forall>(l, nm) \<in> set ps. map_of environment nm = Some (val nm) \<and> NUL \<notin> set (val nm) \<and> \<not> ContainsKitPlaceholder (val nm)"
  shows "expandString environment at (template ps tail) ([], r) =
    (if int (length (filled val ps tail)) \<le> r
     then Inr (filled val ps tail, r - int (length (filled val ps tail))) else Inl (ExpansionOverBudget at))"
  using expandString_template [OF assms, of at "[]" r] by simp

theorem template_expansion_exact_witness:
  "expandString [(''X'', ''1''), (''Y'', ''22'')] ''p'' ''a=${{ kit.env.X }}, b=${{ kit.env.Y }};'' ([], 100) = Inr (''a=1, b=22;'', 90)"
proof -
  let ?ps = "[(''a='', ''X''), ('', b='', ''Y'')]" and ?val = "\<lambda>nm. if nm = ''X'' then ''1'' else ''22''"
  have "plainTemplate ?ps '';''" by code_simp
  moreover have "NUL \<notin> set ''1''" "NUL \<notin> set ''22''" "\<not> ContainsKitPlaceholder ''1''" "\<not> ContainsKitPlaceholder ''22''"
    by code_simp+
  ultimately show ?thesis
    using template_expansion_exact [of ?ps "'';''" "[(''X'', ''1''), (''Y'', ''22'')]" ?val "''p''" 100]
    by (simp add: envReference_def)
qed



end
