(* ===== verification/Images_Facts.thy ===== *)
theory Images_Facts
  imports Images
begin

text \<open>
  What a merged image is: the workload's runtime contract, the layers and their diff IDs in
  composition order, every environment variable with the one value all kits that state it
  agree on, and a \<open>PATH\<close> with the elements of every kit.
\<close>

section \<open>The environment a list of entries states\<close>

definition envStep :: "(string \<rightharpoonup> string) \<Rightarrow> string \<Rightarrow> (string \<rightharpoonup> string)" where
  "envStep m kv = (case cut CHR ''='' kv of (k, v, ok) \<Rightarrow> if ok then m(k \<mapsto> v) else m)"

definition envMap :: "string list \<Rightarrow> (string \<rightharpoonup> string)" where
  "envMap env = foldl envStep Map.empty env"

definition stated :: "string list \<Rightarrow> (string \<times> string) set" where
  "stated env = {(k, v). \<exists>kv \<in> set env. cut CHR ''='' kv = (k, v, True)}"

definition owned :: "config_owners \<Rightarrow> (string \<rightharpoonup> string)" where
  "owned ow = (\<lambda>k. map_option vo_value (co_env ow k))"

lemma stated_simps [simp]:
  "stated [] = {}"
  "stated (kv # env) = (case cut CHR ''='' kv of (k, v, ok) \<Rightarrow> if ok then insert (k, v) (stated env) else stated env)"
  by (auto simp: stated_def split: prod.splits)

lemma envMap_snoc: "envMap (env @ [kv]) = envStep (envMap env) kv"
  by (simp add: envMap_def)

lemma has_prefix_pathEntry [simp]: "has_prefix (pathEntry v) ''PATH=''"
  unfolding pathEntry_def by (rule has_prefix_append)

lemma has_prefix_PATH: "has_prefix kv ''PATH='' \<Longrightarrow> \<exists>v. kv = pathEntry v"
  unfolding pathEntry_def has_prefix_iff by blast

lemma cut_pathEntry [simp]: "cut CHR ''='' (pathEntry v) = (''PATH'', v, True)"
  by (simp add: pathEntry_def cut_def before_def after_def)

lemma cut_key_PATH: "cut CHR ''='' kv = (''PATH'', v, True) \<Longrightarrow> kv = pathEntry v"
  using before_after [of "CHR ''=''" kv] by (simp add: cut_def pathEntry_def)

lemma owned_new: "owned (newConfigOwners s) = envMap (ic_Env (im_Config (in_Config s)))"
proof -
  have step: "(\<lambda>k. map_option vo_value (ownEnv nm m kv k)) = envStep (\<lambda>k. map_option vo_value (m k)) kv"
    for nm m kv by (auto simp: ownEnv_def envStep_def fun_eq_iff split: prod.splits)
  have "(\<lambda>k. map_option vo_value (foldl (ownEnv nm) m env k)) = foldl envStep (\<lambda>k. map_option vo_value (m k)) env"
    for nm m env
  proof (induction env arbitrary: m)
    case (Cons kv env)
    from Cons [of "ownEnv nm m kv"] show ?case by (simp add: step)
  qed simp
  from this [of "in_Name s" Map.empty "ic_Env (im_Config (in_Config s))"]
  show ?thesis by (simp add: owned_def newConfigOwners_def envMap_def)
qed

section \<open>PATH\<close>

lemma pathLoop_join:
  "pathLoop seen merged es =
     join '':'' ((if merged = [] then [] else [merged]) @ dedupe_from seen (filter (\<lambda>e. e \<noteq> []) es))"
proof (induction seen merged es rule: pathLoop.induct)
  case (2 seen merged e es)
  then show ?case
    by (cases "dedupe_from (e # seen) (filter (\<lambda>e. e \<noteq> []) es)") auto
qed simp

definition pathElements :: "string \<Rightarrow> string set" where
  "pathElements p = set (split_on CHR '':'' p) - {[]}"

lemma join_nonempty: "xs \<noteq> [] \<Longrightarrow> [] \<notin> set xs \<Longrightarrow> join sep xs \<noteq> []"
  by (cases xs; cases "tl xs") (auto simp: join_Cons)

lemma split_join_heads:
  assumes "x \<noteq> []" "\<And>y. y \<in> set ys \<Longrightarrow> CHR '':'' \<notin> set y"
  shows "split_on CHR '':'' (join '':'' (x # ys)) = split_on CHR '':'' x @ ys"
proof (cases "ys = []")
  case False
  have "join '':'' (x # ys) = x @ CHR '':'' # join '':'' ys" using False by (simp add: join_Cons)
  with assms split_join [of ys "CHR '':''"] False show ?thesis by (simp add: split_on_append)
qed simp

lemma pathLoop_elements:
  "pathElements (pathLoop (split_on CHR '':'' cur) cur (split_on CHR '':'' add)) =
     pathElements cur \<union> pathElements add"
proof -
  define new where "new = dedupe_from (split_on CHR '':'' cur) (filter (\<lambda>e. e \<noteq> []) (split_on CHR '':'' add))"
  have new: "set new = pathElements add - set (split_on CHR '':'' cur)"
    by (auto simp: new_def set_dedupe_from pathElements_def)
  have colon: "\<And>y. y \<in> set new \<Longrightarrow> CHR '':'' \<notin> set y"
    using new split_on_parts by (auto simp: pathElements_def)
  have ne: "[] \<notin> set new" using new by (auto simp: pathElements_def)
  have res: "pathLoop (split_on CHR '':'' cur) cur (split_on CHR '':'' add) =
      join '':'' ((if cur = [] then [] else [cur]) @ new)"
    by (simp only: pathLoop_join new_def)
  have all: "pathElements cur \<union> pathElements add = pathElements cur \<union> set new"
    using new by (auto simp: pathElements_def)
  have "pathElements (join '':'' ((if cur = [] then [] else [cur]) @ new)) = pathElements cur \<union> set new"
  proof (cases "cur = []")
    case True
    then show ?thesis
    proof (cases "new = []")
      case False
      then have "split_on CHR '':'' (join '':'' new) = new" using colon by (intro split_join) auto
      with True ne show ?thesis by (simp add: pathElements_def)
    qed (simp add: True pathElements_def)
  next
    case False
    from split_join_heads [OF False colon] ne False show ?thesis
      by (auto simp: pathElements_def)
  qed
  then show ?thesis unfolding res all .
qed

section \<open>The owners follow the composed environment\<close>

abbreviation PATH :: string where "PATH \<equiv> ''PATH''"

text \<open>The owners' values are what the composed entries state; for \<open>PATH\<close> that takes an image
  that states it once.\<close>

definition tracks :: "config_owners \<Rightarrow> string list \<Rightarrow> bool" where
  "tracks ow env \<longleftrightarrow>
     (\<forall>k. k \<noteq> PATH \<longrightarrow> owned ow k = envMap env k)
     \<and> length (filter (\<lambda>kv. has_prefix kv ''PATH='') env) \<le> 1
     \<and> owned ow PATH = envMap env PATH"

lemma foldl_envStep_frame:
  "(\<And>kv. kv \<in> set env \<Longrightarrow> \<forall>v. cut CHR ''='' kv \<noteq> (k, v, True)) \<Longrightarrow> foldl envStep m env k = m k"
proof (induction env arbitrary: m)
  case (Cons kv env)
  have "envStep m kv k = m k"
    using Cons.prems [of kv] by (auto simp: envStep_def split: prod.splits)
  with Cons show ?case by simp
qed simp

lemma replacePath_split:
  "replacePath merged env = Some env' \<Longrightarrow>
   \<exists>xs v ys. env = xs @ pathEntry v # ys \<and> env' = xs @ pathEntry merged # ys
     \<and> (\<forall>kv \<in> set xs. \<not> has_prefix kv ''PATH='')"
proof (induction env arbitrary: env')
  case (Cons kv env)
  show ?case
  proof (cases "has_prefix kv ''PATH=''")
    case True
    then obtain v where "kv = pathEntry v" using has_prefix_PATH by blast
    with Cons.prems True show ?thesis
      by (intro exI [of _ "[]"] exI [of _ v] exI [of _ env]) simp
  next
    case False
    with Cons.prems obtain e where "replacePath merged env = Some e" "env' = kv # e" by auto
    with Cons.IH obtain xs v ys where "env = xs @ pathEntry v # ys" "e = xs @ pathEntry merged # ys"
      "\<forall>kv \<in> set xs. \<not> has_prefix kv ''PATH=''" by blast
    with False \<open>env' = kv # e\<close> show ?thesis
      by (intro exI [of _ "kv # xs"] exI [of _ v] exI [of _ ys]) simp
  qed
qed simp

lemma replacePath_None: "replacePath merged env = None \<Longrightarrow> kv \<in> set env \<Longrightarrow> \<not> has_prefix kv ''PATH=''"
  by (induction env) (auto split: if_splits)

lemma envStep_PATH [simp]: "envStep m (pathEntry v) = m(PATH \<mapsto> v)"
  by (simp add: envStep_def)

lemma envMap_PATH_replaced:
  assumes "\<forall>kv \<in> set ys. \<not> has_prefix kv ''PATH=''"
  shows "envMap (xs @ pathEntry v # ys) = (envMap (xs @ ys))(PATH \<mapsto> v)"
  using assms
proof (induction ys rule: rev_induct)
  case Nil
  then show ?case by (simp add: envMap_snoc)
next
  case (snoc kv ys)
  then have np: "\<And>v. cut CHR ''='' kv \<noteq> (PATH, v, True)" using cut_key_PATH by fastforce
  have "envStep (m(PATH \<mapsto> v)) kv = (envStep m kv)(PATH \<mapsto> v)" for m
    using np by (cases "cut CHR ''='' kv") (auto simp: envStep_def fun_upd_twist)
  moreover have "envMap (xs @ pathEntry v # ys) = (envMap (xs @ ys))(PATH \<mapsto> v)"
    using snoc by (simp del: fun_upd_apply)
  ultimately show ?case
    using envMap_snoc [of "xs @ pathEntry v # ys" kv] envMap_snoc [of "xs @ ys" kv]
    by (simp del: fun_upd_apply)
qed

lemma mergePath_cases:
  assumes "mergePath config ow kit add = (config', ow')"
  obtains (same) "config' = config" "ow' = ow" "pathElements add \<subseteq> pathElements (currentPath ow)" "currentPath ow \<noteq> []"
    | (set) merged where "pathElements merged = pathElements (currentPath ow) \<union> pathElements add"
        "config' = config\<lparr>ic_Env := setPath merged (ic_Env config)\<rparr>" "owned ow' = (owned ow)(PATH \<mapsto> merged)"
proof -
  define merged where "merged = pathLoop (split_on CHR '':'' (currentPath ow)) (currentPath ow) (split_on CHR '':'' add)"
  have el: "pathElements merged = pathElements (currentPath ow) \<union> pathElements add"
    by (simp add: merged_def pathLoop_elements)
  show thesis
  proof (cases "merged = currentPath ow \<and> currentPath ow \<noteq> []")
    case True
    with assms el show thesis
      by (intro same) (auto simp: mergePath_def merged_def [symmetric] Let_def)
  next
    case False
    with assms have "config' = config\<lparr>ic_Env := setPath merged (ic_Env config)\<rparr>"
      "ow' = ow\<lparr>co_env := (co_env ow)(PATH \<mapsto> \<lparr>vo_value = merged, vo_kit = kit\<rparr>)\<rparr>"
      by (auto simp: mergePath_def merged_def [symmetric] Let_def)
    with el show thesis by (intro set) (auto simp: owned_def fun_eq_iff)
  qed
qed

lemma setPath_tracks:
  assumes "tracks ow env" "owned ow' = (owned ow)(PATH \<mapsto> merged)"
  shows "tracks ow' (setPath merged env)"
proof (cases "replacePath merged env")
  case None
  with replacePath_None have "filter (\<lambda>kv. has_prefix kv ''PATH='') env = []"
    by (auto simp: filter_empty_conv)
  with None assms show ?thesis
    by (simp add: setPath_def tracks_def envMap_snoc)
next
  case (Some e)
  with replacePath_split obtain xs v ys where e: "env = xs @ pathEntry v # ys"
    "e = xs @ pathEntry merged # ys" "\<forall>kv \<in> set xs. \<not> has_prefix kv ''PATH=''" by blast
  with assms(1) have ys: "\<forall>kv \<in> set ys. \<not> has_prefix kv ''PATH=''"
    by (auto simp: tracks_def filter_empty_conv)
  have "envMap (xs @ pathEntry w # ys) = (envMap (xs @ ys))(PATH \<mapsto> w)" for w
    by (rule envMap_PATH_replaced [OF ys])
  with assms Some e(1,2) show ?thesis
    by (simp add: setPath_def tracks_def)
qed

section \<open>Merging one mixin's environment\<close>

text \<open>Two sets of statements agree when no variable but \<open>PATH\<close> has two values in them.\<close>

definition agree :: "(string \<times> string) set \<Rightarrow> bool" where
  "agree S \<longleftrightarrow> (\<forall>k v w. (k, v) \<in> S \<and> (k, w) \<in> S \<and> k \<noteq> PATH \<longrightarrow> v = w)"

definition ownedSet :: "config_owners \<Rightarrow> (string \<times> string) set" where
  "ownedSet ow = {(k, v). k \<noteq> PATH \<and> owned ow k = Some v}"

definition nonPath :: "(string \<times> string) set \<Rightarrow> (string \<times> string) set" where
  "nonPath S = {kv \<in> S. fst kv \<noteq> PATH}"

lemma agree_ownedSet [simp]: "agree (ownedSet ow)"
  by (auto simp: agree_def ownedSet_def)

lemma agree_nonPath [simp]: "agree (nonPath S) = agree S"
  by (auto simp: agree_def nonPath_def)

definition pathsOf :: "(string \<times> string) set \<Rightarrow> string set" where
  "pathsOf S = (\<Union>v \<in> {v. (PATH, v) \<in> S}. pathElements v)"

definition ownedPath :: "config_owners \<Rightarrow> string set" where
  "ownedPath ow = (case owned ow PATH of None \<Rightarrow> {} | Some p \<Rightarrow> pathElements p)"

lemma ownedPath_current: "ownedPath ow = pathElements (currentPath ow)"
  by (auto simp: ownedPath_def currentPath_def owned_def pathElements_def split: option.splits)

lemma mergePath_effect:
  assumes "mergePath config ow kit add = (config', ow')" "tracks ow (ic_Env config)"
  shows "tracks ow' (ic_Env config') \<and> ownedSet ow' = ownedSet ow
    \<and> ownedPath ow' = ownedPath ow \<union> pathElements add
    \<and> config'\<lparr>ic_Env := []\<rparr> = config\<lparr>ic_Env := []\<rparr>"
  using assms(1)
proof (cases rule: mergePath_cases)
  case same
  with assms(2) show ?thesis by (auto simp: ownedPath_current)
next
  case (set merged)
  from set have "ownedPath ow' = ownedPath ow \<union> pathElements add"
    by (simp add: ownedPath_current [of ow]) (simp add: ownedPath_def)
  moreover have "ownedSet ow' = ownedSet ow" using set(3) by (auto simp: ownedSet_def)
  ultimately show ?thesis using set assms(2) setPath_tracks by simp
qed

lemma owned_add:
  "k \<noteq> PATH \<Longrightarrow> owned ow k = None \<Longrightarrow> ow' = ow\<lparr>co_env := (co_env ow)(k \<mapsto> \<lparr>vo_value = v, vo_kit = kit\<rparr>)\<rparr> \<Longrightarrow>
   ownedSet ow' = insert (k, v) (ownedSet ow) \<and> ownedPath ow' = ownedPath ow"
  by (auto simp: ownedSet_def owned_def ownedPath_def split: if_splits)

lemma tracks_add:
  assumes "tracks ow env" "cut CHR ''='' kv = (k, v, True)" "k \<noteq> PATH"
  shows "tracks (ow\<lparr>co_env := (co_env ow)(k \<mapsto> \<lparr>vo_value = v, vo_kit = kit\<rparr>)\<rparr>) (env @ [kv])"
proof -
  have "\<not> has_prefix kv ''PATH=''"
    using has_prefix_PATH [of kv] assms(2,3) by auto
  with assms show ?thesis
    by (auto simp: tracks_def owned_def envMap_snoc envStep_def)
qed

lemma insert_PATH [simp]:
  "agree (insert (PATH, v) S) = agree S" "nonPath (insert (PATH, v) S) = nonPath S"
  "pathsOf (insert (PATH, v) S) = pathElements v \<union> pathsOf S"
  by (auto simp: agree_def nonPath_def pathsOf_def)

lemma insert_other [simp]:
  "k \<noteq> PATH \<Longrightarrow> nonPath (insert (k, v) S) = insert (k, v) (nonPath S)"
  "k \<noteq> PATH \<Longrightarrow> pathsOf (insert (k, v) S) = pathsOf S"
  by (auto simp: nonPath_def pathsOf_def)

text \<open>What merging the statements \<open>S\<close> into a config must do.\<close>

definition envEffect ::
  "image_config \<Rightarrow> config_owners \<Rightarrow> (string \<times> string) set \<Rightarrow> merge_error + image_config \<times> config_owners \<Rightarrow> bool" where
  "envEffect config ow S res =
     (case res of
        Inl e \<Rightarrow> \<not> agree (ownedSet ow \<union> S)
      | Inr (config', ow') \<Rightarrow>
          agree (ownedSet ow \<union> S) \<and> tracks ow' (ic_Env config')
          \<and> ownedSet ow' = ownedSet ow \<union> nonPath S \<and> ownedPath ow' = ownedPath ow \<union> pathsOf S
          \<and> config'\<lparr>ic_Env := []\<rparr> = config\<lparr>ic_Env := []\<rparr>)"

lemma envEffect_step:
  assumes "envEffect config1 ow1 S1 res" "agree (ownedSet ow1 \<union> S1) = agree (ownedSet ow \<union> S)"
    and "ownedSet ow1 \<union> nonPath S1 = ownedSet ow \<union> nonPath S"
    and "ownedPath ow1 \<union> pathsOf S1 = ownedPath ow \<union> pathsOf S"
    and "config1\<lparr>ic_Env := []\<rparr> = config\<lparr>ic_Env := []\<rparr>"
  shows "envEffect config ow S res"
  using assms by (cases res) (auto simp: envEffect_def)

lemma mergeEnv_effect:
  "tracks ow (ic_Env config) \<Longrightarrow> envEffect config ow (stated env) (mergeEnv kit config ow env)"
proof (induction env arbitrary: config ow)
  case Nil
  then show ?case by (simp add: envEffect_def nonPath_def pathsOf_def)
next
  case (Cons kv env)
  obtain k v ok where c: "cut CHR ''='' kv = (k, v, ok)" by (metis prod_cases3)
  consider "\<not> ok" | "ok" "k = PATH" | w where "ok" "k \<noteq> PATH" "owned ow k = Some w"
    | "ok" "k \<noteq> PATH" "owned ow k = None" by fastforce
  then show ?case
  proof cases
    case 1
    with Cons c show ?thesis by simp
  next
    case 2
    obtain config' ow' where mp: "mergePath config ow kit v = (config', ow')" by fastforce
    note eff = mergePath_effect [OF mp Cons.prems]
    have "envEffect config' ow' (stated env) (mergeEnv kit config' ow' env)"
      using Cons.IH eff by blast
    then have "envEffect config ow (stated (kv # env)) (mergeEnv kit config' ow' env)"
      using 2 c eff by (elim envEffect_step) (simp_all add: Un_assoc)
    with 2 c mp show ?thesis by simp
  next
    case (3 w)
    then obtain prev where prev: "co_env ow k = Some prev" "vo_value prev = w"
      by (auto simp: owned_def)
    show ?thesis
    proof (cases "w = v")
      case True
      have "(k, v) \<in> ownedSet ow" using 3 True by (simp add: ownedSet_def)
      then have "envEffect config ow (stated (kv # env)) (mergeEnv kit config ow env)"
        using 3 c by (intro envEffect_step [OF Cons.IH [OF Cons.prems]]) (simp_all add: insert_absorb)
      with 3 c prev True show ?thesis by simp
    next
      case False
      with 3 c have "\<not> agree (ownedSet ow \<union> stated (kv # env))"
        by (auto simp: agree_def ownedSet_def)
      with 3 c prev False show ?thesis by (simp add: envEffect_def)
    qed
  next
    case 4
    let ?ow = "ow\<lparr>co_env := (co_env ow)(k \<mapsto> \<lparr>vo_value = v, vo_kit = kit\<rparr>)\<rparr>"
    let ?config = "config\<lparr>ic_Env := ic_Env config @ [kv]\<rparr>"
    have none: "co_env ow k = None" using 4 by (simp add: owned_def)
    have add: "ownedSet ?ow = insert (k, v) (ownedSet ow)" "ownedPath ?ow = ownedPath ow"
      using owned_add [of k ow ?ow v kit] 4 by blast+
    have "tracks ?ow (ic_Env ?config)" using tracks_add [OF Cons.prems] c 4 by simp
    then have "envEffect ?config ?ow (stated env) (mergeEnv kit ?config ?ow env)" by (rule Cons.IH)
    then have "envEffect config ow (stated (kv # env)) (mergeEnv kit ?config ?ow env)"
      using 4 c add by (elim envEffect_step) simp_all
    with 4 c none show ?thesis by simp
  qed
qed

section \<open>Merging configs and images\<close>

definition kept :: "image_config \<Rightarrow> string \<times> string list \<times> string list \<times> string \<times> string" where
  "kept c = (ic_User c, ic_Entrypoint c, ic_Cmd c, ic_WorkingDir c, ic_StopSignal c)"

lemma kept_env: "c'\<lparr>ic_Env := []\<rparr> = c\<lparr>ic_Env := []\<rparr> \<Longrightarrow> kept c' = kept c"
proof -
  assume eq: "c'\<lparr>ic_Env := []\<rparr> = c\<lparr>ic_Env := []\<rparr>"
  have "kept (c\<lparr>ic_Env := e\<rparr>) = kept c" for c :: image_config and e by (simp add: kept_def)
  with eq show ?thesis by metis
qed

lemma mergeLabel_frame:
  "foldl (mergeLabel kit) (config, ow) ls = (config', ow') \<Longrightarrow>
   ic_Env config' = ic_Env config \<and> co_env ow' = co_env ow \<and> kept config' = kept config"
proof (induction ls arbitrary: config ow)
  case (Cons l ls)
  obtain c1 o1 where s: "mergeLabel kit (config, ow) l = (c1, o1)" by fastforce
  then have "ic_Env c1 = ic_Env config \<and> co_env o1 = co_env ow \<and> kept c1 = kept config"
    by (auto simp: mergeLabel_def kept_def split: prod.splits if_splits)
  with Cons.IH [of c1 o1] Cons.prems s show ?case by simp
qed simp

lemma mergeConfig_effect:
  assumes "tracks ow (ic_Env config)"
  shows "(case mergeConfig ow config m of
            Inl e \<Rightarrow> \<not> agree (ownedSet ow \<union> stated (ic_Env (im_Config (in_Config m))))
          | Inr (config', ow') \<Rightarrow>
              agree (ownedSet ow \<union> stated (ic_Env (im_Config (in_Config m)))) \<and> tracks ow' (ic_Env config')
              \<and> ownedSet ow' = ownedSet ow \<union> nonPath (stated (ic_Env (im_Config (in_Config m))))
              \<and> ownedPath ow' = ownedPath ow \<union> pathsOf (stated (ic_Env (im_Config (in_Config m))))
              \<and> kept config' = kept config)"
proof -
  let ?env = "ic_Env (im_Config (in_Config m))"
  have eff: "envEffect config ow (stated ?env) (mergeEnv (in_Name m) config ow ?env)"
    by (rule mergeEnv_effect [OF assms])
  show ?thesis
  proof (cases "mergeEnv (in_Name m) config ow ?env")
    case (Inl e)
    with eff show ?thesis by (simp add: mergeConfig_def envEffect_def)
  next
    case (Inr st)
    obtain c1 o1 where st: "st = (c1, o1)" by fastforce
    obtain c2 o2 where ls: "foldl (mergeLabel (in_Name m)) (c1, o1) (ic_Labels (im_Config (in_Config m))) = (c2, o2)"
      by fastforce
    note fr = mergeLabel_frame [OF ls]
    have ow: "owned o2 = owned o1" using fr by (simp add: owned_def)
    have sets: "ownedSet o2 = ownedSet o1" "ownedPath o2 = ownedPath o1" "tracks o2 env = tracks o1 env" for env
      using ow by (simp_all add: ownedSet_def ownedPath_def tracks_def)
    show ?thesis
      using eff Inr st ls fr sets kept_env [of c1 config]
      by (simp add: mergeConfig_def envEffect_def Let_def kept_def)
  qed
qed

definition mixinEnv :: "input list \<Rightarrow> (string \<times> string) set" where
  "mixinEnv ms = (\<Union>m \<in> set ms. stated (ic_Env (im_Config (in_Config m))))"

definition layersMatch :: "input \<Rightarrow> bool" where
  "layersMatch m \<longleftrightarrow> length (ma_Layers (in_Manifest m)) = length (im_DiffIDs (in_Config m))"

lemma nonPath_Un: "nonPath (A \<union> B) = nonPath A \<union> nonPath B"
  by (auto simp: nonPath_def)

lemma pathsOf_Un: "pathsOf (A \<union> B) = pathsOf A \<union> pathsOf B"
  by (auto simp: pathsOf_def)

lemma agree_mono: "agree (A \<union> B) \<Longrightarrow> agree A"
  by (auto simp: agree_def)

lemma agree_owned: "agree (A \<union> S \<union> T) = agree (A \<union> nonPath S \<union> T)"
  by (auto simp: agree_def nonPath_def)

lemma mergeLoop_effect:
  "tracks ow (ic_Env (im_Config config)) \<Longrightarrow> list_all layersMatch ms \<Longrightarrow>
   (case mergeLoop config layers ow ms of
      Inl e \<Rightarrow> \<not> agree (ownedSet ow \<union> mixinEnv ms)
    | Inr img \<Rightarrow>
        agree (ownedSet ow \<union> mixinEnv ms)
        \<and> (\<exists>ow'. tracks ow' (ic_Env (im_Config (img_Config img)))
             \<and> ownedSet ow' = ownedSet ow \<union> nonPath (mixinEnv ms)
             \<and> ownedPath ow' = ownedPath ow \<union> pathsOf (mixinEnv ms))
        \<and> kept (im_Config (img_Config img)) = kept (im_Config config)
        \<and> img_Layers img = layers @ concat (map (ma_Layers \<circ> in_Manifest) ms)
        \<and> im_DiffIDs (img_Config img) = im_DiffIDs config @ concat (map (im_DiffIDs \<circ> in_Config) ms))"
proof (induction ms arbitrary: config layers ow)
  case Nil
  then show ?case by (auto simp: mixinEnv_def nonPath_def pathsOf_def)
next
  case (Cons m ms)
  let ?S = "stated (ic_Env (im_Config (in_Config m)))"
  have env: "mixinEnv (m # ms) = ?S \<union> mixinEnv ms" by (simp add: mixinEnv_def)
  have lm: "layersMatch m" "list_all layersMatch ms" using Cons.prems(2) by simp_all
  note eff = mergeConfig_effect [OF Cons.prems(1), of m]
  show ?case
  proof (cases "mergeConfig ow (im_Config config) m")
    case (Inl e)
    with eff have "\<not> agree (ownedSet ow \<union> ?S)" by simp
    then have "\<not> agree (ownedSet ow \<union> mixinEnv (m # ms))"
      unfolding env Un_assoc [symmetric] using agree_mono by blast
    with Inl lm(1) show ?thesis by (simp add: layersMatch_def)
  next
    case (Inr st)
    obtain c1 o1 where st: "st = (c1, o1)" by fastforce
    with Inr eff have e: "tracks o1 (ic_Env c1)" "ownedSet o1 = ownedSet ow \<union> nonPath ?S"
      "ownedPath o1 = ownedPath ow \<union> pathsOf ?S" "kept c1 = kept (im_Config config)" by simp_all
    let ?config = "config\<lparr>im_DiffIDs := im_DiffIDs config @ im_DiffIDs (in_Config m),
        im_History := im_History config @ map (\<lambda>l. kitHistory (in_Name m)) (ma_Layers (in_Manifest m)),
        im_Config := c1\<rparr>"
    let ?layers = "layers @ ma_Layers (in_Manifest m)"
    have run: "mergeLoop config layers ow (m # ms) = mergeLoop ?config ?layers o1 ms"
      using Inr st lm(1) by (simp add: layersMatch_def Let_def)
    have ag: "agree (ownedSet o1 \<union> mixinEnv ms) = agree (ownedSet ow \<union> mixinEnv (m # ms))"
      unfolding e(2) env Un_assoc [symmetric] using agree_owned by blast
    have "tracks o1 (ic_Env (im_Config ?config))" using e(1) by simp
    from Cons.IH [OF this lm(2), of ?layers] ag e(2-4) env show ?thesis
      unfolding run by (auto simp: nonPath_Un pathsOf_Un Un_assoc split: sum.splits)
  qed
qed

section \<open>What holds of every merged image\<close>

lemma mergeEnv_kept:
  "mergeEnv kit config ow env = Inr (config', ow') \<Longrightarrow> kept config' = kept config"
proof (induction env arbitrary: config ow)
  case (Cons kv env)
  obtain k v ok where c: "cut CHR ''='' kv = (k, v, ok)" by (metis prod_cases3)
  have path: "kept c1 = kept config" if "mergePath config ow kit v = (c1, o1)" for c1 o1
    using that by (auto simp: mergePath_def kept_def Let_def split: if_splits)
  have add: "kept (config\<lparr>ic_Env := e\<rparr>) = kept config" for e by (simp add: kept_def)
  from Cons c show ?case
    by (auto split: if_splits option.splits prod.splits simp: path add dest!: Cons.IH)
qed simp

lemma mergeConfig_kept:
  assumes "mergeConfig ow config m = Inr (config', ow')" shows "kept config' = kept config"
proof -
  obtain c1 o1 where e: "mergeEnv (in_Name m) config ow (ic_Env (im_Config (in_Config m))) = Inr (c1, o1)"
    using assms by (auto simp: mergeConfig_def Let_def rbind_Inr_iff)
  obtain c2 o2 where l: "foldl (mergeLabel (in_Name m)) (c1, o1) (ic_Labels (im_Config (in_Config m))) = (c2, o2)"
    by fastforce
  have "kept config' = kept c2" using assms e l by (auto simp: mergeConfig_def kept_def Let_def)
  with mergeEnv_kept [OF e] mergeLabel_frame [OF l] show ?thesis by simp
qed

lemma mergeLoop_shape:
  "mergeLoop config layers ow ms = Inr img \<Longrightarrow>
   kept (im_Config (img_Config img)) = kept (im_Config config)
   \<and> img_Layers img = layers @ concat (map (ma_Layers \<circ> in_Manifest) ms)
   \<and> im_DiffIDs (img_Config img) = im_DiffIDs config @ concat (map (im_DiffIDs \<circ> in_Config) ms)
   \<and> list_all layersMatch ms"
proof (induction ms arbitrary: config layers ow)
  case (Cons m ms)
  from Cons.prems have lm: "layersMatch m"
    by (simp add: layersMatch_def Let_def split: if_splits)
  then obtain c1 o1 where mc: "mergeConfig ow (im_Config config) m = Inr (c1, o1)"
    using Cons.prems by (auto simp: layersMatch_def Let_def rbind_Inr_iff)
  let ?config = "config\<lparr>im_DiffIDs := im_DiffIDs config @ im_DiffIDs (in_Config m),
      im_History := im_History config @ map (\<lambda>l. kitHistory (in_Name m)) (ma_Layers (in_Manifest m)),
      im_Config := c1\<rparr>"
  have "mergeLoop ?config (layers @ ma_Layers (in_Manifest m)) o1 ms = Inr img"
    using Cons.prems lm mc by (simp add: layersMatch_def Let_def)
  from Cons.IH [OF this] lm mergeConfig_kept [OF mc] show ?case by simp
qed auto

lemma Merge_shape:
  assumes "Merge s ms = Inr img"
  shows "kept (im_Config (img_Config img)) = kept (im_Config (in_Config s))
    \<and> img_Layers img = concat (map (ma_Layers \<circ> in_Manifest) (s # ms))
    \<and> im_DiffIDs (img_Config img) = concat (map (im_DiffIDs \<circ> in_Config) (s # ms))
    \<and> list_all layersMatch (s # ms)"
  using assms mergeLoop_shape [of "in_Config s" "ma_Layers (in_Manifest s)" "newConfigOwners s" ms img]
  by (auto simp: Merge_def Let_def layersMatch_def split: if_splits)

lemma layersMatch_concat:
  "list_all layersMatch ms \<Longrightarrow>
   length (concat (map (ma_Layers \<circ> in_Manifest) ms)) = length (concat (map (im_DiffIDs \<circ> in_Config) ms))"
  by (induction ms) (simp_all add: layersMatch_def)

lemma loadInputs_loaded:
  "loadInputs sp ld h ins us = Inr out \<Longrightarrow>
   \<exists>new. out = ins @ new \<and> list_all2 (\<lambda>u i. in_Name i = Reference (h u) \<and>
      (\<exists>i'. ld (Image (h u)) = Inr i' \<and> i = i'\<lparr>in_Name := Reference (h u)\<rparr>)) us new"
proof (induction us arbitrary: ins)
  case (Cons u us)
  from Cons.prems obtain i' where i': "ld (Image (h u)) = Inr i'"
    "loadInputs sp ld h (ins @ [i'\<lparr>in_Name := Reference (h u)\<rparr>]) us = Inr out"
    by (auto simp: Let_def split: sum.splits if_splits)
  from Cons.IH [OF i'(2)] obtain new where "out = ins @ (i'\<lparr>in_Name := Reference (h u)\<rparr>) # new"
    "list_all2 (\<lambda>u i. in_Name i = Reference (h u) \<and>
      (\<exists>i'. ld (Image (h u)) = Inr i' \<and> i = i'\<lparr>in_Name := Reference (h u)\<rparr>)) us new" by auto
  with i'(1) show ?case by auto
qed auto

lemma Resolve_nonempty: "Resolve h us = Inr res \<Longrightarrow> Ordered res \<noteq> []"
proof -
  assume *: "Resolve h us = Inr res"
  then have "length (workloads h us) = 1"
    by (auto simp: Resolve_def resolve_ok_iff coherent_def)
  with resolve_workload(1) [OF * [unfolded Resolve_def]] show ?thesis
    by (cases "Workload res") (auto simp: Ordered_def)
qed

section \<open>Properties\<close>

text \<open>The statements of a composition: the value each variable of the workload's image has, and
  every entry of every mixin's image.\<close>

definition statements :: "input \<Rightarrow> input list \<Rightarrow> (string \<times> string) set" where
  "statements s ms = {(k, v). envMap (ic_Env (im_Config (in_Config s))) k = Some v} \<union> mixinEnv ms"

lemma tracks_new:
  assumes "length (filter (\<lambda>kv. has_prefix kv ''PATH='') (ic_Env (im_Config (in_Config s)))) \<le> 1"
  shows "tracks (newConfigOwners s) (ic_Env (im_Config (in_Config s)))"
  using assms by (simp add: tracks_def owned_new)

lemma ownedSet_new: "ownedSet (newConfigOwners s) = nonPath {(k, v). envMap (ic_Env (im_Config (in_Config s))) k = Some v}"
  by (auto simp: ownedSet_def owned_new nonPath_def)

lemma ownedPath_new: "ownedPath (newConfigOwners s) = pathsOf {(k, v). envMap (ic_Env (im_Config (in_Config s))) k = Some v}"
  by (auto simp: ownedPath_def owned_new pathsOf_def split: option.splits)

lemma Merge_env:
  assumes "list_all layersMatch (s # ms)"
    and "length (filter (\<lambda>kv. has_prefix kv ''PATH='') (ic_Env (im_Config (in_Config s)))) \<le> 1"
  shows "(is_ok (Merge s ms) \<longleftrightarrow> agree (statements s ms))
    \<and> (\<forall>img. Merge s ms = Inr img \<longrightarrow>
         (\<forall>k v. k \<noteq> PATH \<longrightarrow>
            (envMap (ic_Env (im_Config (img_Config img))) k = Some v) = ((k, v) \<in> statements s ms))
         \<and> (case envMap (ic_Env (im_Config (img_Config img))) PATH of
              None \<Rightarrow> {} | Some p \<Rightarrow> pathElements p) = pathsOf (statements s ms))"
proof -
  let ?own = "newConfigOwners s"
  have run: "Merge s ms = mergeLoop (in_Config s) (ma_Layers (in_Manifest s)) ?own ms"
    using assms(1) by (simp add: Merge_def layersMatch_def)
  have ag: "agree (ownedSet ?own \<union> mixinEnv ms) = agree (statements s ms)"
    using agree_owned [of "{}"] by (simp add: ownedSet_new statements_def)
  have all: "ownedSet ?own \<union> nonPath (mixinEnv ms) = nonPath (statements s ms)"
    "ownedPath ?own \<union> pathsOf (mixinEnv ms) = pathsOf (statements s ms)"
    by (simp_all add: ownedSet_new ownedPath_new statements_def nonPath_Un pathsOf_Un)
  note eff = mergeLoop_effect [OF tracks_new [OF assms(2)], of ms "ma_Layers (in_Manifest s)"]
  show ?thesis
  proof (cases "Merge s ms")
    case (Inl e)
    with run have "mergeLoop (in_Config s) (ma_Layers (in_Manifest s)) ?own ms = Inl e" by simp
    with eff assms(1) ag Inl show ?thesis by simp
  next
    case (Inr img)
    with run have "mergeLoop (in_Config s) (ma_Layers (in_Manifest s)) ?own ms = Inr img" by simp
    with eff assms(1) ag all obtain ow where ow: "agree (statements s ms)"
      "tracks ow (ic_Env (im_Config (img_Config img)))" "ownedSet ow = nonPath (statements s ms)"
      "ownedPath ow = pathsOf (statements s ms)" by auto
    have "(envMap (ic_Env (im_Config (img_Config img))) k = Some v) = ((k, v) \<in> statements s ms)"
      if "k \<noteq> PATH" for k v
    proof -
      have "((k, v) \<in> ownedSet ow) = ((k, v) \<in> nonPath (statements s ms))" using ow(3) by simp
      with ow(2) that show ?thesis by (simp add: ownedSet_def nonPath_def tracks_def)
    qed
    moreover have "(case envMap (ic_Env (im_Config (img_Config img))) PATH of
        None \<Rightarrow> {} | Some p \<Rightarrow> pathElements p) = pathsOf (statements s ms)"
      using ow(2,4) by (simp add: ownedPath_def tracks_def)
    ultimately show ?thesis using Inr ow(1) by simp
  qed
qed

text \<open>For images whose layer counts match, with \<open>PATH\<close> stated at most once by the
  workload: the merge succeeds exactly when no variable other than \<open>PATH\<close> is given two values
  by the workload and the mixins. When it succeeds, the merged environment gives every such
  variable exactly the stated value and nothing else, and the elements of its \<open>PATH\<close> are those
  of every stated \<open>PATH\<close>.\<close>

theorem merge_env_exact:
  assumes "list_all layersMatch (s # ms)"
    and "length (filter (\<lambda>kv. has_prefix kv ''PATH='') (ic_Env (im_Config (in_Config s)))) \<le> 1"
  shows "(is_ok (Merge s ms) \<longleftrightarrow> agree (statements s ms))
    \<and> (\<forall>img. Merge s ms = Inr img \<longrightarrow>
         (\<forall>k v. k \<noteq> PATH \<longrightarrow>
            (envMap (ic_Env (im_Config (img_Config img))) k = Some v) = ((k, v) \<in> statements s ms))
         \<and> (case envMap (ic_Env (im_Config (img_Config img))) PATH of
              None \<Rightarrow> {} | Some p \<Rightarrow> pathElements p) = pathsOf (statements s ms))"
  by (rule Merge_env [OF assms])

lemma Assemble_in_order:
  assumes "Assemble samePlatform (Some ld) h (map Some us) = Inr img"
  shows "\<exists>res s ms. Resolve h us = Inr res
    \<and> list_all2 (\<lambda>u i. \<exists>i'. ld (Image (h u)) = Inr i' \<and> i = i'\<lparr>in_Name := Reference (h u)\<rparr>)
        (Ordered res) (s # ms)
    \<and> img_Layers img = concat (map (ma_Layers \<circ> in_Manifest) (s # ms))
    \<and> im_DiffIDs (img_Config img) = concat (map (im_DiffIDs \<circ> in_Config) (s # ms))
    \<and> length (img_Layers img) = length (im_DiffIDs (img_Config img))
    \<and> kept (im_Config (img_Config img)) = kept (im_Config (in_Config s))"
proof -
  from assms obtain res where res: "Resolve h us = Inr res"
    and run: "rbind (loadInputs samePlatform ld h [] (Ordered res)) (\<lambda>inputs.
        case Merge (hd inputs) (tl inputs) of Inl e \<Rightarrow> Inl (MergeFailed e) | Inr img \<Rightarrow> Inr img) = Inr img"
    by (auto simp: Assemble_def comp_def split: option.splits sum.splits)
  from run obtain ins where ins: "loadInputs samePlatform ld h [] (Ordered res) = Inr ins"
    and merge: "(case Merge (hd ins) (tl ins) of Inl e \<Rightarrow> Inl (MergeFailed e) | Inr img \<Rightarrow> Inr img) = Inr img"
    unfolding rbind_Inr_iff by blast
  from merge have m: "Merge (hd ins) (tl ins) = Inr img" by (cases "Merge (hd ins) (tl ins)") simp_all
  have "Ordered res \<noteq> []" using Resolve_nonempty [OF res] .
  from loadInputs_loaded [OF ins] have l2: "list_all2 (\<lambda>u i. \<exists>i'. ld (Image (h u)) = Inr i'
      \<and> i = i'\<lparr>in_Name := Reference (h u)\<rparr>) (Ordered res) ins"
    by (auto elim: list_all2_mono)
  with \<open>Ordered res \<noteq> []\<close> have "ins = hd ins # tl ins" by (cases ins) auto
  with res l2 Merge_shape [OF m] layersMatch_concat [of "hd ins # tl ins"] show ?thesis
    by (intro exI [of _ res] exI [of _ "hd ins"] exI [of _ "tl ins"]) simp
qed

text \<open>An assembled image is the workload's image extended: the set resolves, every
  kit of the composition order is loaded by its image reference, the layers and the diff IDs
  are those of the loaded images in that order, the workload's first, and match in number, and
  entrypoint, command, user, working directory and stop signal are the workload's.\<close>

theorem assembled_in_order:
  assumes "Assemble samePlatform (Some ld) h (map Some us) = Inr img"
  shows "\<exists>res s ms. Resolve h us = Inr res
    \<and> list_all2 (\<lambda>u i. \<exists>i'. ld (Image (h u)) = Inr i' \<and> i = i'\<lparr>in_Name := Reference (h u)\<rparr>)
        (Ordered res) (s # ms)
    \<and> img_Layers img = concat (map (ma_Layers \<circ> in_Manifest) (s # ms))
    \<and> im_DiffIDs (img_Config img) = concat (map (im_DiffIDs \<circ> in_Config) (s # ms))
    \<and> length (img_Layers img) = length (im_DiffIDs (img_Config img))
    \<and> kept (im_Config (img_Config img)) = kept (im_Config (in_Config s))"
  by (rule Assemble_in_order [OF assms])

text \<open>Three images for the closed instances: a workload and two mixins that extend its
  \<open>PATH\<close> and agree on a variable.\<close>

definition exampleInput :: "string \<Rightarrow> string list \<Rightarrow> input" where
  "exampleInput nm env =
     \<lparr>in_Name = nm,
      in_Manifest = \<lparr>ma_SchemaVersion = 2, ma_MediaType = MediaTypeImageManifest, ma_ArtifactType = [],
        ma_Config = \<lparr>od_MediaType = MediaTypeImageConfig, od_Digest = ''sha256:c'', od_Size = 1\<rparr>,
        ma_Layers = [\<lparr>od_MediaType = ''tar'', od_Digest = nm, od_Size = 1\<rparr>], ma_Subject = None,
        ma_Annotations = []\<rparr>,
      in_Config = \<lparr>im_Platform = linuxAmd64,
        im_Config = \<lparr>ic_User = ''agent'', ic_ExposedPorts = [], ic_Env = env, ic_Entrypoint = [''sh''],
          ic_Cmd = [], ic_Volumes = [], ic_WorkingDir = ''/w'', ic_Labels = [], ic_StopSignal = []\<rparr>,
        im_RootFSType = ''layers'', im_DiffIDs = [nm], im_History = []\<rparr>\<rparr>"

theorem merge_env_exact_witness:
  "is_ok (Merge (exampleInput ''w'' [''PATH=/bin'', ''A=1'']) [exampleInput ''m'' [''PATH=/m'', ''A=1'']])
     = agree (statements (exampleInput ''w'' [''PATH=/bin'', ''A=1'']) [exampleInput ''m'' [''PATH=/m'', ''A=1'']])
   \<and> is_ok (Merge (exampleInput ''w'' [''PATH=/bin'', ''A=1'']) [exampleInput ''m'' [''PATH=/m'', ''A=1'']])"
proof -
  let ?s = "exampleInput ''w'' [''PATH=/bin'', ''A=1'']" and ?m = "exampleInput ''m'' [''PATH=/m'', ''A=1'']"
  have "list_all layersMatch [?s, ?m]"
    "length (filter (\<lambda>kv. has_prefix kv ''PATH='') (ic_Env (im_Config (in_Config ?s)))) \<le> 1"
    "is_ok (Merge ?s [?m])" by code_simp+
  with merge_env_exact [of ?s "[?m]"] show ?thesis by simp
qed

theorem assembled_in_order_witness:
  "\<exists>img. Assemble (\<lambda>a b. True) (Some (\<lambda>r. Inr (exampleInput r []))) exampleHeap (map Some [2, 1, 0]) = Inr img
    \<and> length (img_Layers img) = length (im_DiffIDs (img_Config img))"
proof -
  let ?a = "Assemble (\<lambda>a b. True) (Some (\<lambda>r. Inr (exampleInput r []))) exampleHeap (map Some [2, 1, 0])"
  have "is_ok ?a" by code_simp
  then obtain img where "?a = Inr img" by (auto simp: is_ok_iff)
  with assembled_in_order show ?thesis by blast
qed

end
