(* ===== verification/Registry_Facts.thy ===== *)
theory Registry_Facts
  imports Registry Images_Facts
begin

text \<open>
  What the registry reads guarantee whatever the server answers: every document that is used
  hashes to the digest that names it, along a chain that starts at the reference, the number of
  manifests read for one reference is bounded, and the manifest chosen in an index is a best
  match for the platform.
\<close>

section \<open>Verified bytes\<close>

definition verified :: "registry_lib \<Rightarrow> oci_descriptor \<Rightarrow> string \<Rightarrow> bool" where
  "verified lib d body \<longleftrightarrow>
     int (length body) = od_Size d \<and> od_Size d \<le> maxMetadataBytes
     \<and> digestError lib (od_Digest d) = None \<and> digestFrom lib (od_Digest d) body = od_Digest d"

lemma readVerified_ok: "readVerified lib rc d = Inr body \<Longrightarrow> verified lib d body"
  by (auto simp: readVerified_def readLimited_def verified_def rbind_def Let_def
      split: sum.splits if_splits option.splits)

lemma fetchDescriptor_ok:
  "fetchDescriptor lib repo d n = (r, n') \<Longrightarrow>
   n \<le> n' \<and> n' \<le> max n maxManifestFetches \<and> (\<forall>body. r = Inr body \<longrightarrow> verified lib (plain_descriptor d) body)"
  by (auto simp: fetchDescriptor_def consumeManifest_def dest: readVerified_ok split: if_splits sum.splits)

lemma fetchManifest_ok:
  "fetchManifest lib repo nm 0 = (r, n) \<Longrightarrow>
   n \<le> maxManifestFetches \<and> (\<forall>d body. r = Inr (d, body) \<longrightarrow> verified lib (plain_descriptor d) body)"
  by (auto simp: fetchManifest_def consumeManifest_def maxManifestFetches_def rbind_def
      dest: readVerified_ok split: if_splits sum.splits)

section \<open>The chain of digests\<close>

text \<open>The documents reached from a root: the root's own bytes, and the bytes of what an index
  on the chain lists, each verified against the descriptor that names it. The number is the
  distance from the root.\<close>

inductive certified :: "registry_lib \<Rightarrow> reg_descriptor \<Rightarrow> nat \<Rightarrow> reg_descriptor \<Rightarrow> string \<Rightarrow> bool"
  for lib root where
  certified_root: "verified lib (plain_descriptor root) body \<Longrightarrow> certified lib root 0 root body"
| certified_child:
    "certified lib root k d body \<Longrightarrow> isIndex (od_MediaType d) \<Longrightarrow> parseIndex lib body = Inr index \<Longrightarrow>
     d' \<in> set (ix_Manifests index) \<Longrightarrow> verified lib (plain_descriptor d') body' \<Longrightarrow>
     certified lib root (Suc k) d' body'"

lemma certified_verified: "certified lib root k d body \<Longrightarrow> verified lib (plain_descriptor d) body"
  by (induction rule: certified.induct) simp_all

definition from_manifest ::
  "registry_lib \<Rightarrow> reg_descriptor \<Rightarrow> bool \<Rightarrow> string \<times> platform option \<Rightarrow> bool" where
  "from_manifest lib root ann x \<longleftrightarrow>
     (\<exists>k d body m. certified lib root k d body \<and> k \<le> Suc maxIndexDepth
        \<and> isImageManifest (od_MediaType d) \<and> parseManifest lib body = Inr m
        \<and> requirePlainImageManifest (od_MediaType d) m = None \<and> snd x = od_Platform d
        \<and> fst x = (if ann then annotation (ma_Annotations m) AnnotationDescriptor else body))"

definition from_root_index :: "registry_lib \<Rightarrow> reg_descriptor \<Rightarrow> string \<times> platform option \<Rightarrow> bool" where
  "from_root_index lib root x \<longleftrightarrow>
     (\<exists>body index. certified lib root 0 root body \<and> isIndex (od_MediaType root)
        \<and> parseIndex lib body = Inr index \<and> fst x \<noteq> []
        \<and> fst x = annotation (ix_Annotations index) AnnotationDescriptor)"

definition origin :: "registry_lib \<Rightarrow> reg_descriptor \<Rightarrow> bool \<Rightarrow> string \<times> platform option \<Rightarrow> bool" where
  "origin lib root ann x \<longleftrightarrow> from_manifest lib root ann x \<or> ann \<and> from_root_index lib root x"

section \<open>Searching with a sound reader\<close>

text \<open>A reader over some descriptors that stays within the budget and yields only results with
  a property. The search of an index is then such a reader too.\<close>

definition within :: "nat \<Rightarrow> nat \<Rightarrow> bool" where
  "within n n' \<longleftrightarrow> n \<le> n' \<and> n' \<le> max n maxManifestFetches"

lemma within_refl [simp]: "within n n"
  by (simp add: within_def)

lemma within_trans: "within n n' \<Longrightarrow> within n' n'' \<Longrightarrow> within n n''"
  by (auto simp: within_def)

definition sound_reader :: "reader \<Rightarrow> reg_descriptor set \<Rightarrow> (string \<times> platform option \<Rightarrow> bool) \<Rightarrow> bool" where
  "sound_reader rd D P \<longleftrightarrow>
     (\<forall>d n r n'. d \<in> D \<longrightarrow> rd d n = (r, n') \<longrightarrow> within n n' \<and> (\<forall>x. r = Inr (Some x) \<longrightarrow> P x))"

lemma sound_readerD:
  "sound_reader rd D P \<Longrightarrow> d \<in> D \<Longrightarrow> rd d n = (r, n') \<Longrightarrow> within n n' \<and> (\<forall>x. r = Inr (Some x) \<longrightarrow> P x)"
  unfolding sound_reader_def by blast

lemma considerFound_P: "considerFound lib want best x = Some y \<Longrightarrow> y = x \<or> best = Some y"
  by (auto simp: considerFound_def split: option.splits if_splits)

lemma searchNested_sound:
  assumes "sound_reader rd D P" "set ds \<subseteq> D" "\<forall>x. best = Some x \<longrightarrow> P x"
    and "searchNested lib want rd best ds n = (r, n')"
  shows "within n n' \<and> (\<forall>b f x. r = Inr (b, f) \<longrightarrow> b = Some x \<longrightarrow> P x)"
  using assms(2-)
proof (induction ds arbitrary: best n)
  case (Cons d ds)
  obtain r1 n1 where rd: "rd d n = (r1, n1)" by fastforce
  with sound_readerD [OF assms(1) _ rd] Cons.prems(1)
  have d: "within n n1" "\<forall>x. r1 = Inr (Some x) \<longrightarrow> P x" by auto
  show ?case
  proof (cases r1)
    case (Inl e)
    with rd d(1) Cons.prems(3) show ?thesis by auto
  next
    case (Inr y)
    show ?thesis
    proof (cases y)
      case None
      with Inr rd Cons.prems(3) have "searchNested lib want rd best ds n1 = (r, n')" by simp
      with Cons.IH [of best n1] Cons.prems(1,2) show ?thesis using within_trans [OF d(1)] by simp
    next
      case (Some x)
      with Inr d(2) have x: "P x" by simp
      show ?thesis
      proof (cases "exact lib want (snd x)")
        case True
        with Inr Some rd d(1) x Cons.prems(3) show ?thesis by auto
      next
        case False
        have "\<forall>y. considerFound lib want best x = Some y \<longrightarrow> P y"
          using considerFound_P [of lib want best x] x Cons.prems(2) by blast
        moreover have "searchNested lib want rd (considerFound lib want best x) ds n1 = (r, n')"
          using False Inr Some rd Cons.prems(3) by simp
        ultimately show ?thesis
          using Cons.IH [of "considerFound lib want best x" n1] Cons.prems(1) within_trans [OF d(1)] by simp
      qed
    qed
  qed
qed auto

lemma searchFallback_sound:
  assumes "sound_reader rd D P" "d \<in> D" "\<forall>x. best = Some x \<longrightarrow> P x"
    and "searchFallback lib want rd best d n = (r, n')"
  shows "within n n' \<and> (\<forall>x. r = Inr (Some x) \<longrightarrow> P x)"
proof -
  obtain r1 n1 where rd: "rd d n = (r1, n1)" by fastforce
  from sound_readerD [OF assms(1,2) rd] rd assms(3,4) show ?thesis
    by (auto simp: searchFallback_def split: sum.splits option.splits if_splits)
qed

lemma searchIndex_sound:
  assumes rd: "sound_reader rd D P"
    and cand: "\<forall>d. fst choice = Some d \<longrightarrow> d \<in> D" "set (snd choice) \<subseteq> D"
    and run: "searchIndex lib want rd choice n = (r, n')"
  shows "within n n' \<and> (\<forall>x. r = Inr (Some x) \<longrightarrow> P x)"
proof -
  define now where "now = (case fst choice of None \<Rightarrow> False
      | Some d \<Rightarrow> exact lib want (od_Platform d) \<or> snd choice = [])"
  obtain r1 n1 where first: "(if now then searchNested lib want rd None [the (fst choice)] n else (Inr (None, False), n)) = (r1, n1)"
    by fastforce
  have one: "within n n1" "\<forall>b f x. r1 = Inr (b, f) \<longrightarrow> b = Some x \<longrightarrow> P x"
  proof -
    have "within n n1 \<and> (\<forall>b f x. r1 = Inr (b, f) \<longrightarrow> b = Some x \<longrightarrow> P x)"
    proof (cases now)
      case True
      with cand(1) have "set [the (fst choice)] \<subseteq> D" by (auto simp: now_def split: option.splits)
      from searchNested_sound [OF rd this, of None lib want n r1 n1] True first show ?thesis by simp
    qed (use first in auto)
    then show "within n n1" "\<forall>b f x. r1 = Inr (b, f) \<longrightarrow> b = Some x \<longrightarrow> P x" by blast+
  qed
  note unf = run [unfolded searchIndex_def Let_def now_def [symmetric] first]
  show ?thesis
  proof (cases r1)
    case (Inl e)
    with unf one show ?thesis by auto
  next
    case (Inr bf)
    obtain best f where bf: "bf = (best, f)" by fastforce
    with Inr one have P1: "\<forall>x. best = Some x \<longrightarrow> P x" by blast
    show ?thesis
    proof (cases f)
      case True
      with unf one P1 Inr bf show ?thesis by auto
    next
      case False
      obtain r2 n2 where second: "searchNested lib want rd best (snd choice) n1 = (r2, n2)" by fastforce
      from searchNested_sound [OF rd cand(2) P1 second]
      have two: "within n n2" "\<forall>b f x. r2 = Inr (b, f) \<longrightarrow> b = Some x \<longrightarrow> P x"
        using within_trans [OF one(1)] by blast+
      show ?thesis
      proof (cases "r2 = Inr (fst (projr r2), False) \<and> fst choice \<noteq> None \<and> \<not> now")
        case True
        then obtain b where b: "r2 = Inr (b, False)" by blast
        with True unf second Inr bf False
        have fb: "searchFallback lib want rd b (the (fst choice)) n2 = (r, n')" by simp
        have "the (fst choice) \<in> D" "\<forall>x. b = Some x \<longrightarrow> P x" using True cand(1) two(2) b by auto
        from searchFallback_sound [OF rd this fb] show ?thesis using within_trans [OF two(1)] by blast
      next
        case no: False
        with unf second Inr bf False two show ?thesis
          by (cases r2) (auto split: bool.splits if_splits)
      qed
    qed
  qed
qed

section \<open>Choosing a manifest\<close>

definition candidate :: "reg_descriptor \<Rightarrow> bool" where
  "candidate m \<longleftrightarrow> \<not> isIndex (od_MediaType m)
     \<and> \<not> (case od_Platform m of None \<Rightarrow> False | Some p \<Rightarrow> p_OS p = ''unknown'')
     \<and> (od_MediaType m = [] \<or> isImageManifest (od_MediaType m))"

definition matching :: "registry_lib \<Rightarrow> platform \<Rightarrow> reg_descriptor \<Rightarrow> bool" where
  "matching lib want m \<longleftrightarrow>
     candidate m \<and> (case od_Platform m of None \<Rightarrow> False | Some p \<Rightarrow> platMatch lib want p)"

definition closer :: "registry_lib \<Rightarrow> platform \<Rightarrow> reg_descriptor \<Rightarrow> reg_descriptor \<Rightarrow> bool" where
  "closer lib want a b \<longleftrightarrow> platLess lib want (the (od_Platform a)) (the (od_Platform b))"

definition chosen :: "registry_lib \<Rightarrow> platform \<Rightarrow> reg_descriptor list \<Rightarrow> choice" where
  "chosen lib want ms =
     foldl (chooseStep lib want) \<lparr>ch_matched = None, ch_only = None, ch_runnable = 0, ch_nested = []\<rparr> ms"

lemma chosen_snoc: "chosen lib want (ms @ [m]) = chooseStep lib want (chosen lib want ms) m"
  by (simp add: chosen_def)

lemma chosen_listed:
  "ch_nested (chosen lib want ms) = filter (\<lambda>m. isIndex (od_MediaType m)) ms"
  "ch_runnable (chosen lib want ms) = length (filter candidate ms)"
  "ch_only (chosen lib want ms) = (case filter candidate ms of [] \<Rightarrow> None | m # _ \<Rightarrow> Some m)"
  by (induction ms rule: rev_induct)
     (auto simp: chosen_snoc chooseStep_def Let_def candidate_def chosen_def split: option.splits list.splits)

lemma chooseStep_matched:
  assumes "\<forall>b. ch_matched c = Some b \<longrightarrow> od_Platform b \<noteq> None"
  shows "ch_matched (chooseStep lib want c m) =
    (if matching lib want m \<and> (case ch_matched c of None \<Rightarrow> True | Some b \<Rightarrow> closer lib want m b)
     then Some m else ch_matched c)"
  using assms
  by (auto simp: chooseStep_def Let_def matching_def candidate_def closer_def split: option.splits)

lemma chosen_matched:
  assumes "irreflp (platLess lib want)" "transp (platLess lib want)"
  shows "case ch_matched (chosen lib want ms) of
      None \<Rightarrow> \<not> list_ex (matching lib want) ms
    | Some b \<Rightarrow> b \<in> set ms \<and> matching lib want b
        \<and> (\<forall>m \<in> set ms. matching lib want m \<longrightarrow> \<not> closer lib want m b)"
proof (induction ms rule: rev_induct)
  case Nil
  then show ?case by (simp add: chosen_def)
next
  case (snoc m ms)
  let ?c = "chosen lib want ms"
  have plat: "\<forall>b. ch_matched ?c = Some b \<longrightarrow> od_Platform b \<noteq> None"
    using snoc by (auto simp: matching_def split: option.splits)
  have irr: "\<not> closer lib want x x" for x
    using assms(1) by (simp add: closer_def irreflp_def)
  have tr: "closer lib want x y \<Longrightarrow> closer lib want y z \<Longrightarrow> closer lib want x z" for x y z
    using assms(2) unfolding closer_def transp_def by blast
  show ?case
    using snoc irr tr
    by (auto simp: chosen_snoc chooseStep_matched [OF plat] list_ex_iff split: option.splits)
qed

lemma chosen_matched_listed: "ch_matched (chosen lib want ms) = Some b \<Longrightarrow> b \<in> set ms"
  by (induction ms rule: rev_induct)
     (auto simp: chosen_def chooseStep_def Let_def split: option.splits if_splits)

lemma chooseManifest_listed:
  "fst (chooseManifest lib index want) = Some d \<Longrightarrow> d \<in> set (ix_Manifests index)"
  "set (snd (chooseManifest lib index want)) \<subseteq> set (ix_Manifests index)"
proof -
  let ?ms = "ix_Manifests index"
  have only: "d \<in> set ?ms" if "ch_only (chosen lib want ?ms) = Some d" for d
    using that by (auto simp: chosen_listed(3) split: list.splits dest: filter_eq_ConsD intro: filter_is_subset [THEN subsetD])
  show "fst (chooseManifest lib index want) = Some d \<Longrightarrow> d \<in> set ?ms"
    using only chosen_matched_listed [of lib want ?ms]
    by (auto simp: chooseManifest_def chosen_def [symmetric] Let_def split: option.splits if_splits)
  show "set (snd (chooseManifest lib index want)) \<subseteq> set ?ms"
    by (auto simp: chooseManifest_def chosen_def [symmetric] Let_def chosen_listed split: option.splits)
qed

section \<open>The walk\<close>

inductive_cases certified_zero: "certified lib root 0 d body"

lemma openIndex_parsed: "openIndex lib body = Inr index \<Longrightarrow> parseIndex lib body = Inr index"
  by (auto simp: openIndex_def split: sum.splits if_splits)

lemma readManifest_origin:
  assumes "certified lib root k d body" "k \<le> Suc maxIndexDepth" "readManifest lib ann d body = Inr (Some x)"
  shows "origin lib root ann x"
  using assms(3) unfolding origin_def from_manifest_def
  by (intro disjI1 exI [of _ k] exI [of _ d] exI [of _ body] exI [of _ "projr (parseManifest lib body)"])
     (use assms(1,2) in \<open>auto simp: readManifest_def split: if_splits sum.splits option.splits\<close>)

lemma metadata_sound:
  assumes "certified lib root depth d body" "depth \<le> Suc maxIndexDepth"
    and "metadata lib want repo ann depth d body n = (r, n')"
  shows "within n n' \<and> (\<forall>x. r = Inr (Some x) \<longrightarrow> origin lib root ann x)"
  using assms
proof (induction "Suc maxIndexDepth - depth" arbitrary: depth d body n r n')
  case less_zero: 0
  then have "depth > maxIndexDepth" by simp
  with less_zero readManifest_origin [OF less_zero(2,3), of ann] show ?case
    by (auto simp: metadata.simps [of lib want repo ann depth] split: if_splits)
next
  case (Suc k)
  then have deep: "\<not> depth > maxIndexDepth" by simp
  note run = Suc.prems(3) [unfolded metadata.simps [of lib want repo ann depth]]
  show ?case
  proof (cases "isIndex (od_MediaType d)")
    case False
    with run readManifest_origin [OF Suc.prems(1,2), of ann] show ?thesis by auto
  next
    case True
    show ?thesis
    proof (cases "openIndex lib body")
      case (Inl e)
      with run True deep show ?thesis by auto
    next
      case (Inr index)
      note index = openIndex_parsed [OF Inr]
      let ?rd = "\<lambda>d' n'. case fetchDescriptor lib repo d' n' of
          (Inl e, n'') \<Rightarrow> (Inl e, n'')
        | (Inr body', n'') \<Rightarrow> metadata lib want repo ann (Suc depth) d' body' n''"
      show ?thesis
      proof (cases "depth = 0 \<and> ann \<and> annotation (ix_Annotations index) AnnotationDescriptor \<noteq> []")
        case short: True
        then have "d = root" using Suc.prems(1) by (auto elim: certified_zero)
        with short run True deep Inr index Suc.prems(1) show ?thesis
          by (auto simp: origin_def from_root_index_def)
      next
        case False
        have "sound_reader ?rd (set (ix_Manifests index)) (origin lib root ann)"
          unfolding sound_reader_def
        proof (intro allI impI)
          fix d' m r' m' assume d': "d' \<in> set (ix_Manifests index)" and rd: "?rd d' m = (r', m')"
          obtain r1 m1 where f: "fetchDescriptor lib repo d' m = (r1, m1)" by fastforce
          from fetchDescriptor_ok [OF f] have w: "within m m1" by (simp add: within_def)
          show "within m m' \<and> (\<forall>x. r' = Inr (Some x) \<longrightarrow> origin lib root ann x)"
          proof (cases r1)
            case (Inl e)
            with rd f w show ?thesis by auto
          next
            case body': (Inr body')
            with fetchDescriptor_ok [OF f] have "verified lib (plain_descriptor d') body'" by blast
            from certified_child [OF Suc.prems(1) True index d' this]
            have "certified lib root (Suc depth) d' body'" .
            moreover have "metadata lib want repo ann (Suc depth) d' body' m1 = (r', m')"
              using rd f body' by simp
            ultimately show ?thesis
              using Suc.hyps(1) [of "Suc depth" d' body' m1 r' m'] Suc.hyps(2) deep within_trans [OF w] by auto
          qed
        qed
        moreover have "searchIndex lib want ?rd (chooseManifest lib index want) n = (r, n')"
          using run True deep Inr False by simp
        ultimately show ?thesis
          using searchIndex_sound [where choice = "chooseManifest lib index want"]
            chooseManifest_listed [of lib index want] by blast
      qed
    qed
  qed
qed

lemma readDescriptor_sound:
  assumes "readDescriptor lib c repo nm = (r, n)"
  shows "n \<le> maxManifestFetches
    \<and> (\<forall>raw dgst. r = Inr (raw, dgst) \<longrightarrow>
         (\<exists>root plat. dgst = od_Digest root \<and> origin lib root True (raw, plat)))"
proof -
  obtain r0 n0 where f: "fetchManifest lib repo nm 0 = (r0, n0)" by fastforce
  note f_ok = fetchManifest_ok [OF f]
  show ?thesis
  proof (cases r0)
    case (Inl e)
    with assms f f_ok show ?thesis by (auto simp: readDescriptor_def)
  next
    case (Inr db)
    obtain d body where db: "db = (d, body)" by fastforce
    obtain r1 n1 where m: "metadata lib (cl_platform c) repo True 0 d body n0 = (r1, n1)" by fastforce
    have "certified lib d 0 d body" using f_ok Inr db by (auto intro: certified_root)
    from metadata_sound [OF this _ m] have s: "within n0 n1" "\<forall>x. r1 = Inr (Some x) \<longrightarrow> origin lib d True x" by simp_all
    then have "n1 \<le> maxManifestFetches" using f_ok by (auto simp: within_def)
    with s assms f Inr db m show ?thesis
      by (auto simp: readDescriptor_def split: sum.splits option.splits)
  qed
qed

lemma loadImage_sound:
  assumes "loadImage lib c t r = Inr img"
  shows "\<exists>repoName nm repo root k d body m.
    splitRef lib r = Inr (repoName, nm) \<and> cl_repository c t repoName = Inr repo
    \<and> (\<exists>rc. fetchReference repo 0 nm = Inr (root, rc))
    \<and> certified lib root k d body \<and> isImageManifest (od_MediaType d)
    \<and> parseManifest lib body = Inr (in_Manifest img)
    \<and> requirePlainImageManifest (od_MediaType d) (in_Manifest img) = None
    \<and> (\<exists>configRaw. verified lib (ma_Config (in_Manifest img)) configRaw \<and> parseImage lib configRaw = Inr (in_Config img))
    \<and> platMatch lib (cl_platform c) (im_Platform (in_Config img))
    \<and> length (im_DiffIDs (in_Config img)) = length (ma_Layers (in_Manifest img))"
proof -
  from assms obtain repoName nm repo where
    s: "splitRef lib r = Inr (repoName, nm)" and repo: "cl_repository c t repoName = Inr repo"
    by (auto simp: loadImage_def openRepository_def rbind_def split: sum.splits)
  obtain r0 n0 where f: "fetchManifest lib repo nm 0 = (r0, n0)" by fastforce
  have run: "(case r0 of
         Inl e \<Rightarrow> Inl e
       | Inr (d, body) \<Rightarrow>
           (case metadata lib (cl_platform c) repo False 0 d body n0 of
              (Inl e, n') \<Rightarrow> Inl e
            | (Inr None, n') \<Rightarrow> Inl NoManifestForPlatform
            | (Inr (Some (raw, selectedPlatform)), n') \<Rightarrow> readConfig lib c repo r n' raw selectedPlatform)) = Inr img"
    using assms s repo f by (simp add: loadImage_def openRepository_def rbind_def split: sum.splits)
  then obtain root rb where r0: "r0 = Inr (root, rb)" by (cases r0) auto
  obtain r1 n1 where m: "metadata lib (cl_platform c) repo False 0 root rb n0 = (r1, n1)" by fastforce
  from run r0 m obtain raw plat where r1: "r1 = Inr (Some (raw, plat))"
    and cfg: "readConfig lib c repo r n1 raw plat = Inr img"
    by (auto split: sum.splits option.splits)
  have "certified lib root 0 root rb" using fetchManifest_ok [OF f] r0 by (auto intro: certified_root)
  from metadata_sound [OF this _ m] r1 have "from_manifest lib root False (raw, plat)"
    by (simp add: origin_def)
  then obtain k d mf where d: "certified lib root k d raw" "isImageManifest (od_MediaType d)"
      "parseManifest lib raw = Inr mf" "requirePlainImageManifest (od_MediaType d) mf = None"
    by (auto simp: from_manifest_def)
  have ref: "\<exists>rc. fetchReference repo 0 nm = Inr (root, rc)"
    using f r0 by (auto simp: fetchManifest_def consumeManifest_def rbind_def split: sum.splits if_splits)
  have img: "in_Manifest img = mf" "platMatch lib (cl_platform c) (im_Platform (in_Config img))"
      "length (im_DiffIDs (in_Config img)) = length (ma_Layers mf)"
      "\<exists>configRaw. verified lib (ma_Config mf) configRaw \<and> parseImage lib configRaw = Inr (in_Config img)"
    using cfg d(3) by (auto simp: readConfig_def rbind_def split: sum.splits if_splits option.splits dest: readVerified_ok)
  with s repo ref d show ?thesis by blast
qed

section \<open>Pinned references\<close>

text \<open>The reference package: the text of a name with a digest parses back to that digest.\<close>

definition reference_laws :: "registry_lib \<Rightarrow> bool" where
  "reference_laws lib \<longleftrightarrow>
     (\<forall>nm d s. digestError lib d = None \<longrightarrow> canonicalText lib nm d = Inr s \<longrightarrow>
        (\<exists>named. parseNormalized lib s = Inr named \<and> nr_Digest (tagNameOnly lib named) = Some d))"

text \<open>The registry client: asked for a digest, it answers with a descriptor of that digest.\<close>

definition answers_digests :: "registry_lib \<Rightarrow> client \<Rightarrow> bool" where
  "answers_digests lib c \<longleftrightarrow>
     (\<forall>t repoName repo n d root rc. cl_repository c t repoName = Inr repo \<longrightarrow> digestError lib d = None \<longrightarrow>
        fetchReference repo n d = Inr (root, rc) \<longrightarrow> od_Digest root = d)"

lemma pinnedImage_split:
  assumes "reference_laws lib" "pinnedImage lib r dgst = Inr s"
  shows "digestError lib dgst = None \<and> (\<exists>repoName. splitRef lib s = Inr (repoName, dgst))"
proof -
  from assms(2) obtain nm where d: "digestError lib dgst = None" and s: "canonicalText lib nm dgst = Inr s"
    by (auto simp: pinnedImage_def withDigest_def rbind_def split: sum.splits option.splits)
  with assms(1) obtain named where "parseNormalized lib s = Inr named" "nr_Digest (tagNameOnly lib named) = Some dgst"
    unfolding reference_laws_def by blast
  with d show ?thesis by (simp add: splitRef_def parseNamed_def rbind_def)
qed

lemma Fetch_sound:
  assumes "Fetch lib c t r = Inr kit"
  shows "\<exists>root plat d. pk_Digest kit = od_Digest root \<and> origin lib root True (pk_Raw kit, plat)
    \<and> pk_Raw kit \<noteq> [] \<and> decodeSpec lib (pk_Raw kit) = Inr d \<and> publishedError lib (pk_Raw kit) d = None
    \<and> pk_Descriptor kit = Some d \<and> pk_Reference kit = r"
proof -
  from assms obtain repo nm raw dgst n where run: "readDescriptor lib c repo nm = (Inr (raw, dgst), n)"
    and kit: "raw \<noteq> []" "\<exists>d. decodeSpec lib raw = Inr d \<and> publishedError lib raw d = None
      \<and> kit = \<lparr>pk_Reference = r, pk_Digest = dgst, pk_Image = [], pk_Descriptor = Some d, pk_Raw = raw\<rparr>"
    by (auto simp: Fetch_def fetchKit_def rbind_def split: sum.splits if_splits option.splits)
       (metis (no_types) fst_conv surj_pair)
  from readDescriptor_sound [OF run] obtain root plat where
    "dgst = od_Digest root" "origin lib root True (raw, plat)" by blast
  with kit show ?thesis by (intro exI [of _ root] exI [of _ plat]) auto
qed

lemma LoadKit_parts:
  assumes "LoadKit lib c t later r = Inr lk"
  obtains kit img where "Fetch lib c t r = Inr kit" "pinnedImage lib r (pk_Digest kit) = Inr (lk_Image lk)"
    "loadImage lib c (t + 1) (lk_Image lk) = Inr img" "lk_Digest lk = pk_Digest kit"
    "lk_Descriptor lk = pk_Raw kit" "lk_Manifest lk = in_Manifest img" "lk_Config lk = in_Config img"
  using assms by (auto simp: LoadKit_def LoadImage_def rbind_def split: sum.splits)

section \<open>Properties\<close>

definition exampleDescriptor :: reg_descriptor where
  "exampleDescriptor = \<lparr>od_MediaType = MediaTypeImageManifest, od_Digest = ''sha256:0'', od_Size = 2, od_Platform = None\<rparr>"

definition exampleLib :: registry_lib where
  "exampleLib = \<lparr>
     parseManifest = (\<lambda>b. Inr ((in_Manifest (exampleInput ''w'' []))\<lparr>ma_Annotations := [(AnnotationDescriptor, ''d'')]\<rparr>)),
     parseIndex = (\<lambda>b. Inl ''no index''),
     parseImage = (\<lambda>b. Inr (in_Config (exampleInput ''w'' []))),
     platMatch = (\<lambda>w p. p_OS w = p_OS p), platLess = (\<lambda>w p q. False), platStrict = (\<lambda>p q. p = q),
     digestError = (\<lambda>d. if has_prefix d ''sha256:'' then None else Some ''invalid''),
     digestFrom = (\<lambda>d b. d),
     parseNormalized = (\<lambda>s. if CHR ''@'' \<in> set s
        then Inr \<lparr>nr_Name = before CHR ''@'' s, nr_Tag = None, nr_Digest = Some (after CHR ''@'' s)\<rparr>
        else Inr \<lparr>nr_Name = s, nr_Tag = Some ''latest'', nr_Digest = None\<rparr>),
     tagNameOnly = (\<lambda>x. x),
     canonicalText = (\<lambda>nm d. if CHR ''@'' \<in> set nm then Inl ''name'' else Inr (nm @ ''@'' @ d)),
     decodeSpec = (\<lambda>raw. Inr emptyDescriptor), publishedError = (\<lambda>raw d. None)\<rparr>"

definition exampleStream :: "nat \<Rightarrow> byte_stream" where
  "exampleStream n = \<lparr>b_bytes = replicate n CHR ''x'', b_err = None\<rparr>"

definition exampleRepository :: repository where
  "exampleRepository = \<lparr>
     fetchReference = (\<lambda>n nm. Inr (if nm = ''latest'' then exampleDescriptor else exampleDescriptor\<lparr>od_Digest := nm\<rparr>,
       exampleStream 2)),
     fetchBlob = (\<lambda>n d. Inr \<lparr>lr_stream = exampleStream (nat (od_Size d)), lr_close = None\<rparr>)\<rparr>"

definition exampleClient :: client where
  "exampleClient = \<lparr>cl_platform = linuxAmd64, cl_repository = (\<lambda>t nm. Inr exampleRepository)\<rparr>"

text \<open>Property C14. Whatever a registry answers, reading the descriptor of a reference ends after at most
  32 manifests, and a descriptor it returns is an annotation of the index the reference resolved
  to, or of a plain image manifest that a chain of indexes leads to, at most five steps long; every
  document on the chain has the size and the digest stated by the descriptor that names it, and the
  digest returned is that of the chain's root.\<close>

theorem registry_chain:
  assumes "readDescriptor lib c repo nm = (r, n)"
  shows "n \<le> maxManifestFetches
    \<and> (\<forall>raw dgst. r = Inr (raw, dgst) \<longrightarrow>
         (\<exists>root plat. dgst = od_Digest root \<and> origin lib root True (raw, plat)))"
  by (rule readDescriptor_sound [OF assms])

theorem registry_chain_witness:
  "\<exists>root plat. od_Digest root = ''sha256:0'' \<and> origin exampleLib root True (''d'', plat)"
proof -
  have "readDescriptor exampleLib exampleClient exampleRepository ''latest''
      = (Inr (''d'', ''sha256:0''), 1)" by code_simp
  from registry_chain [OF this] show ?thesis by auto
qed

text \<open>Property C15. A kit that was loaded is pinned: its descriptor and its image come from roots of one
  digest, the one recorded, even when the tag moves between the two reads. The manifest is a plain
  image manifest on a chain of digests from that root, the config is the one the manifest names,
  and the config matches the client's platform and the number of layers.\<close>

theorem loaded_kit_pinned:
  assumes "reference_laws lib" "answers_digests lib c" "LoadKit lib c t later r = Inr lk"
  shows "\<exists>root root' plat k d body configRaw.
    od_Digest root = lk_Digest lk \<and> od_Digest root' = lk_Digest lk
    \<and> origin lib root True (lk_Descriptor lk, plat)
    \<and> certified lib root' k d body \<and> parseManifest lib body = Inr (lk_Manifest lk)
    \<and> requirePlainImageManifest (od_MediaType d) (lk_Manifest lk) = None
    \<and> verified lib (ma_Config (lk_Manifest lk)) configRaw \<and> parseImage lib configRaw = Inr (lk_Config lk)
    \<and> platMatch lib (cl_platform c) (im_Platform (lk_Config lk))
    \<and> length (im_DiffIDs (lk_Config lk)) = length (ma_Layers (lk_Manifest lk))"
  using assms(3)
proof (rule LoadKit_parts)
  fix kit img
  assume kit: "Fetch lib c t r = Inr kit" and pin: "pinnedImage lib r (pk_Digest kit) = Inr (lk_Image lk)"
    and img: "loadImage lib c (t + 1) (lk_Image lk) = Inr img"
    and lk: "lk_Digest lk = pk_Digest kit" "lk_Descriptor lk = pk_Raw kit"
      "lk_Manifest lk = in_Manifest img" "lk_Config lk = in_Config img"
  from pinnedImage_split [OF assms(1) pin] obtain repoName where
    d: "digestError lib (pk_Digest kit) = None" and s: "splitRef lib (lk_Image lk) = Inr (repoName, pk_Digest kit)" by blast
  from Fetch_sound [OF kit] obtain root plat where
    root: "pk_Digest kit = od_Digest root" "origin lib root True (pk_Raw kit, plat)" by blast
  from loadImage_sound [OF img] s obtain repo root' rc k dd body configRaw where
    i: "cl_repository c (t + 1) repoName = Inr repo" "fetchReference repo 0 (pk_Digest kit) = Inr (root', rc)"
      "certified lib root' k dd body" "parseManifest lib body = Inr (in_Manifest img)"
      "requirePlainImageManifest (od_MediaType dd) (in_Manifest img) = None"
      "verified lib (ma_Config (in_Manifest img)) configRaw" "parseImage lib configRaw = Inr (in_Config img)"
      "platMatch lib (cl_platform c) (im_Platform (in_Config img))"
      "length (im_DiffIDs (in_Config img)) = length (ma_Layers (in_Manifest img))"
    by auto
  from assms(2) i(1,2) d have "od_Digest root' = pk_Digest kit" unfolding answers_digests_def by blast
  with lk root i(3-) show ?thesis by metis
qed

theorem loaded_kit_pinned_witness:
  "\<exists>lk root. LoadKit exampleLib exampleClient 0 0 ''kit'' = Inr lk
     \<and> od_Digest root = lk_Digest lk \<and> (\<exists>plat. origin exampleLib root True (lk_Descriptor lk, plat))"
proof -
  have laws: "reference_laws exampleLib"
  proof -
    have "after CHR ''@'' (nm @ CHR ''@'' # d) = d" if "CHR ''@'' \<notin> set nm" for nm d
      using that by (induction nm) (auto simp: after_def)
    then show ?thesis by (auto simp: reference_laws_def exampleLib_def split: if_splits)
  qed
  have ans: "answers_digests exampleLib exampleClient"
    by (auto simp: answers_digests_def exampleLib_def exampleClient_def exampleRepository_def
        exampleDescriptor_def has_prefix_def split: if_splits)
  have "is_ok (LoadKit exampleLib exampleClient 0 0 ''kit'')" by code_simp
  then obtain lk where lk: "LoadKit exampleLib exampleClient 0 0 ''kit'' = Inr lk" by (auto simp: is_ok_iff)
  from loaded_kit_pinned [OF laws ans lk] lk show ?thesis by blast
qed

text \<open>When the platform matcher's ranking is a strict order, the manifest chosen in an index
  is a best one: if some image manifest of the index matches the platform, the choice is such a
  manifest and no other one is closer; otherwise it is the sole image manifest if that names no
  platform, and nothing if not. The nested indexes are searched too, all of them, unless the
  choice is already the platform asked for.\<close>

theorem choose_manifest_best:
  assumes "irreflp (platLess lib want)" "transp (platLess lib want)"
  shows "(case fst (chooseManifest lib index want) of
      Some b \<Rightarrow> b \<in> set (ix_Manifests index)
        \<and> (if list_ex (matching lib want) (ix_Manifests index)
           then matching lib want b \<and> list_all (\<lambda>m. matching lib want m \<longrightarrow> \<not> closer lib want m b) (ix_Manifests index)
           else filter candidate (ix_Manifests index) = [b] \<and> od_Platform b = None)
    | None \<Rightarrow> \<not> list_ex (matching lib want) (ix_Manifests index))
    \<and> snd (chooseManifest lib index want) \<in> {[], filter (\<lambda>m. isIndex (od_MediaType m)) (ix_Manifests index)}
    \<and> (snd (chooseManifest lib index want) = [] \<longrightarrow>
         filter (\<lambda>m. isIndex (od_MediaType m)) (ix_Manifests index) = []
         \<or> exact lib want (od_Platform (the (fst (chooseManifest lib index want)))))"
proof -
  let ?ms = "ix_Manifests index"
  note best = chosen_matched [OF assms, of ?ms]
  show ?thesis
  proof (cases "ch_matched (chosen lib want ?ms)")
    case None
    let ?nested = "filter (\<lambda>m. isIndex (od_MediaType m)) ?ms" and ?cands = "filter candidate ?ms"
    have nomatch: "\<not> list_ex (matching lib want) ?ms" using best None by simp
    show ?thesis
    proof (cases "\<exists>b. ?cands = [b] \<and> od_Platform b = None")
      case True
      then obtain b where b: "?cands = [b]" "od_Platform b = None" by blast
      then have "chooseManifest lib index want = (Some b, ?nested)"
        using None by (simp add: chooseManifest_def chosen_def [symmetric] Let_def chosen_listed)
      moreover have "b \<in> set ?ms" using b(1) by (metis filter_is_subset list.set_intros(1) subsetD)
      ultimately show ?thesis using b nomatch by simp
    next
      case False
      then have "\<not> (ch_runnable (chosen lib want ?ms) = 1
          \<and> (case ch_only (chosen lib want ?ms) of None \<Rightarrow> False | Some m \<Rightarrow> od_Platform m = None))"
        by (cases ?cands) (auto simp: chosen_listed)
      then have "chooseManifest lib index want = (None, ?nested)"
        using None by (simp only: chooseManifest_def chosen_def [symmetric] Let_def chosen_listed(1) option.case if_False)
      then show ?thesis using nomatch by simp
    qed
  next
    case (Some b)
    let ?nested = "filter (\<lambda>m. isIndex (od_MediaType m)) ?ms"
    from Some have choice: "chooseManifest lib index want = (Some b, if ?nested = [] \<or> exact lib want (od_Platform b) then [] else ?nested)"
      by (simp add: chooseManifest_def chosen_def [symmetric] Let_def chosen_listed exact_def)
    from best Some have "b \<in> set ?ms" "matching lib want b" "list_ex (matching lib want) ?ms"
      "list_all (\<lambda>m. matching lib want m \<longrightarrow> \<not> closer lib want m b) ?ms"
      by (auto simp: list_ex_iff list_all_iff)
    then show ?thesis unfolding choice by (simp split: if_splits)
  qed
qed

theorem choose_manifest_best_witness:
  "fst (chooseManifest exampleLib \<lparr>ix_SchemaVersion = 2, ix_ArtifactType = [], ix_Manifests = [exampleDescriptor],
     ix_Annotations = []\<rparr> linuxAmd64) = Some exampleDescriptor"
proof -
  have "irreflp (platLess exampleLib linuxAmd64)" "transp (platLess exampleLib linuxAmd64)"
    by (simp_all add: exampleLib_def irreflp_def transp_def)
  let ?ix = "\<lparr>ix_SchemaVersion = 2, ix_ArtifactType = [], ix_Manifests = [exampleDescriptor], ix_Annotations = []\<rparr>"
  have "fst (chooseManifest exampleLib ?ix linuxAmd64) \<noteq> None" by code_simp
  with choose_manifest_best [OF \<open>irreflp _\<close> \<open>transp _\<close>, of ?ix] show ?thesis
    by (auto split: option.splits)
qed

end
