(* ===== verification/Fetch_Facts.thy ===== *)
theory Fetch_Facts
  imports Fetch_Kits Kit_Args_Facts Selection_Facts Environment_Facts Registry_Facts
begin

text \<open>
  What resolving a set guarantees: every kit is there once and after the kits it needs, nothing the
  runtime's selector refuses is in the composition, no environment reference is left, and the
  container environment is what the kits export.
\<close>

section \<open>Maps\<close>

lemma mapCopy_lookup:
  "distinct (map fst src) \<Longrightarrow>
   map_of (mapCopy dst src) k = (case map_of src k of None \<Rightarrow> map_of dst k | Some v \<Rightarrow> Some v)"
proof (induction src arbitrary: dst)
  case (Cons kv src)
  then have "map_of src (fst kv) = None" by (simp add: map_of_eq_None_iff)
  with Cons show ?case
    by (auto simp: mapCopy_def AList.update_conv' split: option.splits)
qed (simp add: mapCopy_def)

lemma combineLoop_distinct:
  "combineLoop owner bound out env = Inr (bound', out') \<Longrightarrow> distinct (map fst out) \<Longrightarrow> distinct (map fst out')"
  by (induction owner bound out env rule: combineLoop.induct)
     (auto simp: AList.distinct_update split: option.splits if_splits)

lemma combineKits_distinct:
  "combineKits bound out ks = Inr m \<Longrightarrow> distinct (map fst out) \<Longrightarrow> distinct (map fst m)"
  by (induction bound out ks rule: combineKits.induct) (auto simp: rbind_Inr_iff dest: combineLoop_distinct)

lemma combineExports_facts:
  assumes "combineExports refs exports = Inr m" "length refs = length exports"
  shows "distinct (map fst m)" "map_of m k = Some v \<longleftrightarrow> (k, v) \<in> set (concat exports)"
proof -
  show "distinct (map fst m)"
    using assms combineKits_distinct by (auto simp: combineExports_def)
  have "exported (zip refs exports) = (\<Union>env \<in> set (map snd (zip refs exports)). set env)"
    by (simp add: exported_def)
  then have "exported (zip refs exports) = set (concat exports)" using assms(2) by simp
  with combineKits_exact [of "[]" "[]" "zip refs exports"] assms(1)
  show "map_of m k = Some v \<longleftrightarrow> (k, v) \<in> set (concat exports)"
    by (auto simp: combineExports_def bindings_match_def graph_of_def set_eq_iff)
qed

section \<open>The stages of a merge\<close>

lemma Units_refs: "Units lib ks = Inr us \<Longrightarrow> map Reference us = map (pk_Reference \<circ> the) ks \<and> list_all (\<lambda>u. UnitDescriptor u \<noteq> None) us"
proof (induction ks arbitrary: us)
  case (Cons k ks)
  then obtain u us' where "unitOf lib k = Inr u" "Units lib ks = Inr us'" "us = u # us'"
    by (auto simp: rbind_Inr_iff)
  with Cons.IH [of us'] show ?case
    by (auto simp: unitOf_def Let_def split: option.splits sum.splits if_splits)
qed simp

lemma resolveAll_length: "resolveAll lib xs = Inr ves \<Longrightarrow> length ves = length xs"
  by (induction lib xs arbitrary: ves rule: resolveAll.induct) (auto simp: rbind_Inr_iff)

lemma resolveAll_kits: "resolveAll lib xs = Inr ves \<Longrightarrow> list_all (\<lambda>x. fst x \<noteq> None) xs"
  by (induction lib xs arbitrary: ves rule: resolveAll.induct)
     (auto simp: rbind_Inr_iff resolveKitArgs_def split: option.splits)

lemma prepareAll_refs:
  "prepareAll lib environment xs = Inr ps \<Longrightarrow> map (pk_Reference \<circ> fst) ps = map (pk_Reference \<circ> fst) xs"
  by (induction lib environment xs arbitrary: ps rule: prepareAll.induct) (auto simp: rbind_Inr_iff)

text \<open>A unit whose capabilities are those of a kit's descriptor expanded in an environment.\<close>

definition expanded_unit :: "kit_lib \<Rightarrow> (string \<times> string) list \<Rightarrow> published_kit \<Rightarrow> kit_unit \<Rightarrow> bool" where
  "expanded_unit lib environment k u \<longleftrightarrow> Reference u = pk_Reference k
     \<and> (\<exists>vals exports x. expandResolvedKit lib k (the (pk_Descriptor k)) vals exports environment = Inr x
          \<and> map_option Capabilities (UnitDescriptor u) = Some (Capabilities (ek_descriptor x)))"

lemma prepareAll_expanded:
  "prepareAll lib environment xs = Inr ps \<Longrightarrow> Units (registryLib lib) (map (Some \<circ> fst) ps) = Inr us \<Longrightarrow>
   list_all2 (expanded_unit lib environment) (map fst xs) us"
proof (induction lib environment xs arbitrary: ps us rule: prepareAll.induct)
  case (2 lib environment k vals exports rest)
  then obtain x ps' u us' where p: "expandResolvedKit lib k (the (pk_Descriptor k)) vals exports environment = Inr x"
    "prepareAll lib environment rest = Inr ps'" "unitOf (registryLib lib) (Some (k\<lparr>pk_Descriptor := Some (ek_descriptor x)\<rparr>)) = Inr u"
    "Units (registryLib lib) (map (Some \<circ> fst) ps') = Inr us'" "us = u # us'"
    by (auto simp: rbind_Inr_iff comp_def)
  from p(3) have "Reference u = pk_Reference k" "map_option Capabilities (UnitDescriptor u) = Some (Capabilities (ek_descriptor x))"
    by (auto simp: unitOf_def Let_def split: sum.splits if_splits)
  with p(1) have "expanded_unit lib environment k u" unfolding expanded_unit_def by blast
  with 2(1) [OF p(2,4)] p(5) show ?case by simp
qed simp

lemma expanded_unit_cong:
  "expanded_unit lib environment k u \<Longrightarrow> UnitDescriptor v = UnitDescriptor u \<Longrightarrow> Reference v = Reference u \<Longrightarrow>
   expanded_unit lib environment k v"
  by (simp add: expanded_unit_def)

text \<open>What one kit's selection hands on.\<close>

definition selected_from ::
  "kit_lib \<Rightarrow> (capability \<Rightarrow> bool) option \<Rightarrow> kit_unit \<Rightarrow> kit_selection \<times> kit_unit \<Rightarrow> bool" where
  "selected_from lib selector u su \<longleftrightarrow>
     (let d = the (UnitDescriptor u) in
      SelectCapabilities (declarationError lib) (encodeCapability lib)
        (Some (withSelectionSources d (Reference u))) selector = (ks_Selection (fst su), None)
      \<and> snd su = u\<lparr>UnitDescriptor := Some (d\<lparr>Capabilities := sl_Capabilities (ks_Selection (fst su))\<rparr>)\<rparr>)"

lemma selectKits_from:
  "selectKits lib selector published us = Inr ss \<Longrightarrow> list_all2 (selected_from lib selector) us ss"
  by (induction lib selector published us arbitrary: ss rule: selectKits.induct)
     (auto simp: Let_def rbind_Inr_iff selected_from_def split: prod.splits option.splits)

lemma composeKits_ok:
  "composeKits lib had env ss = Inr res \<Longrightarrow>
   rs_Kits res = map snd ss \<and> rs_Selections res = map fst ss \<and> rs_ContainerEnv res = env
   \<and> composeSpec lib (map (\<lambda>u. (Reference u, the (UnitDescriptor u))) (rs_Kits res)) = Inr (rs_Descriptor res)
   \<and> (\<exists>raw. encodeDescriptor lib (rs_Descriptor res) = Inr raw
        \<and> effectiveCheck lib raw (rs_Descriptor res) = Inr (rs_Warnings res))"
  by (auto simp: composeKits_def comp_def split: sum.splits if_splits)

definition snapshot :: "resolve_options \<Rightarrow> (string \<times> string) list \<Rightarrow> (string \<times> string) list" where
  "snapshot options env = mapCopy (mapCopy (mapCopy [] (ro_environment options)) env) (ro_envOverrides options)"

lemma case_Inr_iff: "(case s of Inl e \<Rightarrow> Inl (f e) | Inr x \<Rightarrow> g x) = Inr r \<longleftrightarrow> (\<exists>x. s = Inr x \<and> g x = Inr r)"
  by (cases s) auto

text \<open>The units with the values and the exports of their kits.\<close>

definition fitted :: "kit_unit list \<Rightarrow> ((string \<times> string) list \<times> (string \<times> string) list) list \<Rightarrow> kit_unit list" where
  "fitted units ves = map (\<lambda>(u, v, x). u\<lparr>UnitArgs := v, UnitEnv := x\<rparr>) (zip units (zip (map fst ves) (map snd ves)))"

lemma mergeKits_stages:
  assumes "mergeKits lib kits supplied partial opts = Inr res"
  obtains ves env prepared units resolution ss where
    "resolveAll lib (zip kits supplied) = Inr ves"
    "combineExports (map pk_Reference (map the kits)) (map snd ves) = Inr env"
    "prepareAll lib (snapshot (applyOptions opts) env)
       (zip (map the kits) (zip (map fst ves) (map snd ves))) = Inr prepared"
    "Units (registryLib lib) (map (Some \<circ> fst) prepared) = Inr units"
    "Dependencies (heapOf (fitted units ves)) [0..<length (fitted units ves)] partial = Inr resolution"
    "list_all2 (selected_from lib (ro_selector (applyOptions opts)))
       (map (heapOf (fitted units ves)) (Topological resolution)) ss"
    "composeKits lib (list_ex snd prepared) env ss = Inr res"
  using assms
  unfolding mergeKits_def Let_def rbind_Inr_iff case_Inr_iff snapshot_def [symmetric] fitted_def [symmetric]
  by (blast dest: selectKits_from)

lemma fitted_facts:
  "length units = length ves \<Longrightarrow>
   length (fitted units ves) = length units \<and> map Reference (fitted units ves) = map Reference units
   \<and> map UnitEnv (fitted units ves) = map snd ves
   \<and> map UnitDescriptor (fitted units ves) = map UnitDescriptor units"
  by (induction units ves rule: list_induct2) (auto simp: fitted_def split: prod.splits)

lemma heapOf_image: "map (heapOf us) [0..<length us] = us"
  by (auto simp: heapOf_def intro: nth_equalityI)

lemma heapOf_mset:
  "mset ps = mset [0..<length us] \<Longrightarrow> mset (map (heapOf us) ps) = mset us"
  by (metis heapOf_image mset_map)

section \<open>What is selected was accepted\<close>

definition sourced :: "capability \<Rightarrow> bool" where
  "sourced c \<longleftrightarrow> capSource c \<noteq> None
     \<and> (case capGroup c of None \<Rightarrow> True | Some g \<Rightarrow> list_all (\<lambda>m. capSource m \<noteq> None) (groupCapabilities g))"

lemma with_sel [simp]:
  "capSource (withGroup g c) = capSource c" "capGroup (withGroup g c) = g"
  "capSource (withSource s c) = s" "capGroup (withSource s c) = capGroup c"
  by (cases c; simp)+

lemma copyItems_sourced:
  "list_all sourced (copyItems r p i items)"
proof (induction r p i items rule: copyItems.induct)
  case (2 r p i c items)
  have members: "list_all (\<lambda>m. capSource m \<noteq> None) xs" if "list_all sourced xs" for xs
    using that by (induction xs) (auto simp: sourced_def)
  show ?case
  proof (cases "capGroup c")
    case None
    then show ?thesis using 2(2) [OF refl refl refl refl] by (simp add: Let_def sourced_def)
  next
    case (Some g)
    then show ?thesis
      using members [OF 2(1) [OF refl refl refl Some]] 2(2) [OF refl refl refl refl] by (simp add: Let_def sourced_def)
  qed
qed simp

lemma stamped_sourced:
  "list_all (\<lambda>m. capSource m \<noteq> None) xs \<Longrightarrow> map (stamped item at) (enumerate j xs) = xs"
  by (induction xs arbitrary: j) (auto simp: stamped_def Let_def)

lemma taken_members_sourced: "sourced item \<Longrightarrow> taken_members (i, item) = itemMembers item"
  unfolding taken_members_def
  by (auto simp: sourced_def itemMembers_def intro: stamped_sourced [of "[item]" for item, simplified] stamped_sourced
      split: option.splits)

lemma selected_accepted:
  assumes "SelectCapabilities de ei (Some d) (Some sel) = (result, None)" "list_all sourced (Capabilities d)"
  shows "list_all sel (sl_Capabilities result)"
proof -
  have caps: "sl_Capabilities result = concat (map taken_members (filter (accepts sel \<circ> snd) (enumerate 0 (Capabilities d))))"
    using SelectCapabilities_ok [OF assms(1)] selectLoop_spec [of sel 0 "Capabilities d" emptySelection "[]" result "[]"]
    by (simp add: emptySelection_def)
  show ?thesis
    unfolding caps list_all_iff
  proof
    fix c assume "c \<in> set (concat (map taken_members (filter (accepts sel \<circ> snd) (enumerate 0 (Capabilities d)))))"
    then obtain i item where it: "(i, item) \<in> set (enumerate 0 (Capabilities d))" "accepts sel item" "c \<in> set (taken_members (i, item))"
      by auto
    then have "sourced item" using assms(2) by (auto simp: list_all_iff enumerate_eq_zip dest: set_zip_rightD)
    with it show "sel c" by (simp add: taken_members_sourced accepts_def list_all_iff)
  qed
qed

section \<open>Order and environment of a composition\<close>

text \<open>Two descriptors that declare the same relations to other kits.\<close>

definition same_relations :: "kit_unit \<Rightarrow> kit_unit \<Rightarrow> bool" where
  "same_relations u v \<longleftrightarrow> Reference u = Reference v
     \<and> (\<exists>d e. UnitDescriptor u = Some d \<and> UnitDescriptor v = Some e \<and> Provides d = Provides e \<and> Requires d = Requires e
          \<and> Integrates d = Integrates e \<and> VersionOf d = VersionOf e)"

lemma same_relations_desc:
  assumes "same_relations (h' i) (h j)"
  shows "Requires (desc h' i) = Requires (desc h j)" "Integrates (desc h' i) = Integrates (desc h j)"
    "Provides (desc h' i) = Provides (desc h j)"
    "unitProvide h' i s = Inr p \<Longrightarrow> unitProvide h j s = Inr (p\<lparr>provUnit := j\<rparr>) \<and> provUnit p = i"
  using assms by (auto simp: same_relations_def desc_def unitProvide_def Let_def split: sum.splits)

lemma needs_renamed:
  assumes "\<forall>i < length ps. same_relations (h' i) (h (ps ! i))" "distinct ps" "(i, j) \<in> needs h' [0..<length ps]"
  shows "i < length ps \<and> j < length ps \<and> (ps ! i, ps ! j) \<in> needs h ps"
proof -
  from assms(3) obtain s r where n: "i < length ps" "s \<in> set (Requires (desc h' i)) \<union> set (Integrates (desc h' i))"
      "ParseRequire s = Inr r" and m: "meets h' [0..<length ps] i r j"
    by (auto simp: needs_def)
  from m obtain p t u where o: "j \<noteq> i" "provUnit p = j" "Satisfies (provProvide p) r" "u < length ps"
      "t \<in> set (Provides (desc h' u))" "unitProvide h' u t = Inr p"
    unfolding meets_def offers_def by auto
  note n = n o
  have u: "same_relations (h' u) (h (ps ! u))" and i: "same_relations (h' i) (h (ps ! i))"
    using assms(1) n by auto
  note up = same_relations_desc(4) [where h = h and h' = h', OF u n(9)]
  then have "u = j" using n(5) by simp
  moreover have "p\<lparr>provUnit := ps ! u\<rparr> \<in> offers h ps"
    using n(7,8) up same_relations_desc(3) [where h = h and h' = h', OF u] unfolding offers_def by (auto intro!: bexI [of _ "ps ! u"])
  moreover have "ps ! j \<noteq> ps ! i" using assms(2) n(1,4,7) \<open>u = j\<close> by (simp add: nth_eq_iff_index_eq)
  ultimately have "meets h ps (ps ! i) r (ps ! j)"
    using n(6) by (auto simp: meets_def intro!: bexI [of _ "p\<lparr>provUnit := ps ! u\<rparr>"])
  then show ?thesis
    using n(1,2,3,7) \<open>u = j\<close> same_relations_desc(1,2) [where h = h and h' = h', OF i] by (auto simp: needs_def)
qed

lemma precedes_index:
  assumes "precedes xs (xs ! j) (xs ! i)" "distinct xs" "i < length xs" "j < length xs"
  shows "j < i"
proof -
  from assms(1) obtain as bs cs where xs: "xs = as @ (xs ! j) # bs @ (xs ! i) # cs" by (auto simp: precedes_def)
  then have "xs ! length as = xs ! j" "xs ! (length as + length bs + 1) = xs ! i"
    by (metis nth_append_length, metis add.assoc append.assoc append_Cons length_Cons length_append nth_append_length plus_1_eq_Suc add.commute)
  moreover have "length as < length xs" "length as + length bs + 1 < length xs"
    using arg_cong [OF xs, of length] by simp_all
  ultimately have "j = length as" "i = length as + length bs + 1"
    using assms by (simp_all add: nth_eq_iff_index_eq)
  then show ?thesis by simp
qed

lemma selected_same_relations:
  "selected_from lib sel u su \<Longrightarrow> UnitDescriptor u \<noteq> None \<Longrightarrow>
   same_relations (snd su) u \<and> UnitEnv (snd su) = UnitEnv u \<and> UnitArgs (snd su) = UnitArgs u"
  by (auto simp: selected_from_def same_relations_def Let_def)

lemma mergeKits_units:
  assumes "resolveAll lib (zip kits supplied) = Inr ves" "length supplied = length kits"
    "prepareAll lib environment (zip (map the kits) (zip (map fst ves) (map snd ves))) = Inr prepared"
    "Units (registryLib lib) (map (Some \<circ> fst) prepared) = Inr units"
  shows "length ves = length kits" "length (fitted units ves) = length kits"
    "map Reference (fitted units ves) = map (pk_Reference \<circ> the) kits"
    "map UnitEnv (fitted units ves) = map snd ves"
    "list_all (\<lambda>u. UnitDescriptor u \<noteq> None) (fitted units ves)"
    "list_all2 (expanded_unit lib environment) (map the kits) (fitted units ves)"
proof -
  show ves: "length ves = length kits" using resolveAll_length [OF assms(1)] assms(2) by simp
  have "map (pk_Reference \<circ> fst) prepared = map (pk_Reference \<circ> the) kits"
    using prepareAll_refs [OF assms(3)] ves by (simp add: map_fst_zip flip: map_map)
  then have refs: "map Reference units = map (pk_Reference \<circ> the) kits"
    and descs: "list_all (\<lambda>u. UnitDescriptor u \<noteq> None) units"
    using Units_refs [OF assms(4)] by (simp_all add: comp_def)
  from refs have units: "length units = length ves" using ves by (metis length_map)
  note f = fitted_facts [OF units]
  show "length (fitted units ves) = length kits" using f units ves by simp
  show "map Reference (fitted units ves) = map (pk_Reference \<circ> the) kits" using f refs by simp
  show "map UnitEnv (fitted units ves) = map snd ves" using f by simp
  have "list_all (\<lambda>d. d \<noteq> None) (map UnitDescriptor (fitted units ves))"
    using f descs by (simp add: list_all_iff)
  then show "list_all (\<lambda>u. UnitDescriptor u \<noteq> None) (fitted units ves)" by (simp add: list_all_iff)
  have e: "list_all2 (expanded_unit lib environment) (map the kits) units"
    using prepareAll_expanded [OF assms(3,4)] ves by (simp add: map_fst_zip)
  have "UnitDescriptor (fitted units ves ! i) = UnitDescriptor (units ! i) \<and> Reference (fitted units ves ! i) = Reference (units ! i)"
    if "i < length units" for i
    using f that by (metis nth_map)
  then show "list_all2 (expanded_unit lib environment) (map the kits) (fitted units ves)"
    using e f unfolding list_all2_conv_all_nth by (metis expanded_unit_cong)
qed

text \<open>What a merge returns, over the units it was resolved from.\<close>

lemma mergeKits_kits:
  assumes "mergeKits lib kits supplied partial opts = Inr res" "length supplied = length kits"
  obtains us ps prepared ves where
    "map Reference us = map (pk_Reference \<circ> the) kits" "list_all (\<lambda>u. UnitDescriptor u \<noteq> None) us"
    "resolveAll lib (zip kits supplied) = Inr ves" "map UnitEnv us = map snd ves"
    "combineExports (map pk_Reference (map the kits)) (map snd ves) = Inr (rs_ContainerEnv res)"
    "prepareAll lib (snapshot (applyOptions opts) (rs_ContainerEnv res))
       (zip (map the kits) (zip (map fst ves) (map snd ves))) = Inr prepared"
    "mset ps = mset [0..<length us]" "\<forall>(u, v) \<in> needs (heapOf us) [0..<length us]. precedes ps v u"
    "list_all2 (selected_from lib (ro_selector (applyOptions opts))) (map (heapOf us) ps)
       (zip (rs_Selections res) (rs_Kits res))"
    "length (rs_Selections res) = length (rs_Kits res)" "coherent (heapOf us) [0..<length us] partial"
    "composeSpec lib (map (\<lambda>u. (Reference u, the (UnitDescriptor u))) (rs_Kits res)) = Inr (rs_Descriptor res)"
    "list_all2 (expanded_unit lib (snapshot (applyOptions opts) (rs_ContainerEnv res))) (map the kits) us"
proof -
  from assms(1) obtain ves env prepared units resolution ss where m:
    "resolveAll lib (zip kits supplied) = Inr ves"
    "combineExports (map pk_Reference (map the kits)) (map snd ves) = Inr env"
    "prepareAll lib (snapshot (applyOptions opts) env) (zip (map the kits) (zip (map fst ves) (map snd ves))) = Inr prepared"
    "Units (registryLib lib) (map (Some \<circ> fst) prepared) = Inr units"
    "Dependencies (heapOf (fitted units ves)) [0..<length (fitted units ves)] partial = Inr resolution"
    "list_all2 (selected_from lib (ro_selector (applyOptions opts)))
       (map (heapOf (fitted units ves)) (Topological resolution)) ss"
    "composeKits lib (list_ex snd prepared) env ss = Inr res"
    by (rule mergeKits_stages)
  note u = mergeKits_units [OF m(1) assms(2) m(3,4)] and c = composeKits_ok [OF m(7)]
  note r = resolve_order [OF distinct_upt m(5) [unfolded Dependencies_def]]
  have "\<forall>(w, v) \<in> needs (heapOf (fitted units ves)) [0..<length (fitted units ves)]. precedes (Topological resolution) v w"
    using deps_first_precedes [OF r(3)] mset_eq_setD [OF r(2)] by (fastforce simp: Topological_def needs_def)
  moreover have "zip (rs_Selections res) (rs_Kits res) = ss" using c by (simp add: zip_map_fst_snd)
  ultimately show ?thesis
    using that [of "fitted units ves" ves prepared "Topological resolution"] m u r c
    by (auto simp: Topological_def)
qed

lemma selected_units:
  assumes "list_all2 (selected_from lib sel) us (zip ss vs)" "length ss = length vs"
    "list_all (\<lambda>u. UnitDescriptor u \<noteq> None) us"
  shows "list_all2 (\<lambda>v u. same_relations v u \<and> UnitEnv v = UnitEnv u) vs us"
  unfolding list_all2_conv_all_nth
proof (intro conjI allI impI)
  show len: "length vs = length us" using assms(1,2) by (simp add: list_all2_conv_all_nth)
  fix i assume "i < length vs"
  then have "selected_from lib sel (us ! i) (ss ! i, vs ! i)" "UnitDescriptor (us ! i) \<noteq> None"
    using assms len by (auto simp: list_all2_conv_all_nth list_all_length)
  from selected_same_relations [OF this]
  show "same_relations (vs ! i) (us ! i)" "UnitEnv (vs ! i) = UnitEnv (us ! i)" by simp_all
qed

lemma selected_unit_accepted:
  assumes "selected_from lib (Some sel) u (s, v)"
  shows "list_all sel (Capabilities (the (UnitDescriptor v)))"
proof -
  let ?d = "the (UnitDescriptor u)"
  have "SelectCapabilities (declarationError lib) (encodeCapability lib)
      (Some (withSelectionSources ?d (Reference u))) (Some sel) = (ks_Selection s, None)"
    "Capabilities (the (UnitDescriptor v)) = sl_Capabilities (ks_Selection s)"
    using assms by (simp_all add: selected_from_def Let_def)
  then show ?thesis
    using selected_accepted copyItems_sourced by (fastforce simp: withSelectionSources_def)
qed

lemma taken_declared:
  assumes "c \<in> set (DeclaredCapabilities (concat (map itemMembers (filter P items))))"
  shows "c \<in> set (DeclaredCapabilities items)"
  using assms by (induction items) (auto simp: itemMembers_def split: option.splits if_splits)

lemma selected_no_references:
  assumes "SelectCapabilities de ei (Some d) (Some sel) = (result, None)" "list_all sourced (Capabilities d)"
  shows "\<not> HasEnvReferences (sl_Capabilities result)"
proof -
  have caps: "sl_Capabilities result = concat (map taken_members (filter (accepts sel \<circ> snd) (enumerate 0 (Capabilities d))))"
    using SelectCapabilities_ok [OF assms(1)] selectLoop_spec [of sel 0 "Capabilities d" emptySelection "[]" result "[]"]
    by (simp add: emptySelection_def)
  have "concat (map taken_members (filter (accepts sel \<circ> snd) (enumerate i xs))) = concat (map itemMembers (filter (accepts sel) xs))"
    if "list_all sourced xs" for xs i
    using that by (induction xs arbitrary: i) (auto simp: taken_members_sourced)
  with caps assms(2) have "sl_Capabilities result = concat (map itemMembers (filter (accepts sel) (Capabilities d)))" by simp
  moreover have "\<not> HasEnvReferences (Capabilities d)" using SelectCapabilities_ok [OF assms(1)] by auto
  ultimately show ?thesis using taken_declared unfolding HasEnvReferences_def list_ex_iff by metis
qed

lemma selected_unit_no_references:
  assumes "selected_from lib (Some sel) u (s, v)"
  shows "\<not> HasEnvReferences (Capabilities (the (UnitDescriptor v)))"
proof -
  have "SelectCapabilities (declarationError lib) (encodeCapability lib)
      (Some (withSelectionSources (the (UnitDescriptor u)) (Reference u))) (Some sel) = (ks_Selection s, None)"
    "Capabilities (the (UnitDescriptor v)) = sl_Capabilities (ks_Selection s)"
    using assms by (simp_all add: selected_from_def Let_def)
  then show ?thesis
    using selected_no_references copyItems_sourced by (fastforce simp: withSelectionSources_def)
qed

lemma selector_given:
  "selected_from lib sel u su \<Longrightarrow> \<exists>f. sel = Some f"
  by (auto simp: selected_from_def Let_def dest: SelectCapabilities_ok)

text \<open>The units of a merged set are those of the given kits, permuted, and selected one by one.\<close>

lemma mergeKits_permuted:
  assumes "mergeKits lib kits supplied partial opts = Inr res" "length supplied = length kits"
  obtains us ps where
    "map Reference us = map (pk_Reference \<circ> the) kits"
    "mset (map (heapOf us) ps) = mset us" "distinct ps" "set ps = {0..<length us}"
    "\<forall>(u, v) \<in> needs (heapOf us) ps. precedes ps v u"
    "list_all2 (\<lambda>v u. same_relations v u \<and> UnitEnv v = UnitEnv u) (rs_Kits res) (map (heapOf us) ps)"
    "\<And>k v. map_of (rs_ContainerEnv res) k = Some v \<longleftrightarrow> (\<exists>env \<in> set (map UnitEnv us). (k, v) \<in> set env)"
proof -
  from assms obtain us ps prepared ves where m:
    "map Reference us = map (pk_Reference \<circ> the) kits" "list_all (\<lambda>u. UnitDescriptor u \<noteq> None) us"
    "resolveAll lib (zip kits supplied) = Inr ves" "map UnitEnv us = map snd ves"
    "combineExports (map pk_Reference (map the kits)) (map snd ves) = Inr (rs_ContainerEnv res)"
    "mset ps = mset [0..<length us]" "\<forall>(u, v) \<in> needs (heapOf us) [0..<length us]. precedes ps v u"
    "list_all2 (selected_from lib (ro_selector (applyOptions opts))) (map (heapOf us) ps)
       (zip (rs_Selections res) (rs_Kits res))"
    "length (rs_Selections res) = length (rs_Kits res)"
    by (rule mergeKits_kits)
  have ps: "mset (map (heapOf us) ps) = mset us" "distinct ps" "set ps = set [0..<length us]"
    using heapOf_mset [OF m(6)] m(6) mset_eq_imp_distinct_iff [OF m(6)] mset_eq_setD [OF m(6)] by auto
  have "needs (heapOf us) ps = needs (heapOf us) [0..<length us]"
    using ps(3) by (simp add: needs_def meets_def offers_def)
  moreover have "list_all (\<lambda>u. UnitDescriptor u \<noteq> None) (map (heapOf us) ps)"
    using m(2) mset_eq_setD [OF ps(1)] by (simp only: list_all_iff)
  moreover have "length (map pk_Reference (map the kits)) = length (map snd ves)"
    using m(1,4) by (metis length_map)
  ultimately show ?thesis
    using that [OF m(1) ps(1,2)] ps(3) m(7) selected_units [OF m(8,9)] combineExports_facts(2) [OF m(5)] m(4)
    by (simp add: UN_iff)
qed

lemma merged_order:
  assumes "list_all2 (\<lambda>v u. same_relations v u \<and> UnitEnv v = UnitEnv u) vs (map h ps)"
    "distinct ps" "\<forall>(u, v) \<in> needs h ps. precedes ps v u" "(i, j) \<in> needs (heapOf vs) [0..<length vs]"
  shows "j < i"
proof -
  have len: "length vs = length ps" using assms(1) by (auto dest: list_all2_lengthD)
  have "\<forall>i < length ps. same_relations (heapOf vs i) (h (ps ! i))"
    using assms(1) len by (auto simp: list_all2_conv_all_nth heapOf_def)
  from needs_renamed [where h = h, OF this assms(2)] assms(4) len
  have n: "i < length ps" "j < length ps" "(ps ! i, ps ! j) \<in> needs h ps" by simp_all
  with assms(3) have "precedes ps (ps ! j) (ps ! i)" by blast
  from precedes_index [OF this assms(2) n(1,2)] show ?thesis .
qed

lemma merged_selected:
  assumes "mergeKits lib kits supplied partial opts = Inr res" "length supplied = length kits" "u \<in> set (rs_Kits res)"
  shows "\<exists>sel w s. ro_selector (applyOptions opts) = Some sel \<and> selected_from lib (Some sel) w (s, u)
    \<and> (\<exists>k \<in> set kits. expanded_unit lib (snapshot (applyOptions opts) (rs_ContainerEnv res)) (the k) w)"
proof -
  let ?sel = "ro_selector (applyOptions opts)" and ?env = "snapshot (applyOptions opts) (rs_ContainerEnv res)"
  from assms(1,2) obtain us ps where m:
    "list_all2 (selected_from lib ?sel) (map (heapOf us) ps) (zip (rs_Selections res) (rs_Kits res))"
    "length (rs_Selections res) = length (rs_Kits res)" "mset ps = mset [0..<length us]"
    "list_all2 (expanded_unit lib ?env) (map the kits) us"
    by (rule mergeKits_kits)
  from assms(3) obtain i where i: "i < length (rs_Kits res)" "rs_Kits res ! i = u" by (auto simp: in_set_conv_nth)
  then have s: "selected_from lib ?sel (map (heapOf us) ps ! i) (rs_Selections res ! i, u)"
    using m by (auto simp: list_all2_conv_all_nth)
  with selector_given obtain f where f: "?sel = Some f" by blast
  have "i < length ps" using i(1) m(1,2) by (auto dest: list_all2_lengthD)
  then have "map (heapOf us) ps ! i \<in> set (map (heapOf us) ps)" by (metis length_map nth_mem)
  then have "map (heapOf us) ps ! i \<in> set us" using heapOf_mset [OF m(3)] by (metis mset_eq_setD)
  with m(4) have "\<exists>k \<in> set kits. expanded_unit lib ?env (the k) (map (heapOf us) ps ! i)"
    by (fastforce simp: list_all2_conv_all_nth in_set_conv_nth)
  with s f show ?thesis by metis
qed

lemma merged_references:
  assumes "mergeKits lib kits supplied partial opts = Inr res" "length supplied = length kits"
  shows "mset (map Reference (rs_Kits res)) = mset (map (pk_Reference \<circ> the) kits)"
proof -
  from assms obtain us ps where m:
    "map Reference us = map (pk_Reference \<circ> the) kits" "mset (map (heapOf us) ps) = mset us"
    "list_all2 (\<lambda>v u. same_relations v u \<and> UnitEnv v = UnitEnv u) (rs_Kits res) (map (heapOf us) ps)"
    by (rule mergeKits_permuted) blast
  have "map Reference (rs_Kits res) = map Reference (map (heapOf us) ps)"
    using m(3) by (auto simp: list_all2_conv_all_nth same_relations_def intro: nth_equalityI)
  with m(1,2) show ?thesis by (metis mset_map)
qed

section \<open>Properties\<close>

text \<open>Property C3. A merged set holds every kit once, with every kit after the kits whose provides meet
  its requires or integrates entries; no declaration in it was refused by the runtime's selector or
  still holds an environment reference; and the container environment is the union of what its kits export.\<close>

theorem merged_set_composition:
  assumes "mergeKits lib kits supplied partial opts = Inr res" "length supplied = length kits"
  shows "mset (map Reference (rs_Kits res)) = mset (map (pk_Reference \<circ> the) kits)
    \<and> (\<forall>(i, j) \<in> needs (heapOf (rs_Kits res)) [0..<length (rs_Kits res)]. j < i)
    \<and> (\<forall>u \<in> set (rs_Kits res). \<forall>c \<in> set (Capabilities (the (UnitDescriptor u))).
         the (ro_selector (applyOptions opts)) c)
    \<and> (\<forall>u \<in> set (rs_Kits res). \<not> HasEnvReferences (Capabilities (the (UnitDescriptor u))))
    \<and> (\<forall>k v. map_of (rs_ContainerEnv res) k = Some v \<longleftrightarrow> (\<exists>u \<in> set (rs_Kits res). (k, v) \<in> set (UnitEnv u)))"
proof -
  from assms obtain us ps where m:
    "map Reference us = map (pk_Reference \<circ> the) kits"
    "mset (map (heapOf us) ps) = mset us" "distinct ps" "set ps = {0..<length us}"
    "\<forall>(u, v) \<in> needs (heapOf us) ps. precedes ps v u"
    "list_all2 (\<lambda>v u. same_relations v u \<and> UnitEnv v = UnitEnv u) (rs_Kits res) (map (heapOf us) ps)"
    "\<And>k v. map_of (rs_ContainerEnv res) k = Some v \<longleftrightarrow> (\<exists>env \<in> set (map UnitEnv us). (k, v) \<in> set env)"
    by (rule mergeKits_permuted) blast
  have env: "map UnitEnv (rs_Kits res) = map UnitEnv (map (heapOf us) ps)"
    using m(6) by (auto simp: list_all2_conv_all_nth same_relations_def intro: nth_equalityI)
  have "mset (map Reference (rs_Kits res)) = mset (map (pk_Reference \<circ> the) kits)"
    by (rule merged_references [OF assms])
  moreover have "set (map UnitEnv us) = set (map UnitEnv (rs_Kits res))"
    using env m(2) by (metis mset_map mset_eq_setD)
  then have "\<forall>k v. map_of (rs_ContainerEnv res) k = Some v \<longleftrightarrow> (\<exists>u \<in> set (rs_Kits res). (k, v) \<in> set (UnitEnv u))"
    unfolding m(7) by simp
  moreover have "\<forall>(i, j) \<in> needs (heapOf (rs_Kits res)) [0..<length (rs_Kits res)]. j < i"
    using merged_order [OF m(6,3,5)] by blast
  moreover have "the (ro_selector (applyOptions opts)) c"
    if "u \<in> set (rs_Kits res)" "c \<in> set (Capabilities (the (UnitDescriptor u)))" for u c
    using merged_selected [OF assms that(1)] selected_unit_accepted that(2) by (fastforce simp: list_all_iff)
  moreover have "\<not> HasEnvReferences (Capabilities (the (UnitDescriptor u)))" if "u \<in> set (rs_Kits res)" for u
    using merged_selected [OF assms that] selected_unit_no_references by blast
  ultimately show ?thesis by blast
qed

text \<open>A mixin with an argument that is exported and read back by its own capability, and the workload
  that provides what the mixin requires; listed with the mixin first.\<close>

definition exampleDecode :: "string \<Rightarrow> string + descriptor" where
  "exampleDecode raw =
     Inr (if raw = ''w'' then emptyDescriptor\<lparr>Kind := KindWorkload, Provides := [''shell'']\<rparr>
          else emptyDescriptor\<lparr>Kind := KindMixin, Requires := [''shell''],
                 Args := [(''token'', \<lparr>argDefault = Some ''t0'', argRequired = False, argDescription = [], argEnum = [],
                             argPattern = [], argEnv = ''TOKEN'', argBuildArg = []\<rparr>)],
                 Capabilities := [ordinary CapabilityNetworkPolicy (Some [(''note'', JStr ''${{ kit.env.TOKEN }}'')])]\<rparr>)"

definition exampleKitLib :: kit_lib where
  "exampleKitLib = \<lparr>registryLib = exampleLib\<lparr>decodeSpec := exampleDecode\<rparr>, fullMatchOf = (\<lambda>p s. Inr True),
     expandCreateArgs = (\<lambda>raw decls vals. Inr raw),
     encodeDescriptor = (\<lambda>d. Inr (if Kind d = KindWorkload then ''w'' else ''m'')),
     expandedError = (\<lambda>raw d. None), declarationError = (\<lambda>d. None), encodeCapability = (\<lambda>c. Inr []),
     composeSpec = (\<lambda>cs. Inr (snd (hd cs))), effectiveCheck = (\<lambda>raw d. Inr [])\<rparr>"

definition examplePublished :: "string \<Rightarrow> string \<Rightarrow> published_kit option" where
  "examplePublished r raw = Some \<lparr>pk_Reference = r, pk_Digest = ''sha256:0'', pk_Image = r,
     pk_Descriptor = (case exampleDecode raw of Inl e \<Rightarrow> None | Inr d \<Rightarrow> Some d), pk_Raw = raw\<rparr>"

theorem merged_set_composition_witness:
  "\<exists>res. mergeKits exampleKitLib [examplePublished ''reg.io/git'' ''m'', examplePublished ''reg.io/base:1.2.0'' ''w'']
      [[], []] False [] = Inr res
    \<and> mset (map Reference (rs_Kits res)) = {#''reg.io/git'', ''reg.io/base:1.2.0''#}
    \<and> map_of (rs_ContainerEnv res) ''TOKEN'' = Some ''t0''"
proof -
  let ?m = "mergeKits exampleKitLib [examplePublished ''reg.io/git'' ''m'', examplePublished ''reg.io/base:1.2.0'' ''w'']
      [[], []] False []"
  have "is_ok ?m" "map_of (rs_ContainerEnv (projr ?m)) ''TOKEN'' = Some ''t0''" by code_simp+
  then obtain res where res: "?m = Inr res" "map_of (rs_ContainerEnv res) ''TOKEN'' = Some ''t0''" by (auto simp: is_ok_iff)
  with merged_set_composition [OF res(1)] show ?thesis by (simp add: examplePublished_def)
qed

end
