(* ===== verification/Collisions_Facts.thy ===== *)
theory Collisions_Facts
  imports Collisions
begin

text \<open>
  What the collision check over extracted trees guarantees. The two walks keep their slice of
  nodes aligned with the path they are at, the ownership tree holds exactly the paths the
  earlier kits contribute, and a set is accepted exactly when no kit replaces, deletes or hides
  a path of a kit before it; the files of every kit then reach the assembled filesystem as
  their kit wrote them.
\<close>

section \<open>The first walk\<close>

definition clash :: "owners \<Rightarrow> string list \<Rightarrow> fsNode \<Rightarrow> bool" where
  "clash ow q m \<longleftrightarrow>
     (\<exists>nd. ow q = Some nd
        \<and> (o_kit nd \<noteq> [] \<and> \<not> (is_dir m \<and> o_directory nd)
           \<or> o_descendant nd \<noteq> None \<and> (\<not> is_dir m \<or> is_opaque m)))"

definition clear :: "owners \<Rightarrow> string list \<Rightarrow> fsNode \<Rightarrow> bool" where
  "clear ow q n \<longleftrightarrow> (\<forall>r m. node_at r n = Some m \<longrightarrow> \<not> clash ow (q @ r) m)"

definition prefix_closed :: "owners \<Rightarrow> bool" where
  "prefix_closed ow \<longleftrightarrow> (\<forall>q s. ow (q @ [s]) \<noteq> None \<longrightarrow> ow q \<noteq> None)"

lemma prefix_closedD: "prefix_closed ow \<Longrightarrow> ow q = None \<Longrightarrow> ow (q @ [s]) = None"
  unfolding prefix_closed_def by blast

definition frame :: "owners \<Rightarrow> string list \<Rightarrow> string list option" where
  "frame ow q = (if ow q = None then None else Some q)"

lemma preorder_unfold:
  "preorder n nm d = entry_of n nm d #
     concat (map (\<lambda>s. case child n s of None \<Rightarrow> [] | Some c \<Rightarrow> preorder c s (Suc d)) (sort (map fst (children n))))"
  by (simp add: preorder.simps [of n nm] cong: option.case_cong)

lemma entry_of_fields [simp]:
  "e_Name (entry_of n nm d) = nm" "e_Depth (entry_of n nm d) = d"
  "e_Directory (entry_of n nm d) = is_dir n" "e_Whiteout (entry_of n nm d) = (n = Whiteout)"
  "e_Opaque (entry_of n nm d) = is_opaque n"
  by (simp_all add: entry_of_def)

lemma checkNode_frame:
  "checkNode ow u (entry_of m nm d) (frame ow q) = None \<longleftrightarrow> \<not> clash ow q m"
  "checkNode ow u (entry_of m nm d) (frame ow q) = Some er \<Longrightarrow> \<exists>a b. er = FileCollision a b u"
  by (auto simp: checkNode_def frame_def clash_def entry_of_def fileCollision_def
      split: option.splits if_splits)

lemma clear_unfold:
  "clear ow q n \<longleftrightarrow> \<not> clash ow q n \<and> (\<forall>s c. child n s = Some c \<longrightarrow> clear ow (q @ [s]) c)"
proof
  assume c: "clear ow q n"
  have "\<not> clash ow q n" using c [unfolded clear_def, rule_format, of "[]" n] by simp
  moreover have "clear ow (q @ [s]) x" if "child n s = Some x" for s x
    unfolding clear_def
  proof (intro allI impI)
    fix r m assume "node_at r x = Some m"
    with that c [unfolded clear_def, rule_format, of "s # r" m] show "\<not> clash ow ((q @ [s]) @ r) m"
      by simp
  qed
  ultimately show "\<not> clash ow q n \<and> (\<forall>s c. child n s = Some c \<longrightarrow> clear ow (q @ [s]) c)" by blast
next
  assume c: "\<not> clash ow q n \<and> (\<forall>s c. child n s = Some c \<longrightarrow> clear ow (q @ [s]) c)"
  show "clear ow q n"
    unfolding clear_def
  proof (intro allI impI)
    fix r m assume m: "node_at r n = Some m"
    show "\<not> clash ow (q @ r) m"
    proof (cases r)
      case Nil
      with m c show ?thesis by simp
    next
      case (Cons s r')
      with m obtain x where x: "child n s = Some x" "node_at r' x = Some m"
        by (auto split: option.splits)
      with c have "clear ow (q @ [s]) x" by blast
      with x(2) Cons show ?thesis by (auto simp: clear_def)
    qed
  qed
qed

lemma clear_names:
  "\<not> clash ow q n \<Longrightarrow>
   (\<forall>s \<in> set (sort (map fst (children n))). \<forall>c. child n s = Some c \<longrightarrow> clear ow (q @ [s]) c) = clear ow q n"
  using clear_unfold [of ow q n] children_keys [of n] by auto

text \<open>How a walk below depth \<open>d\<close> ends: it leaves the first \<open>d\<close> frames alone, or it reports
  a collision of the kit above.\<close>

definition validated ::
  "string \<Rightarrow> nat \<Rightarrow> 'a list \<Rightarrow> bool \<Rightarrow> collision_error + 'a list \<Rightarrow> bool" where
  "validated u d st good r \<longleftrightarrow>
     (case r of
        Inr st' \<Rightarrow> good \<and> d \<le> length st' \<and> take d st' = take d st
      | Inl e \<Rightarrow> \<not> good \<and> (\<exists>a b. e = FileCollision a b u))"

lemma validated_names:
  assumes "\<And>s c st. s \<in> set names \<Longrightarrow> child n s = Some c \<Longrightarrow> d \<le> length st \<Longrightarrow> st ! (d - 1) = f \<Longrightarrow>
      validated u d st (clear ow (q @ [s]) c) (rfold fn st (preorder c s d))"
    and "0 < d" "d \<le> length st" "st ! (d - 1) = f"
  shows "validated u d st (\<forall>s \<in> set names. \<forall>c. child n s = Some c \<longrightarrow> clear ow (q @ [s]) c)
     (rfold fn st (concat (map (\<lambda>s. case child n s of None \<Rightarrow> [] | Some c \<Rightarrow> preorder c s d) names)))"
  using assms
proof (induction names arbitrary: st)
  case Nil
  then show ?case by (simp add: validated_def)
next
  case (Cons s names)
  show ?case
  proof (cases "child n s")
    case None
    with Cons.IH [of st] Cons.prems show ?thesis by simp
  next
    case (Some c)
    with Cons.prems have v: "validated u d st (clear ow (q @ [s]) c) (rfold fn st (preorder c s d))"
      by simp
    show ?thesis
    proof (cases "rfold fn st (preorder c s d)")
      case (Inl e)
      with v Some show ?thesis by (auto simp: validated_def rfold_append)
    next
      case (Inr st')
      with v have st': "d \<le> length st'" "take d st' = take d st" and good: "clear ow (q @ [s]) c"
        by (simp_all add: validated_def)
      then have "st' ! (d - 1) = f"
        using Cons.prems(2,4) by (metis diff_less nth_take zero_less_one)
      with Cons.IH [of st'] Cons.prems st' good Some Inr show ?thesis
        by (auto simp: validated_def rfold_append split: sum.splits)
    qed
  qed
qed

lemma validate_subtree:
  assumes "prefix_closed ow" "Suc (length p) \<le> length st" "st ! length p = frame ow p"
  shows "validated u (Suc (length p)) st (clear ow (p @ [nm]) n)
     (rfold (validateEntry ow u) st (preorder n nm (Suc (length p))))"
  using assms
proof (induction n nm "Suc (length p)" arbitrary: p st rule: preorder.induct)
  case (1 n nm p st)
  let ?q = "p @ [nm]" and ?d = "Suc (length p)" and ?e = "entry_of n nm (Suc (length p))"
  have node: "(case st ! length p of None \<Rightarrow> None
       | Some loc \<Rightarrow> if ow (loc @ [nm]) = None then None else Some (loc @ [nm])) = frame ow ?q"
  proof (cases "ow p")
    case None
    with 1(2) have "ow ?q = None" unfolding prefix_closed_def by blast
    with None 1(4) show ?thesis by (simp add: frame_def)
  qed (use 1(4) in \<open>simp add: frame_def\<close>)
  define st1 where "st1 = take ?d st @ [frame ow ?q]"
  have step: "validateEntry ow u st ?e =
      (case checkNode ow u ?e (frame ow ?q) of Some er \<Rightarrow> Inl er | None \<Rightarrow> Inr st1)"
    using 1(3) node by (simp add: validateEntry_def Let_def st1_def cong: option.case_cong if_cong)
  have st1: "take ?d st1 = take ?d st" "length st1 = Suc ?d" "st1 ! ?d = frame ow ?q"
    using 1(3) by (simp_all add: st1_def nth_append)
  show ?case
  proof (cases "checkNode ow u ?e (frame ow ?q)")
    case None
    let ?names = "sort (map fst (children n))"
    let ?r = "rfold (validateEntry ow u) st1
        (concat (map (\<lambda>s. case child n s of None \<Rightarrow> [] | Some c \<Rightarrow> preorder c s (Suc ?d)) ?names))"
    have "validated u (Suc ?d) st1
        (\<forall>s \<in> set ?names. \<forall>c. child n s = Some c \<longrightarrow> clear ow (?q @ [s]) c) ?r"
    proof (rule validated_names)
      fix s c st' assume a: "s \<in> set ?names" "child n s = Some c" "Suc ?d \<le> length st'" "st' ! (Suc ?d - 1) = frame ow ?q"
      from 1(1) [OF a(1,2), of ?q st'] 1(2) a show "validated u (Suc ?d) st' (clear ow (?q @ [s]) c)
          (rfold (validateEntry ow u) st' (preorder c s (Suc ?d)))" by simp
    qed (use st1 in simp_all)
    then have "validated u (Suc ?d) st1 (clear ow ?q n) ?r"
      using None clear_names [of ow ?q n] checkNode_frame(1) [of ow u n nm ?d ?q] by simp
    moreover have "take ?d st' = take ?d st" if "take (Suc ?d) st' = take (Suc ?d) st1" for st'
      using that st1(1) by (metis le_add2 min.absorb1 plus_1_eq_Suc take_take)
    ultimately show ?thesis
      using None step by (auto simp: preorder_unfold [of n] validated_def split: sum.splits)
  next
    case (Some er)
    with checkNode_frame [of ow u n nm ?d ?q] clear_unfold [of ow ?q n] step show ?thesis
      by (auto simp: preorder_unfold [of n] validated_def)
  qed
qed

lemma frame_root: "ow [] \<noteq> None \<Longrightarrow> frame ow [] = Some []"
  by (simp add: frame_def)

lemma validate_walk:
  assumes "prefix_closed ow" "ow [] \<noteq> None"
  shows "validated u 1 [Some []] (clear ow [] (fs_root fs)) (Walk fs (validateEntry ow u) [Some []])"
proof -
  let ?n = "fs_root fs" and ?e = "entry_of (fs_root fs) [] 0"
  let ?names = "sort (map fst (children ?n))"
  have step: "validateEntry ow u [Some []] ?e =
      (case checkNode ow u ?e (frame ow []) of Some er \<Rightarrow> Inl er | None \<Rightarrow> Inr [Some []])"
    using assms(2) by (simp add: validateEntry_def Let_def frame_root)
  have "validated u 1 [Some []]
      (\<forall>s \<in> set ?names. \<forall>c. child ?n s = Some c \<longrightarrow> clear ow ([] @ [s]) c)
      (rfold (validateEntry ow u) [Some []]
        (concat (map (\<lambda>s. case child ?n s of None \<Rightarrow> [] | Some c \<Rightarrow> preorder c s 1) ?names)))"
    using validate_subtree [OF assms(1), of "[]"] frame_root [of ow] assms(2)
    by (intro validated_names [where f = "Some []"]) simp_all
  then have kids: "validated u 1 [Some []] (clear ow [] ?n)
      (rfold (validateEntry ow u) [Some []]
        (concat (map (\<lambda>s. case child ?n s of None \<Rightarrow> [] | Some c \<Rightarrow> preorder c s 1) ?names)))"
    if "\<not> clash ow [] ?n"
    using that clear_names [of ow "[]" ?n] by simp
  show ?thesis
  proof (cases "checkNode ow u ?e (frame ow [])")
    case None
    with kids step checkNode_frame(1) [of ow u ?n "[]" 0 "[]"] show ?thesis
      by (simp add: Walk_def walk_rfold(1) preorder_unfold [of ?n] cong: option.case_cong)
  next
    case (Some er)
    with step checkNode_frame [of ow u ?n "[]" 0 "[]"] clear_unfold [of ow "[]" ?n] show ?thesis
      by (auto simp: Walk_def walk_rfold(1) preorder_unfold [of ?n] validated_def)
  qed
qed

section \<open>The second walk\<close>

text \<open>The invariant of the ownership tree: the root is there, every node's parent is, and a
  node has a first owned descendant exactly when it has a child, which the descendant is.\<close>

definition owners_ok :: "owners \<Rightarrow> bool" where
  "owners_ok ow \<longleftrightarrow> ow [] \<noteq> None \<and> prefix_closed ow
     \<and> (\<forall>q nd. ow q = Some nd \<longrightarrow> (o_descendant nd \<noteq> None) = (\<exists>s. ow (q @ [s]) \<noteq> None))"

definition claim :: "owners \<Rightarrow> string list \<Rightarrow> (string \<times> bool) option" where
  "claim ow q = map_option (\<lambda>nd. (o_kit nd, o_directory nd)) (ow q)"

lemma claim_None [simp]: "claim ow q = None \<longleftrightarrow> ow q = None"
  by (simp add: claim_def)

definition record_claim :: "owners \<Rightarrow> string \<Rightarrow> string list \<Rightarrow> string list \<Rightarrow> bool \<Rightarrow> owners" where
  "record_claim ow kit p loc isDir = setDescendant (claimNode ow kit loc isDir) p loc"

lemma record_claim_claim:
  "ow p \<noteq> None \<Longrightarrow>
   claim (record_claim ow kit p (p @ [nm]) b) q =
     (if q = p @ [nm] \<and> claim ow q = None then Some (kit, b) else claim ow q)"
  by (auto simp: record_claim_def claim_def setDescendant_def claimNode_def)

lemma record_claim_dom:
  "ow p \<noteq> None \<Longrightarrow>
   record_claim ow kit p (p @ [nm]) b q \<noteq> None \<longleftrightarrow> ow q \<noteq> None \<or> q = p @ [nm]"
  by (auto simp: record_claim_def setDescendant_def claimNode_def)

lemma record_claim_descendant:
  assumes "ow p \<noteq> None" "record_claim ow kit p (p @ [nm]) b q = Some nd"
  shows "(o_descendant nd \<noteq> None) =
    (q = p \<or> (case ow q of None \<Rightarrow> False | Some nd' \<Rightarrow> o_descendant nd' \<noteq> None))"
  using assms by (auto simp: record_claim_def setDescendant_def claimNode_def split: if_splits option.splits)

lemma record_claim_ok:
  assumes ok: "owners_ok ow" and p: "ow p \<noteq> None"
  shows "owners_ok (record_claim ow kit p (p @ [nm]) b)"
proof -
  let ?ow = "record_claim ow kit p (p @ [nm]) b"
  note dom = record_claim_dom [where ow = ow and p = p, OF p, of kit nm b]
  have pc: "prefix_closed ow" and desc: "\<And>q nd. ow q = Some nd \<Longrightarrow> (o_descendant nd \<noteq> None) = (\<exists>s. ow (q @ [s]) \<noteq> None)"
    using ok by (simp_all add: owners_ok_def)
  have "(o_descendant nd \<noteq> None) = (\<exists>s. ?ow (q @ [s]) \<noteq> None)" if q: "?ow q = Some nd" for q nd
  proof -
    have "(\<exists>s. ?ow (q @ [s]) \<noteq> None) = (q = p \<or> (\<exists>s. ow (q @ [s]) \<noteq> None))"
      using dom by auto
    also have "\<dots> = (q = p \<or> (case ow q of None \<Rightarrow> False | Some nd' \<Rightarrow> o_descendant nd' \<noteq> None))"
      using desc prefix_closedD [OF pc] by (auto split: option.splits)
    finally show ?thesis using record_claim_descendant [where ow = ow and p = p, OF p q] by simp
  qed
  moreover have "prefix_closed ?ow"
    using pc p dom unfolding prefix_closed_def by (metis append1_eq_conv)
  ultimately show ?thesis
    using ok dom [of "[]"] by (simp add: owners_ok_def)
qed

text \<open>What a subtree adds to the claims below a path.\<close>

definition contributes :: "fsNode \<Rightarrow> string list \<Rightarrow> bool" where
  "contributes t q \<longleftrightarrow> (case view t q of None \<Rightarrow> False | Some m \<Rightarrow> m \<noteq> Whiteout)"

definition added :: "string \<Rightarrow> fsNode \<Rightarrow> string list \<Rightarrow> (string \<times> bool) option" where
  "added kit t q = (if contributes t q then Some (kit, is_dir (the (view t q))) else None)"

lemma added_simps [simp]:
  "added kit t [] = (if t = Whiteout then None else Some (kit, is_dir t))"
  "added kit t (s # q) = (case child t s of None \<Rightarrow> None | Some c \<Rightarrow> added kit c q)"
  by (cases t; simp add: added_def contributes_def)
     (simp add: added_def contributes_def split: option.splits)

definition orElse :: "'a option \<Rightarrow> 'a option \<Rightarrow> 'a option" where
  "orElse x y = (case x of None \<Rightarrow> y | Some _ \<Rightarrow> x)"

lemma orElse_simps [simp]:
  "orElse None y = y" "orElse (Some a) y = Some a" "orElse x None = x" "orElse x (orElse x y) = orElse x y"
  "orElse (orElse x y) z = orElse x (orElse y z)"
  by (simp_all add: orElse_def split: option.splits)

text \<open>How the second walk ends below depth \<open>d\<close>: always without error, with the first \<open>d\<close>
  frames as they were.\<close>

definition registered ::
  "nat \<Rightarrow> owners \<times> string list list \<Rightarrow> (string list \<Rightarrow> (string \<times> bool) option)
   \<Rightarrow> collision_error + owners \<times> string list list \<Rightarrow> bool" where
  "registered d st new r \<longleftrightarrow>
     (\<exists>ow' stk'. r = Inr (ow', stk') \<and> owners_ok ow' \<and> d \<le> length stk' \<and> take d stk' = take d (snd st)
        \<and> (\<forall>q. claim ow' q = orElse (claim (fst st) q) (new q)))"

definition under :: "string list \<Rightarrow> (string list \<Rightarrow> 'a option) \<Rightarrow> string list \<Rightarrow> 'a option" where
  "under p f q = (if take (length p) q = p then f (drop (length p) q) else None)"

lemma under_append [simp]: "under p f (p @ r) = f r" "under p f p = f []" "under (p @ [s]) f p = None"
  by (simp_all add: under_def)

lemma under_child: "under (q @ [s]) f (q @ r) = (case r of [] \<Rightarrow> None | s' # r' \<Rightarrow> if s' = s then f r' else None)"
  by (cases r) (auto simp: under_def)

lemma under_outside: "\<nexists>r. x = q @ r \<Longrightarrow> under q f x = None \<and> under (q @ [s]) g x = None"
  by (auto simp: under_def) (metis append_take_drop_id append_assoc)+

primrec kids :: "string \<Rightarrow> fsNode \<Rightarrow> string list \<Rightarrow> string list \<Rightarrow> (string \<times> bool) option" where
  "kids kit n names [] = None"
| "kids kit n names (s # r) =
     (if s \<in> set names then (case child n s of None \<Rightarrow> None | Some c \<Rightarrow> added kit c r) else None)"

lemma kids_cons:
  "child n s = Some c \<Longrightarrow>
   orElse (under (q @ [s]) (added kit c) x) (under q (kids kit n names) x) = under q (kids kit n (s # names)) x"
proof (cases "\<exists>r. x = q @ r")
  case True
  assume c: "child n s = Some c"
  from True obtain r where "x = q @ r" by blast
  with c show ?thesis by (cases r) (auto simp: under_child orElse_def split: option.splits)
qed (simp add: under_outside)

lemma kids_all:
  "n \<noteq> Whiteout \<Longrightarrow>
   orElse (if x = q then Some (kit, is_dir n) else None) (under q (kids kit n (sort (map fst (children n)))) x)
   = under q (added kit n) x"
proof (cases "\<exists>r. x = q @ r")
  case True
  assume n: "n \<noteq> Whiteout"
  from True obtain r where "x = q @ r" by blast
  with n children_keys [of n] show ?thesis by (cases r) (auto split: option.splits)
qed (auto simp: under_outside)

lemma registered_trans:
  assumes "registered d st f (Inr st')" "registered d st' g r" "\<And>q. orElse (f q) (g q) = h q"
  shows "registered d st h r"
  using assms by (fastforce simp: registered_def)

lemma registered_names:
  assumes "\<And>s c st. s \<in> set names \<Longrightarrow> child n s = Some c \<Longrightarrow> owners_ok (fst st) \<Longrightarrow> fst st q \<noteq> None \<Longrightarrow>
      Suc (length q) \<le> length (snd st) \<Longrightarrow> snd st ! length q = q \<Longrightarrow>
      registered (Suc (length q)) st (under (q @ [s]) (added kit c)) (rfold fn st (preorder c s (Suc (length q))))"
    and "owners_ok (fst st)" "fst st q \<noteq> None" "Suc (length q) \<le> length (snd st)" "snd st ! length q = q"
  shows "registered (Suc (length q)) st (under q (kids kit n names))
     (rfold fn st (concat (map (\<lambda>s. case child n s of None \<Rightarrow> [] | Some c \<Rightarrow> preorder c s (Suc (length q))) names)))"
  using assms
proof (induction names arbitrary: st)
  case Nil
  have "kids kit n [] r = None" for r by (cases r) simp_all
  with Nil show ?case by (cases st) (simp add: registered_def under_def)
next
  case (Cons s names)
  let ?d = "Suc (length q)"
  show ?case
  proof (cases "child n s")
    case None
    then have "kids kit n (s # names) = kids kit n names"
      by (intro ext) (rename_tac r, case_tac r, auto split: option.splits)
    with None Cons.IH [of st] Cons.prems show ?thesis by simp
  next
    case (Some c)
    with Cons.prems have reg: "registered ?d st (under (q @ [s]) (added kit c)) (rfold fn st (preorder c s ?d))"
      by simp
    then obtain st' where st': "rfold fn st (preorder c s ?d) = Inr st'" and okst: "owners_ok (fst st')"
        "?d \<le> length (snd st')" "take ?d (snd st') = take ?d (snd st)"
        "\<And>x. claim (fst st') x = orElse (claim (fst st) x) (under (q @ [s]) (added kit c) x)"
      by (fastforce simp: registered_def)
    have "fst st' q \<noteq> None"
      using okst(4) [of q] Cons.prems(3) by (metis claim_None orElse_simps(2) not_None_eq)
    moreover have "snd st' ! length q = q"
      using okst(3) Cons.prems(5) by (metis lessI nth_take)
    ultimately have "registered ?d st' (under q (kids kit n names))
        (rfold fn st' (concat (map (\<lambda>s. case child n s of None \<Rightarrow> [] | Some c \<Rightarrow> preorder c s ?d) names)))"
      using Cons.IH [of st'] Cons.prems(1) okst by simp
    from registered_trans [OF reg [unfolded st'] this kids_cons [OF Some]] show ?thesis
      using Some st' by (simp add: rfold_append)
  qed
qed

definition step_state :: "string \<Rightarrow> owners \<times> string list list \<Rightarrow> string list \<Rightarrow> string \<Rightarrow> fsNode \<Rightarrow> owners \<times> string list list" where
  "step_state kit st p nm n =
     (record_claim (fst st) kit p (p @ [nm]) (is_dir n), take (Suc (length p)) (snd st) @ [p @ [nm]])"

lemma register_step:
  assumes "fst st p \<noteq> None" "owners_ok (fst st)" "Suc (length p) \<le> length (snd st)" "snd st ! length p = p" "n \<noteq> Whiteout"
  shows "registerEntry kit st (entry_of n nm (Suc (length p))) = Inr (step_state kit st p nm n)"
    and "registered (Suc (length p)) st (\<lambda>x. if x = p @ [nm] then Some (kit, is_dir n) else None)
           (Inr (step_state kit st p nm n))"
proof -
  show "registerEntry kit st (entry_of n nm (Suc (length p))) = Inr (step_state kit st p nm n)"
    using assms by (auto simp: registerEntry_def record_claim_def Let_def step_state_def split: prod.splits)
  show "registered (Suc (length p)) st (\<lambda>x. if x = p @ [nm] then Some (kit, is_dir n) else None)
           (Inr (step_state kit st p nm n))"
    using assms record_claim_ok [where p = p, OF assms(2,1)] record_claim_claim [where ow = "fst st" and p = p, OF assms(1)]
    by (auto simp: step_state_def registered_def orElse_def simp del: claim_None split: option.splits)
qed

lemma step_state_facts:
  assumes "fst st p \<noteq> None" "owners_ok (fst st)" "Suc (length p) \<le> length (snd st)"
  shows "owners_ok (fst (step_state kit st p nm n))"
    and "fst (step_state kit st p nm n) (p @ [nm]) \<noteq> None"
    and "length (snd (step_state kit st p nm n)) = Suc (Suc (length p))"
    and "snd (step_state kit st p nm n) ! Suc (length p) = p @ [nm]"
  using assms record_claim_ok [where p = p, OF assms(2,1)]
    record_claim_dom [where ow = "fst st" and p = p, OF assms(1), of kit nm "is_dir n" "p @ [nm]"]
  by (simp_all add: step_state_def nth_append)

lemma registered_mono: "registered (Suc d) st f r \<Longrightarrow> registered d st f r"
  unfolding registered_def by (metis Suc_leD take_take min.absorb1 le_SucI order_refl)

lemma register_subtree:
  assumes "owners_ok (fst st)" "fst st p \<noteq> None" "Suc (length p) \<le> length (snd st)" "snd st ! length p = p"
  shows "registered (Suc (length p)) st (under (p @ [nm]) (added kit n))
     (rfold (registerEntry kit) st (preorder n nm (Suc (length p))))"
  using assms
proof (induction n nm "Suc (length p)" arbitrary: p st rule: preorder.induct)
  case (1 n nm p st)
  let ?q = "p @ [nm]" and ?d = "Suc (length p)"
  show ?case
  proof (cases "n = Whiteout")
    case True
    then have "preorder n nm ?d = [entry_of n nm ?d]" by (simp add: preorder_unfold [of Whiteout])
    moreover have "under ?q (added kit Whiteout) x = None" for x
      by (cases "drop (length ?q) x") (simp_all add: under_def)
    ultimately show ?thesis
      using True 1(2,4) by (cases st) (simp add: registerEntry_def registered_def)
  next
    case False
    let ?st = "step_state kit st p nm n" and ?names = "sort (map fst (children n))"
    note facts = step_state_facts [where p = p, OF 1(3,2,4), of kit nm n]
    note step = register_step [where p = p and kit = kit and nm = nm, OF 1(3,2,4,5) False]
    have "registered (Suc (length ?q)) ?st (under ?q (kids kit n ?names))
        (rfold (registerEntry kit) ?st
          (concat (map (\<lambda>s. case child n s of None \<Rightarrow> [] | Some c \<Rightarrow> preorder c s (Suc (length ?q))) ?names)))"
    proof (rule registered_names)
      fix s c st' assume a: "s \<in> set ?names" "child n s = Some c" "owners_ok (fst st')" "fst st' ?q \<noteq> None"
        "Suc (length ?q) \<le> length (snd st')" "snd st' ! length ?q = ?q"
      from 1(1) [OF a(1,2), of ?q st'] a
      show "registered (Suc (length ?q)) st' (under (?q @ [s]) (added kit c))
          (rfold (registerEntry kit) st' (preorder c s (Suc (length ?q))))" by simp
    qed (use facts in simp_all)
    then have "registered ?d ?st (under ?q (kids kit n ?names))
        (rfold (registerEntry kit) ?st
          (concat (map (\<lambda>s. case child n s of None \<Rightarrow> [] | Some c \<Rightarrow> preorder c s (Suc ?d)) ?names)))"
      by (simp only: length_append_singleton registered_mono)
    from registered_trans [OF step(2) this kids_all [OF False]] show ?thesis
      using step(1) by (simp add: preorder_unfold [of n])
  qed
qed

lemma register_walk:
  assumes "owners_ok ow" "is_dir (fs_root fs)"
  shows "registered 1 (ow, [[]]) (\<lambda>q. if q = [] then None else added kit (fs_root fs) q)
     (Walk fs (registerEntry kit) (ow, [[]]))"
proof -
  let ?n = "fs_root fs"
  let ?names = "sort (map fst (children ?n))"
  have "registered (Suc (length ([] :: string list))) (ow, [[]]) (under [] (kids kit ?n ?names))
      (rfold (registerEntry kit) (ow, [[]])
        (concat (map (\<lambda>s. case child ?n s of None \<Rightarrow> [] | Some c \<Rightarrow> preorder c s (Suc (length ([] :: string list)))) ?names)))"
  proof (rule registered_names)
    fix s c and st :: "owners \<times> string list list"
    assume "owners_ok (fst st)" "fst st [] \<noteq> None" "Suc (length ([] :: string list)) \<le> length (snd st)" "snd st ! length ([] :: string list) = []"
    from register_subtree [where p = "[]", OF this, of s kit c]
    show "registered (Suc (length ([] :: string list))) st (under ([] @ [s]) (added kit c))
        (rfold (registerEntry kit) st (preorder c s (Suc (length ([] :: string list)))))" .
  qed (use assms in \<open>simp_all add: owners_ok_def\<close>)
  moreover have "under [] (kids kit ?n ?names) = (\<lambda>q. if q = [] then None else added kit ?n q)"
  proof
    fix q show "under [] (kids kit ?n ?names) q = (if q = [] then None else added kit ?n q)"
      using children_keys [of ?n] by (cases q) (auto simp: under_def split: option.splits)
  qed
  moreover have "registerEntry kit (ow, [[]]) (entry_of ?n [] 0) = Inr (ow, [[]])"
    by (simp add: registerEntry_def)
  ultimately show ?thesis
    by (simp add: Walk_def walk_rfold(1) preorder_unfold [of ?n] cong: option.case_cong)
qed

section \<open>Kits as trees\<close>

definition kit_tree :: "kit_inventory \<Rightarrow> fsNode option" where
  "kit_tree k = (case applyLayers (ki_reference k) New (ki_layers k) of Inl _ \<Rightarrow> None | Inr fs \<Rightarrow> Some (fs_root fs))"

lemma addEntries_building: "building fs l \<Longrightarrow> addEntries l es = Inr l' \<Longrightarrow> building fs l'"
  by (induction l es rule: addEntries.induct) (auto split: prod.splits if_splits intro: add_entry)

lemma applyLayers_reachable: "reachable fs \<Longrightarrow> applyLayers r fs ls = Inr fs' \<Longrightarrow> reachable fs'"
proof (induction ls arbitrary: fs)
  case (Cons es ls)
  then show ?case
    using addEntries_building [OF begin_layer] apply_layer
    by (metis (no_types, lifting) applyLayers.simps(2) old.sum.simps(5,6) sum.exhaust sum.simps(4))
qed simp

lemma kit_tree_wf: "kit_tree k = Some t \<Longrightarrow> wf_node t \<and> is_dir t"
  using reachable_wf [OF applyLayers_reachable [OF fresh]]
  by (auto simp: kit_tree_def wf_fs_def split: sum.splits)

text \<open>A tree over another replaces, deletes or hides one of its paths.\<close>

definition conflict :: "fsNode \<Rightarrow> fsNode \<Rightarrow> bool" where
  "conflict l u \<longleftrightarrow>
     (\<exists>q. q \<noteq> [] \<and> contributes l q
        \<and> (hides u q \<or> (\<exists>m. view u q = Some m \<and> \<not> (is_dir m \<and> is_dir (the (view l q))))))"

definition owns :: "owners \<Rightarrow> fsNode set \<Rightarrow> bool" where
  "owns ow ts \<longleftrightarrow> owners_ok ow
     \<and> (\<forall>q nd. ow q = Some nd \<longrightarrow> (o_kit nd = []) = (q = []))
     \<and> (\<forall>q. q \<noteq> [] \<longrightarrow> (ow q \<noteq> None) = (\<exists>t \<in> ts. contributes t q))
     \<and> (\<forall>q nd t. q \<noteq> [] \<longrightarrow> ow q = Some nd \<longrightarrow> t \<in> ts \<longrightarrow> contributes t q \<longrightarrow>
          o_directory nd = is_dir (the (view t q)))"

lemma prefix_closed_take: "prefix_closed ow \<Longrightarrow> ow q \<noteq> None \<Longrightarrow> ow (take k q) \<noteq> None"
proof (induction q rule: rev_induct)
  case (snoc s q)
  then have "ow q \<noteq> None" unfolding prefix_closed_def by blast
  with snoc show ?case by (cases "k \<le> length q") auto
qed simp

lemma hides_iff:
  "hides u q \<longleftrightarrow> (\<exists>k m. k < length q \<and> node_at (take k q) u = Some m \<and> (\<not> is_dir m \<or> is_opaque m))"
  by (auto simp: hides_def list_ex_iff view_def split: option.splits)

lemma take_Suc_snoc: "k < length q \<Longrightarrow> take (Suc k) q = take k q @ [q ! k]"
  by (rule take_Suc_conv_app_nth)

lemma clear_owned:
  assumes "owners_ok ow" "\<forall>q nd. ow q = Some nd \<longrightarrow> (o_kit nd = []) = (q = [])"
  shows "clear ow [] t \<longleftrightarrow>
    (\<forall>q nd. q \<noteq> [] \<longrightarrow> ow q = Some nd \<longrightarrow>
       \<not> hides t q \<and> (\<forall>m. view t q = Some m \<longrightarrow> is_dir m \<and> o_directory nd))"
    (is "_ \<longleftrightarrow> ?free")
proof
  assume c: "clear ow [] t"
  have free: "\<not> clash ow r m" if "node_at r t = Some m" for r m
    using c that by (simp add: clear_def)
  show ?free
  proof (intro allI impI conjI notI)
    fix q nd m assume q: "q \<noteq> []" "ow q = Some nd" "view t q = Some m"
    then obtain m' where m': "node_at q t = Some m'" "m = shape m'" by (auto simp: view_def)
    from free [OF m'(1)] q assms(2) m'(2) show "is_dir m" "o_directory nd" by (auto simp: clash_def)
  next
    fix q nd assume q: "q \<noteq> []" "ow q = Some nd" and "hides t q"
    then obtain k m where k: "k < length q" "node_at (take k q) t = Some m" "\<not> is_dir m \<or> is_opaque m"
      by (auto simp: hides_iff)
    have pc: "prefix_closed ow" using assms(1) by (simp add: owners_ok_def)
    obtain nd' where nd': "ow (take k q) = Some nd'"
      using prefix_closed_take [OF pc, of q k] q(2) by auto
    moreover have "ow (take k q @ [q ! k]) \<noteq> None"
      using prefix_closed_take [OF pc, of q "Suc k"] q(2) k(1) by (simp add: take_Suc_snoc)
    ultimately have "o_descendant nd' \<noteq> None"
      using assms(1) unfolding owners_ok_def by blast
    with nd' k(3) have "clash ow (take k q) m" unfolding clash_def by blast
    with free [OF k(2)] show False by blast
  qed
next
  assume f: ?free
  show "clear ow [] t"
    unfolding clear_def
  proof (intro allI impI notI)
    fix r m assume m: "node_at r t = Some m" and "clash ow ([] @ r) m"
    then obtain nd where nd: "ow r = Some nd"
      and bad: "o_kit nd \<noteq> [] \<and> \<not> (is_dir m \<and> o_directory nd)
        \<or> o_descendant nd \<noteq> None \<and> (\<not> is_dir m \<or> is_opaque m)"
      by (auto simp: clash_def)
    from bad show False
    proof
      assume b: "o_kit nd \<noteq> [] \<and> \<not> (is_dir m \<and> o_directory nd)"
      with nd assms(2) have "r \<noteq> []" by blast
      with f nd b m show False by (auto simp: view_def)
    next
      assume b: "o_descendant nd \<noteq> None \<and> (\<not> is_dir m \<or> is_opaque m)"
      with nd assms(1) obtain s where "ow (r @ [s]) \<noteq> None" unfolding owners_ok_def by blast
      then obtain nd' where "ow (r @ [s]) = Some nd'" by blast
      with f have "\<not> hides t (r @ [s])" by blast
      moreover have "hides t (r @ [s])"
        unfolding hides_iff using m b by (intro exI [of _ "length r"] exI [of _ m]) simp
      ultimately show False by blast
    qed
  qed
qed

lemma clear_conflict:
  assumes "owns ow ts"
  shows "clear ow [] t \<longleftrightarrow> (\<forall>l \<in> ts. \<not> conflict l t)"
proof -
  have dom: "(ow q \<noteq> None) = (\<exists>l \<in> ts. contributes l q)" if "q \<noteq> []" for q
    using that assms unfolding owns_def by blast
  have flag: "o_directory nd = is_dir (the (view l q))" if "q \<noteq> []" "ow q = Some nd" "l \<in> ts" "contributes l q" for q nd l
    using that assms unfolding owns_def by blast
  have "clear ow [] t \<longleftrightarrow>
    (\<forall>q nd. q \<noteq> [] \<longrightarrow> ow q = Some nd \<longrightarrow> \<not> hides t q \<and> (\<forall>m. view t q = Some m \<longrightarrow> is_dir m \<and> o_directory nd))"
    using assms unfolding owns_def by (intro clear_owned) blast+
  also have "\<dots> \<longleftrightarrow> (\<forall>l \<in> ts. \<forall>q. q \<noteq> [] \<longrightarrow> contributes l q \<longrightarrow>
      \<not> hides t q \<and> (\<forall>m. view t q = Some m \<longrightarrow> is_dir m \<and> is_dir (the (view l q))))"
    (is "?A \<longleftrightarrow> ?B")
  proof
    assume ?A
    show ?B
    proof (intro ballI allI impI)
      fix l q assume l: "l \<in> ts" "q \<noteq> []" "contributes l q"
      with dom obtain nd where nd: "ow q = Some nd" by blast
      from \<open>?A\<close> l(2) nd have "\<not> hides t q \<and> (\<forall>m. view t q = Some m \<longrightarrow> is_dir m \<and> o_directory nd)" by blast
      then show "\<not> hides t q \<and> (\<forall>m. view t q = Some m \<longrightarrow> is_dir m \<and> is_dir (the (view l q)))"
        unfolding flag [OF l(2) nd l(1,3)] .
    qed
  next
    assume ?B
    show ?A
    proof (intro allI impI)
      fix q nd assume q: "q \<noteq> []" "ow q = Some nd"
      with dom [OF q(1)] obtain l where l: "l \<in> ts" "contributes l q" by auto
      with \<open>?B\<close> q(1) show "\<not> hides t q \<and> (\<forall>m. view t q = Some m \<longrightarrow> is_dir m \<and> o_directory nd)"
        unfolding flag [OF q l] by blast
    qed
  qed
  also have "\<dots> \<longleftrightarrow> (\<forall>l \<in> ts. \<not> conflict l t)"
    unfolding conflict_def by blast
  finally show ?thesis .
qed

lemma claim_Some: "claim ow q = Some (k, b) \<longleftrightarrow> (\<exists>nd. ow q = Some nd \<and> o_kit nd = k \<and> o_directory nd = b)"
  by (auto simp: claim_def)

lemma owns_claims:
  "owns ow ts \<longleftrightarrow> owners_ok ow
     \<and> (\<forall>q k b. claim ow q = Some (k, b) \<longrightarrow> (k = []) = (q = []))
     \<and> (\<forall>q. q \<noteq> [] \<longrightarrow> (claim ow q \<noteq> None) = (\<exists>t \<in> ts. contributes t q))
     \<and> (\<forall>q k b t. q \<noteq> [] \<longrightarrow> claim ow q = Some (k, b) \<longrightarrow> t \<in> ts \<longrightarrow> contributes t q \<longrightarrow>
          b = is_dir (the (view t q)))"
proof -
  have "(\<forall>q nd. ow q = Some nd \<longrightarrow> (o_kit nd = []) = (q = []))
      = (\<forall>q k b. claim ow q = Some (k, b) \<longrightarrow> (k = []) = (q = []))"
    by (auto simp: claim_Some)
  moreover have "(\<forall>q nd t. q \<noteq> [] \<longrightarrow> ow q = Some nd \<longrightarrow> t \<in> ts \<longrightarrow> contributes t q \<longrightarrow>
          o_directory nd = is_dir (the (view t q)))
      = (\<forall>q k b t. q \<noteq> [] \<longrightarrow> claim ow q = Some (k, b) \<longrightarrow> t \<in> ts \<longrightarrow> contributes t q \<longrightarrow>
          b = is_dir (the (view t q)))"
    by (auto simp: claim_Some)
  ultimately show ?thesis by (simp only: owns_def claim_None)
qed

lemma contributes_view: "contributes t q \<Longrightarrow> view t q = Some (the (view t q))"
  by (auto simp: contributes_def split: option.splits)

lemma owns_step:
  assumes own: "owns ow ts" and free: "\<forall>l \<in> ts. \<not> conflict l t" and kit: "kit \<noteq> []"
    and ok: "owners_ok ow'"
    and new: "\<And>q. claim ow' q = orElse (claim ow q) (if q = [] then None else added kit t q)"
  shows "owns ow' (insert t ts)"
proof -
  note own = own [unfolded owns_claims]
  have cases: "claim ow' q = Some (k, b) \<Longrightarrow>
      claim ow q = Some (k, b) \<or> claim ow q = None \<and> q \<noteq> [] \<and> contributes t q \<and> k = kit \<and> b = is_dir (the (view t q))" for q k b
    using new [of q] by (auto simp: orElse_def added_def simp del: claim_None split: option.splits if_splits)
  have "(k = []) = (q = [])" if "claim ow' q = Some (k, b)" for q k b
    using cases [OF that] own kit by blast
  moreover have "(claim ow' q \<noteq> None) = (\<exists>l \<in> insert t ts. contributes l q)" if "q \<noteq> []" for q
    using that own new [of q] by (auto simp: orElse_def added_def simp del: claim_None split: option.splits)
  moreover have "b = is_dir (the (view l q))"
    if q: "q \<noteq> []" "claim ow' q = Some (k, b)" "l \<in> insert t ts" "contributes l q" for q k b l
  proof (cases "claim ow q = None")
    case True
    with own q(1) have "\<nexists>l. l \<in> ts \<and> contributes l q" by blast
    with q(3,4) have "l = t" by blast
    with cases [OF q(2)] True show ?thesis by simp
  next
    case False
    with own q(1) obtain l0 where l0: "l0 \<in> ts" "contributes l0 q" by blast
    from False cases [OF q(2)] have c: "claim ow q = Some (k, b)" by (elim disjE) simp_all
    with own q(1) l0 have b: "b = is_dir (the (view l0 q))" by blast
    show ?thesis
    proof (cases "l \<in> ts")
      case True
      with own q(1,4) c show ?thesis by blast
    next
      case False
      with q(3) have "l = t" by blast
      with free l0 q(1) contributes_view [OF q(4)] b show ?thesis unfolding conflict_def by blast
    qed
  qed
  ultimately show ?thesis
    using ok unfolding owns_claims by blast
qed

lemma newOwners_owns: "owns newOwners {}"
  by (auto simp: owns_def owners_ok_def prefix_closed_def newOwners_def)

definition no_conflict :: "fsNode \<Rightarrow> fsNode \<Rightarrow> bool" where
  "no_conflict l u \<longleftrightarrow> \<not> conflict l u"

definition kit_trees :: "kit_inventory list \<Rightarrow> fsNode list option" where
  "kit_trees ks = those (map kit_tree ks)"

lemma kit_trees_simps [simp]:
  "kit_trees [] = Some []"
  "kit_trees (k # ks) = (case kit_tree k of None \<Rightarrow> None | Some t \<Rightarrow> map_option (Cons t) (kit_trees ks))"
  by (simp_all add: kit_trees_def split: option.splits)

lemma collisionLoop_exact:
  assumes "owns ow ts" "list_all (\<lambda>k. ki_reference k \<noteq> []) ks"
  shows "is_ok (collisionLoop ow ks) \<longleftrightarrow>
    (case kit_trees ks of
       None \<Rightarrow> False
     | Some us \<Rightarrow> (\<forall>l \<in> ts. \<forall>u \<in> set us. no_conflict l u) \<and> sorted_wrt no_conflict us)"
  using assms
proof (induction ks arbitrary: ow ts)
  case (Cons k ks)
  have ok: "owners_ok ow" "prefix_closed ow" "ow [] \<noteq> None"
    using Cons.prems(1) by (simp_all add: owns_def owners_ok_def)
  show ?case
  proof (cases "applyLayers (ki_reference k) New (ki_layers k)")
    case (Inl e)
    then show ?thesis by (simp add: kit_tree_def)
  next
    case (Inr fs)
    let ?t = "fs_root fs" and ?ref = "ki_reference k"
    have t: "kit_tree k = Some ?t" using Inr by (simp add: kit_tree_def)
    have v: "validated ?ref 1 [Some []] (clear ow [] ?t) (Walk fs (validateEntry ow ?ref) [Some []])"
      by (rule validate_walk [OF ok(2,3)])
    have free: "clear ow [] ?t \<longleftrightarrow> (\<forall>l \<in> ts. \<not> conflict l ?t)"
      by (rule clear_conflict [OF Cons.prems(1)])
    show ?thesis
    proof (cases "clear ow [] ?t")
      case False
      with v have "\<not> is_ok (collisionLoop ow (k # ks))"
        using Inr by (auto simp: validated_def split: sum.splits)
      with False free t show ?thesis
        by (auto simp: no_conflict_def split: option.splits)
    next
      case True
      obtain ow' stk where reg: "Walk fs (registerEntry ?ref) (ow, [[]]) = Inr (ow', stk)" "owners_ok ow'"
          "\<And>q. claim ow' q = orElse (claim ow q) (if q = [] then None else added ?ref ?t q)"
        using register_walk [OF ok(1), of fs ?ref] kit_tree_wf [OF t] by (auto simp: registered_def)
      have "owns ow' (insert ?t ts)"
        using Cons.prems True free reg by (intro owns_step [where ow = ow and t = "?t" and kit = "?ref"]) simp_all
      from Cons.IH [OF this] Cons.prems(2) True free t reg(1) v Inr show ?thesis
        by (auto simp: validated_def no_conflict_def split: option.splits sum.splits)
    qed
  qed
qed simp

lemma newOwners_ok: "owners_ok newOwners"
  using newOwners_owns by (simp add: owns_def)

lemma applyLayers_error: "applyLayers r fs ls = Inl e \<Longrightarrow> \<exists>nm. e = CannotExtract r nm"
  by (induction ls arbitrary: fs) (auto split: sum.splits)

text \<open>Neither walk reads or cuts its slice beyond the end.\<close>

lemma collisionLoop_in_range: "owners_ok ow \<Longrightarrow> collisionLoop ow ks \<noteq> Inl IndexOutOfRange"
proof (induction ks arbitrary: ow)
  case (Cons k ks)
  then have ok: "prefix_closed ow" "ow [] \<noteq> None" by (simp_all add: owners_ok_def)
  show ?case
  proof (cases "applyLayers (ki_reference k) New (ki_layers k)")
    case (Inl e)
    with applyLayers_error [OF Inl] show ?thesis by auto
  next
    case (Inr fs)
    then have "is_dir (fs_root fs)"
      using kit_tree_wf [of k "fs_root fs"] by (simp add: kit_tree_def)
    from register_walk [OF Cons.prems this, of "ki_reference k"]
    obtain ow' stk where reg: "Walk fs (registerEntry (ki_reference k)) (ow, [[]]) = Inr (ow', stk)" "owners_ok ow'"
      by (auto simp: registered_def)
    from validate_walk [OF ok, of "ki_reference k" fs] Cons.IH [OF reg(2)] Inr reg(1) show ?thesis
      by (auto simp: validated_def split: sum.splits)
  qed
qed simp

text \<open>The overlay of trees that do not conflict keeps what each of them has.\<close>

definition kept :: "fsNode \<Rightarrow> fsNode \<Rightarrow> string list \<Rightarrow> bool" where
  "kept whole t q \<longleftrightarrow>
     (\<exists>m. view whole q = Some m \<and> is_dir m = is_dir (the (view t q)) \<and> (\<not> is_dir m \<longrightarrow> view t q = Some m))"

lemma kept_upper:
  assumes "is_dir l" "is_dir u" "wf_node u" "contributes u q"
  shows "kept (stack l u) u q"
  using assms contributes_view [OF assms(4)]
  by (cases "the (view u q)") (auto simp: kept_def stack_view overlay_view_def)

lemma kept_lower:
  assumes "is_dir l" "is_dir u" "wf_node u" "kept l t q" "contributes t q" "no_conflict t u"
  shows "kept (stack l u) t q"
proof (cases "q = []")
  case True
  with assms show ?thesis by (auto simp: kept_def stack_view overlay_view_def split: fsNode.splits)
next
  case False
  have "\<not> hides u q" "\<And>m. view u q = Some m \<Longrightarrow> is_dir m \<and> is_dir (the (view t q))"
    using assms(5,6) False unfolding no_conflict_def conflict_def by blast+
  with assms(1-4) show ?thesis
    by (auto simp: kept_def stack_view overlay_view_def split: option.splits fsNode.splits)
qed

definition overlay_all :: "fsNode list \<Rightarrow> fsNode" where
  "overlay_all ts = foldl stack newDir ts"

lemma overlay_all_kept:
  "list_all (\<lambda>t. wf_node t \<and> is_dir t) ts \<Longrightarrow> sorted_wrt no_conflict ts \<Longrightarrow>
   is_dir (overlay_all ts) \<and> (\<forall>t \<in> set ts. \<forall>q. contributes t q \<longrightarrow> kept (overlay_all ts) t q)"
proof (induction ts rule: rev_induct)
  case Nil
  then show ?case by (simp add: overlay_all_def)
next
  case (snoc u ts)
  let ?l = "overlay_all ts"
  have whole: "overlay_all (ts @ [u]) = stack ?l u" by (simp add: overlay_all_def)
  from snoc have IH: "is_dir ?l" "\<forall>t \<in> set ts. \<forall>q. contributes t q \<longrightarrow> kept ?l t q"
    and u: "is_dir u" "wf_node u" and free: "\<forall>t \<in> set ts. no_conflict t u"
    by (auto simp: sorted_wrt_append list_all_iff)
  show ?case
    unfolding whole using IH u free kept_upper [OF IH(1) u] kept_lower [OF IH(1) u]
    by (auto simp del: split_paired_All)
qed

lemma kit_trees_wf: "kit_trees ks = Some ts \<Longrightarrow> list_all (\<lambda>t. wf_node t \<and> is_dir t) ts"
proof (induction ks arbitrary: ts)
  case (Cons k ks)
  then show ?case using kit_tree_wf [of k] by (auto split: option.splits)
qed simp

lemma check_is_loop: "checkFileCollisions ks = Inr () \<longleftrightarrow> is_ok (collisionLoop newOwners ks)"
  by (cases "collisionLoop newOwners ks") (simp_all add: checkFileCollisions_def)

lemma checkFileCollisions_kept:
  assumes "list_all (\<lambda>k. ki_reference k \<noteq> []) inventories"
    and "checkFileCollisions inventories = Inr ()"
  shows "\<exists>ts. kit_trees inventories = Some ts
    \<and> (\<forall>t \<in> set ts. \<forall>q. contributes t q \<longrightarrow> kept (overlay_all ts) t q)"
  using collisionLoop_exact [OF newOwners_owns assms(1)] assms(2) overlay_all_kept kit_trees_wf
  by (auto simp: check_is_loop split: option.splits)

section \<open>Properties\<close>

definition inventoryOf :: "string \<Rightarrow> string list \<Rightarrow> kit_inventory" where
  "inventoryOf r files = \<lparr>ki_reference = r, ki_layers = [map (\<lambda>f. entry_from (fileHeader f)) files]\<rparr>"

text \<open>Property C10. The collision check accepts a set of kits exactly when every layer entry of every
  kit extracts and no kit's tree conflicts with the tree of a kit before it: no file, link,
  directory or deletion of the later kit stands at a path the earlier one contributes (two
  directories apart), and none of the later kit's files, deletions or opaque directories hides such a
  path from above. It never reads or cuts its slice of nodes out of range.\<close>

theorem collisions_exact:
  assumes "list_all (\<lambda>k. ki_reference k \<noteq> []) inventories"
  shows "(checkFileCollisions inventories = Inr ()
      \<longleftrightarrow> (case kit_trees inventories of None \<Rightarrow> False | Some ts \<Rightarrow> sorted_wrt no_conflict ts))
    \<and> checkFileCollisions inventories \<noteq> Inl IndexOutOfRange"
  using collisionLoop_exact [OF newOwners_owns assms] collisionLoop_in_range [OF newOwners_ok]
  by (auto simp: check_is_loop split: option.splits)
     (auto simp: checkFileCollisions_def rbind_def split: sum.splits)

theorem collisions_exact_witness:
  "\<not> (case kit_trees [inventoryOf ''a'' [''bin/x''], inventoryOf ''b'' [''bin/.wh.x'']]
      of None \<Rightarrow> False | Some ts \<Rightarrow> sorted_wrt no_conflict ts)"
proof -
  let ?invs = "[inventoryOf ''a'' [''bin/x''], inventoryOf ''b'' [''bin/.wh.x'']]"
  have "checkFileCollisions ?invs \<noteq> Inr ()" by code_simp
  moreover have "list_all (\<lambda>k. ki_reference k \<noteq> []) ?invs" by code_simp
  ultimately show ?thesis using collisions_exact [of ?invs] by blast
qed

text \<open>When the check accepts, the overlay of the kits' trees in their order has everything
  every kit contributes: a file, link or device of a kit is there exactly as that kit wrote
  it, and a directory of a kit is a directory.\<close>

theorem accepted_kits_survive:
  assumes "list_all (\<lambda>k. ki_reference k \<noteq> []) inventories"
    and "checkFileCollisions inventories = Inr ()"
  shows "\<exists>ts. kit_trees inventories = Some ts
    \<and> (\<forall>t \<in> set ts. \<forall>q. contributes t q \<longrightarrow> kept (overlay_all ts) t q)"
  by (rule checkFileCollisions_kept [OF assms])

theorem accepted_kits_survive_witness:
  "view (overlay_all (map (the \<circ> kit_tree) [inventoryOf ''a'' [''bin/x''], inventoryOf ''b'' [''bin/y'']]))
     [''bin'', ''x''] = Some File"
proof -
  let ?invs = "[inventoryOf ''a'' [''bin/x''], inventoryOf ''b'' [''bin/y'']]"
  have "checkFileCollisions ?invs = Inr ()" by code_simp
  moreover have "list_all (\<lambda>k. ki_reference k \<noteq> []) ?invs" by code_simp
  ultimately obtain ts where ts: "kit_trees ?invs = Some ts"
      "\<forall>t \<in> set ts. \<forall>q. contributes t q \<longrightarrow> kept (overlay_all ts) t q"
    using accepted_kits_survive [of ?invs] by blast
  then have eq: "ts = map (the \<circ> kit_tree) ?invs"
    by (auto split: option.splits)
  have v: "view (the (kit_tree (inventoryOf ''a'' [''bin/x'']))) [''bin'', ''x''] = Some File" by code_simp
  then have "kept (overlay_all ts) (the (kit_tree (inventoryOf ''a'' [''bin/x'']))) [''bin'', ''x'']"
    using ts(2) by (simp add: eq contributes_def)
  with v show ?thesis by (auto simp: kept_def eq)
qed

end
