(* ===== verification/Assembly_Facts.thy ===== *)
theory Assembly_Facts
  imports Fetch_Assemble Fetch_Facts Collisions_Facts
begin

text \<open>
  What assembling a set guarantees: the environment of the container is one snapshot with a fixed
  precedence, which the declarations were expanded with, and a set that was validated is
  built of verified layers whose files all survive in the container.
\<close>

section \<open>The steps of an assembly\<close>

definition loads :: "registry_lib \<Rightarrow> kit_loader \<Rightarrow> request \<Rightarrow> loaded_kit \<times> published_kit \<Rightarrow> bool" where
  "loads lib load req xk \<longleftrightarrow> load (rq_Reference req) = Inr (Some (fst xk))
     \<and> validateLoadedKit lib (rq_Reference req) (Some (fst xk)) = Inr (snd xk)"

lemma loadStep_loads: "loadStep lib load (rq_Reference req) = Inr xk \<Longrightarrow> loads lib load req xk"
proof -
  assume "loadStep lib load (rq_Reference req) = Inr xk"
  then obtain inp k where i: "load (rq_Reference req) = Inr inp" "validateLoadedKit lib (rq_Reference req) inp = Inr k"
    "xk = (the inp, k)" by (auto simp: loadStep_def rbind_Inr_iff split: sum.splits)
  then show ?thesis by (cases inp) (auto simp: loads_def validateLoadedKit_def)
qed

lemma loadLoop_loads:
  "(loadLoop lib load loaded kits reqs log :: ('v fetch_assemble_error + _) \<times> _) = (Inr (loaded', kits'), log') \<Longrightarrow>
   distinct (map fst loaded) \<Longrightarrow>
   \<exists>xks. list_all2 (loads lib load) reqs xks \<and> loaded' = loaded @ zip (map rq_Reference reqs) (map fst xks)
     \<and> kits' = kits @ map snd xks \<and> distinct (map fst loaded')"
proof (induction reqs arbitrary: loaded kits log)
  case (Cons req reqs)
  let ?r = "rq_Reference req"
  from Cons.prems(1) obtain x k where new: "map_of loaded ?r = None" and step: "loadStep lib load ?r = Inr (x, k)"
    and rest: "(loadLoop lib load (loaded @ [(?r, x)]) (kits @ [k]) reqs
        (log @ [\<lparr>pr_Stage = StageLoad, pr_State = ProgressStarted, pr_Reference = ?r, pr_Layer = []\<rparr>,
                \<lparr>pr_Stage = StageLoad, pr_State = ProgressCompleted, pr_Reference = ?r, pr_Layer = []\<rparr>])
        :: ('v fetch_assemble_error + _) \<times> _) = (Inr (loaded', kits'), log')"
    by (auto simp: Let_def progressStep_def split: if_splits sum.splits prod.splits)
  from new Cons.prems(2) have "distinct (map fst (loaded @ [(?r, x)]))" by (auto simp: map_of_eq_None_iff)
  with Cons.IH [OF rest] obtain xks where "list_all2 (loads lib load) reqs xks"
    "loaded' = (loaded @ [(?r, x)]) @ zip (map rq_Reference reqs) (map fst xks)" "kits' = (kits @ [k]) @ map snd xks"
    "distinct (map fst loaded')" by blast
  with loadStep_loads [OF step] show ?case by (intro exI [of _ "(x, k) # xks"]) simp
qed (simp add: exI [of _ "[]"])

lemma validated_reference: "loads lib load req (x, k) \<Longrightarrow> pk_Reference k = rq_Reference req"
  by (auto simp: loads_def validateLoadedKit_def Let_def split: option.splits sum.splits if_splits)

definition assembled ::
  "kit_lib \<Rightarrow> (platform \<Rightarrow> platform \<Rightarrow> bool) \<Rightarrow> request list \<Rightarrow> 'v assemble_options \<Rightarrow> kit_loader
   \<Rightarrow> (loaded_kit \<times> published_kit) list \<Rightarrow> (string \<times> string) list \<Rightarrow> assemble_result \<Rightarrow> bool" where
  "assembled lib samePlatform requests options load xks environment r \<longleftrightarrow>
     (\<forall>ld. ao_Loader options = Some ld \<longrightarrow> load = ld)
     \<and> list_all2 (loads (registryLib lib) load) requests xks \<and> distinct (map rq_Reference requests)
     \<and> (composeImage lib samePlatform (zip (map rq_Reference requests) (map fst xks)) (map snd xks)
          :: 'v fetch_assemble_error + image) = Inr (ar_Image r)
     \<and> imageEnvironment [] (ic_Env (im_Config (img_Config (ar_Image r)))) = Some environment
     \<and> mergeKits lib (map (Some \<circ> snd) xks) (map rq_Args requests) False
          [Some (WithCapabilitySelector (Some (case ao_CapabilitySelector options of
              None \<Rightarrow> Supported KnownCapabilities | Some s \<Rightarrow> s))),
           Some (WithEnvironment environment (ov_Env (ao_Overrides options)))] = Inr (ar_Resolved r)
     \<and> ar_Environment r = mapCopy (mapCopy environment (rs_ContainerEnv (ar_Resolved r))) (ov_Env (ao_Overrides options))
     \<and> (\<forall>validator. ao_LayerValidator options = Some validator \<longrightarrow>
          (\<exists>log. fst (validator (heapOf (rs_Kits (ar_Resolved r))) [0..<length (rs_Kits (ar_Resolved r))]
             (map_of (zip (map rq_Reference requests) (map fst xks))) log) = Inr ()))"

lemma finishAssembly_steps:
  assumes "fst (finishAssembly lib options requests loaded kits img environment log) = Inr r"
  shows "ar_Image r = img
    \<and> mergeKits lib (map Some kits) (map rq_Args requests) False
        [Some (WithCapabilitySelector (Some (case ao_CapabilitySelector options of
            None \<Rightarrow> Supported KnownCapabilities | Some s \<Rightarrow> s))),
         Some (WithEnvironment environment (ov_Env (ao_Overrides options)))] = Inr (ar_Resolved r)
    \<and> ar_Environment r = mapCopy (mapCopy environment (rs_ContainerEnv (ar_Resolved r))) (ov_Env (ao_Overrides options))
    \<and> (\<forall>validator. ao_LayerValidator options = Some validator \<longrightarrow>
         (\<exists>log. fst (validator (heapOf (rs_Kits (ar_Resolved r))) [0..<length (rs_Kits (ar_Resolved r))]
            (map_of loaded) log) = Inr ()))"
  using assms unfolding finishAssembly_def Let_def progressStep_def
  by (auto split: sum.splits option.splits prod.splits) (metis fst_conv)+

lemma AssembleKits_steps:
  fixes options :: "'v assemble_options"
  assumes "AssembleKits lib samePlatform defaultLoader requests options log = (Inr r, log')"
  shows "\<exists>load xks environment. assembled lib samePlatform requests options load xks environment r"
proof -
  from assms obtain load loaded kits log1 img log2 environment where s:
    "(loadLoop (registryLib lib) load [] [] requests log :: ('v fetch_assemble_error + _) \<times> _) = (Inr (loaded, kits), log1)"
    "(composeImage lib samePlatform loaded kits :: 'v fetch_assemble_error + image) = Inr img"
    "imageEnvironment [] (ic_Env (im_Config (img_Config img))) = Some environment"
    "finishAssembly lib options requests loaded kits img environment log2 = (Inr r, log')"
    "\<forall>ld. ao_Loader options = Some ld \<longrightarrow> load = ld"
    unfolding AssembleKits_def progressStep_def
    by (auto split: if_splits option.splits sum.splits prod.splits)
  from loadLoop_loads [OF s(1)] obtain xks where x: "list_all2 (loads (registryLib lib) load) requests xks"
    "loaded = zip (map rq_Reference requests) (map fst xks)" "kits = map snd xks" "distinct (map fst loaded)" by auto
  from x(1) have "length requests = length xks" by (rule list_all2_lengthD)
  with x have "distinct (map rq_Reference requests)" by simp
  with x s finishAssembly_steps [of lib options requests loaded kits img environment log2 r] show ?thesis
    unfolding assembled_def by (intro exI [of _ load] exI [of _ xks] exI [of _ environment]) simp
qed

section \<open>The environment\<close>

lemma imageEnvironment_map:
  "imageEnvironment env es = Some env' \<Longrightarrow>
   map_of env' = foldl envStep (map_of env) es \<and> (distinct (map fst env) \<longrightarrow> distinct (map fst env'))"
  by (induction env es rule: imageEnvironment.induct)
     (auto simp: malformedEnv_def envStep_def cut_def before_def after_def AList.update_conv' AList.distinct_update split: if_splits)

lemma expandResolvedKit_lookups:
  "map_of e1 = map_of e2 \<Longrightarrow> expandResolvedKit lib k d vals exports e1 = expandResolvedKit lib k d vals exports e2"
  unfolding expandResolvedKit_def by (simp only: ExpandEnvironment_lookups [of e1 e2])

lemma expanded_unit_lookups:
  "map_of e1 = map_of e2 \<Longrightarrow> expanded_unit lib e1 k u = expanded_unit lib e2 k u"
  unfolding expanded_unit_def by (simp only: expandResolvedKit_lookups [of e1 e2])

lemma merged_env_distinct:
  assumes "mergeKits lib kits supplied partial opts = Inr res" "length supplied = length kits"
  shows "distinct (map fst (rs_ContainerEnv res))"
proof -
  from assms obtain us :: "kit_unit list" and ves where m: "map Reference us = map (pk_Reference \<circ> the) kits" "map UnitEnv us = map snd ves"
    "combineExports (map pk_Reference (map the kits)) (map snd ves) = Inr (rs_ContainerEnv res)"
    "resolveAll lib (zip kits supplied) = Inr ves"
    by (rule mergeKits_kits)
  have "length (map pk_Reference (map the kits)) = length (map snd ves)" using m(1,2) by (metis length_map)
  from combineExports_facts(1) [OF m(3) this] show ?thesis .
qed

lemma loads_references: "list_all2 (loads lib load) requests xks \<Longrightarrow> map (pk_Reference \<circ> snd) xks = map rq_Reference requests"
  by (induction rule: list_all2_induct) (auto dest: validated_reference)

text \<open>The lookups of the container's environment, and that the declarations were expanded with it.\<close>

lemma assembled_environments:
  assumes "assembled lib samePlatform requests options load xks environment r"
    and "distinct (map fst (ov_Env (ao_Overrides options)))"
  shows "map_of (ar_Environment r) k =
      (case map_of (ov_Env (ao_Overrides options)) k of Some v \<Rightarrow> Some v | None \<Rightarrow>
       (case map_of (rs_ContainerEnv (ar_Resolved r)) k of Some v \<Rightarrow> Some v | None \<Rightarrow>
          envMap (ic_Env (im_Config (img_Config (ar_Image r)))) k))"
    and "u \<in> set (rs_Kits (ar_Resolved r)) \<Longrightarrow> \<exists>sel w s. selected_from lib (Some sel) w (s, u)
      \<and> (\<exists>x \<in> set xks. expanded_unit lib (ar_Environment r) (snd x) w)"
proof -
  let ?ov = "ov_Env (ao_Overrides options)" and ?env = "rs_ContainerEnv (ar_Resolved r)"
  let ?opts = "[Some (WithCapabilitySelector (Some (case ao_CapabilitySelector options of
      None \<Rightarrow> Supported KnownCapabilities | Some s \<Rightarrow> s))), Some (WithEnvironment environment ?ov)]"
  from assms(1) have a: "list_all2 (loads (registryLib lib) load) requests xks"
    "imageEnvironment [] (ic_Env (im_Config (img_Config (ar_Image r)))) = Some environment"
    "mergeKits lib (map (Some \<circ> snd) xks) (map rq_Args requests) False ?opts = Inr (ar_Resolved r)"
    "ar_Environment r = mapCopy (mapCopy environment ?env) ?ov"
    unfolding assembled_def by auto
  have len: "length (map rq_Args requests) = length (map (Some \<circ> snd) xks)" using list_all2_lengthD [OF a(1)] by simp
  note env = merged_env_distinct [OF a(3) len]
  have image: "map_of environment = envMap (ic_Env (im_Config (img_Config (ar_Image r))))" "distinct (map fst environment)"
    using imageEnvironment_map [OF a(2)] by (simp_all add: envMap_def)
  show "map_of (ar_Environment r) k = (case map_of ?ov k of Some v \<Rightarrow> Some v | None \<Rightarrow>
       (case map_of ?env k of Some v \<Rightarrow> Some v | None \<Rightarrow> envMap (ic_Env (im_Config (img_Config (ar_Image r)))) k))"
    using a(4) image assms(2) env by (simp add: mapCopy_lookup split: option.split)
  have "snapshot (applyOptions ?opts) ?env = mapCopy (mapCopy (mapCopy [] environment) ?env) ?ov"
    by (simp add: snapshot_def applyOptions_def WithCapabilitySelector_def WithEnvironment_def)
  then have "map_of (snapshot (applyOptions ?opts) ?env) = map_of (ar_Environment r)"
    using a(4) image assms(2) env by (auto simp: mapCopy_lookup fun_eq_iff split: option.split)
  from expanded_unit_lookups [OF this] merged_selected [OF a(3) len]
  show "u \<in> set (rs_Kits (ar_Resolved r)) \<Longrightarrow> \<exists>sel w s. selected_from lib (Some sel) w (s, u)
      \<and> (\<exists>x \<in> set xks. expanded_unit lib (ar_Environment r) (snd x) w)"
    by fastforce
qed

section \<open>Properties\<close>

text \<open>Property C2. The environment of an assembled set is one snapshot with a fixed precedence: a
  variable has the caller's override, else the value the kits export, else the value of the
  composed image, and no other variable is set. Every declaration of the result was selected from a descriptor expanded with
  exactly this snapshot.\<close>

theorem assembled_environment:
  assumes "AssembleKits lib samePlatform defaultLoader requests options log = (Inr r, log')"
    and "distinct (map fst (ov_Env (ao_Overrides options)))"
  shows "(\<forall>k. map_of (ar_Environment r) k =
      (case map_of (ov_Env (ao_Overrides options)) k of Some v \<Rightarrow> Some v | None \<Rightarrow>
       (case map_of (rs_ContainerEnv (ar_Resolved r)) k of Some v \<Rightarrow> Some v | None \<Rightarrow>
          envMap (ic_Env (im_Config (img_Config (ar_Image r)))) k)))
    \<and> (\<forall>u \<in> set (rs_Kits (ar_Resolved r)). \<exists>sel w s k. selected_from lib (Some sel) w (s, u)
         \<and> pk_Reference k \<in> rq_Reference ` set requests \<and> expanded_unit lib (ar_Environment r) k w)"
proof -
  from AssembleKits_steps [OF assms(1)] obtain load xks environment where
    a: "assembled lib samePlatform requests options load xks environment r" by blast
  have "pk_Reference (snd x) \<in> rq_Reference ` set requests" if "x \<in> set xks" for x
  proof -
    have "map (pk_Reference \<circ> snd) xks = map rq_Reference requests"
      using a by (auto simp: assembled_def intro: loads_references)
    with that show ?thesis by (metis comp_apply image_eqI image_set)
  qed
  with assembled_environments [OF a assms(2)] show ?thesis by meson
qed

lemma composeImage_layers:
  assumes "(composeImage lib samePlatform loaded kits :: 'v fetch_assemble_error + image) = Inr img" "l \<in> set (img_Layers img)"
  shows "\<exists>k \<in> set kits. l \<in> set (ma_Layers (lk_Manifest (the (map_of loaded (pk_Reference k)))))"
proof -
  from assms(1) obtain units where u: "Units (registryLib lib) (map Some kits) = Inr units"
    by (auto simp: composeImage_def split: sum.splits)
  define bare where "bare = map (\<lambda>u. u\<lparr>UnitDescriptor := map_option (\<lambda>d. d\<lparr>Capabilities := []\<rparr>) (UnitDescriptor u)\<rparr>) units"
  define inputs where "inputs = map_of (rev (map (\<lambda>u. let x = the (map_of loaded (Reference u)) in
      (Image u, \<lparr>in_Name = [], in_Manifest = lk_Manifest x, in_Config = lk_Config x\<rparr>)) bare))"
  define load where "load = (\<lambda>r. case inputs r of None \<Rightarrow> Inl (''image '' @ r @ '' was not loaded'') | Some i \<Rightarrow> Inr i)"
  from assms(1) u have "Images.Assemble samePlatform (Some load) (heapOf bare) (map Some [0..<length bare]) = Inr img"
    by (simp add: composeImage_def Let_def load_def inputs_def bare_def split: sum.splits)
  from Assemble_in_order [OF this] obtain res s ms where o:
    "list_all2 (\<lambda>u i. \<exists>i'. load (Image (heapOf bare u)) = Inr i' \<and> i = i'\<lparr>in_Name := Reference (heapOf bare u)\<rparr>) (Ordered res) (s # ms)"
    "img_Layers img = concat (map (ma_Layers \<circ> in_Manifest) (s # ms))" by blast
  from assms(2) o(2) obtain i where i: "i \<in> set (s # ms)" "l \<in> set (ma_Layers (in_Manifest i))" by auto
  with o(1) obtain w i' where "load w = Inr i'" "in_Manifest i = in_Manifest i'"
    by (auto simp: list_all2_conv_all_nth in_set_conv_nth nth_Cons) fastforce+
  then have "inputs w = Some i'" by (auto simp: load_def split: option.splits)
  then obtain u where "u \<in> set bare" "i' = \<lparr>in_Name = [], in_Manifest = lk_Manifest (the (map_of loaded (Reference u))),
      in_Config = lk_Config (the (map_of loaded (Reference u)))\<rparr>"
    unfolding inputs_def by (auto dest!: map_of_SomeD simp: Let_def)
  moreover have "Reference ` set bare = pk_Reference ` set kits"
    using Units_refs [OF u] by (auto simp: bare_def image_image comp_def) (metis image_eqI image_set)+
  ultimately show ?thesis using i(2) \<open>in_Manifest i = in_Manifest i'\<close> by (metis image_iff input.select_convs(2))
qed

lemma DefaultLayerValidator_ok:
  assumes "fst (DefaultLayerValidator c h kits loaded log) = Inr ()" "list_all (\<lambda>k. Reference (h k) \<noteq> []) kits" "distinct kits"
  shows "\<exists>invs ts. mset (map ki_reference invs) = mset (map (\<lambda>k. Reference (h k)) kits)
    \<and> list_all (\<lambda>kinv. \<exists>input. loaded (ki_reference kinv) = Some input \<and> kitVerified c input kinv) invs
    \<and> kit_trees invs = Some ts \<and> (\<forall>t \<in> set ts. \<forall>q. contributes t q \<longrightarrow> kept (overlay_all ts) t q)"
proof -
  from assms(1) obtain invs log' where inv: "inventoryKits c h kits loaded log = (Inr invs, log')"
    and check: "checkFileCollisions invs = Inr ()"
    by (auto simp: DefaultLayerValidator_def progressStep_def split: prod.splits sum.splits)
  from inventoryKits_ok [OF inv] obtain res where res: "Resolve h kits = Inr res"
    and l: "list_all2 (\<lambda>k kinv. ki_reference kinv = Reference (h k)
      \<and> (\<exists>input. loaded (Reference (h k)) = Some input \<and> kitVerified c input kinv)) (Ordered res) invs" by blast
  have ord: "mset (Ordered res) = mset kits"
    using res resolve_ordered(2) [OF assms(3)] by (auto simp: Resolve_def)
  have refs: "map ki_reference invs = map (\<lambda>k. Reference (h k)) (Ordered res)"
    using l by (induction rule: list_all2_induct) auto
  then have m: "mset (map ki_reference invs) = mset (map (\<lambda>k. Reference (h k)) kits)"
    using ord by (metis mset_map)
  have "ki_reference ` set invs = (\<lambda>k. Reference (h k)) ` set kits"
    using mset_eq_setD [OF m] by simp
  then have "list_all (\<lambda>k. ki_reference k \<noteq> []) invs" using assms(2) by (auto simp: list_all_iff) (metis image_iff)
  from checkFileCollisions_kept [OF this check] m l show ?thesis
    by (auto simp: list_all2_conv_all_nth list_all_length)
qed

lemma assembled_loaded:
  assumes "assembled lib samePlatform requests options ld xks environment r"
  shows "map (pk_Reference \<circ> snd) xks = map rq_Reference requests"
    "mset (map Reference (rs_Kits (ar_Resolved r))) = mset (map rq_Reference requests)"
    "map_of (zip (map rq_Reference requests) (map fst xks)) name = Some x \<Longrightarrow> ld name = Inr (Some x)"
proof -
  have loads: "list_all2 (loads (registryLib lib) ld) requests xks" using assms by (auto simp: assembled_def)
  have len: "length (map rq_Args requests) = length (map (Some \<circ> snd) xks)" using list_all2_lengthD [OF loads] by simp
  show refs: "map (pk_Reference \<circ> snd) xks = map rq_Reference requests" by (rule loads_references [OF loads])
  show "mset (map Reference (rs_Kits (ar_Resolved r))) = mset (map rq_Reference requests)"
    using assms merged_references [OF _ len] refs unfolding assembled_def by (fastforce simp: comp_def)
  show "map_of (zip (map rq_Reference requests) (map fst xks)) name = Some x \<Longrightarrow> ld name = Inr (Some x)"
    using loads by (auto dest!: map_of_SomeD simp: set_zip list_all2_conv_all_nth loads_def)
qed

lemma assembled_layer:
  assumes "assembled lib samePlatform requests options ld xks environment r" "l \<in> set (img_Layers (ar_Image r))"
  shows "\<exists>name \<in> set (map rq_Reference requests).
    l \<in> set (ma_Layers (lk_Manifest (the (map_of (zip (map rq_Reference requests) (map fst xks)) name))))"
proof -
  from assms composeImage_layers obtain k where k: "k \<in> set (map snd xks)"
    "l \<in> set (ma_Layers (lk_Manifest (the (map_of (zip (map rq_Reference requests) (map fst xks)) (pk_Reference k)))))"
    unfolding assembled_def by blast
  then have "pk_Reference k \<in> set (map (pk_Reference \<circ> snd) xks)" by auto
  with k(2) assembled_loaded(1) [OF assms(1)] show ?thesis by metis
qed

text \<open>Property C1. An assembly with the built-in validator is verified from end to end: there is an
  inventory for every requested kit and no other, read from blobs whose size, digest and diff ID are
  those the loaded kit states; every layer of the assembled image is a layer of one of these
  kits; and in the overlay of the kits' trees everything that a kit contributes is
  there exactly as the kit wrote it.\<close>

theorem assembled_layers_verified:
  assumes "AssembleKits lib samePlatform defaultLoader requests options log = (Inr r, log')"
    and "ao_LayerValidator options = Some (DefaultLayerValidator c)" "ao_Loader options = Some ld"
    and "list_all (\<lambda>req. rq_Reference req \<noteq> []) requests"
  shows "\<exists>invs ts. mset (map ki_reference invs) = mset (map rq_Reference requests)
    \<and> (\<forall>kinv \<in> set invs. \<exists>x. ld (ki_reference kinv) = Inr (Some x) \<and> kitVerified c x kinv)
    \<and> (\<forall>l \<in> set (img_Layers (ar_Image r)). \<exists>kinv \<in> set invs. \<exists>x.
         ld (ki_reference kinv) = Inr (Some x) \<and> l \<in> set (ma_Layers (lk_Manifest x)))
    \<and> kit_trees invs = Some ts
    \<and> (\<forall>t \<in> set ts. \<forall>q. contributes t q \<longrightarrow> kept (overlay_all ts) t q)"
proof -
  from AssembleKits_steps [OF assms(1)] obtain load xks environment where
    a: "assembled lib samePlatform requests options load xks environment r" by blast
  let ?kits = "rs_Kits (ar_Resolved r)" and ?loaded = "map_of (zip (map rq_Reference requests) (map fst xks))"
  from a assms(3) have "load = ld" by (auto simp: assembled_def)
  with a have a: "assembled lib samePlatform requests options ld xks environment r" by simp
  note kits = assembled_loaded(2) [OF a] and ld = assembled_loaded(3) [OF a]
  have heap: "map (\<lambda>k. Reference (heapOf ?kits k)) [0..<length ?kits] = map Reference ?kits"
    using heapOf_image [of ?kits] by (metis (no_types, lifting) map_map comp_def map_eq_conv)
  have "set (map Reference ?kits) = set (map rq_Reference requests)" using kits by (rule mset_eq_setD)
  then have named: "list_all (\<lambda>k. Reference (heapOf ?kits k) \<noteq> []) [0..<length ?kits]"
    using assms(4) by (auto simp: list_all_iff heapOf_def) (metis image_iff nth_mem)
  from a assms(2) obtain log where
    valid: "fst (DefaultLayerValidator c (heapOf ?kits) [0..<length ?kits] ?loaded log) = Inr ()" unfolding assembled_def by blast
  from DefaultLayerValidator_ok [OF valid named distinct_upt, unfolded heap kits]
  obtain invs ts where i: "mset (map ki_reference invs) = mset (map rq_Reference requests)"
    "list_all (\<lambda>kinv. \<exists>input. ?loaded (ki_reference kinv) = Some input \<and> kitVerified c input kinv) invs"
    "kit_trees invs = Some ts" "\<forall>t \<in> set ts. \<forall>q. contributes t q \<longrightarrow> kept (overlay_all ts) t q"
    by blast
  have "\<exists>kinv \<in> set invs. \<exists>x. ld (ki_reference kinv) = Inr (Some x) \<and> l \<in> set (ma_Layers (lk_Manifest x))"
    if "l \<in> set (img_Layers (ar_Image r))" for l
  proof -
    from assembled_layer [OF a that] obtain name where r: "name \<in> set (map ki_reference invs)"
      "l \<in> set (ma_Layers (lk_Manifest (the (?loaded name))))" using mset_eq_setD [OF i(1)] by auto
    then obtain kinv where k: "kinv \<in> set invs" "ki_reference kinv = name" by auto
    with i(2) obtain x where x: "?loaded name = Some x" by (auto simp: list_all_iff)
    from ld [OF x] r(2) x k show ?thesis by auto
  qed
  moreover have "\<forall>kinv \<in> set invs. \<exists>x. ld (ki_reference kinv) = Inr (Some x) \<and> kitVerified c x kinv"
    using i(2) ld by (auto simp: list_all_iff)
  ultimately show ?thesis using i(1,3,4) by blast
qed

text \<open>Two loaded kits whose blobs name the one file of their layer, and the options of a caller with an
  override.\<close>

definition fileCodecs :: codecs where
  "fileCodecs = (plainCodecs [])\<lparr>tarOf := (\<lambda>b. \<lparr>ts_entries =
     [\<lparr>t_header = tarHeader (b_bytes b) TypeReg [], t_body = \<lparr>b_bytes = ''x'', b_err = None\<rparr>\<rparr>], ts_err = None\<rparr>)\<rparr>"

definition exampleLoader :: kit_loader where
  "exampleLoader r =
     (let raw = (if r = ''reg.io/base:1.2.0'' then ''w'' else ''m''); i = exampleInput ''sha256:1'' [''A=1'', ''TOKEN=old'']; x = the (exampleLoaded r) in
      Inr (Some (x\<lparr>lk_Image := r, lk_Descriptor := raw,
        lk_Manifest := (in_Manifest i)\<lparr>ma_Layers := [\<lparr>od_MediaType = ''tar'', od_Digest = ''sha256:'' @ raw, od_Size = 5\<rparr>]\<rparr>,
        lk_Config := in_Config i,
        lk_LayerLoader := Some (\<lambda>l. Inr (Some \<lparr>lr_stream = \<lparr>b_bytes = ''bin/'' @ raw, b_err = None\<rparr>, lr_close = None\<rparr>))\<rparr>)))"

definition exampleRequests :: "request list" where
  "exampleRequests = [\<lparr>rq_Reference = ''reg.io/git'', rq_Args = []\<rparr>, \<lparr>rq_Reference = ''reg.io/base:1.2.0'', rq_Args = []\<rparr>]"

definition exampleOptions :: "validator_error assemble_options" where
  "exampleOptions = \<lparr>ao_Loader = Some exampleLoader, ao_CapabilitySelector = None,
     ao_Overrides = \<lparr>ov_Env = [(''A'', ''2'')], ov_WorkingDir = None\<rparr>,
     ao_LayerValidator = Some (DefaultLayerValidator fileCodecs)\<rparr>"

lemma example_assembled:
  "\<exists>r log. AssembleKits exampleKitLib (\<lambda>a b. True) (Inl ''none'') exampleRequests exampleOptions [] = (Inr r, log)
     \<and> map_of (rs_ContainerEnv (ar_Resolved r)) ''TOKEN'' = Some ''t0'' \<and> length (img_Layers (ar_Image r)) = 2"
proof -
  let ?a = "AssembleKits exampleKitLib (\<lambda>a b. True) (Inl ''none'') exampleRequests exampleOptions []"
  have ok: "is_ok (fst ?a)" "map_of (rs_ContainerEnv (ar_Resolved (projr (fst ?a)))) ''TOKEN'' = Some ''t0''"
    "length (img_Layers (ar_Image (projr (fst ?a)))) = 2"
    by code_simp+
  from ok(1) obtain r where "fst ?a = Inr r" by (auto simp: is_ok_iff)
  with ok show ?thesis by (metis prod.collapse sum.sel(2))
qed

theorem assembled_environment_witness:
  "\<exists>r log. AssembleKits exampleKitLib (\<lambda>a b. True) (Inl ''none'') exampleRequests exampleOptions [] = (Inr r, log)
     \<and> map_of (ar_Environment r) ''A'' = Some ''2'' \<and> map_of (ar_Environment r) ''TOKEN'' = Some ''t0''"
proof -
  from example_assembled obtain r log where
    r: "AssembleKits exampleKitLib (\<lambda>a b. True) (Inl ''none'') exampleRequests exampleOptions [] = (Inr r, log)"
    "map_of (rs_ContainerEnv (ar_Resolved r)) ''TOKEN'' = Some ''t0''" by blast
  have d: "distinct (map fst (ov_Env (ao_Overrides exampleOptions)))" by (simp add: exampleOptions_def)
  have "map_of (ar_Environment r) ''A'' = Some ''2''" "map_of (ar_Environment r) ''TOKEN'' = Some ''t0''"
    using conjunct1 [OF assembled_environment [OF r(1) d]] r(2) by (auto simp: exampleOptions_def)
  with r(1) show ?thesis by blast
qed

theorem assembled_layers_verified_witness:
  "\<exists>r log invs. AssembleKits exampleKitLib (\<lambda>a b. True) (Inl ''none'') exampleRequests exampleOptions [] = (Inr r, log)
     \<and> length (img_Layers (ar_Image r)) = 2
     \<and> mset (map ki_reference invs) = {#''reg.io/git'', ''reg.io/base:1.2.0''#} \<and> kit_trees invs \<noteq> None"
proof -
  from example_assembled obtain r log where
    r: "AssembleKits exampleKitLib (\<lambda>a b. True) (Inl ''none'') exampleRequests exampleOptions [] = (Inr r, log)"
    "length (img_Layers (ar_Image r)) = 2" by blast
  have o: "ao_LayerValidator exampleOptions = Some (DefaultLayerValidator fileCodecs)" "ao_Loader exampleOptions = Some exampleLoader"
    "list_all (\<lambda>req. rq_Reference req \<noteq> []) exampleRequests" by (simp_all add: exampleOptions_def exampleRequests_def)
  from assembled_layers_verified [OF r(1) o] obtain invs where
    "mset (map ki_reference invs) = mset (map rq_Reference exampleRequests)" "kit_trees invs \<noteq> None" by auto
  with r show ?thesis by (auto simp: exampleRequests_def)
qed

end
