(* ===== verification/Progress_Facts.thy ===== *)
theory Progress_Facts
  imports Assembly_Facts
begin

text \<open>
  The progress events of an assembly: whatever happens, every event that announces a step is
  followed at once by the event that ends it, nothing is reported after a failed step, and a run
  that succeeds has no failed step. The layer validator is the caller's, so what the assembly
  relies on is stated as an interface and the built-in validator is shown to keep it.
\<close>

section \<open>Paired events\<close>

definition ended :: "progress \<times> bool \<Rightarrow> progress list" where
  "ended ev = [(fst ev)\<lparr>pr_State := ProgressStarted\<rparr>,
     (fst ev)\<lparr>pr_State := (if snd ev then ProgressCompleted else ProgressFailed)\<rparr>]"

definition paired :: "progress list \<Rightarrow> bool \<Rightarrow> progress list \<Rightarrow> bool" where
  "paired log good log' \<longleftrightarrow>
     (\<exists>evs. log' = log @ concat (map ended evs) \<and> list_all snd (butlast evs) \<and> (good \<longrightarrow> list_all snd evs))"

lemma paired_refl [simp]: "paired log good log"
  unfolding paired_def by (rule exI [of _ "[]"]) simp

lemma paired_trans: "paired log True log1 \<Longrightarrow> paired log1 good log2 \<Longrightarrow> paired log good log2"
  unfolding paired_def
proof (elim exE conjE)
  fix e1 e2
  assume "log1 = log @ concat (map ended e1)" "True \<longrightarrow> list_all snd e1"
    "log2 = log1 @ concat (map ended e2)" "list_all snd (butlast e2)" "good \<longrightarrow> list_all snd e2"
  moreover from calculation have "list_all snd (butlast (e1 @ e2))"
    by (auto simp: butlast_append list_all_iff dest: in_set_butlastD)
  ultimately show "\<exists>evs. log2 = log @ concat (map ended evs) \<and> list_all snd (butlast evs) \<and> (good \<longrightarrow> list_all snd evs)"
    by (intro exI [of _ "e1 @ e2"]) simp
qed

lemma paired_weaken: "paired log True log' \<Longrightarrow> paired log good log'"
  by (auto simp: paired_def)

lemma progressStep_paired: "progressStep log event res = (res', log') \<Longrightarrow> paired log (is_ok res') log'"
  unfolding paired_def progressStep_def by (auto simp: ended_def intro!: exI [of _ "[(event, is_ok res)]"])

section \<open>The interface of a layer validator\<close>

locale reporting_validator =
  fixes validator :: "'v layer_validator"
  assumes reports: "validator h kits loaded log = (res, log') \<Longrightarrow> paired log (is_ok res) log'"
begin

lemma finishAssembly_paired:
  assumes "finishAssembly lib options requests loaded kits img environment log = (res, log')"
    and "ao_LayerValidator options = None \<or> ao_LayerValidator options = Some validator"
  shows "paired log (is_ok res) log'"
proof -
  let ?event = "\<lparr>pr_Stage = StageResolve, pr_State = ProgressStarted, pr_Reference = [], pr_Layer = []\<rparr>"
  obtain merged log1 where m: "progressStep log ?event
      (mergeKits lib (map Some kits) (map rq_Args requests) False
        [Some (WithCapabilitySelector (Some (case ao_CapabilitySelector options of None \<Rightarrow> Supported KnownCapabilities | Some s \<Rightarrow> s))),
         Some (WithEnvironment environment (ov_Env (ao_Overrides options)))]) = (merged, log1)" by (metis surj_pair)
  note p = progressStep_paired [OF m]
  show ?thesis
  proof (cases merged)
    case (Inl e)
    with assms(1) m p show ?thesis by (auto simp: finishAssembly_def Let_def)
  next
    case (Inr r)
    with p have log1: "paired log True log1" by simp
    obtain ok log2 where v: "(case ao_LayerValidator options of None \<Rightarrow> (Inr (), log1)
        | Some f \<Rightarrow> f (heapOf (rs_Kits r)) [0..<length (rs_Kits r)] (map_of loaded) log1) = (ok, log2)" by (metis surj_pair)
    then have "paired log1 (is_ok ok) log2" using assms(2) by (auto dest: reports)
    moreover have "log' = log2 \<and> is_ok res = is_ok ok"
      using assms(1) m v Inr by (auto simp: finishAssembly_def Let_def split: sum.splits)
    ultimately show ?thesis using paired_trans [OF log1] by simp
  qed
qed

end

lemma loadLoop_paired:
  "(loadLoop lib load loaded kits reqs log :: ('v fetch_assemble_error + _) \<times> _) = (res, log') \<Longrightarrow> paired log (is_ok res) log'"
proof (induction reqs arbitrary: loaded kits log)
  case (Cons req reqs)
  let ?r = "rq_Reference req"
  let ?event = "\<lparr>pr_Stage = StageLoad, pr_State = ProgressStarted, pr_Reference = ?r, pr_Layer = []\<rparr>"
  obtain s log1 where p: "progressStep log ?event (loadStep lib load ?r) = (s, log1)" by (metis surj_pair)
  note q = progressStep_paired [OF p]
  show ?case
  proof (cases "map_of loaded ?r \<noteq> None")
    case True
    with Cons.prems show ?thesis by (auto simp: Let_def)
  next
    case new: False
    show ?thesis
    proof (cases s)
      case (Inl e)
      with Cons.prems new p q show ?thesis by (auto simp: Let_def)
    next
      case (Inr xk)
      with Cons.prems new p have "(loadLoop lib load (loaded @ [(?r, fst xk)]) (kits @ [snd xk]) reqs log1
          :: ('v fetch_assemble_error + _) \<times> _) = (res, log')" by (auto simp: Let_def split: prod.splits)
      from Cons.IH [OF this] q Inr show ?thesis by (auto intro: paired_trans)
    qed
  qed
qed simp

context reporting_validator
begin

lemma assemble_paired:
  assumes "AssembleKits lib samePlatform defaultLoader requests options log = (res, log')"
    and "ao_LayerValidator options = None \<or> ao_LayerValidator options = Some validator"
  shows "paired log (is_ok res) log'"
proof -
  have "paired log (is_ok res) log'"
    if run: "(case loadLoop (registryLib lib) load [] [] requests log of
             (Inl e, log1) \<Rightarrow> (Inl e, log1)
           | (Inr (loaded, kits), log1) \<Rightarrow>
               (case progressStep log1
                       \<lparr>pr_Stage = StageCompose, pr_State = ProgressStarted, pr_Reference = [], pr_Layer = []\<rparr>
                       (composeImage lib samePlatform loaded kits) of
                  (Inl e, log2) \<Rightarrow> (Inl e, log2)
                | (Inr img, log2) \<Rightarrow>
                    (case imageEnvironment [] (ic_Env (im_Config (img_Config img))) of
                       None \<Rightarrow> (Inl MalformedImageEnv, log2)
                     | Some environment \<Rightarrow>
                         finishAssembly lib options requests loaded kits img environment log2))) = (res, log')" for load
  proof -
    obtain l log1 where l: "(loadLoop (registryLib lib) load [] [] requests log :: ('v fetch_assemble_error + _) \<times> _) = (l, log1)"
      by (metis surj_pair)
    note pl = loadLoop_paired [OF l]
    show ?thesis
    proof (cases l)
      case (Inl e)
      with run l pl show ?thesis by auto
    next
      case (Inr lk)
      obtain loaded kits where lk: "lk = (loaded, kits)" by (cases lk)
      let ?i = "composeImage lib samePlatform loaded kits :: 'v fetch_assemble_error + image"
      obtain s log2 where s: "progressStep log1 \<lparr>pr_Stage = StageCompose, pr_State = ProgressStarted, pr_Reference = [], pr_Layer = []\<rparr> ?i
          = (s, log2)" by (metis surj_pair)
      note ps = progressStep_paired [OF s]
      from pl Inr ps have all: "paired log (is_ok s) log2" by (auto intro: paired_trans)
      show ?thesis
      proof (cases s)
        case (Inl e)
        with run l \<open>l = Inr lk\<close> lk s all show ?thesis by (auto split: prod.splits)
      next
        case (Inr img)
        with all have log2: "paired log True log2" by simp
        from run l \<open>l = Inr lk\<close> lk s Inr have "(case imageEnvironment [] (ic_Env (im_Config (img_Config img))) of
            None \<Rightarrow> (Inl MalformedImageEnv, log2)
          | Some environment \<Rightarrow> finishAssembly lib options requests loaded kits img environment log2) = (res, log')"
          by simp
        then show ?thesis
          using log2 finishAssembly_paired [OF _ assms(2)]
          by (auto split: option.splits intro: paired_trans paired_weaken)
      qed
    qed
  qed
  with assms(1) show ?thesis
    unfolding AssembleKits_def by (auto split: if_splits option.splits sum.splits)
qed

end

section \<open>The built-in validator\<close>

lemma inventoryLayers_paired:
  "inventoryLayers c reference load s lds = (res, s') \<Longrightarrow> paired (is_log s) (is_ok res) (is_log s')"
proof (induction lds arbitrary: s res s')
  case (Cons ld lds)
  obtain layer diffID where ld: "ld = (layer, diffID)" by (cases ld)
  obtain r log where p: "progressStep (is_log s)
      \<lparr>pr_Stage = StageInventory, pr_State = ProgressStarted, pr_Reference = reference, pr_Layer = od_Digest layer\<rparr>
      (layerStep c load (is_cache s) (is_budget s) layer diffID) = (r, log)" by (metis surj_pair)
  note q = progressStep_paired [OF p]
  show ?case
  proof (cases r)
    case (Inl e)
    with Cons.prems ld p q show ?thesis by auto
  next
    case (Inr fb)
    let ?s = "s\<lparr>is_cache := (is_cache s)(blobKey layer diffID \<mapsto> fst fb), is_budget := snd fb, is_log := log\<rparr>"
    obtain r2 s2 where r: "inventoryLayers c reference load ?s lds = (r2, s2)" by (metis surj_pair)
    with Cons.prems ld p Inr have "s' = s2 \<and> is_ok res = is_ok r2"
      by (cases fb) (auto split: sum.splits)
    with Cons.IH [OF r] q Inr show ?thesis by (auto intro: paired_trans)
  qed
qed simp

lemma inventoryLoop_paired:
  "inventoryLoop c h loaded s ks = (res, s') \<Longrightarrow> paired (is_log s) (is_ok res) (is_log s')"
proof (induction ks arbitrary: s res s')
  case (Cons k ks)
  let ?r = "Reference (h k)"
  show ?case
  proof (cases "\<exists>input load. loaded ?r = Some input \<and> lk_LayerLoader input = Some load
      \<and> length (im_DiffIDs (lk_Config input)) = length (ma_Layers (lk_Manifest input))")
    case False
    with Cons.prems show ?thesis by (auto simp: Let_def split: option.splits)
  next
    case True
    then obtain input load where i: "loaded ?r = Some input" "lk_LayerLoader input = Some load"
      "length (im_DiffIDs (lk_Config input)) = length (ma_Layers (lk_Manifest input))" by blast
    obtain l s1 where l: "inventoryLayers c ?r load s (zip (ma_Layers (lk_Manifest input)) (im_DiffIDs (lk_Config input))) = (l, s1)"
      by (metis surj_pair)
    note pl = inventoryLayers_paired [OF l]
    obtain r2 s2 where r: "inventoryLoop c h loaded s1 ks = (r2, s2)" by (metis surj_pair)
    show ?thesis
    proof (cases l)
      case (Inl e)
      with Cons.prems i l pl show ?thesis by (auto simp: Let_def)
    next
      case (Inr ls)
      with Cons.prems i l r have "s' = s2 \<and> is_ok res = is_ok r2" by (auto simp: Let_def split: sum.splits)
      with Cons.IH [OF r] pl Inr show ?thesis by (auto intro: paired_trans)
    qed
  qed
qed simp

lemma inventoryKits_paired:
  "inventoryKits c h kits loaded log = (res, log') \<Longrightarrow> paired log (is_ok res) log'"
  by (auto simp: inventoryKits_def split: sum.splits prod.splits dest: inventoryLoop_paired)

interpretation dlv: reporting_validator "DefaultLayerValidator c" for c
proof
  fix h kits loaded log res log'
  assume v: "DefaultLayerValidator c h kits loaded log = (res, log')"
  obtain i log1 where i: "inventoryKits c h kits loaded log = (i, log1)" by (metis surj_pair)
  note p = inventoryKits_paired [OF i]
  show "paired log (is_ok res) log'"
  proof (cases i)
    case (Inl e)
    with v i p show ?thesis by (auto simp: DefaultLayerValidator_def)
  next
    case (Inr invs)
    with v i have "progressStep log1 \<lparr>pr_Stage = StageCollisions, pr_State = ProgressStarted, pr_Reference = [], pr_Layer = []\<rparr>
        (case checkFileCollisions invs of Inl e \<Rightarrow> Inl (CollisionFailed e) | Inr _ \<Rightarrow> Inr ()) = (res, log')"
      by (simp add: DefaultLayerValidator_def)
    from progressStep_paired [OF this] p Inr show ?thesis by (auto intro: paired_trans)
  qed
qed

section \<open>Properties\<close>



end
