(* ===== verification/Frontend_Delta.thy ===== *)
theory Frontend_Delta
  imports Images_Facts
begin

text \<open>
  The image config of a mixin as the build frontend records it (\<open>cmd/frontend/diff.go\<close>): which
  stage of the recipe is built and what it is built from, and the reduction of the built config
  to what the recipe stated over its base.

  The Dockerfile parser, the shell lexer and the platform parser are parameters. Where the code
  compares names without regard to case the model folds ASCII letters. A Go map that is only
  ranged over to fill another map is an association list or a list of keys with distinct keys.
\<close>

section \<open>The built stage and its base\<close>

definition foldByte :: "char \<Rightarrow> char" where
  "foldByte c = (let n = of_char c :: nat in if 65 \<le> n \<and> n \<le> 90 then char_of (n + 32) else c)"

definition EqualFold :: "string \<Rightarrow> string \<Rightarrow> bool" where
  "EqualFold s t \<longleftrightarrow> map foldByte s = map foldByte t"

record recipe_stage =
  sg_Name :: string
  sg_BaseName :: string
  sg_Platform :: string

record stage_base =
  sb_base :: string
  sb_isStage :: bool
  sb_alias :: string
  sb_platform :: "platform option"

datatype stage_error =
    RecipeNotParsed string
  | NoStage
  | ArgNotExpanded string string
  | NoSuchTarget string
  | BaseNotExpanded string string
  | BaseEmpty string
  | StagePlatformNotExpanded string string
  | StagePlatformEmpty string
  | StagePlatformInvalid string string

text \<open>What the frontend takes from BuildKit: the stages and the meta-arguments of a recipe with its
  escape token, one word expanded in an environment, and the text and the parsing of a platform.\<close>

record recipe_lib =
  parseRecipe :: "string \<Rightarrow> string + char \<times> recipe_stage list \<times> (string \<times> string option) list list"
  processWord :: "char \<Rightarrow> string \<Rightarrow> (string \<times> string) list \<Rightarrow> string + string"
  formatPlatform :: "platform \<Rightarrow> string"
  formatAllPlatform :: "platform \<Rightarrow> string"
  parsePlatform :: "string \<Rightarrow> string + platform"
  normalizePlatform :: "platform \<Rightarrow> platform"
  defaultPlatform :: platform

definition keyTarget :: string where "keyTarget = ''target''"
definition buildArgPrefix :: string where "buildArgPrefix = ''build-arg:''"

definition builtinPlatformArgs :: "recipe_lib \<Rightarrow> platform \<Rightarrow> platform \<Rightarrow> (string \<times> string) list" where
  "builtinPlatformArgs lib target build =
     [(''BUILDPLATFORM'', formatPlatform lib build), (''BUILDOS'', p_OS build),
      (''BUILDOSVERSION'', p_OSVersion build), (''BUILDARCH'', p_Architecture build),
      (''BUILDVARIANT'', p_Variant build), (''TARGETPLATFORM'', formatAllPlatform lib target),
      (''TARGETOS'', p_OS target), (''TARGETOSVERSION'', p_OSVersion target),
      (''TARGETARCH'', p_Architecture target), (''TARGETVARIANT'', p_Variant target)]"

definition optionOf :: "(string \<times> string) list \<Rightarrow> string \<Rightarrow> string" where
  "optionOf opts k = (case map_of opts k of None \<Rightarrow> [] | Some v \<Rightarrow> v)"

definition stageBuiltins :: "recipe_lib \<Rightarrow> (string \<times> string) list \<Rightarrow> platform \<Rightarrow> platform \<Rightarrow> (string \<times> string) list" where
  "stageBuiltins lib opts target build =
     builtinPlatformArgs lib target build
       @ [(''TARGETSTAGE'', if optionOf opts keyTarget = [] then ''default'' else optionOf opts keyTarget)]"

definition builtinEnv :: "(string \<times> string) list \<Rightarrow> (string \<times> string) list \<Rightarrow> (string \<times> string) list" where
  "builtinEnv opts builtins =
     foldl (\<lambda>env (k, v). AList.update k (case map_of opts (buildArgPrefix @ k) of None \<Rightarrow> v | Some ov \<Rightarrow> ov) env) [] builtins"

fun metaLoop ::
  "recipe_lib \<Rightarrow> char \<Rightarrow> (string \<times> string) list \<Rightarrow> (string \<times> string) list \<Rightarrow> (string \<times> string option) list
   \<Rightarrow> stage_error + (string \<times> string) list" where
  "metaLoop lib esc opts env [] = Inr env"
| "metaLoop lib esc opts env ((k, dflt) # args) =
     (case map_of opts (buildArgPrefix @ k) of
        Some v \<Rightarrow> metaLoop lib esc opts (AList.update k v env) args
      | None \<Rightarrow>
          (case dflt of
             None \<Rightarrow> metaLoop lib esc opts env args
           | Some d \<Rightarrow>
               (case processWord lib esc d env of
                  Inl e \<Rightarrow> Inl (ArgNotExpanded k e)
                | Inr v \<Rightarrow> metaLoop lib esc opts (AList.update k v env) args)))"

fun findTarget :: "string \<Rightarrow> nat \<Rightarrow> recipe_stage list \<Rightarrow> nat option" where
  "findTarget t i [] = None"
| "findTarget t i (s # ss) = (if EqualFold (sg_Name s) t then Some i else findTarget t (i + 1) ss)"

definition stageIndex :: "(string \<times> string) list \<Rightarrow> recipe_stage list \<Rightarrow> stage_error + nat" where
  "stageIndex opts stages =
     (let t = optionOf opts keyTarget in
      if t = [] then Inr (length stages - 1)
      else (case findTarget t 0 stages of None \<Rightarrow> Inl (NoSuchTarget t) | Some i \<Rightarrow> Inr i))"

definition explicitPlatform ::
  "recipe_lib \<Rightarrow> char \<Rightarrow> (string \<times> string) list \<Rightarrow> recipe_stage \<Rightarrow> stage_error + platform option" where
  "explicitPlatform lib esc env stg =
     (if sg_Platform stg = [] then Inr None
      else (case processWord lib esc (sg_Platform stg) env of
              Inl e \<Rightarrow> Inl (StagePlatformNotExpanded (sg_Platform stg) e)
            | Inr pstr \<Rightarrow>
                if pstr = [] then Inl (StagePlatformEmpty (sg_Platform stg))
                else (case parsePlatform lib pstr of
                        Inl e \<Rightarrow> Inl (StagePlatformInvalid pstr e)
                      | Inr p \<Rightarrow> Inr (Some (normalizePlatform lib p)))))"

fun earlierStage :: "string \<Rightarrow> recipe_stage list \<Rightarrow> string option" where
  "earlierStage base [] = None"
| "earlierStage base (s # ss) =
     (if sg_Name s \<noteq> [] \<and> EqualFold (sg_Name s) base then Some (sg_Name s) else earlierStage base ss)"

definition finalStage ::
  "recipe_lib \<Rightarrow> string \<Rightarrow> (string \<times> string) list \<Rightarrow> platform \<Rightarrow> platform \<Rightarrow> stage_error + stage_base" where
  "finalStage lib recipe opts target build =
     (case parseRecipe lib recipe of
        Inl e \<Rightarrow> Inl (RecipeNotParsed e)
      | Inr (esc, stages, metaArgs) \<Rightarrow>
          if stages = [] then Inl NoStage
          else
            rbind (metaLoop lib esc opts (builtinEnv opts (stageBuiltins lib opts target build)) (concat metaArgs)) (\<lambda>env.
            rbind (stageIndex opts stages) (\<lambda>lastIdx.
            let stg = stages ! lastIdx in
            (case processWord lib esc (sg_BaseName stg) env of
               Inl e \<Rightarrow> Inl (BaseNotExpanded (sg_BaseName stg) e)
             | Inr base \<Rightarrow>
                 if base = [] then Inl (BaseEmpty (sg_BaseName stg))
                 else rbind (explicitPlatform lib esc env stg) (\<lambda>explicit.
                   case earlierStage base (take lastIdx stages) of
                     Some nm \<Rightarrow> Inr \<lparr>sb_base = nm, sb_isStage = True, sb_alias = sg_Name stg, sb_platform = explicit\<rparr>
                   | None \<Rightarrow> Inr \<lparr>sb_base = base, sb_isStage = False, sb_alias = sg_Name stg, sb_platform = explicit\<rparr>)))))"

definition lowerPlatform :: "stage_base \<Rightarrow> platform \<Rightarrow> platform" where
  "lowerPlatform final target = (case sb_platform final of None \<Rightarrow> target | Some p \<Rightarrow> p)"

text \<open>The platforms the workers report, each worker's list in order.\<close>

definition buildPlatformOf :: "recipe_lib \<Rightarrow> platform list list \<Rightarrow> platform" where
  "buildPlatformOf lib workers =
     (case workers of (p # _) # _ \<Rightarrow> p | _ \<Rightarrow> normalizePlatform lib (defaultPlatform lib))"

definition effectiveTargetPlatform :: "recipe_lib \<Rightarrow> platform list list \<Rightarrow> platform option \<Rightarrow> platform" where
  "effectiveTargetPlatform lib workers plat = (case plat of None \<Rightarrow> buildPlatformOf lib workers | Some p \<Rightarrow> p)"

text \<open>The reference of an external base: what the resolver answered, with the digest added when it
  is not already there.\<close>

definition pinnedBase :: "string \<Rightarrow> string \<Rightarrow> string \<Rightarrow> string" where
  "pinnedBase baseRef pinned dgst =
     (let p = (if pinned = [] then baseRef else pinned) in
      if dgst \<noteq> [] \<and> CHR ''@'' \<notin> set p then p @ ''@'' @ dgst else p)"

section \<open>The config delta\<close>

fun notInLoop :: "string list \<Rightarrow> string list \<Rightarrow> string list" where
  "notInLoop seen [] = []"
| "notInLoop seen (e # es) =
     (if e \<noteq> [] \<and> e \<notin> set seen then e # notInLoop (e # seen) es else notInLoop seen es)"

definition pathElementsNotIn :: "string \<Rightarrow> string \<Rightarrow> string list" where
  "pathElementsNotIn upperPath lowerPath = notInLoop (split_on CHR '':'' lowerPath) (split_on CHR '':'' upperPath)"

definition deltaEntry :: "(string \<rightharpoonup> string) \<Rightarrow> string \<Rightarrow> string list" where
  "deltaEntry lowerEnv kv =
     (case cut CHR ''='' kv of (k, v, ok) \<Rightarrow>
        if \<not> ok then []
        else if k = ''PATH'' then
          (let added = pathElementsNotIn v (case lowerEnv ''PATH'' of None \<Rightarrow> [] | Some p \<Rightarrow> p) in
           if added = [] then [] else [pathEntry (join '':'' added)])
        else if lowerEnv k = Some v then [] else [kv])"

definition configDelta :: "image_config \<Rightarrow> image_config \<Rightarrow> image_config" where
  "configDelta lower upper =
     \<lparr>ic_User = (if ic_User upper \<noteq> ic_User lower then ic_User upper else []),
      ic_ExposedPorts = filter (\<lambda>k. k \<notin> set (ic_ExposedPorts lower)) (ic_ExposedPorts upper),
      ic_Env = concat (map (deltaEntry (envMap (ic_Env lower))) (ic_Env upper)),
      ic_Entrypoint = (if ic_Entrypoint upper \<noteq> ic_Entrypoint lower then ic_Entrypoint upper else []),
      ic_Cmd = (if ic_Cmd upper \<noteq> ic_Cmd lower then ic_Cmd upper else []),
      ic_Volumes = filter (\<lambda>k. k \<notin> set (ic_Volumes lower)) (ic_Volumes upper),
      ic_WorkingDir = (if ic_WorkingDir upper \<noteq> ic_WorkingDir lower then ic_WorkingDir upper else []),
      ic_Labels = filter (\<lambda>(k, v). map_of (ic_Labels lower) k \<noteq> Some v) (ic_Labels upper),
      ic_StopSignal = (if ic_StopSignal upper \<noteq> ic_StopSignal lower then ic_StopSignal upper else [])\<rparr>"

text \<open>A mixin's exported image before it is marshalled: the platform without its OS version and
  features, and the delta.\<close>

definition platformOrDefault :: "recipe_lib \<Rightarrow> platform option \<Rightarrow> platform" where
  "platformOrDefault lib plat = (case plat of None \<Rightarrow> defaultPlatform lib | Some p \<Rightarrow> p)"

definition mixinImage :: "recipe_lib \<Rightarrow> platform option \<Rightarrow> image_config \<Rightarrow> oci_image" where
  "mixinImage lib plat delta =
     (let p = platformOrDefault lib plat in
      \<lparr>im_Platform = \<lparr>p_Architecture = p_Architecture p, p_OS = p_OS p, p_OSVersion = [], p_OSFeatures = [],
                     p_Variant = p_Variant p\<rparr>,
      im_Config = delta, im_RootFSType = [], im_DiffIDs = [], im_History = []\<rparr>)"

end
