(* ===== verification/Frontend_Set.thy ===== *)
theory Frontend_Set
  imports Fetch_Kits Frontend_Delta
begin

text \<open>
  Building a set of kits into one kit (\<open>cmd/frontend/set.go\<close>): the judgement of the set's own
  declarations against those of the kits it lists, and the order in which all of them
  contribute. The indexes of what contributions offer are those of \<open>spec/merge.go\<close>.

  A contribution of the code may lack a descriptor and is then skipped by the indexes; every
  contribution the set's code makes has one. The slices \<open>dependsOn\<close> and \<open>indegree\<close>,
  indexed by position, are maps from positions here.
\<close>

section \<open>What contributions offer\<close>

record set_contribution =
  sc_Reference :: string
  sc_Descriptor :: descriptor

record owned_provide =
  op_Provide :: provide
  op_Owner :: string

text \<open>The parseable provides of one contribution, a bare one with the contribution's version.\<close>

definition offersOf :: "set_contribution \<Rightarrow> provide list" where
  "offersOf c =
     map (\<lambda>p. if pVersion p = [] \<and> VersionOf (sc_Descriptor c) \<noteq> [] then p\<lparr>pVersion := VersionOf (sc_Descriptor c)\<rparr> else p)
       (rights (map ParseProvide (Provides (sc_Descriptor c))))"

definition ProvidesIndex :: "set_contribution list \<Rightarrow> (string \<times> provide list) list" where
  "ProvidesIndex cs = index_of (concat (map (\<lambda>c. map (\<lambda>p. (pName p, p)) (offersOf c)) cs))"

definition OwnedProvides :: "set_contribution list \<Rightarrow> (string \<times> owned_provide list) list" where
  "OwnedProvides cs =
     index_of (concat (map (\<lambda>c. map (\<lambda>p. (pName p, \<lparr>op_Provide = p, op_Owner = sc_Reference c\<rparr>)) (offersOf c)) cs))"

definition SatisfiedBy :: "(string \<times> provide list) list \<Rightarrow> require \<Rightarrow> bool" where
  "SatisfiedBy provided r \<longleftrightarrow> list_ex (\<lambda>p. Satisfies p r) (index_at provided (rName r))"

section \<open>The errors of a set\<close>

datatype set_error =
    SetProvidesTaken string string
  | RelationUnmet string string string string
  | SetConflicts string string
  | SetRequiresItself string string
  | KitConflictsWithSet string string
  | SetCycle "string list"
  | KindDiffers string string
  | StemTaken string string
  | StemsCollide string string string
  | KitNotResolved string
  | ContextWithoutKit string
  | ContextNotRead string string string
  | SetExportConflict string string string string string

definition setReference :: string where "setReference = ''the set descriptor''"

section \<open>Relations between the set and its kits\<close>

text \<open>The first error of a loop whose body may return one.\<close>

fun firstError :: "('a \<Rightarrow> 'e option) \<Rightarrow> 'a list \<Rightarrow> 'e option" where
  "firstError f [] = None"
| "firstError f (x # xs) = (case f x of None \<Rightarrow> firstError f xs | Some e \<Rightarrow> Some e)"

definition ownersOf :: "set_contribution list \<Rightarrow> (string \<rightharpoonup> string)" where
  "ownersOf cs =
     foldl (\<lambda>owner (nm, r). if owner nm = None then owner(nm \<mapsto> r) else owner) Map.empty
       (concat (map (\<lambda>c. map (\<lambda>p. (pName p, sc_Reference c))
                           (rights (map ParseProvide (Provides (sc_Descriptor c))))) cs))"

definition providersOf :: "set_contribution list \<Rightarrow> (string \<times> provide list) list \<times> (string \<rightharpoonup> string)" where
  "providersOf cs = (ProvidesIndex cs, ownersOf cs)"

definition describeOffers :: "provide list \<Rightarrow> string" where
  "describeOffers provs = join '', '' (map (\<lambda>p. DisplayCapabilityName (pName p) @ ''@'' @ pVersion p) provs)"

definition checkRelationsAgainst ::
  "descriptor \<Rightarrow> (string \<times> provide list) list \<Rightarrow> string \<Rightarrow> string \<Rightarrow> set_error option" where
  "checkRelationsAgainst d provided who other =
     firstError (\<lambda>s. case ParseRequire s of
                       Inl _ \<Rightarrow> None
                     | Inr r \<Rightarrow>
                         (case map_of provided (rName r) of
                            None \<Rightarrow> None
                          | Some provs \<Rightarrow>
                              if SatisfiedBy provided r then None
                              else Some (RelationUnmet who s other (describeOffers provs))))
       (Requires d @ Integrates d)"

definition setProvidesTaken :: "(string \<rightharpoonup> string) \<Rightarrow> string \<Rightarrow> set_error option" where
  "setProvidesTaken kitOwner s =
     (case ParseProvide s of
        Inl _ \<Rightarrow> None
      | Inr p \<Rightarrow> map_option (SetProvidesTaken s) (kitOwner (pName p)))"

definition setRequiresItself :: "(string \<rightharpoonup> string) \<Rightarrow> (string \<rightharpoonup> string) \<Rightarrow> string \<Rightarrow> set_error option" where
  "setRequiresItself setOwner kitOwner s =
     (case ParseRequire s of
        Inl _ \<Rightarrow> None
      | Inr r \<Rightarrow>
          if setOwner (rName r) \<noteq> None \<and> kitOwner (rName r) = None
          then Some (SetRequiresItself s (DisplayCapabilityName (rName r))) else None)"

definition checkKitAgainstSet ::
  "(string \<times> provide list) list \<Rightarrow> (string \<rightharpoonup> string) \<Rightarrow> set_contribution \<Rightarrow> set_error option" where
  "checkKitAgainstSet bySet setOwner c =
     (case checkRelationsAgainst (sc_Descriptor c) bySet (sc_Reference c) ''the set'' of
        Some e \<Rightarrow> Some e
      | None \<Rightarrow>
          firstError (\<lambda>nm. if setOwner (NormalizeCapabilityName nm) \<noteq> None
                           then Some (KitConflictsWithSet (sc_Reference c) nm) else None)
            (Conflicts (sc_Descriptor c)))"

definition checkSetRelations :: "descriptor \<Rightarrow> set_contribution list \<Rightarrow> set_error option" where
  "checkSetRelations own kits =
     (let (byKits, kitOwner) = providersOf kits;
          (bySet, setOwner) = providersOf [\<lparr>sc_Reference = setReference, sc_Descriptor = own\<rparr>] in
      firstError id
        [firstError (setProvidesTaken kitOwner) (Provides own),
         checkRelationsAgainst own byKits ''the set'' ''the kits it lists'',
         firstError (\<lambda>nm. map_option (SetConflicts nm) (kitOwner (NormalizeCapabilityName nm))) (Conflicts own),
         firstError (setRequiresItself setOwner kitOwner) (Requires own),
         firstError (checkKitAgainstSet bySet setOwner) kits])"

section \<open>The order of the contributions\<close>

definition allContributions :: "descriptor \<Rightarrow> set_contribution list \<Rightarrow> set_contribution list" where
  "allContributions own kits = kits @ [\<lparr>sc_Reference = setReference, sc_Descriptor = own\<rparr>]"

definition positionOf :: "set_contribution list \<Rightarrow> string \<Rightarrow> nat" where
  "positionOf cs r =
     (case foldl (\<lambda>m (i, c). m(sc_Reference c \<mapsto> i)) Map.empty (enumerate 0 cs) r of
        None \<Rightarrow> 0
      | Some i \<Rightarrow> i)"

text \<open>The positions that answer one entry, those not yet seen; then those of a list of entries.\<close>

fun answerLoop :: "(string \<Rightarrow> nat) \<Rightarrow> string \<Rightarrow> require \<Rightarrow> nat list \<Rightarrow> owned_provide list \<Rightarrow> nat list" where
  "answerLoop index self r seen [] = []"
| "answerLoop index self r seen (x # xs) =
     (if op_Owner x = self \<or> \<not> Satisfies (op_Provide x) r then answerLoop index self r seen xs
      else let j = index (op_Owner x) in
           if j \<in> set seen then answerLoop index self r seen xs
           else j # answerLoop index self r (j # seen) xs)"

fun entriesLoop ::
  "(string \<Rightarrow> nat) \<Rightarrow> (string \<times> owned_provide list) list \<Rightarrow> string \<Rightarrow> nat list \<Rightarrow> string list \<Rightarrow> nat list" where
  "entriesLoop index provided self seen [] = []"
| "entriesLoop index provided self seen (s # entries) =
     (case ParseRequire s of
        Inl _ \<Rightarrow> entriesLoop index provided self seen entries
      | Inr r \<Rightarrow>
          (let js = answerLoop index self r seen (index_at provided (rName r)) in
           js @ entriesLoop index provided self (js @ seen) entries))"

definition contributionDeps :: "set_contribution list \<Rightarrow> nat \<Rightarrow> nat list" where
  "contributionDeps cs i =
     entriesLoop (positionOf cs) (OwnedProvides cs) (sc_Reference (cs ! i)) []
       (Requires (sc_Descriptor (cs ! i)) @ Integrates (sc_Descriptor (cs ! i)))"

fun linkAll ::
  "(nat \<Rightarrow> nat list) \<Rightarrow> nat list \<Rightarrow> counters \<Rightarrow> (nat \<times> nat list) list \<Rightarrow> counters \<times> (nat \<times> nat list) list" where
  "linkAll deps [] indegree dependsOn = (indegree, dependsOn)"
| "linkAll deps (i # is) indegree dependsOn =
     linkAll deps is (foldl (\<lambda>m _. bump 1 i m) indegree (deps i))
       (foldl (\<lambda>m j. index_add j i m) dependsOn (deps i))"

function contributionLoop ::
  "(nat \<times> nat list) list \<Rightarrow> counters \<Rightarrow> nat list \<Rightarrow> nat list \<times> counters" where
  "contributionLoop dependsOn indegree ready =
     (case sort ready of
        [] \<Rightarrow> ([], indegree)
      | nxt # rest \<Rightarrow>
          (let (indegree', ready') = release indegree rest (index_at dependsOn nxt);
               (placed, final) = contributionLoop dependsOn indegree' ready' in
           (nxt # placed, final)))"
  by pat_completeness auto
termination
proof (relation "measure (\<lambda>(dependsOn, indegree, ready). pending indegree + length ready)")
  fix dependsOn indegree ready nxt rest x indegree' ready'
  assume sorted: "sort ready = nxt # rest"
    and "x = release indegree rest (index_at dependsOn nxt)" "(indegree', ready') = x"
  then have "pending indegree' + length ready' \<le> pending indegree + length rest"
    by (metis release_bound)
  moreover have "length ready = Suc (length rest)"
    using sorted by (metis length_Cons length_sort)
  ultimately show "((dependsOn, indegree', ready'), (dependsOn, indegree, ready)) \<in>
      measure (\<lambda>(dependsOn, indegree, ready). pending indegree + length ready)"
    by simp
qed simp

declare contributionLoop.simps [simp del]

definition orderContributions ::
  "descriptor \<Rightarrow> set_contribution list \<Rightarrow> set_error + set_contribution list" where
  "orderContributions own kits =
     (let cs = allContributions own kits;
          positions = [0..<length cs];
          (indegree, dependsOn) = linkAll (contributionDeps cs) positions (map (\<lambda>i. (i, 0)) positions) [];
          (placed, final) =
            contributionLoop dependsOn indegree (filter (\<lambda>i. degree indegree i = 0) positions) in
      if length placed \<noteq> length cs
      then Inl (SetCycle (sort (map (\<lambda>i. sc_Reference (cs ! i)) (filter (\<lambda>i. degree final i > 0) positions))))
      else Inr (map (\<lambda>i. cs ! i) placed))"

end
