(* ===== verification/Frontend_Set_Build.thy ===== *)
theory Frontend_Set_Build
  imports Frontend_Set Paths
begin

text \<open>
  The build of a set (\<open>cmd/frontend/set.go\<close>): resolving the listed kits, their declarations with
  the set's argument values, the order of the content, the merged image config, and the plan over
  all platforms.

  BuildKit's gateway is a record of parameters: resolving an image's config, the filesystem state
  of an image, solving a state, reading a solved filesystem and the build context, merging
  states. So are \<open>spec.Merge\<close>, the validators, the encoders and the reference package. Progress
  names and cancellation are left out. A state carries no identity beyond what the gateway does
  with it, so its type is a variable.
\<close>

section \<open>Arguments a set answers\<close>

text \<open>\<open>spec.ReferencedArgs\<close>: the matches of the placeholder from left to right, each name once.\<close>

lemma argRefAt_shorter: "argRefAt s = Some (nm, rest) \<Longrightarrow> length rest < length s"
proof -
  assume at: "argRefAt s = Some (nm, rest)"
  let ?s1 = "dropWhile isSpaceByte (drop 3 s)" let ?s2 = "drop 9 ?s1"
  let ?s3 = "dropWhile isSpaceByte (dropWhile isIdentChar ?s2)"
  have "0 < length s" "length rest = length ?s3 - 2"
    using at by (auto simp: argRefAt_def Let_def has_prefix_def split: if_splits)
  moreover have "length ?s3 \<le> length s"
    using length_dropWhile_le [of isSpaceByte "dropWhile isIdentChar ?s2"] length_dropWhile_le [of isIdentChar ?s2]
      length_dropWhile_le [of isSpaceByte "drop 3 s"] by simp
  ultimately show ?thesis by linarith
qed

function placeholderNames :: "string \<Rightarrow> string list" where
  "placeholderNames s =
     (if s = [] then []
      else (case argRefAt s of
              None \<Rightarrow> placeholderNames (drop 1 s)
            | Some (nm, rest) \<Rightarrow> nm # placeholderNames rest))"
  by pat_completeness auto
termination
  by (relation "measure length") (auto dest: argRefAt_shorter)

declare placeholderNames.simps [simp del]

definition ReferencedArgs :: "string \<Rightarrow> string list" where
  "ReferencedArgs raw = dedupe (placeholderNames raw)"

datatype re_export_error =
    ReExportUndeclared
  | ReExportOptional
  | ReExportNoEnum
  | ReExportEnumWider string
  | ReExportNoPattern
  | ReExportNoDefault

fun widerEnum :: "string list \<Rightarrow> string list \<Rightarrow> re_export_error option" where
  "widerEnum allowed [] = None"
| "widerEnum allowed (v # vs) = (if v \<notin> set allowed then Some (ReExportEnumWider v) else widerEnum allowed vs)"

definition CheckReExport :: "arg \<Rightarrow> arg option \<Rightarrow> re_export_error option" where
  "CheckReExport kit setArg =
     (case setArg of
        None \<Rightarrow> Some ReExportUndeclared
      | Some s \<Rightarrow>
          if argRequired kit \<and> \<not> argRequired s \<and> argDefault s = None then Some ReExportOptional
          else (case (if argEnum kit = [] then None
                      else if argEnum s = [] then Some ReExportNoEnum
                      else widerEnum (argEnum kit) (argEnum s)) of
                  Some e \<Rightarrow> Some e
                | None \<Rightarrow>
                    if argPattern kit \<noteq> [] \<and> argPattern s \<noteq> argPattern kit then Some ReExportNoPattern
                    else if argDefault kit \<noteq> None \<and> argDefault s = None \<and> \<not> argRequired s then Some ReExportNoDefault
                    else None))"

section \<open>The parameters\<close>

record context_source =
  cs_Reference :: string
  cs_Path :: string
  cs_Content :: string
  cs_Target :: string

record set_lib =
  kitLib :: kit_lib
  recipeLib :: recipe_lib
  referenceText :: "named_reference \<Rightarrow> string"
  validateSpec :: "descriptor \<Rightarrow> string option"
  mergeSpec :: "set_contribution list \<Rightarrow> string \<Rightarrow> string + descriptor \<times> context_source list"
  encodeYAML :: "descriptor \<Rightarrow> string + string"
  encodeImage :: "oci_image \<Rightarrow> string + string"

record ('s, 'f) gateway =
  gw_resolveMode :: string
  gw_resolveConfig :: "string \<Rightarrow> platform \<Rightarrow> string \<Rightarrow> string + string \<times> string \<times> string"
  gw_image :: "string \<Rightarrow> platform \<Rightarrow> 's"
  gw_merge :: "'s list \<Rightarrow> 's"
  gw_solve :: "'s \<Rightarrow> platform \<Rightarrow> string + 'f"
  gw_readDir :: "'f \<Rightarrow> string \<Rightarrow> string + (string \<times> bool) list"
  gw_readFile :: "'f \<Rightarrow> string \<Rightarrow> string + string"
  gw_contextFile :: "string \<Rightarrow> string + string"

datatype build_error =
    Gateway string
  | BadKitReference string
  | TwoPins string string
  | ConfigNotParsed string
  | SourcesNotRead string
  | NoSources
  | ManySources "string list"
  | StagedNotDecoded string
  | StagedInvalid string
  | KitArgsInvalid arg_error
  | ReExport string re_export_error
  | ReExportsVariable string string
  | TwoArgsExport string string string
  | DeclarationsNotEncoded string
  | DeclarationsNotExpanded string
  | DeclarationsNotDecoded string
  | DeclarationsInvalid string
  | InKit string build_error
  | OwnConfig config_error
  | OwnContext string string
  | Unresolved resolve_error
  | InSet set_error
  | NotMerged string
  | ConfigsNotMerged merge_error
  | ConfigNotEncoded string
  | ContextReferences string "string list"
  | DescriptorsNotEncoded string
  | DescriptorsDiffer string string
  | NotPublishable string
  | NoPlatform
  | BadPlatform string string

section \<open>The declarations of a listed kit\<close>

definition zeroArg :: arg where
  "zeroArg = \<lparr>argDefault = None, argRequired = False, argDescription = [], argEnum = [], argPattern = [],
              argEnv = [], argBuildArg = []\<rparr>"

definition checkReExports :: "(string \<times> arg) list \<Rightarrow> (string \<times> arg) list \<Rightarrow> (string \<times> string) list \<Rightarrow> build_error option" where
  "checkReExports kitDecls setArgs vals =
     firstError (\<lambda>(nm, v).
       if \<not> IsWholeArgRef v then None
       else (case ReferencedArgs v of
               [other] \<Rightarrow>
                 map_option (ReExport nm)
                   (CheckReExport (case map_of kitDecls nm of None \<Rightarrow> zeroArg | Some decl \<Rightarrow> decl) (map_of setArgs other))
             | _ \<Rightarrow> None)) vals"

fun kitExports ::
  "(string \<times> string) list \<Rightarrow> (string \<times> string) list \<Rightarrow> (string \<times> arg) list \<Rightarrow> build_error + (string \<times> string) list" where
  "kitExports vals env [] = Inr env"
| "kitExports vals env ((nm, decl) # decls) =
     (if argBuildArg decl \<noteq> [] \<or> argEnv decl = [] then kitExports vals env decls
      else (case map_of vals nm of
              None \<Rightarrow> kitExports vals env decls
            | Some v \<Rightarrow>
                if ContainsArgRef v then Inl (ReExportsVariable nm (argEnv decl))
                else (case map_of env (argEnv decl) of
                        Some held \<Rightarrow>
                          if held \<noteq> v then Inl (TwoArgsExport (argEnv decl) held v)
                          else kitExports vals (AList.update (argEnv decl) v env) decls
                      | None \<Rightarrow> kitExports vals (AList.update (argEnv decl) v env) decls)))"

definition kitDeclarations ::
  "set_lib \<Rightarrow> descriptor \<Rightarrow> kit \<Rightarrow> (string \<times> arg) list \<Rightarrow> build_error + descriptor \<times> (string \<times> string) list" where
  "kitDeclarations lib published k setArgs =
     (case KitArgValues (fullMatchOf (kitLib lib)) (Args published) (kitArgs k) of
        Inl e \<Rightarrow> Inl (KitArgsInvalid e)
      | Inr vals \<Rightarrow>
          (case checkReExports (Args published) setArgs vals of
             Some e \<Rightarrow> Inl e
           | None \<Rightarrow>
               rbind (kitExports vals [] (Args published)) (\<lambda>env.
               case encodeDescriptor (kitLib lib) published of
                 Inl e \<Rightarrow> Inl (DeclarationsNotEncoded e)
               | Inr raw \<Rightarrow>
                   (case expandCreateArgs (kitLib lib) raw (Args published) vals of
                      Inl e \<Rightarrow> Inl (DeclarationsNotExpanded e)
                    | Inr filled \<Rightarrow>
                        (case decodeSpec (registryLib (kitLib lib)) filled of
                           Inl e \<Rightarrow> Inl (DeclarationsNotDecoded e)
                         | Inr d \<Rightarrow>
                             (let invalid =
                                (if ReferencedArgs filled = [] \<and> \<not> HasEnvReferences (Capabilities d)
                                 then map_option fst (expandedError (kitLib lib) filled d)
                                 else validateSpec lib d)
                              in case invalid of
                                   Some e \<Rightarrow> Inl (DeclarationsInvalid e)
                                 | None \<Rightarrow> Inr (d\<lparr>Args := []\<rparr>, env)))))))"

section \<open>Resolving the listed kits\<close>

record 's resolved_kit =
  rk_reference :: string
  rk_pinned :: string
  rk_digest :: string
  rk_descriptor :: descriptor
  rk_state :: 's
  rk_config :: oci_image
  rk_stem :: string
  rk_env :: "(string \<times> string) list"

definition stagedKitRoot :: string where "stagedKitRoot = ''/usr/share/sandbox/kit''"
definition stagedDescriptorName :: string where "stagedDescriptorName = ''kit.yaml''"

fun stagedSources :: "('s, 'f) gateway \<Rightarrow> 'f \<Rightarrow> string list \<Rightarrow> (string \<times> string) list" where
  "stagedSources gw fs [] = []"
| "stagedSources gw fs (candidate # stems) =
     (case gw_readFile gw fs (path_join [stagedKitRoot, candidate, stagedDescriptorName]) of
        Inl _ \<Rightarrow> stagedSources gw fs stems
      | Inr body \<Rightarrow> (candidate, body) # stagedSources gw fs stems)"

definition readKitDescriptor ::
  "set_lib \<Rightarrow> ('s, 'f) gateway \<Rightarrow> 's \<Rightarrow> platform \<Rightarrow> build_error + descriptor \<times> string" where
  "readKitDescriptor lib gw st p =
     (case gw_solve gw st p of
        Inl e \<Rightarrow> Inl (Gateway e)
      | Inr fs \<Rightarrow>
          (case gw_readDir gw fs stagedKitRoot of
             Inl e \<Rightarrow> Inl (SourcesNotRead e)
           | Inr entries \<Rightarrow>
               (case stagedSources gw fs (map (path_base \<circ> fst) (filter snd entries)) of
                  [] \<Rightarrow> Inl NoSources
                | [(stem, raw)] \<Rightarrow>
                    (case decodeSpec (registryLib (kitLib lib)) raw of
                       Inl e \<Rightarrow> Inl (StagedNotDecoded e)
                     | Inr d \<Rightarrow>
                         (case publishedError (registryLib (kitLib lib)) raw d of
                            Some e \<Rightarrow> Inl (StagedInvalid e)
                          | None \<Rightarrow> Inr (d, stem)))
                | found \<Rightarrow> Inl (ManySources (map fst found)))))"

definition emptyConfig :: image_config where
  "emptyConfig = \<lparr>ic_User = [], ic_ExposedPorts = [], ic_Env = [], ic_Entrypoint = [], ic_Cmd = [], ic_Volumes = [],
                  ic_WorkingDir = [], ic_Labels = [], ic_StopSignal = []\<rparr>"

definition emptyPlatform :: platform where
  "emptyPlatform = \<lparr>p_Architecture = [], p_OS = [], p_OSVersion = [], p_OSFeatures = [], p_Variant = []\<rparr>"

definition emptyImage :: oci_image where
  "emptyImage = \<lparr>im_Platform = emptyPlatform, im_Config = emptyConfig, im_RootFSType = [], im_DiffIDs = [], im_History = []\<rparr>"

definition resolveKit ::
  "set_lib \<Rightarrow> ('s, 'f) gateway \<Rightarrow> kit \<Rightarrow> platform \<Rightarrow> (string \<times> arg) list \<Rightarrow> build_error + 's resolved_kit" where
  "resolveKit lib gw k p setArgs =
     (let reg = registryLib (kitLib lib) in
      case parseNormalized reg (kitRef k) of
        Inl e \<Rightarrow> Inl (BadKitReference e)
      | Inr named \<Rightarrow>
          if nr_Digest named \<noteq> None \<and> kitDigest k \<noteq> [] \<and> nr_Digest named \<noteq> Some (kitDigest k)
          then Inl (TwoPins (the (nr_Digest named)) (kitDigest k))
          else
            (let text = referenceText lib (tagNameOnly reg named);
                 r = (if kitDigest k \<noteq> [] \<and> CHR ''@'' \<notin> set text then text @ ''@'' @ kitDigest k else text) in
             case gw_resolveConfig gw r p (gw_resolveMode gw) of
               Inl e \<Rightarrow> Inl (Gateway e)
             | Inr (resolvedTo, dgst, configRaw) \<Rightarrow>
                 (let pinned = pinnedBase r resolvedTo dgst in
                  case (if configRaw = [] then Inr emptyImage else parseImage reg configRaw) of
                    Inl e \<Rightarrow> Inl (ConfigNotParsed e)
                  | Inr config \<Rightarrow>
                      (let st = gw_image gw pinned p in
                       rbind (readKitDescriptor lib gw st p) (\<lambda>(published, stem).
                       rbind (kitDeclarations lib published k setArgs) (\<lambda>(d, env).
                         Inr \<lparr>rk_reference = kitRef k, rk_pinned = pinned, rk_digest = dgst,
                              rk_descriptor = d\<lparr>VersionOf := EffectiveProvideVersion (kitRef k) (Some d)\<rparr>,
                              rk_state = st, rk_config = config, rk_stem = stem, rk_env = env\<rparr>))))))"

fun resolveKits ::
  "set_lib \<Rightarrow> ('s, 'f) gateway \<Rightarrow> platform \<Rightarrow> (string \<times> arg) list \<Rightarrow> kit list \<Rightarrow> build_error + 's resolved_kit list" where
  "resolveKits lib gw p setArgs [] = Inr []"
| "resolveKits lib gw p setArgs (k # ks) =
     (case resolveKit lib gw k p setArgs of
        Inl e \<Rightarrow> Inl (InKit (kitRef k) e)
      | Inr resolved \<Rightarrow> rbind (resolveKits lib gw p setArgs ks) (\<lambda>rest. Inr (resolved # rest)))"

section \<open>The set's own declarations and the order of the kits\<close>

definition encode_agent_context :: "agent_context \<Rightarrow> json" where
  "encode_agent_context ac =
     JObj (map (\<lambda>(k, v). (k, JStr v))
       (filter (\<lambda>(k, v). v \<noteq> []) [(''filename'', acFilename ac), (''contentFile'', acContentFile ac), (''content'', acContent ac)]))"

definition inlineContext :: "(string \<Rightarrow> string + string) \<Rightarrow> capability \<Rightarrow> build_error + capability" where
  "inlineContext readFile n =
     (if capType n \<noteq> CapabilityAgentContext then Inr n
      else (case DecodeCapabilityConfig decode_agent_context zero_agent_context n of
              Inl e \<Rightarrow> Inl (OwnConfig e)
            | Inr ac \<Rightarrow>
                if acContentFile ac = [] then Inr n
                else (case readFile (trim_prefix (acContentFile ac) ''./'') of
                        Inl e \<Rightarrow> Inl (OwnContext (acContentFile ac) e)
                      | Inr body \<Rightarrow>
                          (case CapabilityWithConfig n (encode_agent_context (ac\<lparr>acContentFile := [], acContent := body\<rparr>)) of
                             Inl e \<Rightarrow> Inl (OwnConfig e)
                           | Inr replaced \<Rightarrow> Inr replaced))))"

definition setOwnDescriptor :: "('s, 'f) gateway \<Rightarrow> descriptor \<Rightarrow> build_error + descriptor" where
  "setOwnDescriptor gw d =
     rbind (MapCapabilities (inlineContext (gw_contextFile gw)) (Capabilities d)) (\<lambda>caps.
       Inr (d\<lparr>Kits := [], Kind := KindMixin, Capabilities := caps\<rparr>))"

definition setUnits :: "'s resolved_kit list \<Rightarrow> descriptor \<Rightarrow> kit_unit list" where
  "setUnits kits own =
     map (\<lambda>k. \<lparr>Reference = rk_reference k, Digest = rk_digest k, Image = rk_pinned k,
               UnitDescriptor = Some (rk_descriptor k), UnitArgs = [], UnitEnv = []\<rparr>) kits
     @ [\<lparr>Reference = setReference, Digest = [], Image = [],
         UnitDescriptor = Some (emptyDescriptor\<lparr>SchemaVersionOf := SchemaVersionOf own, Kind := KindMixin,
                                               VersionOf := VersionOf own, Provides := Provides own\<rparr>),
         UnitArgs = [], UnitEnv = []\<rparr>]"

definition orderKits :: "'s resolved_kit list \<Rightarrow> descriptor \<Rightarrow> build_error + 's resolved_kit list" where
  "orderKits kits own =
     (let units = setUnits kits own in
      case Dependencies (heapOf units) [0..<length units] True of
        Inl e \<Rightarrow> Inl (Unresolved e)
      | Inr resolution \<Rightarrow> Inr (map ((!) kits) (filter (\<lambda>u. u \<noteq> length kits) (Topological resolution))))"

definition byReference :: "'s resolved_kit list \<Rightarrow> (string \<rightharpoonup> 's resolved_kit)" where
  "byReference kits = foldl (\<lambda>m k. m(rk_reference k \<mapsto> k)) Map.empty kits"

definition kitsInContributionOrder :: "set_contribution list \<Rightarrow> 's resolved_kit list \<Rightarrow> 's resolved_kit list" where
  "kitsInContributionOrder cs kits = List.map_filter (\<lambda>c. byReference kits (sc_Reference c)) cs"

section \<open>Checks and metadata\<close>

definition checkAuthoredKind :: "string \<Rightarrow> string \<Rightarrow> set_error option" where
  "checkAuthoredKind authored derived =
     (if authored = KindSet \<or> authored = derived then None else Some (KindDiffers authored derived))"

definition checkStemCollision :: "string \<Rightarrow> 's resolved_kit list \<Rightarrow> set_error option" where
  "checkStemCollision stem kits =
     firstError (\<lambda>k. if rk_stem k = stem then Some (StemTaken (rk_reference k) (path_join [stagedKitRoot, stem])) else None) kits"

fun recordKits :: "(string \<rightharpoonup> 's resolved_kit) \<Rightarrow> kit list \<Rightarrow> set_error + kit list" where
  "recordKits known [] = Inr []"
| "recordKits known (k # ks) =
     (case known (kitRef k) of
        None \<Rightarrow> Inl (KitNotResolved (kitRef k))
      | Some resolved \<Rightarrow>
          rbind (recordKits known ks) (\<lambda>rest.
            Inr (\<lparr>kitRef = kitRef k, kitDigest = rk_digest resolved, kitArgs = kitArgs k\<rparr> # rest)))"

definition carryOverSetMetadata :: "descriptor \<Rightarrow> descriptor \<Rightarrow> 's resolved_kit list \<Rightarrow> set_error + descriptor" where
  "carryOverSetMetadata d merged kits =
     rbind (recordKits (byReference kits) (Kits d)) (\<lambda>recorded.
       Inr (merged\<lparr>DisplayName := DisplayName d, Author := Author d, Description := Description d,
                   SourceURL := SourceURL d, IconURL := IconURL d, VersionOf := VersionOf d, Args := Args d,
                   Kits := Kits merged @ recorded\<rparr>))"

fun stemLoop :: "(string \<times> string) list \<Rightarrow> 's resolved_kit list \<Rightarrow> set_error option" where
  "stemLoop owners [] = None"
| "stemLoop owners (k # kits) =
     (if rk_stem k = [] then stemLoop owners kits
      else (case map_of owners (rk_stem k) of
              Some prev \<Rightarrow> Some (StemsCollide prev (rk_reference k) (path_join [stagedKitRoot, rk_stem k]))
            | None \<Rightarrow> stemLoop ((rk_stem k, rk_reference k) # owners) kits))"

definition checkKitCollisions :: "'s resolved_kit list \<Rightarrow> set_error option" where
  "checkKitCollisions kits = stemLoop [] kits"

section \<open>The merged image config\<close>

fun bindLoop ::
  "string \<Rightarrow> (string \<times> binding) list \<Rightarrow> (string \<times> string) list \<Rightarrow> set_error + (string \<times> binding) list" where
  "bindLoop owner bound [] = Inr bound"
| "bindLoop owner bound ((nm, v) # env) =
     (case map_of bound nm of
        Some held \<Rightarrow>
          if bn_value held \<noteq> v then Inl (SetExportConflict (bn_owner held) owner nm (bn_value held) v)
          else bindLoop owner bound env
      | None \<Rightarrow> bindLoop owner (bound @ [(nm, \<lparr>bn_value = v, bn_owner = owner\<rparr>)]) env)"

fun bindKits :: "(string \<times> binding) list \<Rightarrow> 's resolved_kit list \<Rightarrow> set_error + (string \<times> binding) list" where
  "bindKits bound [] = Inr bound"
| "bindKits bound (k # kits) =
     rbind (bindLoop (rk_reference k) bound (rk_env k)) (\<lambda>bound'. bindKits bound' kits)"

text \<open>The loop over the existing entries: the names already written and the entries kept.\<close>

fun overrideLoop :: "(string \<rightharpoonup> binding) \<Rightarrow> string list \<Rightarrow> string list \<Rightarrow> string list \<times> string list" where
  "overrideLoop bound written [] = (written, [])"
| "overrideLoop bound written (existing # env) =
     (case cut CHR ''='' existing of (nm, _, found) \<Rightarrow>
        (case bound nm of
           Some b \<Rightarrow>
             if \<not> found then (case overrideLoop bound written env of (w, out) \<Rightarrow> (w, existing # out))
             else if nm \<in> set written then overrideLoop bound written env
             else (case overrideLoop bound (nm # written) env of (w, out) \<Rightarrow> (w, (nm @ ''='' @ bn_value b) # out))
         | None \<Rightarrow> (case overrideLoop bound written env of (w, out) \<Rightarrow> (w, existing # out))))"

definition applyArgExports :: "image_config \<Rightarrow> 's resolved_kit list \<Rightarrow> set_error + image_config" where
  "applyArgExports config kits =
     rbind (bindKits [] kits) (\<lambda>bound.
       let names = sort (map fst bound);
           (written, out) = overrideLoop (map_of bound) [] (ic_Env config)
       in Inr (config\<lparr>ic_Env := out @ map (\<lambda>nm. nm @ ''='' @ bn_value (the (map_of bound nm)))
                                   (filter (\<lambda>nm. nm \<notin> set written) names)\<rparr>))"

definition contractOf :: "image_config \<Rightarrow> image_config" where
  "contractOf cfg = emptyConfig\<lparr>ic_Entrypoint := ic_Entrypoint cfg, ic_Cmd := ic_Cmd cfg, ic_User := ic_User cfg,
                                ic_WorkingDir := ic_WorkingDir cfg\<rparr>"

definition soleContract :: "'s resolved_kit list \<Rightarrow> image_config" where
  "soleContract kits =
     (case filter (\<lambda>cfg. \<not> (ic_Entrypoint cfg = [] \<and> ic_Cmd cfg = [] \<and> ic_User cfg = [] \<and> ic_WorkingDir cfg = []))
             (map (im_Config \<circ> rk_config) kits) of
        [cfg] \<Rightarrow> contractOf cfg
      | _ \<Rightarrow> emptyConfig)"

definition emptyManifest :: oci_manifest where
  "emptyManifest =
     \<lparr>ma_SchemaVersion = 0, ma_MediaType = [], ma_ArtifactType = [],
      ma_Config = \<lparr>od_MediaType = [], od_Digest = [], od_Size = 0\<rparr>,
      ma_Layers = [], ma_Subject = None, ma_Annotations = []\<rparr>"

definition configInput :: "platform \<Rightarrow> string \<Rightarrow> image_config \<Rightarrow> input" where
  "configInput platform nm cfg =
     \<lparr>in_Name = nm, in_Manifest = emptyManifest,
      in_Config = emptyImage\<lparr>im_Platform := platform, im_Config := cfg\<rparr>\<rparr>"

definition isWorkload :: "'s resolved_kit \<Rightarrow> bool" where
  "isWorkload k \<longleftrightarrow> Kind (rk_descriptor k) = KindWorkload"

text \<open>The platform without its OS version and features.\<close>

definition plainPlatform :: "platform \<Rightarrow> platform" where
  "plainPlatform p = emptyPlatform\<lparr>p_OS := p_OS p, p_Architecture := p_Architecture p, p_Variant := p_Variant p\<rparr>"

definition mergeInputs :: "platform \<Rightarrow> 's resolved_kit list \<Rightarrow> string \<Rightarrow> input \<times> input list" where
  "mergeInputs platform kits mergedKind =
     (let inputOf = (\<lambda>k. configInput platform (rk_reference k) (im_Config (rk_config k))) in
      if mergedKind = KindWorkload
      then (foldl (\<lambda>base k. if isWorkload k then inputOf k else base)
              \<lparr>in_Name = [], in_Manifest = emptyManifest, in_Config = emptyImage\<rparr> kits,
            map inputOf (filter (\<lambda>k. \<not> isWorkload k) kits))
      else (configInput platform ''the merged overlay'' emptyConfig, map inputOf kits))"

definition mergedConfig :: "set_lib \<Rightarrow> 's resolved_kit list \<Rightarrow> string \<Rightarrow> platform option \<Rightarrow> build_error + oci_image" where
  "mergedConfig lib kits mergedKind plat =
     (let platform = plainPlatform (platformOrDefault (recipeLib lib) plat);
          (base, overlays) = mergeInputs platform kits mergedKind in
      case Merge base overlays of
        Inl e \<Rightarrow> Inl (ConfigsNotMerged e)
      | Inr img \<Rightarrow>
          (case applyArgExports (im_Config (img_Config img)) kits of
             Inl e \<Rightarrow> Inl (InSet e)
           | Inr cfg \<Rightarrow>
               (let contract = soleContract kits;
                    cfg' = (if mergedKind \<noteq> KindWorkload
                            then cfg\<lparr>ic_Entrypoint := ic_Entrypoint contract, ic_Cmd := ic_Cmd contract,
                                     ic_User := ic_User contract, ic_WorkingDir := ic_WorkingDir contract\<rparr>
                            else cfg)
                in Inr ((img_Config img)\<lparr>im_Config := cfg', im_Platform := platform, im_RootFSType := [],
                                         im_DiffIDs := [], im_History := []\<rparr>))))"

definition mergedImageConfig :: "set_lib \<Rightarrow> 's resolved_kit list \<Rightarrow> string \<Rightarrow> platform option \<Rightarrow> build_error + string" where
  "mergedImageConfig lib kits mergedKind plat =
     rbind (mergedConfig lib kits mergedKind plat) (\<lambda>img.
       case encodeImage lib img of Inl e \<Rightarrow> Inl (ConfigNotEncoded e) | Inr raw \<Rightarrow> Inr raw)"

definition layerStates :: "'s resolved_kit list \<Rightarrow> 's list" where
  "layerStates kits =
     map rk_state (filter isWorkload kits) @ map rk_state (filter (\<lambda>k. \<not> isWorkload k) kits)"

definition mergeKitContent ::
  "set_lib \<Rightarrow> ('s, 'f) gateway \<Rightarrow> 's resolved_kit list \<Rightarrow> descriptor \<Rightarrow> platform option \<Rightarrow> build_error + 'f \<times> string" where
  "mergeKitContent lib gw kits merged plat =
     (case checkKitCollisions kits of
        Some e \<Rightarrow> Inl (InSet e)
      | None \<Rightarrow>
          (let st = (case layerStates kits of [single] \<Rightarrow> single | states \<Rightarrow> gw_merge gw states) in
           case gw_solve gw st (platformOrDefault (recipeLib lib) plat) of
             Inl e \<Rightarrow> Inl (Gateway e)
           | Inr fs \<Rightarrow>
               rbind (mergedImageConfig lib kits (Kind merged) plat) (\<lambda>config. Inr (fs, config))))"

section \<open>Agent context\<close>

text \<open>The filesystems solved so far are kept by reference, one solve per kit.\<close>

fun contextLoop ::
  "('s, 'f) gateway \<Rightarrow> platform \<Rightarrow> (string \<rightharpoonup> 's resolved_kit) \<Rightarrow> (string \<times> 'f) list \<Rightarrow> context_source list
   \<Rightarrow> set_error + context_source list" where
  "contextLoop gw p known solved [] = Inr []"
| "contextLoop gw p known solved (src # rest) =
     (if cs_Path src = [] then rbind (contextLoop gw p known solved rest) (\<lambda>out. Inr (src # out))
      else (case known (cs_Reference src) of
              None \<Rightarrow> Inl (ContextWithoutKit (cs_Reference src))
            | Some k \<Rightarrow>
                (let solving = (case map_of solved (cs_Reference src) of
                                  Some fs \<Rightarrow> Inr (fs, solved)
                                | None \<Rightarrow>
                                    (case gw_solve gw (rk_state k) p of
                                       Inl e \<Rightarrow> Inl (ContextNotRead [] (cs_Reference src) e)
                                     | Inr fs \<Rightarrow> Inr (fs, (cs_Reference src, fs) # solved)))
                 in rbind solving (\<lambda>(fs, solved').
                      case gw_readFile gw fs (cs_Path src) of
                        Inl e \<Rightarrow> Inl (ContextNotRead (cs_Path src) (cs_Reference src) e)
                      | Inr raw \<Rightarrow>
                          rbind (contextLoop gw p known solved' rest) (\<lambda>out.
                            Inr (\<lparr>cs_Reference = cs_Reference src, cs_Path = [], cs_Content = raw,
                                  cs_Target = cs_Target src\<rparr> # out))))))"

definition readContextSources ::
  "set_lib \<Rightarrow> ('s, 'f) gateway \<Rightarrow> 's resolved_kit list \<Rightarrow> platform option \<Rightarrow> context_source list
   \<Rightarrow> set_error + context_source list" where
  "readContextSources lib gw kits plat sources =
     (if sources = [] then Inr sources
      else contextLoop gw (platformOrDefault (recipeLib lib) plat) (byReference kits) [] sources)"

definition setContextName :: string where "setContextName = ''context.md''"

definition stagedSetContextPath :: "string \<Rightarrow> string" where
  "stagedSetContextPath stem = path_join [stagedKitRoot, stem, setContextName]"

definition newline :: string where "newline = [char_of (10 :: nat)]"

fun contextBody :: "string \<Rightarrow> context_source list \<Rightarrow> string" where
  "contextBody body [] = body"
| "contextBody body (src # sources) =
     (if trim_space (cs_Content src) = [] then contextBody body sources
      else contextBody
             (body @ (if body = [] then [] else newline) @ ''<!-- from '' @ cs_Reference src @ '' -->'' @ newline
              @ cs_Content src @ (if has_suffix (cs_Content src) newline then [] else newline)) sources)"

text \<open>\<open>stageSetContext\<close> up to the writes it asks the gateway for: the paths and their contents, in
  order.\<close>

definition stageSetContext :: "string \<Rightarrow> context_source list \<Rightarrow> build_error + (string \<times> string) list" where
  "stageSetContext staged sources =
     (case firstError (\<lambda>src. if ReferencedArgs (cs_Content src) = [] then None
                             else Some (ContextReferences (cs_Reference src) (ReferencedArgs (cs_Content src)))) sources of
        Some e \<Rightarrow> Inl e
      | None \<Rightarrow>
          (case sources of
             [] \<Rightarrow> Inr []
           | src # _ \<Rightarrow>
               if cs_Target src \<noteq> [] then Inr (map (\<lambda>s. (cs_Target s, cs_Content s)) sources)
               else Inr [(staged, contextBody [] sources)]))"

section \<open>Building and planning\<close>

record ('s, 'f) set_build =
  bd_ref :: 'f
  bd_config :: string
  bd_merged :: descriptor
  bd_context :: "context_source list"
  bd_kits :: "'s resolved_kit list"

definition contributionOf :: "'s resolved_kit \<Rightarrow> set_contribution" where
  "contributionOf k = \<lparr>sc_Reference = rk_reference k, sc_Descriptor = rk_descriptor k\<rparr>"

definition failing :: "set_error option \<Rightarrow> build_error + unit" where
  "failing e = (case e of Some x \<Rightarrow> Inl (InSet x) | None \<Rightarrow> Inr ())"

definition inSet :: "set_error + 'a \<Rightarrow> build_error + 'a" where
  "inSet r = (case r of Inl e \<Rightarrow> Inl (InSet e) | Inr a \<Rightarrow> Inr a)"

definition buildSet ::
  "set_lib \<Rightarrow> ('s, 'f) gateway \<Rightarrow> descriptor \<Rightarrow> platform option \<Rightarrow> string \<Rightarrow> build_error + ('s, 'f) set_build" where
  "buildSet lib gw d plat stem =
     rbind (resolveKits lib gw (platformOrDefault (recipeLib lib) plat) (Args d) (Kits d)) (\<lambda>kits.
     rbind (setOwnDescriptor gw d) (\<lambda>own.
     rbind (orderKits kits own) (\<lambda>ordered.
     rbind (failing (checkStemCollision stem ordered)) (\<lambda>_.
     rbind (failing (checkSetRelations own (map contributionOf ordered))) (\<lambda>_.
     rbind (inSet (orderContributions own (map contributionOf ordered))) (\<lambda>contributions.
     let ordered' = kitsInContributionOrder contributions ordered in
     case mergeSpec lib contributions (stagedSetContextPath stem) of
       Inl e \<Rightarrow> Inl (NotMerged e)
     | Inr (merged, sources) \<Rightarrow>
         rbind (failing (checkAuthoredKind (Kind d) (Kind merged))) (\<lambda>_.
         rbind (inSet (carryOverSetMetadata d merged ordered')) (\<lambda>merged'.
         rbind (inSet (readContextSources lib gw ordered' plat sources)) (\<lambda>context.
         rbind (mergeKitContent lib gw ordered' merged' plat) (\<lambda>(fs, config).
           Inr \<lparr>bd_ref = fs, bd_config = config, bd_merged = merged', bd_context = context, bd_kits = ordered'\<rparr>))))))))))"

definition sameDeclarations :: "set_lib \<Rightarrow> descriptor \<Rightarrow> descriptor \<Rightarrow> build_error option" where
  "sameDeclarations lib a b =
     (case encodeDescriptor (kitLib lib) a of
        Inl e \<Rightarrow> Some (DescriptorsNotEncoded e)
      | Inr left \<Rightarrow>
          (case encodeDescriptor (kitLib lib) b of
             Inl e \<Rightarrow> Some (DescriptorsNotEncoded e)
           | Inr right \<Rightarrow> if left \<noteq> right then Some (DescriptorsDiffer left right) else None))"

definition publishedSetDescriptor :: "set_lib \<Rightarrow> descriptor \<Rightarrow> build_error + string" where
  "publishedSetDescriptor lib d =
     (case encodeYAML lib d of
        Inl e \<Rightarrow> Inl (DescriptorsNotEncoded e)
      | Inr published \<Rightarrow>
          (case publishedError (registryLib (kitLib lib)) published d of
             Some e \<Rightarrow> Inl (NotPublishable e)
           | None \<Rightarrow> Inr published))"

record ('s, 'f) set_plan =
  pl_published :: string
  pl_builds :: "(string \<times> ('s, 'f) set_build) list"

text \<open>The loop over the platforms: the first build, the builds so far by platform.\<close>

fun planLoop ::
  "set_lib \<Rightarrow> ('s, 'f) gateway \<Rightarrow> descriptor \<Rightarrow> string \<Rightarrow> descriptor option \<Rightarrow> (string \<times> ('s, 'f) set_build) list
   \<Rightarrow> platform option list \<Rightarrow> build_error + descriptor option \<times> (string \<times> ('s, 'f) set_build) list" where
  "planLoop lib gw d stem first builds [] = Inr (first, builds)"
| "planLoop lib gw d stem first builds (plat # plats) =
     rbind (buildSet lib gw d plat stem) (\<lambda>b.
       let builds' = AList.update (formatAllPlatform (recipeLib lib) (platformOrDefault (recipeLib lib) plat)) b builds in
       case first of
         None \<Rightarrow> planLoop lib gw d stem (Some (bd_merged b)) builds' plats
       | Some f \<Rightarrow>
           (case sameDeclarations lib f (bd_merged b) of
              Some e \<Rightarrow> Inl e
            | None \<Rightarrow> planLoop lib gw d stem first builds' plats))"

text \<open>Without a platform the code would read the descriptor of a build that does not exist;
  \<open>parsePlatforms\<close> never returns an empty list.\<close>

definition planSet ::
  "set_lib \<Rightarrow> ('s, 'f) gateway \<Rightarrow> descriptor \<Rightarrow> platform option list \<Rightarrow> string \<Rightarrow> build_error + ('s, 'f) set_plan" where
  "planSet lib gw d platformList stem =
     rbind (planLoop lib gw d stem None [] platformList) (\<lambda>(first, builds).
       case first of
         None \<Rightarrow> Inl NoPlatform
       | Some merged \<Rightarrow>
           rbind (publishedSetDescriptor lib merged) (\<lambda>published. Inr \<lparr>pl_published = published, pl_builds = builds\<rparr>))"

fun platformLoop :: "recipe_lib \<Rightarrow> string list \<Rightarrow> string list \<Rightarrow> build_error + platform option list" where
  "platformLoop lib seen [] = Inr []"
| "platformLoop lib seen (part # parts) =
     (case parsePlatform lib (trim_space part) of
        Inl e \<Rightarrow> Inl (BadPlatform part e)
      | Inr p0 \<Rightarrow>
          (let p = normalizePlatform lib p0; i = formatAllPlatform lib p in
           if i \<in> set seen then platformLoop lib seen parts
           else rbind (platformLoop lib (i # seen) parts) (\<lambda>rest. Inr (Some p # rest))))"

definition parsePlatforms :: "recipe_lib \<Rightarrow> string \<Rightarrow> build_error + platform option list" where
  "parsePlatforms lib opt = (if opt = [] then Inr [None] else platformLoop lib [] (split_on CHR '','' opt))"

end
