(* ===== verification/Frontend_Set_Facts.thy ===== *)
theory Frontend_Set_Facts
  imports Frontend_Set Resolution
begin

text \<open>
  The order of a set's contributions is an instance of the resolver's ready-list loop: it exists
  exactly when the contributions do not rely on each other in a circle, places every contribution
  after all it relies on, and keeps the given order among those that are ready. The relations of
  the set and its kits are accepted exactly when each could be met by the other side.
\<close>

section \<open>What the indexes hold\<close>

lemma index_at_ProvidesIndex:
  "set (index_at (ProvidesIndex cs) nm) = {p. \<exists>c \<in> set cs. p \<in> set (offersOf c) \<and> pName p = nm}"
  by (force simp: ProvidesIndex_def index_at_of)

lemma index_at_OwnedProvides:
  "x \<in> set (index_at (OwnedProvides cs) nm) \<longleftrightarrow>
   (\<exists>c \<in> set cs. op_Owner x = sc_Reference c \<and> op_Provide x \<in> set (offersOf c) \<and> pName (op_Provide x) = nm)"
  by (force simp: OwnedProvides_def index_at_of)

lemma SatisfiedBy_iff:
  "SatisfiedBy (ProvidesIndex cs) r \<longleftrightarrow>
   (\<exists>c \<in> set cs. \<exists>p \<in> set (offersOf c). pName p = rName r \<and> Satisfies p r)"
  by (auto simp: SatisfiedBy_def list_ex_iff index_at_ProvidesIndex)

section \<open>The graph of the contributions\<close>

text \<open>One contribution relies on another when that one offers what one of its entries asks for.\<close>

definition relies :: "set_contribution \<Rightarrow> set_contribution \<Rightarrow> bool" where
  "relies c d \<longleftrightarrow>
     sc_Reference d \<noteq> sc_Reference c \<and>
     (\<exists>s \<in> set (Requires (sc_Descriptor c)) \<union> set (Integrates (sc_Descriptor c)). \<exists>r.
        ParseRequire s = Inr r \<and> (\<exists>p \<in> set (offersOf d). pName p = rName r \<and> Satisfies p r))"

lemma last_position:
  "distinct (map sc_Reference cs) \<Longrightarrow> j < length cs \<Longrightarrow>
   foldl (\<lambda>m (i, c). m(sc_Reference c \<mapsto> i)) Map.empty (enumerate 0 cs) (sc_Reference (cs ! j)) = Some j"
proof (induction cs arbitrary: j rule: rev_induct)
  case (snoc c cs)
  show ?case
  proof (cases "j = length cs")
    case True
    then show ?thesis by (simp add: enumerate_append_eq)
  next
    case False
    with snoc.prems(2) have j: "j < length cs" by simp
    have "sc_Reference c \<notin> sc_Reference ` set cs" using snoc.prems(1) by simp
    then have "sc_Reference (cs ! j) \<noteq> sc_Reference c" using imageI [OF nth_mem [OF j]] by metis
    then show ?thesis using snoc j by (simp add: enumerate_append_eq nth_append)
  qed
qed simp

lemma positionOf_nth:
  "distinct (map sc_Reference cs) \<Longrightarrow> j < length cs \<Longrightarrow> positionOf cs (sc_Reference (cs ! j)) = j"
  by (simp add: positionOf_def last_position)

lemma set_answerLoop:
  "set (answerLoop index self r seen xs) =
   {index (op_Owner x) | x. x \<in> set xs \<and> op_Owner x \<noteq> self \<and> Satisfies (op_Provide x) r} - set seen"
  by (induction index self r seen xs rule: answerLoop.induct) (auto simp: Let_def)

lemma distinct_answerLoop: "distinct (answerLoop index self r seen xs)"
  by (induction index self r seen xs rule: answerLoop.induct) (auto simp: Let_def set_answerLoop)

definition answered :: "(string \<Rightarrow> nat) \<Rightarrow> (string \<times> owned_provide list) list \<Rightarrow> string \<Rightarrow> string \<Rightarrow> nat set" where
  "answered index provided self s =
     {index (op_Owner x) | x r. ParseRequire s = Inr r \<and> x \<in> set (index_at provided (rName r)) \<and>
        op_Owner x \<noteq> self \<and> Satisfies (op_Provide x) r}"

lemma set_entriesLoop:
  "set (entriesLoop index provided self seen entries) =
   (\<Union>s \<in> set entries. answered index provided self s) - set seen"
proof (induction index provided self seen entries rule: entriesLoop.induct)
  case (2 index provided self seen s entries)
  show ?case
  proof (cases "ParseRequire s")
    case (Inl e)
    then have "answered index provided self s = {}" by (simp add: answered_def)
    then show ?thesis using 2 Inl by simp
  next
    case (Inr r)
    then have "set (answerLoop index self r seen (index_at provided (rName r))) =
        answered index provided self s - set seen"
      by (auto simp: set_answerLoop answered_def)
    then show ?thesis using "2.IH"(2) [OF Inr refl] Inr by (auto simp: Let_def)
  qed
qed simp

lemma distinct_entriesLoop: "distinct (entriesLoop index provided self seen entries)"
  by (induction index provided self seen entries rule: entriesLoop.induct)
    (auto simp: Let_def distinct_answerLoop set_entriesLoop split: sum.splits)

lemma contributionDeps_iff:
  assumes "distinct (map sc_Reference cs)" "i < length cs"
  shows "j \<in> set (contributionDeps cs i) \<longleftrightarrow> j < length cs \<and> relies (cs ! i) (cs ! j)"
proof
  assume "j \<in> set (contributionDeps cs i)"
  then obtain x s r where j: "j = positionOf cs (op_Owner x)"
    and s: "s \<in> set (Requires (sc_Descriptor (cs ! i))) \<union> set (Integrates (sc_Descriptor (cs ! i)))"
      "ParseRequire s = Inr r"
    and x: "x \<in> set (index_at (OwnedProvides cs) (rName r))" "op_Owner x \<noteq> sc_Reference (cs ! i)"
      "Satisfies (op_Provide x) r"
    by (auto simp: contributionDeps_def set_entriesLoop answered_def)
  obtain c where "c \<in> set cs" "op_Owner x = sc_Reference c" "op_Provide x \<in> set (offersOf c)"
      "pName (op_Provide x) = rName r"
    using x(1) by (auto simp: index_at_OwnedProvides)
  then obtain k where k: "k < length cs" "op_Owner x = sc_Reference (cs ! k)" "op_Provide x \<in> set (offersOf (cs ! k))"
      "pName (op_Provide x) = rName r"
    by (metis in_set_conv_nth)
  then have "j = k" using assms j by (simp add: positionOf_nth)
  then show "j < length cs \<and> relies (cs ! i) (cs ! j)"
    using k s x unfolding relies_def by metis
next
  assume j: "j < length cs \<and> relies (cs ! i) (cs ! j)"
  then obtain s r p where s: "s \<in> set (Requires (sc_Descriptor (cs ! i)) @ Integrates (sc_Descriptor (cs ! i)))"
      "ParseRequire s = Inr r"
    and p: "p \<in> set (offersOf (cs ! j))" "pName p = rName r" "Satisfies p r"
    and other: "sc_Reference (cs ! j) \<noteq> sc_Reference (cs ! i)"
    by (auto simp: relies_def)
  let ?x = "\<lparr>op_Provide = p, op_Owner = sc_Reference (cs ! j)\<rparr>"
  have "?x \<in> set (index_at (OwnedProvides cs) (rName r))"
    using p j by (auto simp: index_at_OwnedProvides)
  moreover have "j = positionOf cs (op_Owner ?x)" using assms j by (simp add: positionOf_nth)
  ultimately have "j \<in> answered (positionOf cs) (OwnedProvides cs) (sc_Reference (cs ! i)) s"
    using s(2) p(3) other by (force simp: answered_def)
  then show "j \<in> set (contributionDeps cs i)"
    using s(1) unfolding contributionDeps_def set_entriesLoop by auto
qed

lemma linkAll_effect:
  assumes "linkAll deps is m dpts = (m', dpts')" "distinct is" "\<And>i. i \<in> set is \<Longrightarrow> distinct (deps i)"
  shows "degree m' v = degree m v + (if v \<in> set is then int (length (deps v)) else 0) \<and>
    index_at dpts' v = index_at dpts v @ filter (\<lambda>i. v \<in> set (deps i)) is"
  using assms
  by (induction deps "is" m dpts rule: linkAll.induct) (auto simp: degree_bumps index_at_adds)

definition linked :: "set_contribution list \<Rightarrow> counters \<times> (nat \<times> nat list) list" where
  "linked cs = linkAll (contributionDeps cs) [0..<length cs] (map (\<lambda>i. (i, 0)) [0..<length cs]) []"

lemma degree_start [simp]: "degree (map (\<lambda>i. (i, 0)) is) v = 0"
  by (induction "is") (auto simp: degree_def)

lemma linked_effect:
  "degree (fst (linked cs)) v = (if v < length cs then int (length (contributionDeps cs v)) else 0)"
  "index_at (snd (linked cs)) v = filter (\<lambda>i. v \<in> set (contributionDeps cs i)) [0..<length cs]"
  using linkAll_effect [of "contributionDeps cs" "[0..<length cs]" "map (\<lambda>i. (i, 0)) [0..<length cs]" "[]"
      "fst (linked cs)" "snd (linked cs)" v]
  by (simp_all add: linked_def contributionDeps_def distinct_entriesLoop)

interpretation contributions: dependency_graph "\<lambda>cs. distinct (map sc_Reference cs)" "\<lambda>cs. [0..<length cs]"
  contributionDeps "\<lambda>cs. fst (linked cs)" "\<lambda>cs. snd (linked cs)"
  by unfold_locales
    (auto simp: linked_effect contributionDeps_iff, simp add: contributionDeps_def distinct_entriesLoop)

lemma contributionLoop_run:
  "contributionLoop dpts m r = (os, final) \<Longrightarrow> ready_run (\<lambda>i. i) dpts m r os final"
proof (induction dpts m r arbitrary: os rule: contributionLoop.induct)
  case (1 dpts m r)
  show ?case
  proof (cases "sort r")
    case Nil
    then have "r = []" by (metis length_0_conv length_sort)
    then show ?thesis using "1.prems" by (simp add: contributionLoop.simps ready_stop)
  next
    case (Cons x rest)
    obtain m' r' where rel: "release m rest (index_at dpts x) = (m', r')" by fastforce
    obtain os' where os: "contributionLoop dpts m' r' = (os', final)" "os = x # os'"
      using "1.prems" Cons rel by (subst (asm) contributionLoop.simps) (auto split: prod.splits)
    show ?thesis
      unfolding os(2) by (rule ready_step [OF Cons rel "1.IH" [OF Cons refl rel [symmetric] os(1)]])
  qed
qed

section \<open>The order\<close>

definition contributionOrder :: "set_contribution list \<Rightarrow> nat list \<times> counters" where
  "contributionOrder cs =
     contributionLoop (snd (linked cs)) (fst (linked cs)) (filter (\<lambda>i. degree (fst (linked cs)) i = 0) [0..<length cs])"

lemma orderContributions_eq:
  "orderContributions own kits =
   (let cs = allContributions own kits in
    if length (fst (contributionOrder cs)) \<noteq> length cs
    then Inl (SetCycle (sort (map (\<lambda>i. sc_Reference (cs ! i))
                 (filter (\<lambda>i. degree (snd (contributionOrder cs)) i > 0) [0..<length cs]))))
    else Inr (map (\<lambda>i. cs ! i) (fst (contributionOrder cs))))"
  by (simp add: orderContributions_def contributionOrder_def linked_def Let_def split: prod.splits)

lemma deps_first_map:
  assumes "deps_first D P is" "\<And>i d. i \<in> set is \<Longrightarrow> d \<in> E (f i) \<Longrightarrow> \<exists>j \<in> D i. f j = d"
  shows "deps_first E (f ` P) (map f is)"
  using assms by (induction "is" arbitrary: P) (auto, blast, force)

definition positionsRelied :: "set_contribution list \<Rightarrow> (nat \<times> nat) set" where
  "positionsRelied cs = {(i, j). i \<in> set [0..<length cs] \<and> j \<in> set (contributionDeps cs i)}"

definition reliance :: "set_contribution list \<Rightarrow> (set_contribution \<times> set_contribution) set" where
  "reliance cs = {(c, d). c \<in> set cs \<and> d \<in> set cs \<and> relies c d}"

lemma positionsRelied_iff:
  "distinct (map sc_Reference cs) \<Longrightarrow>
   (i, j) \<in> positionsRelied cs \<longleftrightarrow> i < length cs \<and> j < length cs \<and> relies (cs ! i) (cs ! j)"
  by (auto simp: positionsRelied_def contributionDeps_iff)

lemma trancl_positions:
  assumes "distinct (map sc_Reference cs)" "(i, j) \<in> (positionsRelied cs)\<^sup>+"
  shows "(cs ! i, cs ! j) \<in> (reliance cs)\<^sup>+"
  using assms(2)
proof (induction rule: trancl_induct)
  case (base j)
  then show ?case using assms(1) by (auto simp: positionsRelied_iff reliance_def)
next
  case (step j k)
  have "(cs ! j, cs ! k) \<in> reliance cs"
    using step.hyps(2) assms(1) by (simp add: positionsRelied_iff reliance_def)
  then show ?case using step.IH by (rule trancl_into_trancl [rotated])
qed

lemma trancl_reliance:
  assumes "distinct (map sc_Reference cs)" "(c, d) \<in> (reliance cs)\<^sup>+" "i < length cs" "cs ! i = c"
  shows "\<exists>j < length cs. cs ! j = d \<and> (i, j) \<in> (positionsRelied cs)\<^sup>+"
  using assms(2)
proof (induction rule: trancl_induct)
  case (base d)
  then obtain j where "j < length cs" "cs ! j = d" "relies (cs ! i) (cs ! j)"
    using assms(4) by (auto simp: reliance_def in_set_conv_nth)
  moreover from this have "(i, j) \<in> (positionsRelied cs)\<^sup>+" using assms by (auto simp: positionsRelied_iff)
  ultimately show ?case by blast
next
  case (step d e)
  then obtain j where j: "j < length cs" "cs ! j = d" "(i, j) \<in> (positionsRelied cs)\<^sup>+" by blast
  obtain k where k: "k < length cs" "cs ! k = e" "relies (cs ! j) (cs ! k)"
    using step.hyps(2) j(2) by (auto simp: reliance_def in_set_conv_nth)
  then have "(j, k) \<in> positionsRelied cs" using assms(1) j(1) by (simp add: positionsRelied_iff)
  then show ?case using j(3) k(1,2) by (blast intro: trancl_into_trancl)
qed

lemma cycle_position:
  assumes "distinct (map sc_Reference cs)" "(c, c) \<in> (reliance cs)\<^sup>+"
  shows "\<exists>i < length cs. cs ! i = c \<and> (i, i) \<in> (positionsRelied cs)\<^sup>+"
proof -
  have "c \<in> set cs" using tranclD [OF assms(2)] by (auto simp: reliance_def)
  then obtain i where i: "i < length cs" "cs ! i = c" by (auto simp: in_set_conv_nth)
  then obtain j where j: "j < length cs" "cs ! j = c" "(i, j) \<in> (positionsRelied cs)\<^sup>+"
    using trancl_reliance [OF assms] by blast
  then have "j = i" using i assms(1) by (metis distinct_map nth_eq_iff_index_eq)
  then show ?thesis using i j by blast
qed

lemma acyclic_positions:
  assumes "distinct (map sc_Reference cs)"
  shows "acyclic (positionsRelied cs) \<longleftrightarrow> acyclic (reliance cs)"
  using trancl_positions [OF assms] cycle_position [OF assms] by (fastforce simp: acyclic_def)

text \<open>What the order promises: it holds every contribution once, and whatever a contribution relies
  on comes before it.\<close>

lemma contributionOrder_facts:
  assumes ok: "distinct (map sc_Reference cs)" and run: "contributionOrder cs = (placed, final)"
  shows "length placed = length cs \<longleftrightarrow> acyclic (reliance cs)"
    and "length placed = length cs \<Longrightarrow> mset placed = mset [0..<length cs]"
    and "deps_first (\<lambda>i. set (contributionDeps cs i)) {} placed"
    and "least_first (set [0..<length cs]) (\<lambda>i. set (contributionDeps cs i)) (\<lambda>i. i) {} placed"
    and "(i, i) \<in> (positionsRelied cs)\<^sup>+ \<Longrightarrow> i < length cs \<and> degree final i > 0"
proof -
  note go = contributionLoop_run [OF run [unfolded contributionOrder_def]]
  show "length placed = length cs \<longleftrightarrow> acyclic (reliance cs)"
    using contributions.run_complete_iff [OF ok go] acyclic_positions [OF ok]
    by (simp add: positionsRelied_def)
  show "length placed = length cs \<Longrightarrow> mset placed = mset [0..<length cs]"
    using contributions.run_places_all [OF ok go] by simp
  show "deps_first (\<lambda>i. set (contributionDeps cs i)) {} placed"
    by (rule contributions.run_from_start(3) [OF ok go])
  show "least_first (set [0..<length cs]) (\<lambda>i. set (contributionDeps cs i)) (\<lambda>i. i) {} placed"
    by (rule contributions.run_least [OF go ok contributions.loop_inv_start [OF ok] refl])
  show "(i, i) \<in> (positionsRelied cs)\<^sup>+ \<Longrightarrow> i < length cs \<and> degree final i > 0"
    using contributions.run_cycle_unmet [OF ok go, of i] by (simp add: positionsRelied_def)
qed

lemma placed_relies:
  assumes "distinct (map sc_Reference cs)" "contributionOrder cs = (placed, final)" "length placed = length cs"
  shows "mset (map ((!) cs) placed) = mset cs"
    and "deps_first (\<lambda>c. {d \<in> set cs. relies c d}) {} (map ((!) cs) placed)"
proof -
  note facts = contributionOrder_facts [OF assms(1,2)]
  have "mset (map ((!) cs) placed) = image_mset ((!) cs) (mset [0..<length cs])"
    using facts(2) [OF assms(3)] by simp
  also have "\<dots> = mset (map ((!) cs) [0..<length cs])" by (simp only: mset_map)
  also have "\<dots> = mset cs" by (simp only: map_nth)
  finally show "mset (map ((!) cs) placed) = mset cs" .
  have "set placed = {..<length cs}"
    using facts(2) [OF assms(3)] by (metis atLeast_upt mset_eq_setD)
  moreover have "\<exists>j \<in> set (contributionDeps cs i). cs ! j = d"
    if i: "i < length cs" and d: "d \<in> {d \<in> set cs. relies (cs ! i) d}" for i d
  proof -
    obtain j where "j < length cs" "cs ! j = d" "relies (cs ! i) (cs ! j)"
      using d by (auto simp: in_set_conv_nth)
    then show ?thesis using assms(1) i contributionDeps_iff by blast
  qed
  ultimately have "deps_first (\<lambda>c. {d \<in> set cs. relies c d}) ((!) cs ` {}) (map ((!) cs) placed)"
    by (intro deps_first_map [OF facts(3)]) auto
  then show "deps_first (\<lambda>c. {d \<in> set cs. relies c d}) {} (map ((!) cs) placed)" by simp
qed

lemma orderContributions_result:
  assumes "distinct (setReference # map sc_Reference kits)" "orderContributions own kits = Inr out"
  shows "mset out = mset (allContributions own kits)"
    and "c \<in> set (allContributions own kits) \<Longrightarrow> d \<in> set (allContributions own kits) \<Longrightarrow> relies c d \<Longrightarrow> precedes out d c"
proof -
  let ?cs = "allContributions own kits"
  have ok: "distinct (map sc_Reference ?cs)" using assms(1) by (auto simp: allContributions_def)
  obtain placed final where run: "contributionOrder ?cs = (placed, final)" by fastforce
  then have out: "out = map ((!) ?cs) placed" "length placed = length ?cs"
    using assms(2) by (auto simp: orderContributions_eq Let_def split: if_splits)
  show "mset out = mset ?cs" using placed_relies(1) [OF ok run out(2)] by (simp add: out(1))
  then show "precedes out d c" if "c \<in> set ?cs" "d \<in> set ?cs" "relies c d"
    using deps_first_precedes [OF placed_relies(2) [OF ok run out(2)], of c d] that mset_eq_setD [of out ?cs] out(1)
    by auto
qed

text \<open>Property C12. The order of a set's contributions. When the listed references are distinct, the
  set and its kits are ordered exactly when they do not rely on each other in a circle. An order
  holds every kit and the set once, each after everything it relies on; a refusal names every
  contribution on a circle.\<close>

theorem set_order_exact:
  fixes own kits
  assumes "distinct (setReference # map sc_Reference kits)"
  defines "cs \<equiv> allContributions own kits"
  shows "(is_ok (orderContributions own kits) \<longleftrightarrow> acyclic (reliance cs)) \<and>
    (\<forall>out. orderContributions own kits = Inr out \<longrightarrow>
       mset out = mset cs \<and> (\<forall>c \<in> set cs. \<forall>d \<in> set cs. relies c d \<longrightarrow> precedes out d c)) \<and>
    (\<forall>e. orderContributions own kits = Inl e \<longrightarrow>
       (\<exists>refs. e = SetCycle refs \<and> {sc_Reference c | c. (c, c) \<in> (reliance cs)\<^sup>+} \<subseteq> set refs))"
proof -
  have ok: "distinct (map sc_Reference cs)"
    using assms(1) by (auto simp: cs_def allContributions_def)
  obtain placed final where run: "contributionOrder cs = (placed, final)" by fastforce
  note facts = contributionOrder_facts [OF ok run]
  have eq: "orderContributions own kits =
      (if length placed \<noteq> length cs
       then Inl (SetCycle (sort (map (\<lambda>i. sc_Reference (cs ! i)) (filter (\<lambda>i. degree final i > 0) [0..<length cs]))))
       else Inr (map ((!) cs) placed))"
    using run by (simp add: orderContributions_eq cs_def Let_def)
  have "mset out = mset cs \<and> (\<forall>c \<in> set cs. \<forall>d \<in> set cs. relies c d \<longrightarrow> precedes out d c)"
    if "orderContributions own kits = Inr out" for out
    using orderContributions_result [OF assms(1) that] by (simp add: cs_def)
  moreover have "\<exists>refs. e = SetCycle refs \<and> {sc_Reference c | c. (c, c) \<in> (reliance cs)\<^sup>+} \<subseteq> set refs"
    if "orderContributions own kits = Inl e" for e
    using that facts(5) cycle_position [OF ok] by (fastforce simp: eq split: if_splits)
  ultimately show ?thesis using facts(1) by (simp add: eq)
qed

definition plainDescriptor :: "string list \<Rightarrow> string list \<Rightarrow> descriptor" where
  "plainDescriptor provided required =
     emptyDescriptor\<lparr>Kind := KindMixin, Provides := provided, Requires := required\<rparr>"

definition teamKits :: "set_contribution list" where
  "teamKits =
     [\<lparr>sc_Reference = ''a'', sc_Descriptor = plainDescriptor [''shell@1''] [''team'']\<rparr>,
      \<lparr>sc_Reference = ''b'', sc_Descriptor = plainDescriptor [''python@3''] [''shell'']\<rparr>]"

theorem set_order_exact_witness:
  "distinct (setReference # map sc_Reference teamKits) \<and>
   map_sum id (map sc_Reference) (orderContributions (plainDescriptor [''team@1''] []) teamKits)
     = Inr [setReference, ''a'', ''b''] \<and>
   acyclic (reliance (allContributions (plainDescriptor [''team@1''] []) teamKits))"
proof -
  have refs: "distinct (setReference # map sc_Reference teamKits)" by code_simp
  moreover have run: "map_sum id (map sc_Reference) (orderContributions (plainDescriptor [''team@1''] []) teamKits)
     = Inr [setReference, ''a'', ''b'']" by code_simp
  moreover have "is_ok (orderContributions (plainDescriptor [''team@1''] []) teamKits)"
    using run by (cases "orderContributions (plainDescriptor [''team@1''] []) teamKits") auto
  ultimately show ?thesis
    using set_order_exact [OF refs, of "plainDescriptor [''team@1''] []"] by blast
qed

section \<open>Relations\<close>

lemma firstError_None [simp]: "firstError f xs = None \<longleftrightarrow> (\<forall>x \<in> set xs. f x = None)"
  by (induction xs) (auto split: option.splits)

text \<open>The names a list of contributions offers, and an entry they could meet: either it names
  nothing they offer, or one of their offers satisfies it.\<close>

definition namesOf :: "set_contribution list \<Rightarrow> string set" where
  "namesOf cs = {pName p | p c. c \<in> set cs \<and> p \<in> set (offersOf c)}"

definition metBy :: "set_contribution list \<Rightarrow> string \<Rightarrow> bool" where
  "metBy cs s \<longleftrightarrow>
     (\<forall>r. ParseRequire s = Inr r \<and> rName r \<in> namesOf cs \<longrightarrow>
        (\<exists>c \<in> set cs. \<exists>p \<in> set (offersOf c). pName p = rName r \<and> Satisfies p r))"

lemma names_offersOf:
  "pName ` set (offersOf c) = pName ` set (rights (map ParseProvide (Provides (sc_Descriptor c))))"
proof -
  have "map pName (offersOf c) = map pName (rights (map ParseProvide (Provides (sc_Descriptor c))))"
    by (simp add: offersOf_def)
  then show ?thesis by (metis list.set_map)
qed

lemma namesOf_eq: "namesOf cs = (\<Union>c \<in> set cs. pName ` set (rights (map ParseProvide (Provides (sc_Descriptor c)))))"
  unfolding names_offersOf [symmetric] by (auto simp: namesOf_def)

lemma dom_ownersOf: "dom (ownersOf cs) = namesOf cs"
proof -
  have "dom (foldl (\<lambda>owner (nm, r). if owner nm = None then owner(nm \<mapsto> r) else owner) m kvs) = dom m \<union> fst ` set kvs"
    for m :: "string \<rightharpoonup> string" and kvs
  proof (induction kvs arbitrary: m)
    case (Cons kv kvs)
    then show ?case by (cases kv; cases "m (fst kv)") (auto simp: insert_absorb domI)
  qed simp
  then show ?thesis by (simp add: ownersOf_def namesOf_eq image_UN image_image)
qed

lemma keys_ProvidesIndex: "fst ` set (ProvidesIndex cs) = namesOf cs"
  by (force simp: ProvidesIndex_def keys_index_of namesOf_def)

lemma checkRelationsAgainst_iff:
  "checkRelationsAgainst d (ProvidesIndex cs) who other = None \<longleftrightarrow>
   (\<forall>s \<in> set (Requires d) \<union> set (Integrates d). metBy cs s)"
proof -
  have known: "map_of (ProvidesIndex cs) nm = None \<longleftrightarrow> nm \<notin> namesOf cs" for nm
    unfolding keys_ProvidesIndex [symmetric] by (rule map_of_eq_None_iff)
  have "(case ParseRequire s of Inl e \<Rightarrow> None | Inr r \<Rightarrow>
           (case map_of (ProvidesIndex cs) (rName r) of None \<Rightarrow> None | Some provs \<Rightarrow>
              if SatisfiedBy (ProvidesIndex cs) r then None
              else Some (RelationUnmet who s other (describeOffers provs)))) = None \<longleftrightarrow> metBy cs s" for s
    using known by (auto simp: metBy_def SatisfiedBy_iff [symmetric] split: sum.splits option.splits) (metis option.distinct(1))
  then show ?thesis by (auto simp: checkRelationsAgainst_def)
qed

definition setAlone :: "descriptor \<Rightarrow> set_contribution list" where
  "setAlone own = [\<lparr>sc_Reference = setReference, sc_Descriptor = own\<rparr>]"

lemma owner_None: "ownersOf cs nm = None \<longleftrightarrow> nm \<notin> namesOf cs"
  by (metis domIff dom_ownersOf)

lemma setProvidesTaken_None:
  "setProvidesTaken (ownersOf kits) s = None \<longleftrightarrow> (\<forall>p. ParseProvide s = Inr p \<longrightarrow> pName p \<notin> namesOf kits)"
  by (cases "ParseProvide s") (simp_all add: setProvidesTaken_def owner_None)

lemma set_names_taken:
  "(\<forall>s \<in> set (Provides own). setProvidesTaken (ownersOf kits) s = None) \<longleftrightarrow> namesOf (setAlone own) \<inter> namesOf kits = {}"
proof -
  have "nm \<in> namesOf (setAlone own) \<longleftrightarrow> (\<exists>s \<in> set (Provides own). \<exists>p. ParseProvide s = Inr p \<and> nm = pName p)" for nm
    by (simp add: namesOf_eq setAlone_def set_rights image_iff) metis
  then show ?thesis by (simp add: setProvidesTaken_None disjoint_iff) metis
qed

lemma setRequiresItself_None:
  "setRequiresItself (ownersOf a) (ownersOf b) s = None \<longleftrightarrow>
   (\<forall>r. ParseRequire s = Inr r \<and> rName r \<in> namesOf a \<longrightarrow> rName r \<in> namesOf b)"
  by (auto simp: setRequiresItself_def owner_None split: sum.splits)

lemma checkKitAgainstSet_None:
  "checkKitAgainstSet (ProvidesIndex cs) (ownersOf cs) c = None \<longleftrightarrow>
   (\<forall>s \<in> set (Requires (sc_Descriptor c)) \<union> set (Integrates (sc_Descriptor c)). metBy cs s) \<and>
   (\<forall>nm \<in> set (Conflicts (sc_Descriptor c)). NormalizeCapabilityName nm \<notin> namesOf cs)"
  using checkRelationsAgainst_iff [of "sc_Descriptor c" cs "sc_Reference c" "''the set''"]
  by (cases "checkRelationsAgainst (sc_Descriptor c) (ProvidesIndex cs) (sc_Reference c) ''the set''")
    (auto simp: checkKitAgainstSet_def owner_None)

lemma checkSetRelations_None:
  "checkSetRelations own kits = None \<longleftrightarrow>
     (\<forall>s \<in> set (Provides own). setProvidesTaken (ownersOf kits) s = None) \<and>
     checkRelationsAgainst own (ProvidesIndex kits) ''the set'' ''the kits it lists'' = None \<and>
     (\<forall>nm \<in> set (Conflicts own). ownersOf kits (NormalizeCapabilityName nm) = None) \<and>
     (\<forall>s \<in> set (Requires own). setRequiresItself (ownersOf (setAlone own)) (ownersOf kits) s = None) \<and>
     (\<forall>c \<in> set kits. checkKitAgainstSet (ProvidesIndex (setAlone own)) (ownersOf (setAlone own)) c = None)"
  by (simp add: checkSetRelations_def providersOf_def setAlone_def Let_def del: firstError.simps)

lemma set_relations_names:
  "checkSetRelations own kits = None \<Longrightarrow> namesOf (setAlone own) \<inter> namesOf kits = {}"
  unfolding checkSetRelations_None set_names_taken by blast

text \<open>Property C21. The relations between a set and its kits. They are accepted exactly when the set
  provides no name a kit provides, every entry of either side that names something the other side
  offers is satisfied by one of its offers, no conflicts entry names what the other side offers,
  and the set requires nothing that only it provides.\<close>

theorem set_relations_exact:
  "checkSetRelations own kits = None \<longleftrightarrow>
   namesOf (setAlone own) \<inter> namesOf kits = {} \<and>
   (\<forall>s \<in> set (Requires own) \<union> set (Integrates own). metBy kits s) \<and>
   (\<forall>nm \<in> set (Conflicts own). NormalizeCapabilityName nm \<notin> namesOf kits) \<and>
   (\<forall>s \<in> set (Requires own). \<forall>r. ParseRequire s = Inr r \<longrightarrow> rName r \<notin> namesOf (setAlone own)) \<and>
   (\<forall>c \<in> set kits.
      (\<forall>s \<in> set (Requires (sc_Descriptor c)) \<union> set (Integrates (sc_Descriptor c)). metBy (setAlone own) s) \<and>
      (\<forall>nm \<in> set (Conflicts (sc_Descriptor c)). NormalizeCapabilityName nm \<notin> namesOf (setAlone own)))"
  unfolding checkSetRelations_None set_names_taken checkRelationsAgainst_iff owner_None setRequiresItself_None
    checkKitAgainstSet_None
  by blast

theorem set_relations_exact_witness:
  "checkSetRelations (plainDescriptor [''team@1''] [''shell >= 1'']) teamKits = None \<and>
   namesOf (setAlone (plainDescriptor [''team@1''] [''shell >= 1''])) \<inter> namesOf teamKits = {}"
proof -
  have "checkSetRelations (plainDescriptor [''team@1''] [''shell >= 1'']) teamKits = None" by code_simp
  then show ?thesis using set_relations_exact [of "plainDescriptor [''team@1''] [''shell >= 1'']" teamKits] by simp
qed

end
