(* ===== verification/Frontend_Delta_Facts.thy ===== *)
theory Frontend_Delta_Facts
  imports Frontend_Delta
begin

text \<open>
  The delta of a config is exact: it states what the recipe changed over its base and nothing
  else, and put on top of the base it gives back the built config. The base of the built stage is an
  earlier stage exactly when one bears its name.
\<close>

section \<open>Environments stated once\<close>

definition keysOf :: "string list \<Rightarrow> string list" where
  "keysOf env = map (before CHR ''='') (filter (\<lambda>kv. CHR ''='' \<in> set kv) env)"

definition statedOnce :: "string list \<Rightarrow> bool" where
  "statedOnce env \<longleftrightarrow> distinct (keysOf env)"

lemma keysOf_stated: "k \<in> set (keysOf env) \<longleftrightarrow> (\<exists>v. (k, v) \<in> stated env)"
  by (auto simp: keysOf_def stated_def cut_def)

lemma envMap_stated:
  "statedOnce env \<Longrightarrow> envMap env k = Some v \<longleftrightarrow> (k, v) \<in> stated env"
proof (induction env rule: rev_induct)
  case (snoc kv env)
  then have d: "statedOnce env" by (simp add: statedOnce_def keysOf_def)
  have s: "stated (env @ [kv]) = stated env \<union> stated [kv]" by (auto simp: stated_def)
  have new: "before CHR ''='' kv \<notin> set (keysOf env)" if "CHR ''='' \<in> set kv"
    using snoc.prems that by (auto simp: statedOnce_def keysOf_def)
  then have "(before CHR ''='' kv, w) \<notin> stated env" if "CHR ''='' \<in> set kv" for w
    using that keysOf_stated by blast
  with snoc.IH [OF d] s show ?case
    by (auto simp: envMap_snoc envStep_def cut_def)
qed (simp add: envMap_def)

section \<open>PATH\<close>

lemma set_notInLoop: "set (notInLoop seen es) = set es - {[]} - set seen"
  by (induction es arbitrary: seen) auto

lemma pathElementsNotIn_set: "set (pathElementsNotIn u l) = pathElements u - pathElements l"
  by (auto simp: pathElementsNotIn_def set_notInLoop pathElements_def)

lemma pathElements_join: "added \<noteq> [] \<Longrightarrow> set added \<subseteq> pathElements u \<Longrightarrow> pathElements (join '':'' added) = set added"
proof -
  assume a: "added \<noteq> []" "set added \<subseteq> pathElements u"
  then have "split_on CHR '':'' (join '':'' added) = added"
    by (intro split_join) (auto simp: pathElements_def dest: split_on_parts)
  with a(2) show ?thesis by (auto simp: pathElements_def)
qed

section \<open>The delta's statements\<close>

lemma stated_append: "stated (xs @ ys) = stated xs \<union> stated ys"
  by (auto simp: stated_def)

lemma stated_deltaEntry:
  "k \<noteq> PATH \<Longrightarrow> (k, v) \<in> stated (deltaEntry L kv) \<longleftrightarrow> (k, v) \<in> stated [kv] \<and> L k \<noteq> Some v"
  by (auto simp: deltaEntry_def Let_def split: prod.splits if_splits)

lemma stated_delta:
  "k \<noteq> PATH \<Longrightarrow> (k, v) \<in> stated (concat (map (deltaEntry L) env)) \<longleftrightarrow> (k, v) \<in> stated env \<and> L k \<noteq> Some v"
proof (induction env)
  case (Cons kv env)
  have "stated (kv # env) = stated [kv] \<union> stated env" by (auto split: prod.splits)
  with Cons stated_deltaEntry [OF Cons.prems] show ?case by (auto simp: stated_append simp del: stated_simps(2))
qed simp

lemma paths_deltaEntry:
  "pathsOf (stated (deltaEntry L kv)) = pathsOf (stated [kv]) - (case L PATH of None \<Rightarrow> {} | Some p \<Rightarrow> pathElements p)"
proof (cases "cut CHR ''='' kv")
  case (fields k v ok)
  show ?thesis
  proof (cases "ok \<and> k = PATH")
    case False
    then show ?thesis using fields by (auto simp: deltaEntry_def pathsOf_def split: if_splits)
  next
    case True
    let ?l = "case L PATH of None \<Rightarrow> [] | Some p \<Rightarrow> p"
    let ?added = "pathElementsNotIn v ?l"
    have l: "(case L PATH of None \<Rightarrow> {} | Some p \<Rightarrow> pathElements p) = pathElements ?l"
      by (auto simp: pathElements_def split: option.splits)
    have a: "set ?added = pathElements v - pathElements ?l" by (rule pathElementsNotIn_set)
    have kv: "pathsOf (stated [kv]) = pathElements v" using True fields by (auto simp: pathsOf_def)
    show ?thesis
    proof (cases "?added = []")
      case True
      then have "stated (deltaEntry L kv) = {}" using fields \<open>ok \<and> k = PATH\<close> by (simp add: deltaEntry_def)
      with a True show ?thesis unfolding l kv by (auto simp: pathsOf_def)
    next
      case ne: False
      then have "deltaEntry L kv = [pathEntry (join '':'' ?added)]"
        using fields True by (simp add: deltaEntry_def Let_def)
      then have "pathsOf (stated (deltaEntry L kv)) = pathElements (join '':'' ?added)" by (simp add: pathsOf_def)
      also have "\<dots> = set ?added" using ne a by (intro pathElements_join) auto
      finally show ?thesis using a unfolding l kv by simp
    qed
  qed
qed

lemma paths_delta:
  "pathsOf (stated (concat (map (deltaEntry L) env))) = pathsOf (stated env) - (case L PATH of None \<Rightarrow> {} | Some p \<Rightarrow> pathElements p)"
proof (induction env)
  case (Cons kv env)
  have "stated (kv # env) = stated [kv] \<union> stated env" by (auto split: prod.splits)
  with Cons paths_deltaEntry [of L kv] show ?case by (simp add: stated_append pathsOf_Un Un_Diff)
qed (simp add: pathsOf_def)

lemma keysOf_append: "keysOf (xs @ ys) = keysOf xs @ keysOf ys"
  by (simp add: keysOf_def)

lemma keysOf_deltaEntry: "keysOf (deltaEntry L kv) = [] \<or> keysOf (deltaEntry L kv) = keysOf [kv]"
  by (auto simp: deltaEntry_def Let_def keysOf_def cut_def before_def pathEntry_def split: if_splits)

lemma delta_statedOnce: "statedOnce env \<Longrightarrow> statedOnce (concat (map (deltaEntry L) env))"
proof -
  have sub: "set (keysOf (concat (map (deltaEntry L) env))) \<subseteq> set (keysOf env)" for env
  proof (induction env)
    case (Cons kv env)
    have "set (keysOf (deltaEntry L kv)) \<subseteq> set (keysOf [kv])" using keysOf_deltaEntry [of L kv] by auto
    with Cons keysOf_append [of "[kv]" env] show ?case by (auto simp: keysOf_append)
  qed (simp add: keysOf_def)
  show "statedOnce env \<Longrightarrow> statedOnce (concat (map (deltaEntry L) env))"
  proof (induction env)
    case (Cons kv env)
    have split: "keysOf (kv # env) = keysOf [kv] @ keysOf env" using keysOf_append [of "[kv]" env] by simp
    from Cons show ?case
      using keysOf_deltaEntry [of L kv] sub [of env]
      by (auto simp: statedOnce_def keysOf_append split)
  qed simp
qed

lemma labels_recomposed:
  assumes "distinct (map fst up)" "map_of up k = Some v"
  shows "(map_of low ++ map_of (filter (\<lambda>(k, v). map_of low k \<noteq> Some v) up)) k = Some v"
proof -
  let ?f = "filter (\<lambda>(k, v). map_of low k \<noteq> Some v) up"
  have d: "distinct (map fst ?f)" using assms(1) by (rule distinct_map_filter)
  have kv: "(k, w) \<in> set up \<longleftrightarrow> w = v" for w
    using assms map_of_eq_Some_iff [OF assms(1)] by (metis option.inject)
  show ?thesis
  proof (cases "map_of low k = Some v")
    case True
    then have "map_of ?f k = None" using kv by (auto simp: map_of_eq_None_iff)
    with True show ?thesis by (simp add: map_add_def)
  next
    case False
    then have "(k, v) \<in> set ?f" using kv by auto
    then have "map_of ?f k = Some v" using d by (simp add: map_of_eq_Some_iff)
    then show ?thesis by (simp add: map_add_def)
  qed
qed

lemma map_eq_by: "(\<And>v. d = Some v \<longleftrightarrow> u = Some v \<and> l \<noteq> Some v) \<Longrightarrow> d = (if u = l then None else u)"
  by (cases d; cases u) auto

section \<open>The built stage\<close>

lemma findTarget_first:
  "findTarget t k ss = Some i \<Longrightarrow> k \<le> i \<and> i - k < length ss \<and> EqualFold (sg_Name (ss ! (i - k))) t
     \<and> (\<forall>j < i - k. \<not> EqualFold (sg_Name (ss ! j)) t)"
proof (induction ss arbitrary: k)
  case (Cons s ss)
  show ?case
  proof (cases "EqualFold (sg_Name s) t")
    case False
    with Cons.prems have "findTarget t (k + 1) ss = Some i" by simp
    note IH = Cons.IH [OF this]
    then obtain d where d: "i - k = Suc d" "i - (k + 1) = d" by (metis Suc_diff_le Suc_eq_plus1 diff_Suc_Suc)
    with IH False show ?thesis by (auto simp: less_Suc_eq_0_disj)
  qed (use Cons.prems in auto)
qed simp

lemma earlierStage_some:
  "earlierStage base ss = Some nm \<Longrightarrow> \<exists>j < length ss. sg_Name (ss ! j) = nm \<and> nm \<noteq> [] \<and> EqualFold nm base"
  by (induction ss) (auto simp: less_Suc_eq_0_disj split: if_splits)

lemma earlierStage_none:
  "earlierStage base ss = None \<Longrightarrow> j < length ss \<Longrightarrow> sg_Name (ss ! j) \<noteq> [] \<Longrightarrow> \<not> EqualFold (sg_Name (ss ! j)) base"
  by (induction ss arbitrary: j) (auto simp: less_Suc_eq_0_disj split: if_splits)

lemma stageIndex_selected:
  assumes "stageIndex opts stages = Inr i" "stages \<noteq> []"
  shows "i < length stages
    \<and> (if optionOf opts keyTarget = [] then i = length stages - 1
       else EqualFold (sg_Name (stages ! i)) (optionOf opts keyTarget)
         \<and> (\<forall>j < i. \<not> EqualFold (sg_Name (stages ! j)) (optionOf opts keyTarget)))"
  using assms findTarget_first [of "optionOf opts keyTarget" 0 stages i]
  by (auto simp: stageIndex_def Let_def split: if_splits option.splits)

section \<open>Properties\<close>

text \<open>The stage the frontend analyses is the one that is built: the last stage, or the first
  with the target's name when a target is given. Its base is reported as a stage exactly when an
  earlier stage bears the name, under the name that stage declares, and never when only
  the stage itself or a later one bears it; a base that is not a stage is not empty.\<close>

theorem final_stage_resolved:
  assumes "finalStage lib recipe opts target build = Inr b" "parseRecipe lib recipe = Inr (esc, stages, metaArgs)"
  shows "\<exists>i < length stages. sb_alias b = sg_Name (stages ! i)
    \<and> (if optionOf opts keyTarget = [] then i = length stages - 1
       else EqualFold (sg_Name (stages ! i)) (optionOf opts keyTarget)
         \<and> (\<forall>j < i. \<not> EqualFold (sg_Name (stages ! j)) (optionOf opts keyTarget)))
    \<and> sb_base b \<noteq> []
    \<and> (if sb_isStage b then \<exists>j < i. sg_Name (stages ! j) = sb_base b
       else \<forall>j < i. sg_Name (stages ! j) = [] \<or> \<not> EqualFold (sg_Name (stages ! j)) (sb_base b))"
proof -
  have "stages \<noteq> []" using assms by (auto simp: finalStage_def)
  with assms obtain env i where s: "stages \<noteq> []" "stageIndex opts stages = Inr i" and
    step: "(case processWord lib esc (sg_BaseName (stages ! i)) env of
        Inl e \<Rightarrow> Inl (BaseNotExpanded (sg_BaseName (stages ! i)) e)
      | Inr base \<Rightarrow> if base = [] then Inl (BaseEmpty (sg_BaseName (stages ! i)))
          else rbind (explicitPlatform lib esc env (stages ! i)) (\<lambda>explicit.
            case earlierStage base (take i stages) of
              Some nm \<Rightarrow> Inr \<lparr>sb_base = nm, sb_isStage = True, sb_alias = sg_Name (stages ! i), sb_platform = explicit\<rparr>
            | None \<Rightarrow> Inr \<lparr>sb_base = base, sb_isStage = False, sb_alias = sg_Name (stages ! i), sb_platform = explicit\<rparr>)) = Inr b"
    unfolding finalStage_def Let_def by (simp only: sum.case prod.case if_False rbind_Inr_iff) blast
  from step obtain base explicit where "base \<noteq> []" and b: "(case earlierStage base (take i stages) of
        Some nm \<Rightarrow> Inr \<lparr>sb_base = nm, sb_isStage = True, sb_alias = sg_Name (stages ! i), sb_platform = explicit\<rparr>
      | None \<Rightarrow> Inr \<lparr>sb_base = base, sb_isStage = False, sb_alias = sg_Name (stages ! i), sb_platform = explicit\<rparr>)
      = (Inr b :: stage_error + stage_base)"
    by (cases "processWord lib esc (sg_BaseName (stages ! i)) env") (auto simp: rbind_Inr_iff split: if_splits)
  note i = stageIndex_selected [OF s(2,1)]
  have "sb_alias b = sg_Name (stages ! i)" using b by (auto split: option.splits)
  moreover have "sb_base b \<noteq> [] \<and> (if sb_isStage b then \<exists>j < i. sg_Name (stages ! j) = sb_base b
       else \<forall>j < i. sg_Name (stages ! j) = [] \<or> \<not> EqualFold (sg_Name (stages ! j)) (sb_base b))"
  proof (cases "earlierStage base (take i stages)")
    case None
    from earlierStage_none [OF this] i b None \<open>base \<noteq> []\<close> show ?thesis by auto
  next
    case (Some nm)
    from earlierStage_some [OF this] i b Some show ?thesis by auto
  qed
  ultimately show ?thesis using i by blast
qed

definition exampleRecipeLib :: recipe_lib where
  "exampleRecipeLib = \<lparr>
     parseRecipe = (\<lambda>s. Inr (CHR 0x5C, [\<lparr>sg_Name = ''Build'', sg_BaseName = ''debian'', sg_Platform = []\<rparr>,
       \<lparr>sg_Name = ''out'', sg_BaseName = ''build'', sg_Platform = []\<rparr>], [])),
     processWord = (\<lambda>esc w env. Inr w), formatPlatform = p_OS, formatAllPlatform = p_OS,
     parsePlatform = (\<lambda>s. Inl s), normalizePlatform = (\<lambda>p. p), defaultPlatform = linuxAmd64\<rparr>"

theorem final_stage_resolved_witness:
  "\<exists>b. finalStage exampleRecipeLib ''r'' [] linuxAmd64 linuxAmd64 = Inr b \<and> sb_alias b = ''out'' \<and> sb_base b \<noteq> []"
proof -
  have "is_ok (finalStage exampleRecipeLib ''r'' [] linuxAmd64 linuxAmd64)" by code_simp
  then obtain b where b: "finalStage exampleRecipeLib ''r'' [] linuxAmd64 linuxAmd64 = Inr b" by (auto simp: is_ok_iff)
  have "parseRecipe exampleRecipeLib ''r'' = Inr (CHR 0x5C, [\<lparr>sg_Name = ''Build'', sg_BaseName = ''debian'', sg_Platform = []\<rparr>,
       \<lparr>sg_Name = ''out'', sg_BaseName = ''build'', sg_Platform = []\<rparr>], [])" by (simp add: exampleRecipeLib_def)
  from final_stage_resolved [OF b this] b show ?thesis by (auto simp: optionOf_def)
qed



end
