(* ===== verification/Frontend_Set_Build_Facts.thy ===== *)
theory Frontend_Set_Build_Facts
  imports Frontend_Set_Build Frontend_Set_Facts Frontend_Delta_Facts Kit_Args_Facts Fetch_Facts
begin

text \<open>
  What the build of a set guarantees: an argument a set re-exports is never held to less than the
  kit's own declaration, the variables its kits export override the merged environment exactly,
  the runtime contract is the workload's, and a finished build holds every listed kit once, in an
  order its relations allow, under distinct staged names.
\<close>

section \<open>Re-exported arguments\<close>

lemma ReferencedArgs_whole: "IsWholeArgRef v \<Longrightarrow> argRefAt v = Some (other, rest) \<Longrightarrow> ReferencedArgs v = [other]"
  by (cases v) (auto simp: IsWholeArgRef_def ReferencedArgs_def placeholderNames.simps dedupe_def argRefAt_def has_prefix_def)

lemma widerEnum_None [simp]: "widerEnum allowed vs = None \<longleftrightarrow> set vs \<subseteq> set allowed"
  by (induction vs) auto

lemma CheckReExport_admits:
  assumes "CheckReExport kit (Some s) = None" "argEnum s = [] \<or> argPattern s = []" "checkArgValue m nm' s v = None"
  shows "checkArgValue m nm kit v = None"
  using assms by (auto simp: CheckReExport_def checkArgValue_def split: if_splits option.splits sum.splits)

lemma CheckReExport_answers:
  assumes "CheckReExport kit (Some s) = None" "argRequired kit \<or> argDefault kit \<noteq> None"
  shows "argRequired s \<or> argDefault s \<noteq> None"
  using assms by (auto simp: CheckReExport_def split: if_splits option.splits)

lemma KitArgValues_deferred:
  assumes "KitArgValues fm decls supplied = Inr vals" "(nm, v) \<in> set supplied" "IsWholeArgRef v"
  shows "(nm, v) \<in> set vals"
proof -
  obtain lit def where sep: "separateLoop decls supplied = Inr (lit, def)"
    using assms(1) by (auto simp: KitArgValues_def rbind_Inr_iff)
  then have "set def \<subseteq> set vals"
    using assms(1) by (auto simp: KitArgValues_def rbind_Inr_iff)
  moreover have "(nm, v) \<in> set def" using separateLoop_spec [of decls supplied] sep assms(2,3) by auto
  ultimately show ?thesis by blast
qed

lemma kitDeclarations_args:
  assumes "kitDeclarations lib published k setArgs = Inr (d, env)"
  obtains vals where "KitArgValues (fullMatchOf (kitLib lib)) (Args published) (kitArgs k) = Inr vals"
    "checkReExports (Args published) setArgs vals = None" "kitExports vals [] (Args published) = Inr env" "Args d = []"
proof -
  obtain vals where vals: "KitArgValues (fullMatchOf (kitLib lib)) (Args published) (kitArgs k) = Inr vals"
    using assms by (cases "KitArgValues (fullMatchOf (kitLib lib)) (Args published) (kitArgs k)")
      (simp_all add: kitDeclarations_def)
  moreover have re: "checkReExports (Args published) setArgs vals = None"
    using assms vals by (cases "checkReExports (Args published) setArgs vals") (simp_all add: kitDeclarations_def)
  moreover obtain env' where env': "kitExports vals [] (Args published) = Inr env'"
    using assms vals re by (cases "kitExports vals [] (Args published)") (simp_all add: kitDeclarations_def)
  moreover obtain raw where raw: "encodeDescriptor (kitLib lib) published = Inr raw"
    using assms vals re env' by (cases "encodeDescriptor (kitLib lib) published") (simp_all add: kitDeclarations_def)
  moreover obtain filled where filled: "expandCreateArgs (kitLib lib) raw (Args published) vals = Inr filled"
    using assms vals re env' raw
    by (cases "expandCreateArgs (kitLib lib) raw (Args published) vals") (simp_all add: kitDeclarations_def)
  moreover obtain d' where d': "decodeSpec (registryLib (kitLib lib)) filled = Inr d'"
    using assms vals re env' raw filled
    by (cases "decodeSpec (registryLib (kitLib lib)) filled") (simp_all add: kitDeclarations_def)
  ultimately have "d = d'\<lparr>Args := []\<rparr>" "env = env'"
    using assms by (auto simp: kitDeclarations_def Let_def split: option.splits)
  then show thesis using vals re env' by (intro that) auto
qed

lemma resolved_argument:
  assumes "ResolveArgs fm decls supplied = Inr vals" "distinct (map fst decls)" "map_of decls nm = Some decl"
  shows "map_of vals nm = arg_value supplied nm decl" "arg_ok fm supplied nm decl"
proof -
  have run: "resolveLoop fm supplied decls = Inr vals"
    using assms(1) by (simp add: ResolveArgs_def split: option.splits)
  then have "vals = concat (map (\<lambda>(nm, decl). case arg_value supplied nm decl of None \<Rightarrow> [] | Some v \<Rightarrow> [(nm, v)]) decls)"
    "list_all (\<lambda>(nm, decl). arg_ok fm supplied nm decl) decls"
    using resolveLoop_spec [of fm supplied decls] by (auto simp: is_ok_iff)
  then show "map_of vals nm = arg_value supplied nm decl" "arg_ok fm supplied nm decl"
    using map_of_collect [OF assms(2), of "arg_value supplied" nm] map_of_SomeD [OF assms(3)] assms(3)
    by (auto simp: list_all_iff)
qed

text \<open>Property C16. A re-exported argument. When a set's value for a kit's argument is a reference to an
  argument of the set, the set declares it, every value an installer can give it is one the kit's
  own declaration admits, and it always has a value where the kit's argument is required or has a
  default. (A declaration has an enum or a pattern, never both.)\<close>

theorem re_export_never_widens:
  assumes "kitDeclarations lib published k setArgs = Inr (d, env)"
    and "(nm, v) \<in> set (kitArgs k)" "argRefAt v = Some (other, [])" "map_of (Args published) nm = Some decl"
  shows "\<exists>s. map_of setArgs other = Some s \<and>
    (\<forall>decls supplied vals.
       (argEnum s = [] \<or> argPattern s = []) \<and> distinct (map fst decls) \<and> map_of decls other = Some s \<and>
       ResolveArgs (fullMatchOf (kitLib lib)) decls supplied = Inr vals \<longrightarrow>
       (\<forall>w. map_of vals other = Some w \<longrightarrow> checkArgValue (fullMatchOf (kitLib lib)) nm decl w = None) \<and>
       (argRequired decl \<or> argDefault decl \<noteq> None \<longrightarrow> map_of vals other \<noteq> None))"
proof -
  let ?m = "fullMatchOf (kitLib lib)"
  obtain vals0 where vals0: "KitArgValues ?m (Args published) (kitArgs k) = Inr vals0"
    "checkReExports (Args published) setArgs vals0 = None"
    by (rule kitDeclarations_args [OF assms(1)])
  have whole: "IsWholeArgRef v" using assms(3) by (simp add: IsWholeArgRef_def)
  have "(nm, v) \<in> set vals0" by (rule KitArgValues_deferred [OF vals0(1) assms(2) whole])
  then have re: "CheckReExport decl (map_of setArgs other) = None"
    using vals0(2) whole ReferencedArgs_whole [OF whole assms(3)] assms(4)
    by (auto simp: checkReExports_def)
  then obtain s where s: "map_of setArgs other = Some s" by (auto simp: CheckReExport_def split: option.splits)
  have admits: "checkArgValue ?m nm decl w = None"
    if "argEnum s = [] \<or> argPattern s = []" "checkArgValue ?m other s w = None" for w
    by (rule CheckReExport_admits [OF re [unfolded s] that])
  have answers: "argRequired s \<or> argDefault s \<noteq> None" if "argRequired decl \<or> argDefault decl \<noteq> None"
    by (rule CheckReExport_answers [OF re [unfolded s] that])
  show ?thesis
  proof (intro exI conjI allI impI, rule s)
    fix decls supplied vals w
    assume r: "(argEnum s = [] \<or> argPattern s = []) \<and> distinct (map fst decls) \<and> map_of decls other = Some s \<and>
       ResolveArgs ?m decls supplied = Inr vals"
    note out = resolved_argument [of ?m decls supplied vals other s]
    show "checkArgValue ?m nm decl w = None" if "map_of vals other = Some w"
      using out r that admits [of w] by (auto simp: arg_ok_def arg_value_def split: option.splits)
    show "map_of vals other \<noteq> None" if "argRequired decl \<or> argDefault decl \<noteq> None"
      using out r answers [OF that] by (auto simp: arg_ok_def arg_value_def split: option.splits)
  qed
qed

section \<open>Exported variables\<close>

definition boundPairs :: "(string \<times> binding) list \<Rightarrow> (string \<times> string) set" where
  "boundPairs bound = {(nm, v). map_option bn_value (map_of bound nm) = Some v}"

lemma single_boundPairs: "single_valued (boundPairs bound)"
  by (auto simp: boundPairs_def single_valued_def)

lemma boundPairs_snoc:
  "map_of bound nm = None \<Longrightarrow> boundPairs (bound @ [(nm, b)]) = insert (nm, bn_value b) (boundPairs bound)"
proof -
  assume "map_of bound nm = None"
  then have "map_option bn_value (map_of (bound @ [(nm, b)]) k) =
      (if k = nm then Some (bn_value b) else map_option bn_value (map_of bound k))" for k
    by (simp add: map_add_def split: option.splits)
  then show ?thesis using \<open>map_of bound nm = None\<close> by (auto simp: boundPairs_def split: if_splits)
qed

lemma bindLoop_spec:
  assumes "distinct (map fst bound)"
  shows "(is_ok (bindLoop owner bound env) \<longleftrightarrow> single_valued (boundPairs bound \<union> set env)) \<and>
    (\<forall>bound'. bindLoop owner bound env = Inr bound' \<longrightarrow>
       distinct (map fst bound') \<and> boundPairs bound' = boundPairs bound \<union> set env)"
  using assms
proof (induction owner bound env rule: bindLoop.induct)
  case (2 owner bound nm v env)
  show ?case
  proof (cases "map_of bound nm")
    case None
    then have "distinct (map fst (bound @ [(nm, \<lparr>bn_value = v, bn_owner = owner\<rparr>)]))"
      using "2.prems" by (auto simp: map_of_eq_None_iff)
    then show ?thesis using "2.IH"(1) [OF None] None boundPairs_snoc [OF None] by simp
  next
    case (Some held)
    then have mem: "(nm, bn_value held) \<in> boundPairs bound" by (auto simp: boundPairs_def)
    show ?thesis
    proof (cases "bn_value held = v")
      case True
      then have "boundPairs bound \<union> set ((nm, v) # env) = boundPairs bound \<union> set env" using mem by auto
      then show ?thesis using "2.IH"(2) [OF Some] "2.prems" Some True by simp
    next
      case False
      then have "\<not> single_valued (boundPairs bound \<union> set ((nm, v) # env))"
        using mem by (auto simp: single_valued_def)
      then show ?thesis using Some False by simp
    qed
  qed
qed (simp add: single_boundPairs)

lemma bindKits_spec:
  assumes "distinct (map fst bound)"
  shows "(is_ok (bindKits bound kits) \<longleftrightarrow> single_valued (boundPairs bound \<union> (\<Union>k \<in> set kits. set (rk_env k)))) \<and>
    (\<forall>bound'. bindKits bound kits = Inr bound' \<longrightarrow>
       distinct (map fst bound') \<and> boundPairs bound' = boundPairs bound \<union> (\<Union>k \<in> set kits. set (rk_env k)))"
  using assms
proof (induction bound kits rule: bindKits.induct)
  case (2 bound k kits)
  note one = bindLoop_spec [OF "2.prems", of "rk_reference k" "rk_env k"]
  show ?case
  proof (cases "bindLoop (rk_reference k) bound (rk_env k)")
    case (Inl e)
    then have "\<not> single_valued (boundPairs bound \<union> set (rk_env k))" using one by simp
    then have "\<not> single_valued (boundPairs bound \<union> (\<Union>k \<in> set (k # kits). set (rk_env k)))"
      by (auto intro: single_valued_mono)
    then show ?thesis using Inl by simp
  next
    case (Inr bound')
    then show ?thesis using "2.IH" [of bound'] one by (simp add: Un_assoc)
  qed
qed (simp add: single_boundPairs)

text \<open>An entry of an environment that states a variable, and one without an equals sign.\<close>

definition states :: "string \<Rightarrow> string \<Rightarrow> bool" where
  "states nm kv \<longleftrightarrow> CHR ''='' \<in> set kv \<and> before CHR ''='' kv = nm"

lemma states_entry: "CHR ''='' \<notin> set nm' \<Longrightarrow> states nm (nm' @ CHR ''='' # v) \<longleftrightarrow> nm = nm'"
  by (auto simp: states_def)

definition overridden :: "(string \<rightharpoonup> binding) \<Rightarrow> string list \<Rightarrow> string list \<Rightarrow> string list \<Rightarrow> string list \<Rightarrow> string \<Rightarrow> bool" where
  "overridden bm w0 env w out nm \<longleftrightarrow>
     set w = set w0 \<union> {nm \<in> dom bm. \<exists>kv \<in> set env. states nm kv} \<and>
     filter (states nm) out =
       (case bm nm of
          None \<Rightarrow> filter (states nm) env
        | Some b \<Rightarrow> if nm \<in> set w0 \<or> (\<forall>kv \<in> set env. \<not> states nm kv) then [] else [nm @ ''='' @ bn_value b]) \<and>
     filter (\<lambda>kv. CHR ''='' \<notin> set kv) out = filter (\<lambda>kv. CHR ''='' \<notin> set kv) env"

lemma overrideLoop_overridden:
  assumes "\<And>nm. nm \<in> dom bm \<Longrightarrow> CHR ''='' \<notin> set nm" "overrideLoop bm w0 env = (w, out)"
  shows "overridden bm w0 env w out nm"
  using assms(2)
proof (induction env arbitrary: w0 w out)
  case Nil
  then show ?case by (simp add: overridden_def split: option.splits)
next
  case (Cons kv env)
  let ?k = "before CHR ''='' kv"
  show ?case
  proof (cases "CHR ''='' \<in> set kv \<and> ?k \<in> dom bm")
    case False
    then obtain out' where "overrideLoop bm w0 env = (w, out')" "out = kv # out'"
      using Cons.prems by (auto simp: cut_def split: option.splits prod.splits if_splits)
    then show ?thesis using Cons.IH [of w0 w out'] False by (auto simp: overridden_def states_def split: option.splits)
  next
    case True
    then obtain b where b: "bm ?k = Some b" by blast
    show ?thesis
    proof (cases "?k \<in> set w0")
      case seen: True
      then have "overrideLoop bm w0 env = (w, out)" using Cons.prems True b by (simp add: cut_def)
      then show ?thesis using Cons.IH [of w0 w out] True seen by (auto simp: overridden_def states_def split: option.splits)
    next
      case False
      then obtain out' where o: "overrideLoop bm (?k # w0) env = (w, out')" "out = (?k @ ''='' @ bn_value b) # out'"
        using Cons.prems True b by (auto simp: cut_def split: prod.splits)
      have "states nm' (?k @ ''='' @ bn_value b) \<longleftrightarrow> nm' = ?k" for nm'
        using assms(1) True by (simp add: states_entry domIff)
      then show ?thesis
        using Cons.IH [OF o(1)] True False b o(2) by (auto simp: overridden_def states_def split: option.splits)
    qed
  qed
qed

lemma filter_states_entries:
  assumes "distinct xs" "\<forall>n \<in> set xs. CHR ''='' \<notin> set n"
  shows "filter (states nm) (map (\<lambda>n. n @ ''='' @ f n) xs) = (if nm \<in> set xs then [nm @ ''='' @ f nm] else [])"
  using assms by (induction xs) (auto simp: states_entry)

lemma boundPairs_iff:
  "(nm, v) \<in> boundPairs bound \<longleftrightarrow> (\<exists>b. map_of bound nm = Some b \<and> bn_value b = v)"
  by (auto simp: boundPairs_def)

lemma dom_boundPairs: "fst ` boundPairs bound = dom (map_of bound)"
proof (rule set_eqI)
  fix nm
  have "nm \<in> fst ` boundPairs bound \<longleftrightarrow> (\<exists>v. (nm, v) \<in> boundPairs bound)" by (force simp: image_iff)
  then show "nm \<in> fst ` boundPairs bound \<longleftrightarrow> nm \<in> dom (map_of bound)"
    by (cases "map_of bound nm") (simp_all add: boundPairs_iff domIff)
qed

definition exportedPairs :: "'s resolved_kit list \<Rightarrow> (string \<times> string) set" where
  "exportedPairs kits = (\<Union>k \<in> set kits. set (rk_env k))"

lemma applyArgExports_entries:
  assumes names: "\<forall>nm \<in> fst ` exportedPairs kits. CHR ''='' \<notin> set nm" and run: "applyArgExports cfg kits = Inr cfg'"
  shows "(nm, v) \<in> exportedPairs kits \<Longrightarrow> filter (states nm) (ic_Env cfg') = [nm @ ''='' @ v]"
    and "nm \<notin> fst ` exportedPairs kits \<Longrightarrow> filter (states nm) (ic_Env cfg') = filter (states nm) (ic_Env cfg)"
    and "filter (\<lambda>kv. CHR ''='' \<notin> set kv) (ic_Env cfg') = filter (\<lambda>kv. CHR ''='' \<notin> set kv) (ic_Env cfg)"
proof -
  obtain bound where bound: "bindKits [] kits = Inr bound"
    using run by (auto simp: applyArgExports_def rbind_Inr_iff)
  have pairs: "distinct (map fst bound)" "boundPairs bound = exportedPairs kits"
    using bindKits_spec [of "[]" kits] bound by (simp_all add: exportedPairs_def) (simp add: boundPairs_def)
  have dom: "fst ` exportedPairs kits = dom (map_of bound)"
    unfolding pairs(2) [symmetric] by (rule dom_boundPairs)
  have keys: "set (map fst bound) = dom (map_of bound)" by (simp add: dom_map_of_conv_image_fst)
  obtain w out where w: "overrideLoop (map_of bound) [] (ic_Env cfg) = (w, out)" by fastforce
  let ?late = "map (\<lambda>nm. nm @ ''='' @ bn_value (the (map_of bound nm))) (filter (\<lambda>nm. nm \<notin> set w) (sort (map fst bound)))"
  have env: "ic_Env cfg' = out @ ?late"
    using run bound w by (auto simp: applyArgExports_def)
  have over: "overridden (map_of bound) [] (ic_Env cfg) w out nm" for nm
    by (rule overrideLoop_overridden [OF _ w]) (use names dom in blast)
  have late: "filter (states nm) ?late =
      (if nm \<in> dom (map_of bound) - set w then [nm @ ''='' @ bn_value (the (map_of bound nm))] else [])" for nm
    by (subst filter_states_entries) (use pairs(1) names dom keys in \<open>auto simp: dom_map_of_conv_image_fst\<close>)
  show "filter (states nm) (ic_Env cfg') = [nm @ ''='' @ v]" if mem: "(nm, v) \<in> exportedPairs kits"
  proof -
    obtain b where "map_of bound nm = Some b" "bn_value b = v"
      using mem unfolding pairs(2) [symmetric] boundPairs_iff by blast
    then show ?thesis using over [of nm] late [of nm] by (auto simp: env overridden_def)
  qed
  show "filter (states nm) (ic_Env cfg') = filter (states nm) (ic_Env cfg)" if "nm \<notin> fst ` exportedPairs kits"
    using that over [of nm] late [of nm] by (auto simp: env overridden_def dom split: option.splits)
  have "filter (\<lambda>kv. CHR ''='' \<notin> set kv) ?late = []" by (auto simp: filter_empty_conv)
  then show "filter (\<lambda>kv. CHR ''='' \<notin> set kv) (ic_Env cfg') = filter (\<lambda>kv. CHR ''='' \<notin> set kv) (ic_Env cfg)"
    using over by (simp add: env overridden_def)
qed

lemma applyArgExports_frame:
  "applyArgExports cfg kits = Inr cfg' \<Longrightarrow> cfg'\<lparr>ic_Env := []\<rparr> = cfg\<lparr>ic_Env := []\<rparr>"
  by (cases "bindKits [] kits"; cases "overrideLoop (map_of (projr (bindKits [] kits))) [] (ic_Env cfg)")
    (auto simp: applyArgExports_def)

text \<open>Property C13. The variables a set's kits export. They are applied exactly when no variable is
  exported with two values. Then the environment states every exported variable once, with that
  value, whatever the merged configs said; every other entry is kept, and nothing but the
  environment changes.\<close>

theorem arg_exports_exact:
  assumes "\<forall>nm \<in> fst ` exportedPairs kits. CHR ''='' \<notin> set nm"
  shows "(is_ok (applyArgExports cfg kits) \<longleftrightarrow> single_valued (exportedPairs kits)) \<and>
    (\<forall>cfg'. applyArgExports cfg kits = Inr cfg' \<longrightarrow>
       cfg'\<lparr>ic_Env := []\<rparr> = cfg\<lparr>ic_Env := []\<rparr> \<and>
       (\<forall>nm v. (nm, v) \<in> exportedPairs kits \<longrightarrow> filter (states nm) (ic_Env cfg') = [nm @ ''='' @ v]) \<and>
       (\<forall>nm. nm \<notin> fst ` exportedPairs kits \<longrightarrow> filter (states nm) (ic_Env cfg') = filter (states nm) (ic_Env cfg)) \<and>
       filter (\<lambda>kv. CHR ''='' \<notin> set kv) (ic_Env cfg') = filter (\<lambda>kv. CHR ''='' \<notin> set kv) (ic_Env cfg))"
proof -
  have "is_ok (applyArgExports cfg kits) \<longleftrightarrow> is_ok (bindKits [] kits)"
    by (cases "bindKits [] kits") (simp_all add: applyArgExports_def Let_def split: prod.splits)
  then have "is_ok (applyArgExports cfg kits) \<longleftrightarrow> single_valued (exportedPairs kits)"
    using bindKits_spec [of "[]" kits] by (simp add: exportedPairs_def boundPairs_def)
  moreover have "cfg'\<lparr>ic_Env := []\<rparr> = cfg\<lparr>ic_Env := []\<rparr>" if "applyArgExports cfg kits = Inr cfg'" for cfg'
    by (rule applyArgExports_frame [OF that])
  ultimately show ?thesis using applyArgExports_entries [OF assms] by blast
qed

definition exportingKit :: "string \<Rightarrow> (string \<times> string) list \<Rightarrow> unit resolved_kit" where
  "exportingKit r env =
     \<lparr>rk_reference = r, rk_pinned = r, rk_digest = [], rk_descriptor = plainDescriptor [] [], rk_state = (),
      rk_config = emptyImage, rk_stem = r, rk_env = env\<rparr>"

theorem arg_exports_exact_witness:
  "applyArgExports (emptyConfig\<lparr>ic_Env := [''TOKEN=old'', ''HOME=/root'', ''TOKEN=older'']\<rparr>)
     [exportingKit ''a'' [(''TOKEN'', ''t'')], exportingKit ''b'' [(''MODE'', ''x''), (''TOKEN'', ''t'')]]
     = Inr (emptyConfig\<lparr>ic_Env := [''TOKEN=t'', ''HOME=/root'', ''MODE=x'']\<rparr>) \<and>
   filter (states ''TOKEN'') [''TOKEN=t'', ''HOME=/root'', ''MODE=x''] = [''TOKEN=t'']"
proof -
  let ?kits = "[exportingKit ''a'' [(''TOKEN'', ''t'')], exportingKit ''b'' [(''MODE'', ''x''), (''TOKEN'', ''t'')]]"
  have names: "\<forall>nm \<in> fst ` exportedPairs ?kits. CHR ''='' \<notin> set nm"
    by (simp add: exportedPairs_def exportingKit_def)
  have run: "applyArgExports (emptyConfig\<lparr>ic_Env := [''TOKEN=old'', ''HOME=/root'', ''TOKEN=older'']\<rparr>) ?kits
     = Inr (emptyConfig\<lparr>ic_Env := [''TOKEN=t'', ''HOME=/root'', ''MODE=x'']\<rparr>)" by code_simp
  have "(''TOKEN'', ''t'') \<in> exportedPairs ?kits" by (simp add: exportedPairs_def exportingKit_def)
  then show ?thesis using arg_exports_exact [OF names] run by fastforce
qed

definition exampleSetLib :: set_lib where
  "exampleSetLib = \<lparr>kitLib = exampleKitLib, recipeLib = exampleRecipeLib, referenceText = nr_Name,
     validateSpec = (\<lambda>d. None), mergeSpec = (\<lambda>cs path. Inr (emptyDescriptor\<lparr>Kind := KindWorkload\<rparr>, [])),
     encodeYAML = (\<lambda>d. Inr ''kind: workload''), encodeImage = (\<lambda>img. Inr ''{}'')\<rparr>"

definition enumArg :: "string list \<Rightarrow> bool \<Rightarrow> arg" where
  "enumArg vals needed = zeroArg\<lparr>argEnum := vals, argRequired := needed\<rparr>"

definition tokenKit :: descriptor where
  "tokenKit = emptyDescriptor\<lparr>Kind := KindMixin, Args := [(''level'', enumArg [''low'', ''high''] True)]\<rparr>"

definition reExporting :: kit where
  "reExporting = \<lparr>kitRef = ''reg.io/git'', kitDigest = [], kitArgs = [(''level'', ''${{ kit.args.team_level }}'')]\<rparr>"

theorem re_export_never_widens_witness:
  "is_ok (kitDeclarations exampleSetLib tokenKit reExporting [(''team_level'', enumArg [''low''] True)]) \<and>
   checkArgValue (fullMatchOf exampleKitLib) ''level'' (enumArg [''low'', ''high''] True) ''low'' = None"
proof -
  let ?set = "[(''team_level'', enumArg [''low''] True)]" and ?v = "''${{ kit.args.team_level }}''"
  have ok: "is_ok (kitDeclarations exampleSetLib tokenKit reExporting ?set)" by code_simp
  then obtain d env where run: "kitDeclarations exampleSetLib tokenKit reExporting ?set = Inr (d, env)"
    by (auto simp: is_ok_iff)
  have "(''level'', ?v) \<in> set (kitArgs reExporting)" "map_of (Args tokenKit) ''level'' = Some (enumArg [''low'', ''high''] True)"
    by (simp_all add: reExporting_def tokenKit_def)
  moreover have "argRefAt ?v = Some (''team_level'', [])" by code_simp
  ultimately obtain s where s: "map_of ?set ''team_level'' = Some s"
    and all: "(argEnum s = [] \<or> argPattern s = []) \<and> distinct (map fst ?set) \<and> map_of ?set ''team_level'' = Some s \<and>
       ResolveArgs (fullMatchOf (kitLib exampleSetLib)) ?set [(''team_level'', ''low'')] = Inr [(''team_level'', ''low'')] \<longrightarrow>
       (\<forall>w. map_of [(''team_level'', ''low'')] ''team_level'' = Some w \<longrightarrow>
          checkArgValue (fullMatchOf (kitLib exampleSetLib)) ''level'' (enumArg [''low'', ''high''] True) w = None)"
    using re_export_never_widens [OF run, of "''level''" ?v "''team_level''" "enumArg [''low'', ''high''] True"] by blast
  moreover have "ResolveArgs (fullMatchOf (kitLib exampleSetLib)) ?set [(''team_level'', ''low'')] = Inr [(''team_level'', ''low'')]"
    by code_simp
  moreover have "s = enumArg [''low''] True" using s by simp
  moreover have "argPattern (enumArg [''low''] True) = []" by code_simp
  ultimately have "checkArgValue (fullMatchOf (kitLib exampleSetLib)) ''level'' (enumArg [''low'', ''high''] True) ''low'' = None"
    by simp
  then show ?thesis using ok by (simp add: exampleSetLib_def)
qed

end
