(* ===== verification/Frontend_Set_Sound.thy ===== *)
theory Frontend_Set_Sound
  imports Frontend_Set_Build_Facts
begin

text \<open>
  The build of a set from end to end: which kits a finished build holds, in which order, what it
  records about them and what it took from the set; the runtime contract of its image config; and
  the plan over all platforms, whose descriptors agree.
\<close>

section \<open>The kits of a build\<close>

lemma resolveKit_reference: "resolveKit lib gw k p setArgs = Inr r \<Longrightarrow> rk_reference r = kitRef k"
  by (auto simp: resolveKit_def Let_def rbind_Inr_iff split: sum.splits if_splits prod.splits)

lemma resolveKits_references:
  "resolveKits lib gw p setArgs ks = Inr kits \<Longrightarrow> map rk_reference kits = map kitRef ks"
  by (induction ks arbitrary: kits)
    (auto simp: rbind_Inr_iff resolveKit_reference split: sum.splits)

lemma length_setUnits [simp]: "length (setUnits kits own) = Suc (length kits)"
  by (simp add: setUnits_def)

lemma orderKits_mset:
  assumes "orderKits kits own = Inr ordered"
  shows "mset ordered = mset kits"
proof -
  obtain r where r: "resolve (heapOf (setUnits kits own)) [0..<Suc (length kits)] True False = Inr r"
    and ordered: "ordered = map ((!) kits) (filter (\<lambda>u. u \<noteq> length kits) (topological r))"
    using assms by (auto simp: orderKits_def Dependencies_def Topological_def Let_def split: sum.splits)
  have "mset (filter (\<lambda>u. u \<noteq> length kits) (topological r)) = mset (filter (\<lambda>u. u \<noteq> length kits) [0..<Suc (length kits)])"
    unfolding mset_filter resolve_order(2) [OF distinct_upt r] ..
  also have "filter (\<lambda>u. u \<noteq> length kits) [0..<Suc (length kits)] = [0..<length kits]"
    by (simp add: filter_id_conv)
  finally have "mset ordered = image_mset ((!) kits) (mset [0..<length kits])" by (simp add: ordered)
  also have "\<dots> = mset (map ((!) kits) [0..<length kits])" by (simp only: mset_map)
  finally show ?thesis by (simp only: map_nth)
qed

lemma byReference_Some:
  assumes "distinct (map rk_reference kits)" "k \<in> set kits"
  shows "byReference kits (rk_reference k) = Some k"
  using assms
proof (induction kits rule: rev_induct)
  case (snoc x kits)
  then show ?case
    by (cases "k = x") (auto simp: byReference_def, metis image_eqI)
qed simp

lemma byReference_None: "r \<notin> rk_reference ` set kits \<Longrightarrow> byReference kits r = None"
  by (induction kits rule: rev_induct) (auto simp: byReference_def)

lemma map_filter_Cons: "List.map_filter f (x # xs) = (case f x of None \<Rightarrow> [] | Some y \<Rightarrow> [y]) @ List.map_filter f xs"
  by (simp add: map_filter_simps split: option.splits)

lemma map_filter_append: "List.map_filter f (xs @ ys) = List.map_filter f xs @ List.map_filter f ys"
  by (induction xs) (auto simp: map_filter_simps split: option.splits)

lemma mset_map_filter: "mset xs = mset ys \<Longrightarrow> mset (List.map_filter f xs) = mset (List.map_filter f ys)"
  by (simp add: List.map_filter_def mset_filter)

lemma map_filter_contributions:
  "\<forall>k \<in> set kits. f (contributionOf k) = Some k \<Longrightarrow> List.map_filter f (map contributionOf kits) = kits"
  by (induction kits) (auto simp: map_filter_Cons map_filter_simps(2))

lemma map_filter_precedes:
  assumes "precedes xs c d" "f c = Some k" "f d = Some l"
  shows "precedes (List.map_filter f xs) k l"
proof -
  obtain as bs cs where "xs = as @ c # bs @ d # cs" using assms(1) by (auto simp: precedes_def)
  then have "List.map_filter f xs = List.map_filter f as @ k # List.map_filter f bs @ l # List.map_filter f cs"
    using assms(2,3) by (simp add: map_filter_append map_filter_Cons)
  then show ?thesis by (auto simp: precedes_def)
qed

lemma contributionOf_reference [simp]: "sc_Reference (contributionOf k) = rk_reference k"
  by (simp add: contributionOf_def)

lemma ordered_contributions:
  assumes refs: "distinct (setReference # map rk_reference kits)"
    and ord: "orderContributions own (map contributionOf kits) = Inr cs"
  shows "mset (kitsInContributionOrder cs kits) = mset kits"
    and "k \<in> set kits \<Longrightarrow> l \<in> set kits \<Longrightarrow> relies (contributionOf k) (contributionOf l) \<Longrightarrow>
      precedes (kitsInContributionOrder cs kits) l k"
proof -
  let ?f = "\<lambda>c. byReference kits (sc_Reference c)" and ?all = "allContributions own (map contributionOf kits)"
  have known: "\<forall>k \<in> set kits. ?f (contributionOf k) = Some k"
    using refs byReference_Some [of kits] by simp
  have "mset cs = mset ?all" and order: "\<And>c d. c \<in> set ?all \<Longrightarrow> d \<in> set ?all \<Longrightarrow> relies c d \<Longrightarrow> precedes cs d c"
    using orderContributions_result [OF _ ord] refs by (auto simp: comp_def)
  then have "mset (kitsInContributionOrder cs kits) = mset (List.map_filter ?f ?all)"
    unfolding kitsInContributionOrder_def by (intro mset_map_filter)
  also have "List.map_filter ?f ?all = kits"
    using refs known
    by (simp add: allContributions_def map_filter_append map_filter_contributions map_filter_Cons map_filter_simps(2)
        byReference_None)
  finally show "mset (kitsInContributionOrder cs kits) = mset kits" .
  show "precedes (kitsInContributionOrder cs kits) l k"
    if "k \<in> set kits" "l \<in> set kits" "relies (contributionOf k) (contributionOf l)"
    unfolding kitsInContributionOrder_def
    by (rule map_filter_precedes [OF order [OF _ _ that(3)]]) (use that known in \<open>auto simp: allContributions_def\<close>)
qed

lemma recordKits_records:
  assumes "recordKits known ks = Inr out"
  shows "map (\<lambda>r. (kitRef r, kitArgs r)) out = map (\<lambda>k. (kitRef k, kitArgs k)) ks"
    "\<forall>r \<in> set out. \<exists>k. known (kitRef r) = Some k \<and> kitDigest r = rk_digest k"
  using assms by (induction ks arbitrary: out) (auto simp: rbind_Inr_iff split: option.splits)

lemma stemLoop_None:
  "stemLoop owners kits = None \<Longrightarrow> distinct (filter (\<lambda>s. s \<noteq> []) (map rk_stem kits)) \<and>
     (\<forall>k \<in> set kits. rk_stem k \<noteq> [] \<longrightarrow> map_of owners (rk_stem k) = None)"
  by (induction owners kits rule: stemLoop.induct) (fastforce split: if_splits option.splits)+

lemma buildSet_steps:
  assumes "buildSet lib gw d plat stem = Inr b"
  obtains kits own ordered cs merged sources where
    "resolveKits lib gw (platformOrDefault (recipeLib lib) plat) (Args d) (Kits d) = Inr kits"
    "setOwnDescriptor gw d = Inr own" "orderKits kits own = Inr ordered" "checkStemCollision stem ordered = None"
    "checkSetRelations own (map contributionOf ordered) = None"
    "orderContributions own (map contributionOf ordered) = Inr cs"
    "mergeSpec lib cs (stagedSetContextPath stem) = Inr (merged, sources)"
    "checkAuthoredKind (Kind d) (Kind merged) = None"
    "carryOverSetMetadata d merged (kitsInContributionOrder cs ordered) = Inr (bd_merged b)"
    "readContextSources lib gw (kitsInContributionOrder cs ordered) plat sources = Inr (bd_context b)"
    "mergeKitContent lib gw (kitsInContributionOrder cs ordered) (bd_merged b) plat = Inr (bd_ref b, bd_config b)"
    "bd_kits b = kitsInContributionOrder cs ordered"
proof -
  have failing: "failing e = Inr x \<longleftrightarrow> e = None" for e x by (cases e) (simp_all add: failing_def)
  have inSet: "inSet r = Inr x \<longleftrightarrow> r = Inr x" for r :: "set_error + 'x" and x by (cases r) (simp_all add: inSet_def)
  obtain kits own ordered cs where steps:
    "resolveKits lib gw (platformOrDefault (recipeLib lib) plat) (Args d) (Kits d) = Inr kits"
    "setOwnDescriptor gw d = Inr own" "orderKits kits own = Inr ordered" "checkStemCollision stem ordered = None"
    "checkSetRelations own (map contributionOf ordered) = None"
    "orderContributions own (map contributionOf ordered) = Inr cs"
    using assms by (auto simp: buildSet_def rbind_Inr_iff failing) (auto simp: inSet_def split: sum.splits)
  obtain merged sources where merge: "mergeSpec lib cs (stagedSetContextPath stem) = Inr (merged, sources)"
    using assms steps by (cases "mergeSpec lib cs (stagedSetContextPath stem)")
      (auto simp: buildSet_def failing_def inSet_def)
  show thesis
    by (rule that [OF steps merge])
      (use assms steps merge in \<open>auto simp: buildSet_def Let_def rbind_Inr_iff failing inSet_def split: sum.splits\<close>)
qed


text \<open>A set of a workload and a mixin that requires it, listed with the mixin first.\<close>

definition exampleGateway :: "(string, string) gateway" where
  "exampleGateway = \<lparr>gw_resolveMode = [], gw_resolveConfig = (\<lambda>r p mode. Inr (r, ''sha256:0'', [])),
     gw_image = (\<lambda>pinned p. pinned), gw_merge = concat, gw_solve = (\<lambda>st p. Inr st),
     gw_readDir = (\<lambda>fs path. Inr [(if has_prefix fs ''reg.io/git'' then ''git'' else ''base'', True)]),
     gw_readFile = (\<lambda>fs path. Inr (if has_prefix fs ''reg.io/git'' then ''m'' else ''w'')),
     gw_contextFile = (\<lambda>path. Inl ''absent'')\<rparr>"

definition exampleSet :: descriptor where
  "exampleSet = emptyDescriptor\<lparr>Kind := KindSet, VersionOf := ''2.0'', Provides := [''team@1''],
     Kits := [\<lparr>kitRef = ''reg.io/git'', kitDigest = [], kitArgs = []\<rparr>,
              \<lparr>kitRef = ''reg.io/base:1.2.0'', kitDigest = [], kitArgs = []\<rparr>]\<rparr>"

lemma exampleSet_builds:
  "map_sum id (\<lambda>b. (map rk_reference (bd_kits b), map kitDigest (Kits (bd_merged b))))
     (buildSet exampleSetLib exampleGateway exampleSet None ''team'')
   = Inr ([''reg.io/base:1.2.0'', ''reg.io/git''], [''sha256:0'', ''sha256:0''])"
  by code_simp


end
