(* ===== verification/Frontend_Plan.thy ===== *)
theory Frontend_Plan
  imports Frontend_Set_Sound
begin

text \<open>
  The image config a set's build records, and the plan of a build over the requested platforms.
\<close>

section \<open>The merged image config\<close>

lemma envMap_states: "envMap env nm = envMap (filter (states nm) env) nm"
proof (induction env rule: rev_induct)
  case (snoc kv env)
  then show ?case
    by (auto simp: envMap_snoc envStep_def cut_def states_def)
qed simp

lemma applyArgExports_env:
  assumes "\<forall>nm \<in> fst ` exportedPairs kits. CHR ''='' \<notin> set nm" "applyArgExports cfg kits = Inr cfg'"
  shows "(nm, v) \<in> exportedPairs kits \<Longrightarrow> envMap (ic_Env cfg') nm = Some v"
    and "nm \<notin> fst ` exportedPairs kits \<Longrightarrow> envMap (ic_Env cfg') nm = envMap (ic_Env cfg) nm"
proof -
  note entries = applyArgExports_entries [OF assms]
  show "envMap (ic_Env cfg') nm = Some v" if mem: "(nm, v) \<in> exportedPairs kits"
  proof -
    have "CHR ''='' \<notin> set nm" using assms(1) mem by force
    then show ?thesis
      using envMap_states [of "ic_Env cfg'" nm] entries(1) [OF mem]
      by (simp add: envMap_def envStep_def cut_def)
  qed
  show "envMap (ic_Env cfg') nm = envMap (ic_Env cfg) nm" if "nm \<notin> fst ` exportedPairs kits"
    using envMap_states [of "ic_Env cfg'" nm] envMap_states [of "ic_Env cfg" nm] entries(2) [OF that] by simp
qed

lemma mergedConfig_steps:
  assumes "mergedConfig lib kits kind plat = Inr img"
  obtains base overlays m cfg where
    "mergeInputs (plainPlatform (platformOrDefault (recipeLib lib) plat)) kits kind = (base, overlays)"
    "Merge base overlays = Inr m" "applyArgExports (im_Config (img_Config m)) kits = Inr cfg"
    "im_Config img = (if kind \<noteq> KindWorkload
       then cfg\<lparr>ic_Entrypoint := ic_Entrypoint (soleContract kits), ic_Cmd := ic_Cmd (soleContract kits),
                ic_User := ic_User (soleContract kits), ic_WorkingDir := ic_WorkingDir (soleContract kits)\<rparr>
       else cfg)"
proof -
  obtain base overlays where inputs:
    "mergeInputs (plainPlatform (platformOrDefault (recipeLib lib) plat)) kits kind = (base, overlays)" by fastforce
  then obtain m where m: "Merge base overlays = Inr m"
    using assms by (cases "Merge base overlays") (simp_all add: mergedConfig_def)
  then obtain cfg where "applyArgExports (im_Config (img_Config m)) kits = Inr cfg"
    using assms inputs by (cases "applyArgExports (im_Config (img_Config m)) kits") (simp_all add: mergedConfig_def)
  then show thesis
    using assms inputs m by (intro that [of base overlays m cfg]) (auto simp: mergedConfig_def Let_def)
qed

lemma last_workload:
  "foldl (\<lambda>base k. if P k then f k else base) b0 ks = (case filter P ks of [] \<Rightarrow> b0 | _ \<Rightarrow> f (last (filter P ks)))"
  by (induction ks rule: rev_induct) (auto split: list.splits)

lemma kept_override: "kept (cfg\<lparr>ic_Env := env\<rparr>) = kept cfg"
  by (simp add: kept_def)

text \<open>What the kits' own configs state: a workload's environment as it is read, and every statement of
  a mixin.\<close>

definition configStatements :: "string \<Rightarrow> 's resolved_kit \<Rightarrow> 's resolved_kit list \<Rightarrow> (string \<times> string) set" where
  "configStatements kind w kits =
     (if kind = KindWorkload
      then {(k, v). envMap (ic_Env (im_Config (rk_config w))) k = Some v}
        \<union> (\<Union>k \<in> {k \<in> set kits. \<not> isWorkload k}. stated (ic_Env (im_Config (rk_config k))))
      else (\<Union>k \<in> set kits. stated (ic_Env (im_Config (rk_config k)))))"

lemma configInput_simps [simp]:
  "in_Config (configInput p nm cfg) = emptyImage\<lparr>im_Platform := p, im_Config := cfg\<rparr>"
  "layersMatch (configInput p nm cfg)"
  by (simp_all add: configInput_def layersMatch_def emptyManifest_def emptyImage_def)

lemma mergeInputs_statements:
  assumes "mergeInputs p kits kind = (base, overlays)" "kind = KindWorkload \<Longrightarrow> filter isWorkload kits = [w]"
  shows "list_all layersMatch (base # overlays)" "statements base overlays = configStatements kind w kits"
    "im_Config (in_Config base) = (if kind = KindWorkload then im_Config (rk_config w) else emptyConfig)"
proof -
  have "foldl (\<lambda>base k. if isWorkload k then f k else base) b0 kits = f w" if "kind = KindWorkload" for f b0
    using assms(2) [OF that] by (simp add: last_workload)
  then have base: "base = (if kind = KindWorkload then configInput p (rk_reference w) (im_Config (rk_config w))
      else configInput p ''the merged overlay'' emptyConfig)"
    and overlays: "overlays = map (\<lambda>k. configInput p (rk_reference k) (im_Config (rk_config k)))
      (if kind = KindWorkload then filter (\<lambda>k. \<not> isWorkload k) kits else kits)"
    using assms(1) by (auto simp: mergeInputs_def Let_def split: if_splits)
  show "list_all layersMatch (base # overlays)" by (auto simp: base overlays list_all_iff)
  show "statements base overlays = configStatements kind w kits"
    by (auto simp: statements_def mixinEnv_def base overlays configStatements_def emptyConfig_def envMap_def)
  show "im_Config (in_Config base) = (if kind = KindWorkload then im_Config (rk_config w) else emptyConfig)"
    by (simp add: base)
qed

lemma contractOf_sole [simp]: "contractOf (soleContract kits) = soleContract kits"
  by (auto simp: soleContract_def contractOf_def emptyConfig_def split: list.splits)


section \<open>The plan\<close>

abbreviation platformId :: "set_lib \<Rightarrow> platform option \<Rightarrow> string" where
  "platformId lib plat \<equiv> formatAllPlatform (recipeLib lib) (platformOrDefault (recipeLib lib) plat)"

abbreviation descriptorText :: "set_lib \<Rightarrow> descriptor \<Rightarrow> string + string" where
  "descriptorText lib d \<equiv> encodeDescriptor (kitLib lib) d"

lemma sameDeclarations_None: "sameDeclarations lib a b = None \<Longrightarrow> descriptorText lib b = descriptorText lib a"
  by (auto simp: sameDeclarations_def split: sum.splits if_splits)

text \<open>What the loop keeps: every build belongs to a requested platform and agrees with the first.\<close>

definition planned :: "set_lib \<Rightarrow> ('s, 'f) gateway \<Rightarrow> descriptor \<Rightarrow> string \<Rightarrow> platform option set \<Rightarrow> descriptor option
  \<Rightarrow> (string \<times> ('s, 'f) set_build) list \<Rightarrow> bool" where
  "planned lib gw d stem plats first builds \<longleftrightarrow>
     (first = None \<longrightarrow> plats = {}) \<and> fst ` set builds = platformId lib ` plats \<and>
     (\<forall>(i, b) \<in> set builds.
        (\<exists>plat \<in> plats. i = platformId lib plat \<and> buildSet lib gw d plat stem = Inr b) \<and>
        (\<forall>f. first = Some f \<longrightarrow> descriptorText lib (bd_merged b) = descriptorText lib f))"

lemma planned_step:
  assumes "planned lib gw d stem plats first builds" "buildSet lib gw d plat stem = Inr b"
    "first = None \<and> first' = Some (bd_merged b) \<or>
     (\<exists>f. first = Some f \<and> first' = first \<and> descriptorText lib (bd_merged b) = descriptorText lib f)"
  shows "planned lib gw d stem (insert plat plats) first' (AList.update (platformId lib plat) b builds)"
proof -
  have mem: "x \<in> set (AList.update k v xs) \<Longrightarrow> x = (k, v) \<or> x \<in> set xs" for x and k :: string and v :: "('a, 'b) set_build" and xs
    by (induction xs) (auto split: if_splits)
  have keys: "fst ` set (AList.update (platformId lib plat) b builds) = insert (platformId lib plat) (fst ` set builds)"
    by (metis AList.dom_update dom_map_of_conv_image_fst insert_is_Un list.set_map)
  have old: "(first = None \<longrightarrow> plats = {})" "fst ` set builds = platformId lib ` plats"
    "(i, c) \<in> set builds \<Longrightarrow> (\<exists>plat \<in> plats. i = platformId lib plat \<and> buildSet lib gw d plat stem = Inr c) \<and>
       (\<forall>f. first = Some f \<longrightarrow> descriptorText lib (bd_merged c) = descriptorText lib f)" for i c
    using assms(1) unfolding planned_def by blast+
  have some: "first' \<noteq> None" using assms(3) by auto
  have "(\<exists>p \<in> insert plat plats. i = platformId lib p \<and> buildSet lib gw d p stem = Inr c) \<and>
      (\<forall>f. first' = Some f \<longrightarrow> descriptorText lib (bd_merged c) = descriptorText lib f)"
    if "(i, c) \<in> set (AList.update (platformId lib plat) b builds)" for i c
  proof (cases "(i, c) = (platformId lib plat, b)")
    case True
    then show ?thesis using assms(2,3) by auto
  next
    case False
    then have c: "(i, c) \<in> set builds" using mem [OF that] by blast
    then have "first \<noteq> None" using old(1,2) by force
    then show ?thesis using old(3) [OF c] assms(3) by auto
  qed
  then show ?thesis unfolding planned_def keys old(2) using some by blast
qed

lemma planLoop_planned:
  "planLoop lib gw d stem first builds plats = Inr (first', builds') \<Longrightarrow> planned lib gw d stem done first builds \<Longrightarrow>
   planned lib gw d stem (done \<union> set plats) first' builds'"
proof (induction lib gw d stem first builds plats arbitrary: "done" rule: planLoop.induct)
  case (2 lib gw d stem first builds plat plats)
  obtain b where b: "buildSet lib gw d plat stem = Inr b"
    using "2.prems"(1) by (auto simp: rbind_Inr_iff)
  let ?builds = "AList.update (platformId lib plat) b builds"
  show ?case
  proof (cases first)
    case None
    have "planned lib gw d stem (insert plat done) (Some (bd_merged b)) ?builds"
      by (rule planned_step [OF "2.prems"(2) b]) (simp add: None)
    moreover have "planLoop lib gw d stem (Some (bd_merged b)) ?builds plats = Inr (first', builds')"
      using "2.prems"(1) b None by simp
    ultimately have "planned lib gw d stem (insert plat done \<union> set plats) first' builds'"
      by (intro "2.IH"(1) [OF refl None])
    then show ?thesis by simp
  next
    case (Some f)
    then have same: "sameDeclarations lib f (bd_merged b) = None"
      using "2.prems"(1) b by (auto split: option.splits)
    have "planned lib gw d stem (insert plat done) first ?builds"
      by (rule planned_step [OF "2.prems"(2) b]) (simp add: Some sameDeclarations_None [OF same])
    moreover have "planLoop lib gw d stem first ?builds plats = Inr (first', builds')"
      using "2.prems"(1) b Some same by simp
    ultimately have "planned lib gw d stem (insert plat done \<union> set plats) first' builds'"
      by (intro "2.IH"(2) [OF refl Some same])
    then show ?thesis by simp
  qed
qed simp

lemma parsePlatforms_nonempty: "parsePlatforms lib opt = Inr plats \<Longrightarrow> plats \<noteq> []"
proof -
  assume "parsePlatforms lib opt = Inr plats"
  moreover have "parts \<noteq> [] \<Longrightarrow> platformLoop lib [] parts = Inr ps \<Longrightarrow> ps \<noteq> []" for parts ps
    by (cases parts) (auto simp: Let_def rbind_Inr_iff split: sum.splits)
  from this [OF split_on_nonempty] have "platformLoop lib [] (split_on CHR '','' opt) \<noteq> Inr []" by blast
  ultimately show ?thesis by (auto simp: parsePlatforms_def split: if_splits)
qed

text \<open>Property C35. The plan of a set's build. For the platforms a build option names there is always a
  first build, so the plan has one descriptor to publish; the plan holds a build of that set for every
  requested platform and for no other, all of them declare the same, and what is published is the
  text of that declaration, accepted as a published descriptor.\<close>

theorem set_plan_agrees:
  assumes "parsePlatforms (recipeLib lib) opt = Inr plats" "planLoop lib gw d stem None [] plats = Inr (first, builds)"
  shows "\<exists>merged. first = Some merged \<and>
    fst ` set builds = platformId lib ` set plats \<and>
    (\<forall>(i, b) \<in> set builds. descriptorText lib (bd_merged b) = descriptorText lib merged \<and>
       (\<exists>plat \<in> set plats. i = platformId lib plat \<and> buildSet lib gw d plat stem = Inr b)) \<and>
    (\<forall>plan. planSet lib gw d plats stem = Inr plan \<longrightarrow>
       pl_builds plan = builds \<and> encodeYAML lib merged = Inr (pl_published plan) \<and>
       publishedError (registryLib (kitLib lib)) (pl_published plan) merged = None)"
proof -
  have "planned lib gw d stem {} None ([] :: (string \<times> ('a, 'b) set_build) list)" by (simp add: planned_def)
  from planLoop_planned [OF assms(2) this] have inv: "planned lib gw d stem (set plats) first builds" by simp
  then obtain merged where merged: "first = Some merged"
    using parsePlatforms_nonempty [OF assms(1)] by (cases first) (auto simp: planned_def)
  have "pl_builds plan = builds \<and> encodeYAML lib merged = Inr (pl_published plan) \<and>
      publishedError (registryLib (kitLib lib)) (pl_published plan) merged = None"
    if "planSet lib gw d plats stem = Inr plan" for plan
    using that assms(2) merged
    by (auto simp: planSet_def publishedSetDescriptor_def rbind_Inr_iff split: sum.splits option.splits)
  then show ?thesis using inv merged by (auto simp: planned_def)
qed


theorem set_plan_agrees_witness:
  "parsePlatforms exampleRecipeLib [] = Inr [None] \<and>
   (\<exists>merged builds. planLoop exampleSetLib exampleGateway exampleSet ''team'' None [] [None] = Inr (Some merged, builds) \<and>
      fst ` set builds = {''linux''})"
proof -
  have plats: "parsePlatforms (recipeLib exampleSetLib) [] = Inr [None]" by (simp add: parsePlatforms_def)
  obtain b where b: "buildSet exampleSetLib exampleGateway exampleSet None ''team'' = Inr b"
    using exampleSet_builds by (cases "buildSet exampleSetLib exampleGateway exampleSet None ''team''") auto
  then obtain first builds where run: "planLoop exampleSetLib exampleGateway exampleSet ''team'' None [] [None] = Inr (first, builds)"
    by simp
  have "platformId exampleSetLib None = ''linux''" by code_simp
  with set_plan_agrees [OF plats run] run show ?thesis
    by (auto simp: parsePlatforms_def)
qed

end
