(* ===== verification/Comment_Descriptor.thy ===== *)
theory Comment_Descriptor
  imports Prelude
begin

text \<open>
  A kit written as one Dockerfile (\<open>cmd/frontend/comment_descriptor.go\<close>): the descriptor in a
  \<open># kit:\<close> comment block, and the content recipe handed to the recipe's own frontend.
\<close>

section \<open>Lines\<close>

definition NL :: char where "NL = char_of (10 :: nat)"
definition CR :: char where "CR = char_of (13 :: nat)"
definition TAB :: char where "TAB = char_of (9 :: nat)"

text \<open>\<open>strings.TrimRight\<close> with a set of bytes.\<close>

definition trimRight :: "char list \<Rightarrow> string \<Rightarrow> string" where
  "trimRight cs s = rev (dropWhile (\<lambda>c. c \<in> set cs) (rev s))"

section \<open>The descriptor\<close>

definition kitCommentMarker :: string where "kitCommentMarker = ''# kit:''"

text \<open>The lines after the first marker line.\<close>

fun afterMarker :: "string list \<Rightarrow> string list option" where
  "afterMarker [] = None"
| "afterMarker (line # ls) =
     (if trimRight [CHR '' '', TAB, CR] line = kitCommentMarker then Some ls else afterMarker ls)"

fun collectLoop :: "string \<Rightarrow> string list \<Rightarrow> string" where
  "collectLoop out [] = out"
| "collectLoop out (l # ls) =
     (let line = trimRight [CR] l in
      if \<not> has_prefix line ''#'' then out
      else let text = trim_prefix (trim_prefix line ''#'') '' '' in
           if text = [] then collectLoop (out @ [NL]) ls
           else if \<not> has_prefix text ''  '' then out
           else collectLoop (out @ drop 2 text @ [NL]) ls)"

definition extractCommentDescriptor :: "string \<Rightarrow> string option" where
  "extractCommentDescriptor src = map_option (collectLoop []) (afterMarker (split_on NL src))"

section \<open>The content recipe\<close>

definition isSyntaxLine :: "string \<Rightarrow> bool" where
  "isSyntaxLine text \<longleftrightarrow> has_prefix text ''# syntax=''"

definition neutral :: string where
  "neutral = ''# (syntax directive consumed by the kit frontend)''"

definition neutralizeSyntaxLine :: "string \<Rightarrow> string" where
  "neutralizeSyntaxLine src =
     (case cut NL src of (first, rest, found) \<Rightarrow>
        if \<not> isSyntaxLine (trim_space first) then src
        else if \<not> found then neutral
        else neutral @ [NL] @ rest)"

text \<open>The scan, over what is left of the file: the part from the second stanza on, if the scan
  meets one before an instruction.\<close>

function stanzaLoop :: "nat \<Rightarrow> string \<Rightarrow> string option" where
  "stanzaLoop line s =
     (if s = [] then None
      else let text = trim_space (trimRight [CR] (before NL s)) in
           if line > 0 \<and> isSyntaxLine text then Some s
           else if line > 0 \<and> text \<noteq> [] \<and> \<not> has_prefix text ''#'' then None
           else stanzaLoop (line + 1) (drop (length (before NL s) + 1) s))"
  by pat_completeness auto
termination
  by (relation "measure (\<lambda>(_, s). length s)") auto

declare stanzaLoop.simps [simp del]

definition contentRecipe :: "string \<Rightarrow> string" where
  "contentRecipe src = (case stanzaLoop 0 src of Some s \<Rightarrow> s | None \<Rightarrow> neutralizeSyntaxLine src)"

section \<open>Round trip\<close>

text \<open>A descriptor's lines as an author writes them under the marker.\<close>

definition commented :: "string \<Rightarrow> string" where
  "commented l = (if l = [] then ''#'' else ''#   '' @ l)"

definition plainLine :: "string \<Rightarrow> bool" where
  "plainLine l \<longleftrightarrow> NL \<notin> set l \<and> (l \<noteq> [] \<longrightarrow> last l \<noteq> CR)"

lemma trimRight_id: "s = [] \<or> last s \<notin> set cs \<Longrightarrow> trimRight cs s = s"
  by (cases s rule: rev_cases) (auto simp: trimRight_def)

lemma bytes_distinct [simp]:
  "NL \<noteq> CHR ''#''" "NL \<noteq> CHR '' ''" "CR \<noteq> CHR ''#''" "CR \<noteq> CHR '' ''" "CHR ''#'' \<noteq> NL" "CHR '' '' \<noteq> NL"
  "CHR ''#'' \<noteq> CR" "CHR '' '' \<noteq> CR"
  by code_simp+

lemma collectLoop_commented:
  "plainLine l \<Longrightarrow> collectLoop out (commented l # ls) = collectLoop (out @ l @ [NL]) ls"
proof -
  assume p: "plainLine l"
  then have "trimRight [CR] (commented l) = commented l"
    by (intro trimRight_id) (auto simp: plainLine_def commented_def)
  then show ?thesis by (simp add: commented_def trim_prefix_def has_prefix_def)
qed

lemma collectLoop_block:
  "list_all plainLine ds \<Longrightarrow> collectLoop out (map commented ds @ ls) = collectLoop (out @ concat (map (\<lambda>l. l @ [NL]) ds)) ls"
  by (induction ds arbitrary: out) (simp_all add: collectLoop_commented del: collectLoop.simps)

lemma afterMarker_skip:
  "list_all (\<lambda>l. trimRight [CHR '' '', TAB, CR] l \<noteq> kitCommentMarker) pre \<Longrightarrow>
   afterMarker (pre @ kitCommentMarker # ls) = Some ls"
proof (induction pre)
  case Nil
  have "trimRight [CHR '' '', TAB, CR] kitCommentMarker = kitCommentMarker" by code_simp
  then show ?case by simp
qed simp

lemma collectLoop_stops: "post = [] \<or> \<not> has_prefix (trimRight [CR] (hd post)) ''#'' \<Longrightarrow> collectLoop out post = out"
  by (cases post) auto

lemma NL_commented: "NL \<in> set (commented l) \<longleftrightarrow> NL \<in> set l"
  by (auto simp: commented_def)

lemma stanzaLoop_suffix:
  "stanzaLoop line s = Some r \<Longrightarrow> \<exists>pre. s = pre @ r \<and> (pre = [] \<longrightarrow> line > 0)
     \<and> isSyntaxLine (trim_space (trimRight [CR] (before NL r)))"
proof (induction line s rule: stanzaLoop.induct)
  case (1 line s)
  let ?text = "trim_space (trimRight [CR] (before NL s))"
  have ne: "s \<noteq> []" using 1(2) by (auto simp: stanzaLoop.simps)
  show ?case
  proof (cases "line > 0 \<and> isSyntaxLine ?text")
    case True
    with 1(2) ne have "r = s" by (simp add: stanzaLoop.simps [of line s])
    with True show ?thesis by auto
  next
    case no: False
    moreover have go: "\<not> (line > 0 \<and> ?text \<noteq> [] \<and> \<not> has_prefix ?text ''#'')"
      using 1(2) ne no by (auto simp: stanzaLoop.simps [of line s] split: if_splits)
    ultimately have "stanzaLoop (line + 1) (drop (length (before NL s) + 1) s) = Some r"
      using 1(2) ne by (auto simp: stanzaLoop.simps [of line s] Let_def split: if_splits)
    from 1(1) [OF ne refl no go this] obtain pre where
      "drop (length (before NL s) + 1) s = pre @ r" "isSyntaxLine (trim_space (trimRight [CR] (before NL r)))" by blast
    then show ?thesis
      using ne by (intro exI [of _ "take (length (before NL s) + 1) s @ pre"]) (simp, metis append_take_drop_id)
  qed
qed

section \<open>Properties\<close>

text \<open>Property C37. A descriptor survives being written as a comment: its lines, commented under the first
  marker line of a file and followed by the end of the file or a line that is not a comment, are
  extracted exactly, each ended by a newline, whatever stands before the marker.\<close>

theorem comment_descriptor_roundtrip:
  assumes "list_all plainLine ds" "list_all (\<lambda>l. NL \<notin> set l) (pre @ post)"
    and "list_all (\<lambda>l. trimRight [CHR '' '', TAB, CR] l \<noteq> kitCommentMarker) pre"
    and "post = [] \<or> \<not> has_prefix (trimRight [CR] (hd post)) ''#''"
  shows "extractCommentDescriptor (join [NL] (pre @ kitCommentMarker # map commented ds @ post))
    = Some (concat (map (\<lambda>l. l @ [NL]) ds))"
proof -
  have "NL \<notin> set kitCommentMarker" by code_simp
  then have "split_on NL (join [NL] (pre @ kitCommentMarker # map commented ds @ post)) = pre @ kitCommentMarker # map commented ds @ post"
    using assms(1,2) by (intro split_join) (auto simp: list_all_iff NL_commented plainLine_def)
  then show ?thesis
    using afterMarker_skip [OF assms(3)] collectLoop_block [OF assms(1)] collectLoop_stops [OF assms(4)]
    by (simp add: extractCommentDescriptor_def)
qed

theorem comment_descriptor_roundtrip_witness:
  "extractCommentDescriptor (join [NL] [''# syntax=kit'', ''# kit:'', ''#   kind: mixin'', ''#'', ''#     a: b'', ''FROM x''])
   = Some (''kind: mixin'' @ [NL, NL] @ ''  a: b'' @ [NL])"
proof -
  have "list_all plainLine [''kind: mixin'', [], ''  a: b'']" "list_all (\<lambda>l. NL \<notin> set l) ([''# syntax=kit''] @ [''FROM x''])"
    "list_all (\<lambda>l. trimRight [CHR '' '', TAB, CR] l \<noteq> kitCommentMarker) [''# syntax=kit'']"
    "[''FROM x''] = [] \<or> \<not> has_prefix (trimRight [CR] (hd [''FROM x''])) ''#''" by code_simp+
  from comment_descriptor_roundtrip [OF this] show ?thesis by (simp add: kitCommentMarker_def commented_def)
qed

text \<open>The content recipe keeps the file's instructions: it is the file from a later line with a
  syntax stanza of its own on, or the file unchanged when its first line is no syntax directive, or the
  file with only its first line replaced by a comment that is no directive.\<close>

theorem content_recipe_sound:
  "(\<exists>pre. src = pre @ contentRecipe src \<and> pre \<noteq> []
      \<and> isSyntaxLine (trim_space (trimRight [CR] (before NL (contentRecipe src)))))
   \<or> contentRecipe src = src \<and> \<not> isSyntaxLine (trim_space (before NL src))
   \<or> contentRecipe src = neutral @ drop (length (before NL src)) src \<and> \<not> isSyntaxLine (trim_space neutral)"
proof (cases "stanzaLoop 0 src")
  case (Some r)
  with stanzaLoop_suffix [OF Some] show ?thesis by (auto simp: contentRecipe_def)
next
  case None
  have n: "\<not> isSyntaxLine (trim_space neutral)" by code_simp
  have b: "drop (length (before NL src)) src = (if NL \<in> set src then [NL] @ after NL src else [])"
    by (induction src) (auto simp: before_def after_def)
  show ?thesis
    using None n by (auto simp: contentRecipe_def neutralizeSyntaxLine_def cut_def b)
qed

theorem content_recipe_sound_witness:
  "\<exists>pre. join [NL] [''# syntax=kit'', ''#'', ''# syntax=docker'', ''FROM x''] =
     pre @ contentRecipe (join [NL] [''# syntax=kit'', ''#'', ''# syntax=docker'', ''FROM x''])"
proof -
  let ?src = "join [NL] [''# syntax=kit'', ''#'', ''# syntax=docker'', ''FROM x'']"
  have "contentRecipe ?src \<noteq> src" if "src = ?src" for src
    using that by (simp only:) code_simp
  moreover have "contentRecipe ?src \<noteq> neutral @ drop (length (before NL ?src)) ?src" by code_simp
  ultimately show ?thesis using content_recipe_sound [of ?src] by blast
qed

end
