(* ===== verification/Report.thy ===== *)
theory Report
  imports Prelude
begin

text \<open>
  The report of a conformance run (\<open>tck/report/report.go\<close>): the findings, the roster of the checks
  that ran, the summary by the worst finding of each check, and the verdict.
\<close>

section \<open>Data\<close>

datatype severity = Fail | Warn | Skip

text \<open>The order of the constants: the smaller is the worse.\<close>

fun severityNum :: "severity \<Rightarrow> nat" where
  "severityNum Fail = 0"
| "severityNum Warn = 1"
| "severityNum Skip = 2"

fun severityString :: "severity \<Rightarrow> string" where
  "severityString Fail = ''FAIL''"
| "severityString Warn = ''WARN''"
| "severityString Skip = ''SKIP''"

record finding =
  f_Check :: string
  f_Requirement :: string
  f_Severity :: severity
  f_Detail :: string

record check =
  c_Name :: string
  c_Requirement :: string

record report =
  r_Findings :: "finding list"
  r_Checks :: "check list"

record summary =
  s_Checks :: nat
  s_Failed :: nat
  s_Warned :: nat
  s_Skipped :: nat
  s_Passed :: nat

section \<open>Operations\<close>

definition ran :: "report \<Rightarrow> check \<Rightarrow> report" where
  "ran r c = (if list_ex (\<lambda>seen. c_Name seen = c_Name c) (r_Checks r) then r else r\<lparr>r_Checks := r_Checks r @ [c]\<rparr>)"

definition fillFinding :: "string \<Rightarrow> string \<Rightarrow> finding \<Rightarrow> finding" where
  "fillFinding nm requirement f =
     (let f1 = (if f_Check f = [] then f\<lparr>f_Check := nm\<rparr> else f) in
      if f_Requirement f1 = [] then f1\<lparr>f_Requirement := requirement\<rparr> else f1)"

definition ReportAdd :: "report \<Rightarrow> string \<Rightarrow> string \<Rightarrow> finding list \<Rightarrow> report" where
  "ReportAdd r nm requirement findings =
     (let r1 = ran r \<lparr>c_Name = nm, c_Requirement = requirement\<rparr> in
      r1\<lparr>r_Findings := r_Findings r1 @ map (fillFinding nm requirement) findings\<rparr>)"

definition worstStep :: "(string \<rightharpoonup> severity) \<Rightarrow> finding \<Rightarrow> (string \<rightharpoonup> severity)" where
  "worstStep worst f =
     (case worst (f_Check f) of
        None \<Rightarrow> worst(f_Check f \<mapsto> f_Severity f)
      | Some s \<Rightarrow> if severityNum (f_Severity f) < severityNum s then worst(f_Check f \<mapsto> f_Severity f) else worst)"

definition countCheck :: "(string \<rightharpoonup> severity) \<Rightarrow> summary \<Rightarrow> check \<Rightarrow> summary" where
  "countCheck worst out c =
     (case worst (c_Name c) of
        None \<Rightarrow> out\<lparr>s_Passed := s_Passed out + 1\<rparr>
      | Some Fail \<Rightarrow> out\<lparr>s_Failed := s_Failed out + 1\<rparr>
      | Some Warn \<Rightarrow> out\<lparr>s_Warned := s_Warned out + 1\<rparr>
      | Some Skip \<Rightarrow> out\<lparr>s_Skipped := s_Skipped out + 1\<rparr>)"

definition Summary :: "report \<Rightarrow> summary" where
  "Summary r =
     (let worst = foldl worstStep Map.empty (r_Findings r) in
      foldl (countCheck worst)
        \<lparr>s_Checks = length (r_Checks r), s_Failed = 0, s_Warned = 0, s_Skipped = 0, s_Passed = 0\<rparr> (r_Checks r))"

definition Failed :: "report \<Rightarrow> bool" where
  "Failed r \<longleftrightarrow> list_ex (\<lambda>f. f_Severity f = Fail) (r_Findings r)"

definition failureText :: "finding \<Rightarrow> string" where
  "failureText f = f_Check f @ '' ('' @ f_Requirement f @ ''): '' @ f_Detail f"

definition Err :: "report \<Rightarrow> string option" where
  "Err r =
     (let failures = map failureText (filter (\<lambda>f. f_Severity f = Fail) (r_Findings r)) in
      if failures = [] then None
      else Some (''conformance:'' @ [char_of (10 :: nat)] @ ''  - '' @ join ([char_of (10 :: nat)] @ ''  - '') failures))"

definition findingOf :: "severity \<Rightarrow> string \<Rightarrow> finding" where
  "findingOf s detail = \<lparr>f_Check = [], f_Requirement = [], f_Severity = s, f_Detail = detail\<rparr>"

section \<open>Reports a suite builds\<close>

text \<open>A suite starts from the empty report and adds one check at a time; a finding names no check of its own,
  or the check it is added under.\<close>

inductive built :: "report \<Rightarrow> bool" where
  built_empty: "built \<lparr>r_Findings = [], r_Checks = []\<rparr>"
| built_add: "built r \<Longrightarrow> list_all (\<lambda>f. f_Check f = [] \<or> f_Check f = nm) findings \<Longrightarrow> built (ReportAdd r nm requirement findings)"

lemma built_roster:
  "built r \<Longrightarrow> distinct (map c_Name (r_Checks r)) \<and> f_Check ` set (r_Findings r) \<subseteq> c_Name ` set (r_Checks r)"
proof (induction rule: built.induct)
  case (built_add r nm findings requirement)
  let ?c = "\<lparr>c_Name = nm, c_Requirement = requirement\<rparr>"
  have ran: "distinct (map c_Name (r_Checks (ran r ?c)))" "nm \<in> c_Name ` set (r_Checks (ran r ?c))"
    "c_Name ` set (r_Checks r) \<subseteq> c_Name ` set (r_Checks (ran r ?c))" "r_Findings (ran r ?c) = r_Findings r"
    using built_add.IH by (auto simp: ran_def list_ex_iff image_iff)
  have new: "f_Check (fillFinding nm requirement f) = nm" if "f \<in> set findings" for f
    using built_add.hyps(2) that by (auto simp: fillFinding_def Let_def list_all_iff)
  have "f_Check ` set (r_Findings r) \<subseteq> c_Name ` set (r_Checks (ran r ?c))" using built_add.IH ran(3) by blast
  with ran new show ?case by (auto simp: ReportAdd_def Let_def simp del: image_subset_iff)
qed simp

section \<open>The worst finding of a check\<close>

lemma worst_spec:
  "foldl worstStep m fs nm = s' \<Longrightarrow>
   (s' = None \<longleftrightarrow> m nm = None \<and> nm \<notin> f_Check ` set fs)
   \<and> (s' = Some Fail \<longleftrightarrow> m nm = Some Fail \<or> (\<exists>f \<in> set fs. f_Check f = nm \<and> f_Severity f = Fail))"
proof (induction fs arbitrary: m)
  case (Cons f fs)
  have step: "(worstStep m f nm = None \<longleftrightarrow> m nm = None \<and> nm \<noteq> f_Check f)
      \<and> (worstStep m f nm = Some Fail \<longleftrightarrow> m nm = Some Fail \<or> f_Check f = nm \<and> f_Severity f = Fail)"
    by (cases "f_Severity f"; cases "m (f_Check f)"; cases "the (m (f_Check f))") (auto simp: worstStep_def)
  from Cons.IH [of "worstStep m f"] Cons.prems step show ?case by auto
qed auto

lemma count_spec:
  "foldl (countCheck worst) out cs = out' \<Longrightarrow>
   s_Checks out' = s_Checks out
   \<and> s_Failed out' = s_Failed out + length (filter (\<lambda>c. worst (c_Name c) = Some Fail) cs)
   \<and> s_Passed out' = s_Passed out + length (filter (\<lambda>c. worst (c_Name c) = None) cs)
   \<and> s_Failed out' + s_Warned out' + s_Skipped out' + s_Passed out'
     = s_Failed out + s_Warned out + s_Skipped out + s_Passed out + length cs"
proof (induction cs arbitrary: out)
  case (Cons c cs)
  show ?case
    using Cons.IH [of "countCheck worst out c"] Cons.prems
    by (cases "worst (c_Name c)"; cases "the (worst (c_Name c))") (auto simp: countCheck_def)
qed auto

section \<open>Properties\<close>

text \<open>Property C38. The summary of a report a suite builds adds up and agrees with the verdict: every check
  that ran is counted in exactly one category, the failed ones are those with a failing finding, the
  passed ones those with no finding at all, and the run counts a failed check exactly when the
  report has failed and exactly when it gives an error.\<close>

theorem report_verdict:
  assumes "built r"
  shows "s_Failed (Summary r) + s_Warned (Summary r) + s_Skipped (Summary r) + s_Passed (Summary r) = s_Checks (Summary r)
    \<and> s_Failed (Summary r) = length (filter (\<lambda>c. \<exists>f \<in> set (r_Findings r). f_Check f = c_Name c \<and> f_Severity f = Fail) (r_Checks r))
    \<and> s_Passed (Summary r) = length (filter (\<lambda>c. c_Name c \<notin> f_Check ` set (r_Findings r)) (r_Checks r))
    \<and> (s_Failed (Summary r) > 0) = Failed r \<and> Failed r = (Err r \<noteq> None)"
proof -
  let ?w = "foldl worstStep Map.empty (r_Findings r)"
  have w: "?w nm = None \<longleftrightarrow> nm \<notin> f_Check ` set (r_Findings r)"
    "?w nm = Some Fail \<longleftrightarrow> (\<exists>f \<in> set (r_Findings r). f_Check f = nm \<and> f_Severity f = Fail)" for nm
    using worst_spec [of Map.empty "r_Findings r" nm] by simp_all
  have s: "s_Checks (Summary r) = length (r_Checks r)"
    "s_Failed (Summary r) = length (filter (\<lambda>c. ?w (c_Name c) = Some Fail) (r_Checks r))"
    "s_Passed (Summary r) = length (filter (\<lambda>c. ?w (c_Name c) = None) (r_Checks r))"
    "s_Failed (Summary r) + s_Warned (Summary r) + s_Skipped (Summary r) + s_Passed (Summary r) = length (r_Checks r)"
    using count_spec [OF refl, of ?w "\<lparr>s_Checks = length (r_Checks r), s_Failed = 0, s_Warned = 0, s_Skipped = 0, s_Passed = 0\<rparr>" "r_Checks r"]
    by (simp_all add: Summary_def Let_def)
  have "(s_Failed (Summary r) > 0) = Failed r"
    using built_roster [OF assms] unfolding s(2) w(2) Failed_def
    by (auto simp: list_ex_iff filter_empty_conv) blast
  moreover have "Failed r = (Err r \<noteq> None)" by (auto simp: Failed_def Err_def Let_def list_ex_iff filter_empty_conv)
  ultimately show ?thesis using s unfolding w by simp
qed

theorem report_verdict_witness:
  "let r = ReportAdd (ReportAdd \<lparr>r_Findings = [], r_Checks = []\<rparr> ''a'' ''SPEC'' [findingOf Warn ''w'', findingOf Fail ''x'']) ''b'' ''SPEC'' []
   in s_Failed (Summary r) = 1 \<and> s_Passed (Summary r) = 1 \<and> Failed r"
proof -
  let ?r = "ReportAdd (ReportAdd \<lparr>r_Findings = [], r_Checks = []\<rparr> ''a'' ''SPEC'' [findingOf Warn ''w'', findingOf Fail ''x'']) ''b'' ''SPEC'' []"
  have "built ?r" by (intro built.intros) (simp_all add: findingOf_def)
  note v = report_verdict [OF this]
  have "s_Failed (Summary ?r) = 1" "s_Passed (Summary ?r) = 1"
    using v by (simp_all add: ReportAdd_def ran_def fillFinding_def findingOf_def Let_def)
  with v show ?thesis by simp
qed

end
