(* ===== verification/Frontend_Options.thy ===== *)
theory Frontend_Options
  imports Frontend_Set_Build Kit_Args_Facts
begin

text \<open>
  The options the build frontend forwards to the recipe's own frontend, the choice of the content
  recipe and the build-phase arguments (\<open>cmd/frontend/build.go\<close>). The forwarded options never hold
  a key that would send the recipe back into this frontend or change the shape of its result, and
  hold the caller's other options and the mapped arguments exactly.

  The expansion of build-phase arguments in a descriptor's text, the parser of attestation options
  and the reading of a file of the build context are parameters.
\<close>

section \<open>Option keys\<close>

definition keyFilename :: string where "keyFilename = ''filename''"
definition keyPlatform :: string where "keyPlatform = ''platform''"
definition keyMultiPlatform :: string where "keyMultiPlatform = ''multi-platform''"
definition keyCmdline :: string where "keyCmdline = ''cmdline''"
definition keySource :: string where "keySource = ''source''"
definition keyFrontendCaps :: string where "keyFrontendCaps = ''frontend.caps''"
definition keyRequestID :: string where "keyRequestID = ''requestid''"
definition keyDockerfileKey :: string where "keyDockerfileKey = ''dockerfilekey''"
definition attestPrefix :: string where "attestPrefix = ''attest:''"

lemmas option_keys = keyFilename_def keyPlatform_def keyMultiPlatform_def keyCmdline_def keySource_def
  keyFrontendCaps_def keyRequestID_def keyDockerfileKey_def attestPrefix_def keyTarget_def buildArgPrefix_def

definition reservedSubSolveOpt :: "string \<Rightarrow> bool" where
  "reservedSubSolveOpt k \<longleftrightarrow>
     k = buildArgPrefix @ ''BUILDKIT_SYNTAX'' \<or> k = keyMultiPlatform \<or> k = buildArgPrefix @ ''BUILDKIT_MULTI_PLATFORM'' \<or>
     k = keyCmdline \<or> k = keySource \<or> k = keyFrontendCaps \<or> k = keyRequestID \<or> k = keyDockerfileKey \<or>
     has_prefix k attestPrefix \<or> has_prefix k (buildArgPrefix @ ''BUILDKIT_ATTEST_'')"

section \<open>The forwarded options\<close>

definition inheritedOpts :: "(string \<times> string) list \<Rightarrow> (string \<times> string) list" where
  "inheritedOpts opts =
     foldl (\<lambda>fo (k, v). if reservedSubSolveOpt k \<or> k = keyFilename \<or> k = keyPlatform then fo else AList.update k v fo) [] opts"

text \<open>What one declared argument adds: its mapped name with the caller's value or its default.\<close>

definition mappedArg :: "(string \<times> string) list \<Rightarrow> (string \<times> string) list \<Rightarrow> string \<times> arg \<Rightarrow> (string \<times> string) list" where
  "mappedArg opts fo nd =
     (case nd of (nm, decl) \<Rightarrow>
        if argBuildArg decl = [] then fo
        else let dst = buildArgPrefix @ argBuildArg decl in
             if reservedSubSolveOpt dst then fo
             else (case map_of opts (buildArgPrefix @ nm) of
                     Some v \<Rightarrow> AList.update dst v fo
                   | None \<Rightarrow> (case argDefault decl of Some v \<Rightarrow> AList.update dst v fo | None \<Rightarrow> fo)))"

definition dockerfileFrontendOpts ::
  "recipe_lib \<Rightarrow> descriptor \<Rightarrow> (string \<times> string) list \<Rightarrow> string \<Rightarrow> platform option \<Rightarrow> (string \<times> string) list" where
  "dockerfileFrontendOpts lib d opts companion plat =
     (let fo = AList.update keyFilename companion (inheritedOpts opts);
          fo' = (case plat of None \<Rightarrow> fo | Some p \<Rightarrow> AList.update keyPlatform (formatAllPlatform lib p) fo)
      in foldl (mappedArg opts) fo' (Args d))"

section \<open>Build-phase arguments\<close>

datatype phase_error = PhaseArgs arg_error | PhaseText string

definition buildDecls :: "descriptor \<Rightarrow> (string \<times> arg) list" where
  "buildDecls d = filter (\<lambda>(nm, decl). argBuildArg decl \<noteq> []) (Args d)"

definition suppliedArgs :: "descriptor \<Rightarrow> (string \<times> string) list \<Rightarrow> (string \<times> string) list" where
  "suppliedArgs d opts =
     concat (map (\<lambda>(nm, decl). case map_of opts (buildArgPrefix @ nm) of None \<Rightarrow> [] | Some v \<Rightarrow> [(nm, v)]) (buildDecls d))"

definition expandBuildPhase ::
  "matcher \<Rightarrow> (string \<Rightarrow> (string \<times> arg) list \<Rightarrow> (string \<times> string) list \<Rightarrow> string + string)
   \<Rightarrow> string \<Rightarrow> descriptor \<Rightarrow> (string \<times> string) list \<Rightarrow> phase_error + string" where
  "expandBuildPhase fullMatch expandBuildArgs raw d opts =
     (case ResolveArgs fullMatch (buildDecls d) (suppliedArgs d opts) of
        Inl e \<Rightarrow> Inl (PhaseArgs e)
      | Inr vals \<Rightarrow> (case expandBuildArgs raw (Args d) vals of Inl e \<Rightarrow> Inl (PhaseText e) | Inr out \<Rightarrow> Inr out))"

section \<open>The content recipe\<close>

record companion_source =
  cp_name :: string
  cp_bytes :: string
  cp_inline :: bool

record kit_sources =
  ks_descriptor :: string
  ks_companion :: "string option"

datatype recipe_error =
    InlineAndNamed string
  | InlineAndCompanion string string
  | NamedUnreadable string string
  | CommentAndRecipe string
  | CommentAndKits string
  | NoContent string string
  | SetWithRecipe string string

definition path_dir :: "string \<Rightarrow> string" where
  "path_dir p = path_clean (fst (path_split p))"

definition explicitCompanion ::
  "(string \<Rightarrow> string + string) \<Rightarrow> descriptor \<Rightarrow> kit_sources \<Rightarrow> string \<Rightarrow> string \<Rightarrow> recipe_error + companion_source" where
  "explicitCompanion readFile d src filename conventional =
     (if Build d \<noteq> [] then Inl (InlineAndNamed filename)
      else let nm = path_join [path_dir filename, path_clean (DockerfileOf d)] in
           if nm = conventional \<and> ks_companion src \<noteq> None
           then Inr \<lparr>cp_name = nm, cp_bytes = the (ks_companion src), cp_inline = False\<rparr>
           else (case readFile nm of
                   Inl e \<Rightarrow> Inl (NamedUnreadable (DockerfileOf d) e)
                 | Inr body \<Rightarrow> Inr \<lparr>cp_name = nm, cp_bytes = body, cp_inline = False\<rparr>))"

definition companionSourceFor ::
  "descriptor \<Rightarrow> kit_sources \<Rightarrow> string \<Rightarrow> string \<Rightarrow> string \<Rightarrow> recipe_error + companion_source option" where
  "companionSourceFor d src stem filename companion =
     (if Build d \<noteq> [] \<and> ks_companion src \<noteq> None then Inl (InlineAndCompanion filename companion)
      else if Build d \<noteq> [] then Inr (Some \<lparr>cp_name = stem @ ''.build.dockerfile'', cp_bytes = Build d, cp_inline = True\<rparr>)
      else (case ks_companion src of
              Some body \<Rightarrow> Inr (Some \<lparr>cp_name = companion, cp_bytes = body, cp_inline = False\<rparr>)
            | None \<Rightarrow> Inr None))"

definition attestationsRequested ::
  "((string \<times> string) list \<Rightarrow> string + (string \<times> (string \<times> string) list) list) \<Rightarrow> (string \<times> string) list \<Rightarrow> bool" where
  "attestationsRequested parse opts =
     (case parse opts of
        Inl _ \<Rightarrow> False
      | Inr parsed \<Rightarrow>
          list_ex (\<lambda>(kind, attrs). \<not> (map_of attrs ''disabled'' = Some ''true'' \<or> map_of attrs ''inline-only'' = Some ''true'')) parsed)"

text \<open>The switch of \<open>Build\<close> over where the recipe may live. \<open>comment\<close> is the recipe of a file that
  carries its descriptor in a comment block.\<close>

definition contentOf ::
  "(string \<Rightarrow> string + string) \<Rightarrow> descriptor \<Rightarrow> kit_sources \<Rightarrow> companion_source option \<Rightarrow> string \<Rightarrow> string \<Rightarrow> string
   \<Rightarrow> recipe_error + companion_source option" where
  "contentOf readFile d src comment stem filename companion =
     rbind
       (case comment of
          Some c \<Rightarrow>
            if Build d \<noteq> [] \<or> DockerfileOf d \<noteq> [] then Inl (CommentAndRecipe filename)
            else if Kits d \<noteq> [] then Inl (CommentAndKits filename)
            else Inr (Some c)
        | None \<Rightarrow>
            if DockerfileOf d \<noteq> []
            then rbind (explicitCompanion readFile d src filename companion) (\<lambda>c. Inr (Some c))
            else companionSourceFor d src stem filename companion)
       (\<lambda>content.
          if content = None \<and> Kind d = KindWorkload \<and> Kits d = [] then Inl (NoContent filename companion)
          else if Kits d \<noteq> [] \<and> content \<noteq> None then Inl (SetWithRecipe filename (cp_name (the content)))
          else Inr content)"

section \<open>The solve of a recipe\<close>

text \<open>\<open>strings.Contains\<close>.\<close>

definition contains_text :: "string \<Rightarrow> string \<Rightarrow> bool" where
  "contains_text s t \<longleftrightarrow> list_ex (\<lambda>i. has_prefix (drop i s) t) [0..<Suc (length s)]"

definition namesKitFrontend :: "string \<Rightarrow> bool" where
  "namesKitFrontend recipe \<longleftrightarrow>
     (let line = before CHR 0x0A (trim_space recipe) in
      has_prefix line ''# syntax='' \<and> (contains_text line ''sandbox-kit'' \<or> contains_text line ''sbx-kit''))"

record 'd solve_request =
  sr_Frontend :: string
  sr_FrontendOpt :: "(string \<times> string) list"
  sr_FrontendInputs :: "(string \<times> 'd) list"

datatype solve_error = NamesKitFrontend string | InputsFailed string

definition localDockerfile :: string where "localDockerfile = ''dockerfile''"

text \<open>The request one solve of the recipe sends. \<open>inputs\<close> is what the caller's named inputs marshal to, when
  the gateway supports them; \<open>inlineInput\<close> is the marshalled tree of one file.\<close>

definition solveRequest ::
  "recipe_lib \<Rightarrow> (string + (string \<times> 'd) list) option \<Rightarrow> (string \<Rightarrow> string \<Rightarrow> 'd) \<Rightarrow> descriptor \<Rightarrow> (string \<times> string) list
   \<Rightarrow> companion_source \<Rightarrow> platform option \<Rightarrow> string \<Rightarrow> solve_error + 'd solve_request" where
  "solveRequest lib inputs inlineInput d opts content plat target =
     (if namesKitFrontend (cp_bytes content) then Inl (NamesKitFrontend (cp_name content))
      else
        let fo = dockerfileFrontendOpts lib d opts (cp_name content) plat;
            fo' = (if target \<noteq> [] then AList.update keyTarget target fo else fo)
        in case (case inputs of None \<Rightarrow> Inr [] | Some answer \<Rightarrow> answer) of
             Inl e \<Rightarrow> Inl (InputsFailed e)
           | Inr named \<Rightarrow>
               (let handed = filter (\<lambda>(nm, _). nm \<noteq> localDockerfile) named in
                Inr \<lparr>sr_Frontend = ''dockerfile.v0'', sr_FrontendOpt = fo',
                     sr_FrontendInputs = (if cp_inline content
                       then AList.update localDockerfile (inlineInput (cp_name content) (cp_bytes content)) handed else handed)\<rparr>))"

end
