(* ===== verification/Frontend_Options_Facts.thy ===== *)
theory Frontend_Options_Facts
  imports Frontend_Options
begin

text \<open>
  What a recipe is built with: the options of the solve are exactly the caller's own, less the reserved
  ones, with the file, the platform and the arguments set by the frontend, and every argument has the
  value the descriptor was validated and expanded with.
\<close>

section \<open>Forwarded options\<close>

definition inherited :: "string \<Rightarrow> bool" where
  "inherited k \<longleftrightarrow> \<not> reservedSubSolveOpt k \<and> k \<noteq> keyFilename \<and> k \<noteq> keyPlatform"

lemma foldl_update_if:
  "map_of (foldl (\<lambda>m (k, v). if P k then m else AList.update k v m) m xs) k =
   (if P k then map_of m k else case map_of (rev xs) k of Some v \<Rightarrow> Some v | None \<Rightarrow> map_of m k)"
proof (induction xs rule: rev_induct)
  case (snoc kv xs)
  then show ?case by (cases kv) (auto simp: AList.update_conv' split: option.splits)
qed simp

lemma map_of_rev_distinct: "distinct (map fst xs) \<Longrightarrow> map_of (rev xs) = map_of xs"
  by (rule map_of_inject_set [THEN iffD2]) (simp_all add: rev_map [symmetric])

lemma inheritedOpts_map:
  assumes "distinct (map fst opts)"
  shows "map_of (inheritedOpts opts) k = (if inherited k then map_of opts k else None)"
  unfolding inheritedOpts_def foldl_update_if map_of_rev_distinct [OF assms]
  by (auto simp: inherited_def split: option.splits)

text \<open>The destination of an argument and what it is given.\<close>

definition destination :: "arg \<Rightarrow> string" where
  "destination decl = buildArgPrefix @ argBuildArg decl"

definition calledValue :: "(string \<times> string) list \<Rightarrow> string \<times> arg \<Rightarrow> string option" where
  "calledValue opts nd =
     (if argBuildArg (snd nd) = [] \<or> reservedSubSolveOpt (destination (snd nd)) then None
      else case map_of opts (buildArgPrefix @ fst nd) of Some v \<Rightarrow> Some v | None \<Rightarrow> argDefault (snd nd))"

lemma mappedArg_eq:
  "mappedArg opts fo nd = (case calledValue opts nd of None \<Rightarrow> fo | Some v \<Rightarrow> AList.update (destination (snd nd)) v fo)"
  by (auto simp: mappedArg_def calledValue_def destination_def Let_def split: prod.splits option.splits)

lemma mappedArgs_other:
  "(\<forall>nd \<in> set args. calledValue opts nd \<noteq> None \<longrightarrow> destination (snd nd) \<noteq> k) \<Longrightarrow>
   map_of (foldl (mappedArg opts) fo args) k = map_of fo k"
  by (induction args rule: rev_induct)
     (auto simp: mappedArg_eq AList.update_conv' split: option.splits)

lemma mappedArgs_value:
  assumes "nd \<in> set args" "calledValue opts nd = Some v"
    and "inj_on (destination \<circ> snd) {nd \<in> set args. argBuildArg (snd nd) \<noteq> []}"
  shows "map_of (foldl (mappedArg opts) fo args) (destination (snd nd)) = Some v"
  using assms
proof (induction args rule: rev_induct)
  case (snoc x xs)
  have mapped: "argBuildArg (snd nd') \<noteq> []" if "calledValue opts nd' \<noteq> None" for nd'
    using that by (auto simp: calledValue_def)
  show ?case
  proof (cases "x = nd")
    case True
    then show ?thesis using snoc.prems(2) by (simp add: mappedArg_eq AList.update_conv')
  next
    case False
    then have "map_of (foldl (mappedArg opts) fo xs) (destination (snd nd)) = Some v"
      using snoc.prems by (intro snoc.IH) (auto intro: inj_on_subset)
    moreover have "destination (snd x) \<noteq> destination (snd nd)" if "calledValue opts x \<noteq> None"
    proof
      assume "destination (snd x) = destination (snd nd)"
      then have "x = nd"
        using snoc.prems mapped [OF that] mapped [of nd] by (intro inj_onD [OF snoc.prems(3)]) auto
      with False show False by simp
    qed
    ultimately show ?thesis by (auto simp: mappedArg_eq [of opts _ x] AList.update_conv' split: option.splits)
  qed
qed simp

lemma reserved_not_owned [simp]: "\<not> reservedSubSolveOpt keyFilename" "\<not> reservedSubSolveOpt keyPlatform"
  by (simp_all add: reservedSubSolveOpt_def option_keys has_prefix_def)

lemma destination_not_owned [simp]: "destination decl \<noteq> keyFilename" "destination decl \<noteq> keyPlatform"
  by (simp_all add: destination_def option_keys)

lemma keyPlatform_not_keyFilename [simp]: "keyPlatform \<noteq> keyFilename"
  by (simp add: option_keys)

lemma forwarded_base:
  assumes "distinct (map fst opts)"
    and "\<forall>nd \<in> set (Args d). calledValue opts nd \<noteq> None \<longrightarrow> destination (snd nd) \<noteq> k"
  shows "map_of (dockerfileFrontendOpts lib d opts companion plat) k =
    (if k = keyFilename then Some companion
     else if k = keyPlatform then map_option (formatAllPlatform lib) plat
     else if reservedSubSolveOpt k then None else map_of opts k)"
  unfolding dockerfileFrontendOpts_def Let_def mappedArgs_other [OF assms(2)]
  by (auto simp: AList.update_conv' inheritedOpts_map [OF assms(1)] inherited_def split: option.splits)

lemma reserved_not_mapped:
  "reservedSubSolveOpt k \<Longrightarrow> calledValue opts nd \<noteq> None \<Longrightarrow> destination (snd nd) \<noteq> k"
  by (auto simp: calledValue_def split: if_splits)

section \<open>The validated values\<close>

lemma suppliedArgs_map:
  assumes "distinct (map fst (Args d))"
  shows "map_of (suppliedArgs d opts) nm =
    (case map_of (buildDecls d) nm of None \<Rightarrow> None | Some decl \<Rightarrow> map_of opts (buildArgPrefix @ nm))"
proof -
  have "distinct (map fst (buildDecls d))" using assms by (simp add: buildDecls_def distinct_map_filter)
  from map_of_collect [OF this, of "\<lambda>nm decl. map_of opts (buildArgPrefix @ nm)"] show ?thesis
    by (simp add: suppliedArgs_def)
qed

lemma resolved_value:
  assumes d: "distinct (map fst (Args d))" and r: "ResolveArgs fm (buildDecls d) (suppliedArgs d opts) = Inr vals"
    and nd: "(nm, decl) \<in> set (Args d)" "argBuildArg decl \<noteq> []"
  shows "map_of vals nm = (case map_of opts (buildArgPrefix @ nm) of Some v \<Rightarrow> Some v | None \<Rightarrow> argDefault decl)"
    and "map_of vals nm = Some v \<Longrightarrow> checkArgValue fm nm decl v = None"
    and "argRequired decl \<Longrightarrow> map_of vals nm \<noteq> None"
proof -
  have db: "distinct (map fst (buildDecls d))" using d by (simp add: buildDecls_def distinct_map_filter)
  have mem: "(nm, decl) \<in> set (buildDecls d)" using nd by (simp add: buildDecls_def)
  have look: "map_of (buildDecls d) nm = Some decl" using db mem by simp
  have loop: "resolveLoop fm (suppliedArgs d opts) (buildDecls d) = Inr vals"
    using r by (simp add: ResolveArgs_def split: option.splits)
  note resolveLoop_spec [of fm "suppliedArgs d opts" "buildDecls d"]
  with loop have vals: "vals = concat (map (\<lambda>(nm, decl). case arg_value (suppliedArgs d opts) nm decl of None \<Rightarrow> [] | Some v \<Rightarrow> [(nm, v)]) (buildDecls d))"
    and ok: "arg_ok fm (suppliedArgs d opts) nm decl"
    using mem by (auto simp: is_ok_def list_all_iff)
  have called: "map_of (suppliedArgs d opts) nm = map_of opts (buildArgPrefix @ nm)"
    using suppliedArgs_map [OF d] look by simp
  show eq: "map_of vals nm = (case map_of opts (buildArgPrefix @ nm) of Some v \<Rightarrow> Some v | None \<Rightarrow> argDefault decl)"
    unfolding vals map_of_collect [OF db] using look by (simp add: arg_value_def called)
  show "checkArgValue fm nm decl v = None" if "map_of vals nm = Some v"
    using ok that unfolding eq by (auto simp: arg_ok_def called split: option.splits)
  show "map_of vals nm \<noteq> None" if "argRequired decl"
    using ok that unfolding eq by (auto simp: arg_ok_def called split: option.splits)
qed

section \<open>Properties\<close>

text \<open>
  Property C17. When a descriptor's build-phase arguments are accepted, the recipe is built with the values
  the published descriptor was expanded with: every one of them satisfies its declaration, every required
  argument has one, and each is forwarded under the argument's destination. No reserved key is forwarded,
  the file is the recipe and the platform is the one being built; every other option of the caller is
  forwarded as given. Arguments have distinct names and distinct destinations.
\<close>

theorem recipe_options_exact:
  fixes lib :: recipe_lib and companion :: string and plat :: "platform option"
  assumes opts: "distinct (map fst opts)" and names: "distinct (map fst (Args d))"
    and dests: "inj_on (destination \<circ> snd) {nd \<in> set (Args d). argBuildArg (snd nd) \<noteq> []}"
    and phase: "expandBuildPhase fm ex raw d opts = Inr published"
  defines "fo \<equiv> dockerfileFrontendOpts lib d opts companion plat"
  shows "(\<exists>vals. ex raw (Args d) vals = Inr published
      \<and> (\<forall>nm decl. (nm, decl) \<in> set (Args d) \<and> argBuildArg decl \<noteq> [] \<longrightarrow>
            (argRequired decl \<longrightarrow> map_of vals nm \<noteq> None)
          \<and> (\<forall>v. map_of vals nm = Some v \<longrightarrow> checkArgValue fm nm decl v = None
                 \<and> (\<not> reservedSubSolveOpt (destination decl) \<longrightarrow> map_of fo (destination decl) = Some v))))
    \<and> (\<forall>k. reservedSubSolveOpt k \<longrightarrow> map_of fo k = None)
    \<and> map_of fo keyFilename = Some companion
    \<and> map_of fo keyPlatform = map_option (formatAllPlatform lib) plat
    \<and> (\<forall>k. inherited k \<and> (\<forall>nd \<in> set (Args d). calledValue opts nd \<noteq> None \<longrightarrow> destination (snd nd) \<noteq> k)
          \<longrightarrow> map_of fo k = map_of opts k)"
proof (intro conjI)
  obtain vals where r: "ResolveArgs fm (buildDecls d) (suppliedArgs d opts) = Inr vals"
    and out: "ex raw (Args d) vals = Inr published"
    using phase by (auto simp: expandBuildPhase_def split: sum.splits)
  have "map_of fo (destination decl) = Some v"
    if "(nm, decl) \<in> set (Args d)" "argBuildArg decl \<noteq> []" "map_of vals nm = Some v" "\<not> reservedSubSolveOpt (destination decl)"
    for nm decl v
  proof -
    have "calledValue opts (nm, decl) = Some v"
      using that resolved_value(1) [OF names r that(1,2)] by (auto simp: calledValue_def split: option.splits)
    from mappedArgs_value [OF that(1) this dests] show ?thesis
      by (simp add: fo_def dockerfileFrontendOpts_def Let_def)
  qed
  with out resolved_value(2,3) [OF names r] show "\<exists>vals. ex raw (Args d) vals = Inr published
      \<and> (\<forall>nm decl. (nm, decl) \<in> set (Args d) \<and> argBuildArg decl \<noteq> [] \<longrightarrow>
            (argRequired decl \<longrightarrow> map_of vals nm \<noteq> None)
          \<and> (\<forall>v. map_of vals nm = Some v \<longrightarrow> checkArgValue fm nm decl v = None
                 \<and> (\<not> reservedSubSolveOpt (destination decl) \<longrightarrow> map_of fo (destination decl) = Some v)))"
    by (intro exI [of _ vals]) blast
  show "\<forall>k. reservedSubSolveOpt k \<longrightarrow> map_of fo k = None"
    using reserved_not_mapped forwarded_base [OF opts] reserved_not_owned unfolding fo_def by metis
  show "map_of fo keyFilename = Some companion" "map_of fo keyPlatform = map_option (formatAllPlatform lib) plat"
    unfolding fo_def by (simp_all add: forwarded_base [OF opts])
  show "\<forall>k. inherited k \<and> (\<forall>nd \<in> set (Args d). calledValue opts nd \<noteq> None \<longrightarrow> destination (snd nd) \<noteq> k)
          \<longrightarrow> map_of fo k = map_of opts k"
    using forwarded_base [OF opts] unfolding fo_def inherited_def by metis
qed

definition exampleArg :: "string \<Rightarrow> string list \<Rightarrow> arg" where
  "exampleArg dst enum = \<lparr>argDefault = None, argRequired = False, argDescription = [], argEnum = enum, argPattern = [],
     argEnv = [], argBuildArg = dst\<rparr>"

definition plainLib :: recipe_lib where
  "plainLib = \<lparr>parseRecipe = (\<lambda>_. Inl []), processWord = (\<lambda>esc w env. Inr w), formatPlatform = p_OS,
     formatAllPlatform = p_OS, parsePlatform = (\<lambda>p. Inl []), normalizePlatform = (\<lambda>p. p),
     defaultPlatform = emptyPlatform\<rparr>"

theorem recipe_options_exact_witness:
  "map_of (dockerfileFrontendOpts plainLib (emptyDescriptor\<lparr>Args := [(''v'', exampleArg ''VERSION'' [''1'', ''2''])]\<rparr>)
      [(''build-arg:v'', ''2''), (''no-cache'', []), (''requestid'', ''x'')] ''kit.dockerfile'' None) ''requestid'' = None"
proof -
  let ?d = "emptyDescriptor\<lparr>Args := [(''v'', exampleArg ''VERSION'' [''1'', ''2''])]\<rparr>"
  let ?opts = "[(''build-arg:v'', ''2''), (''no-cache'', []), (''requestid'', ''x'')]"
  have "expandBuildPhase (\<lambda>p v. Inr True) (\<lambda>raw decls vals. Inr raw) [] ?d ?opts = Inr []"
    by (simp add: expandBuildPhase_def ResolveArgs_def buildDecls_def suppliedArgs_def exampleArg_def
        emptyDescriptor_def buildArgPrefix_def checkArgValue_def)
  moreover have "reservedSubSolveOpt ''requestid''" by (simp add: reservedSubSolveOpt_def keyRequestID_def)
  moreover have "distinct (map fst ?opts)" "distinct (map fst (Args ?d))"
    "inj_on (destination \<circ> snd) {nd \<in> set (Args ?d). argBuildArg (snd nd) \<noteq> []}"
    by (simp_all add: emptyDescriptor_def inj_on_def)
  ultimately show ?thesis
    using recipe_options_exact [of ?opts ?d "\<lambda>p v. Inr True" "\<lambda>raw decls vals. Inr raw" "[]" "[]" plainLib "''kit.dockerfile''" None]
    by blast
qed

text \<open>Two arguments with one destination are not refused, and the option forwarded for it depends on the order
  in which the map of arguments is traversed.\<close>

lemma shared_destination_ambiguous:
  "map_of (dockerfileFrontendOpts plainLib (emptyDescriptor\<lparr>Args := [(''a'', exampleArg ''X'' []), (''b'', exampleArg ''X'' [])]\<rparr>)
      [(''build-arg:a'', ''1''), (''build-arg:b'', ''2'')] [] None) ''build-arg:X'' = Some ''2''"
  "map_of (dockerfileFrontendOpts plainLib (emptyDescriptor\<lparr>Args := [(''b'', exampleArg ''X'' []), (''a'', exampleArg ''X'' [])]\<rparr>)
      [(''build-arg:a'', ''1''), (''build-arg:b'', ''2'')] [] None) ''build-arg:X'' = Some ''1''"
  by code_simp+

text \<open>An argument that is neither supplied nor has a default leaves its destination to the caller, whose text for
  it is forwarded although the declaration refuses it.\<close>

lemma destination_unchecked:
  "expandBuildPhase (\<lambda>p v. Inr True) (\<lambda>raw decls vals. Inr raw) [] (emptyDescriptor\<lparr>Args := [(''a'', exampleArg ''X'' [''ok''])]\<rparr>)
     [(''build-arg:X'', ''other'')] = Inr []"
  "map_of (dockerfileFrontendOpts plainLib (emptyDescriptor\<lparr>Args := [(''a'', exampleArg ''X'' [''ok''])]\<rparr>)
      [(''build-arg:X'', ''other'')] [] None) ''build-arg:X'' = Some ''other''"
  by code_simp+

section \<open>One recipe\<close>

text \<open>The places a kit's recipe is declared in. A companion found by its name counts unless the descriptor names
  a recipe or is itself the comment block of one.\<close>

definition recipePlaces :: "descriptor \<Rightarrow> kit_sources \<Rightarrow> companion_source option \<Rightarrow> nat" where
  "recipePlaces d src comment =
     length (filter id [comment \<noteq> None, Build d \<noteq> [], DockerfileOf d \<noteq> [],
       comment = None \<and> DockerfileOf d = [] \<and> ks_companion src \<noteq> None])"



end
