(* ===== verification/Yaml_Nodes.thy ===== *)
theory Yaml_Nodes
  imports Frontend_Set_Build
begin

text \<open>
  The amendments of a published descriptor's YAML document (\<open>cmd/frontend/build.go\<close>:
  \<open>withDerivedProvides\<close>, \<open>aliasedElsewhere\<close>, \<open>rewriteContentFile\<close>, \<open>mappingValue\<close>).

  A document is a tree of nodes, each with its address, so that two pointers are compared by address and
  a node is changed in place wherever it is reached from; an alias holds the address of its target. The
  parser, the printer and \<open>Node.SetString\<close> of the YAML library are parameters.
\<close>

section \<open>Nodes\<close>

datatype yaml_kind = NoNode | DocumentNode | SequenceNode | MappingNode | ScalarNode | AliasNode

datatype yaml_node =
  YNode (yAddr: nat) (yKind: yaml_kind) (yTag: string) (yText: string) (yAnchor: string) (yAlias: "nat option")
    (yContent: "yaml_node list")

primrec allNodes :: "yaml_node \<Rightarrow> yaml_node list" where
  "allNodes (YNode i k tg s an al cs) = YNode i k tg s an al cs # concat (map allNodes cs)"

definition deref :: "yaml_node \<Rightarrow> nat \<Rightarrow> yaml_node option" where
  "deref doc a = List.find (\<lambda>n. yAddr n = a) (allNodes doc)"

text \<open>A change of the node at an address.\<close>

primrec updateNode :: "nat \<Rightarrow> (yaml_node \<Rightarrow> yaml_node) \<Rightarrow> yaml_node \<Rightarrow> yaml_node" where
  "updateNode a f (YNode i k tg s an al cs) =
     (if i = a then f (YNode i k tg s an al cs) else YNode i k tg s an al (map (updateNode a f) cs))"

definition setContent :: "yaml_node list \<Rightarrow> yaml_node \<Rightarrow> yaml_node" where
  "setContent cs n = YNode (yAddr n) (yKind n) (yTag n) (yText n) (yAnchor n) (yAlias n) cs"

section \<open>Mappings\<close>

fun pairValue :: "string \<Rightarrow> yaml_node list \<Rightarrow> yaml_node option" where
  "pairValue key (k # v # rest) = (if yText k = key then Some v else pairValue key rest)"
| "pairValue key rest = None"

definition mappingValue :: "yaml_node \<Rightarrow> string \<Rightarrow> yaml_node option" where
  "mappingValue n key = (if yKind n \<noteq> MappingNode then None else pairValue key (yContent n))"

definition documentRoot :: "yaml_node \<Rightarrow> yaml_node" where
  "documentRoot n = (if yKind n = DocumentNode \<and> yContent n \<noteq> [] then yContent n ! 0 else n)"

primrec aliasedElsewhere :: "nat \<Rightarrow> yaml_node \<Rightarrow> bool" where
  "aliasedElsewhere target (YNode i k tg s an al cs) =
     (if i = target then False
      else if k = AliasNode then al = Some target
      else list_ex id (map (aliasedElsewhere target) cs))"

section \<open>Derived provides\<close>

datatype yaml_error =
    NotReparsed string
  | NotMapping
  | SharedProvides string
  | ProvidesNotList
  | NotReencoded string
  | NotDecodedAgain string
  | PublishedRefused string
  | NoSuchContentFile string

definition freshAddr :: "yaml_node \<Rightarrow> nat" where
  "freshAddr doc = Suc (foldr max (map yAddr (allNodes doc)) 0)"

definition scalarNode :: "nat \<Rightarrow> string \<Rightarrow> yaml_node" where
  "scalarNode a s = YNode a ScalarNode ''!!str'' s [] None []"

definition derivedNodes :: "nat \<Rightarrow> string list \<Rightarrow> yaml_node list" where
  "derivedNodes a derived = map (\<lambda>(i, s). scalarNode (a + i) s) (enumerate 0 derived)"

definition providesKey :: string where "providesKey = ''provides''"

text \<open>Each branch changes one node of the document: the mapping itself, or the node of the field.\<close>

definition amendProvides :: "string list \<Rightarrow> yaml_node \<Rightarrow> yaml_error + yaml_node" where
  "amendProvides derived doc =
     (let root = documentRoot doc; a = freshAddr doc; new = derivedNodes (a + 2) derived;
          extend = (\<lambda>p. Inr (updateNode (yAddr p) (\<lambda>n. setContent (yContent n @ new) n) doc))
      in if yKind root \<noteq> MappingNode then Inl NotMapping
         else case mappingValue root providesKey of
           None \<Rightarrow>
             Inr (updateNode (yAddr root) (\<lambda>n. setContent (yContent n @
               [scalarNode a providesKey, YNode (a + 1) SequenceNode ''!!seq'' [] [] None new]) n) doc)
         | Some p \<Rightarrow>
             if yKind p = ScalarNode \<and> yTag p = ''!!null'' then
               Inr (updateNode (yAddr p) (\<lambda>n. YNode (yAddr n) SequenceNode ''!!seq'' [] (yAnchor n) (yAlias n) (yContent n @ new)) doc)
             else case (if yKind p = AliasNode then Option.bind (yAlias p) (deref doc) else None) of
               Some t \<Rightarrow>
                 if yKind t = SequenceNode
                 then Inr (updateNode (yAddr p) (\<lambda>n. YNode (yAddr n) (yKind t) (yTag t) (yText t) [] (yAlias t) (yContent t @ new)) doc)
                 else Inl ProvidesNotList
             | None \<Rightarrow>
                 if yKind p = SequenceNode \<and> yAnchor p \<noteq> [] \<and> aliasedElsewhere (yAddr p) root then Inl (SharedProvides (yAnchor p))
                 else if yKind p \<noteq> SequenceNode then Inl ProvidesNotList
                 else extend p)"

definition withDerivedProvides ::
  "(string \<Rightarrow> string + yaml_node) \<Rightarrow> (yaml_node \<Rightarrow> string + string) \<Rightarrow> registry_lib \<Rightarrow> string \<Rightarrow> string list
   \<Rightarrow> yaml_error + string \<times> descriptor" where
  "withDerivedProvides parseYaml printYaml lib published derived =
     (case parseYaml published of
        Inl e \<Rightarrow> Inl (NotReparsed e)
      | Inr doc \<Rightarrow>
          rbind (amendProvides derived doc) (\<lambda>doc'.
            case printYaml doc' of
              Inl e \<Rightarrow> Inl (NotReencoded e)
            | Inr out \<Rightarrow>
                (case decodeSpec lib out of
                   Inl e \<Rightarrow> Inl (NotDecodedAgain e)
                 | Inr pd \<Rightarrow>
                     (case publishedError lib out pd of
                        Some e \<Rightarrow> Inl (PublishedRefused e)
                      | None \<Rightarrow> Inr (out, pd)))))"

section \<open>The guidance file\<close>

primrec firstSome :: "('a \<Rightarrow> 'b option) \<Rightarrow> 'a list \<Rightarrow> 'b option" where
  "firstSome f [] = None"
| "firstSome f (x # xs) = (case f x of Some y \<Rightarrow> Some y | None \<Rightarrow> firstSome f xs)"

lemma firstSome_cong [fundef_cong]:
  "xs = ys \<Longrightarrow> (\<And>x. x \<in> set ys \<Longrightarrow> f x = g x) \<Longrightarrow> firstSome f xs = firstSome g ys"
  by (induction ys arbitrary: xs) (auto split: option.splits)

definition fieldText :: "yaml_node \<Rightarrow> yaml_node \<Rightarrow> string" where
  "fieldText doc field =
     (if yKind field = AliasNode
      then (case Option.bind (yAlias field) (deref doc) of Some t \<Rightarrow> yText t | None \<Rightarrow> yText field)
      else yText field)"

definition contentField :: "yaml_node \<Rightarrow> yaml_node option" where
  "contentField entry =
     (case mappingValue entry ''type'' of
        None \<Rightarrow> None
      | Some typ \<Rightarrow>
          if yText typ \<noteq> CapabilityAgentContext then None
          else Option.bind (mappingValue entry ''config'') (\<lambda>config. mappingValue config ''contentFile''))"

lemma pairValue_mem: "pairValue key cs = Some v \<Longrightarrow> v \<in> set cs"
  by (induction key cs rule: pairValue.induct) (auto split: if_splits)

lemma content_size: "c \<in> set (yContent n) \<Longrightarrow> size c < size n"
  by (cases n) (auto dest: size_list_estimation' [of c _ "size c" size])

lemma mappingValue_size: "mappingValue n key = Some v \<Longrightarrow> size v < size n"
  by (auto simp: mappingValue_def split: if_splits dest!: pairValue_mem intro: content_size)

lemma documentRoot_size: "size (documentRoot n) \<le> size n"
  by (auto simp: documentRoot_def intro!: less_imp_le content_size nth_mem)

text \<open>The field to rewrite: of the nested groups of an entry first, then of the entry itself.\<close>

function rewriteTarget :: "yaml_node \<Rightarrow> string \<Rightarrow> yaml_node \<Rightarrow> yaml_node option" where
  "rewriteTarget doc contentFile n =
     (case mappingValue (documentRoot n) ''capabilities'' of
        None \<Rightarrow> None
      | Some caps \<Rightarrow>
          if yKind caps \<noteq> SequenceNode then None
          else firstSome (\<lambda>entry.
            case (case mappingValue entry ''group'' of None \<Rightarrow> None | Some g \<Rightarrow> rewriteTarget doc contentFile g) of
              Some field \<Rightarrow> Some field
            | None \<Rightarrow>
                (case contentField entry of
                   None \<Rightarrow> None
                 | Some field \<Rightarrow> if fieldText doc field = contentFile then Some field else None)) (yContent caps))"
  by pat_completeness auto

termination
proof (relation "measure (\<lambda>(doc, f, n). size n)", simp)
  fix n caps entry g :: yaml_node and doc :: yaml_node and contentFile :: string
  assume "mappingValue (documentRoot n) ''capabilities'' = Some caps" "entry \<in> set (yContent caps)"
    "mappingValue entry ''group'' = Some g"
  then have "size g < size entry" "size entry < size caps" "size caps < size (documentRoot n)"
    using mappingValue_size content_size by blast+
  then show "((doc, contentFile, g), doc, contentFile, n) \<in> measure (\<lambda>(doc, f, n). size n)"
    using documentRoot_size [of n] by simp
qed

declare rewriteTarget.simps [simp del]

definition clearAlias :: "yaml_node \<Rightarrow> yaml_node" where
  "clearAlias n = YNode (yAddr n) (yKind n) (yTag n) (yText n) (yAnchor n) None (yContent n)"

definition rewriteContentFileNode ::
  "(string \<Rightarrow> yaml_node \<Rightarrow> yaml_node) \<Rightarrow> yaml_node \<Rightarrow> string \<Rightarrow> string \<Rightarrow> yaml_node option" where
  "rewriteContentFileNode setString doc contentFile staged =
     map_option (\<lambda>field. updateNode (yAddr field) (\<lambda>n. clearAlias (setString staged n)) doc) (rewriteTarget doc contentFile doc)"

definition rewriteContentFile ::
  "(string \<Rightarrow> yaml_node \<Rightarrow> yaml_node) \<Rightarrow> (string \<Rightarrow> string + yaml_node) \<Rightarrow> (yaml_node \<Rightarrow> string + string)
   \<Rightarrow> string \<Rightarrow> string \<Rightarrow> string \<Rightarrow> yaml_error + string" where
  "rewriteContentFile setString parseYaml printYaml published contentFile staged =
     (case parseYaml published of
        Inl e \<Rightarrow> Inl (NotReparsed e)
      | Inr doc \<Rightarrow>
          (case rewriteContentFileNode setString doc contentFile staged of
             None \<Rightarrow> Inl (NoSuchContentFile contentFile)
           | Some doc' \<Rightarrow> (case printYaml doc' of Inl e \<Rightarrow> Inl (NotReencoded e) | Inr out \<Rightarrow> Inr out)))"

end
