(* ===== verification/Yaml_Facts.thy ===== *)
theory Yaml_Facts
  imports Yaml_Nodes
begin

text \<open>
  What the amendments of a published document leave as it was. A document is read with its aliases
  followed; adding the derived entries to \<open>provides\<close> extends that list alone, and rewriting the
  guidance file replaces exactly the first matching field of an agent-context entry.
\<close>

section \<open>Reading a document\<close>

datatype yaml_plain = PScalar string string | PSequence "yaml_plain list" | PMapping "yaml_plain list"

inductive reads :: "yaml_node \<Rightarrow> yaml_node \<Rightarrow> yaml_plain \<Rightarrow> bool" for doc where
  reads_scalar: "yKind n = ScalarNode \<Longrightarrow> reads doc n (PScalar (yTag n) (yText n))"
| reads_sequence: "yKind n = SequenceNode \<Longrightarrow> list_all2 (reads doc) (yContent n) ts \<Longrightarrow> reads doc n (PSequence ts)"
| reads_mapping: "yKind n = MappingNode \<Longrightarrow> list_all2 (reads doc) (yContent n) ts \<Longrightarrow> reads doc n (PMapping ts)"
| reads_alias: "yKind n = AliasNode \<Longrightarrow> yAlias n = Some a \<Longrightarrow> deref doc a = Some m \<Longrightarrow> reads doc m t \<Longrightarrow> reads doc n t"

inductive_simps reads_PSequence: "reads doc n (PSequence ts)"

lemma reads_at_sequence:
  "yKind n = SequenceNode \<Longrightarrow> reads doc n (PSequence ts) \<longleftrightarrow> list_all2 (reads doc) (yContent n) ts"
  by (subst reads_PSequence) simp

lemma reads_at_alias:
  "yKind n = AliasNode \<Longrightarrow> reads doc n (PSequence ts) \<longleftrightarrow> (\<exists>a m. yAlias n = Some a \<and> deref doc a = Some m \<and> reads doc m (PSequence ts))"
  by (subst reads_PSequence) simp

text \<open>Two documents read alike on a set of nodes they share, when its aliases lead back into it.\<close>

lemma reads_frame_half:
  assumes closed: "\<And>n c. n \<in> S \<Longrightarrow> c \<in> set (yContent n) \<Longrightarrow> c \<in> S"
    and same: "\<And>n a. n \<in> S \<Longrightarrow> yKind n = AliasNode \<Longrightarrow> yAlias n = Some a \<Longrightarrow>
      \<exists>m \<in> S. deref doc a = Some m \<and> deref doc' a = Some m"
  shows "reads doc n t \<Longrightarrow> n \<in> S \<Longrightarrow> reads doc' n t"
proof (induction rule: reads.induct)
  case (reads_sequence n ts)
  then have "list_all2 (reads doc') (yContent n) ts"
    using closed [of n] by (auto simp: list_all2_conv_all_nth)
  then show ?case using reads_sequence.hyps by (intro reads.reads_sequence)
next
  case (reads_mapping n ts)
  then have "list_all2 (reads doc') (yContent n) ts"
    using closed [of n] by (auto simp: list_all2_conv_all_nth)
  then show ?case using reads_mapping.hyps by (intro reads.reads_mapping)
next
  case (reads_alias n a m t)
  then show ?case using same [of n a] by (auto intro: reads.reads_alias)
qed (rule reads.reads_scalar)

lemma reads_frame:
  assumes "\<And>n c. n \<in> S \<Longrightarrow> c \<in> set (yContent n) \<Longrightarrow> c \<in> S"
    and "\<And>n a. n \<in> S \<Longrightarrow> yKind n = AliasNode \<Longrightarrow> yAlias n = Some a \<Longrightarrow>
      \<exists>m \<in> S. deref doc a = Some m \<and> deref doc' a = Some m"
    and "n \<in> S"
  shows "reads doc n t \<longleftrightarrow> reads doc' n t"
proof
  show "reads doc' n t" if "reads doc n t" by (rule reads_frame_half [OF assms(1,2) that assms(3)]) auto
  show "reads doc n t" if "reads doc' n t"
    by (rule reads_frame_half [OF assms(1) _ that assms(3)]) (use assms(2) in \<open>auto\<close>)
qed

section \<open>Addresses\<close>

definition addrs :: "yaml_node \<Rightarrow> nat list" where
  "addrs n = map yAddr (allNodes n)"

lemma addrs_Node: "addrs n = yAddr n # concat (map addrs (yContent n))"
  by (cases n) (simp add: addrs_def [abs_def] map_concat comp_def)

lemma allNodes_Node: "allNodes n = n # concat (map allNodes (yContent n))"
  by (cases n) simp

lemma self_in_allNodes [simp]: "n \<in> set (allNodes n)"
  by (cases n) simp

lemma addr_in_addrs [simp]: "yAddr n \<in> set (addrs n)"
  by (simp add: addrs_Node [of n])

lemma allNodes_trans: "m \<in> set (allNodes n) \<Longrightarrow> set (allNodes m) \<subseteq> set (allNodes n)"
proof (induction n)
  case (YNode i k tg s an al cs)
  then show ?case by fastforce
qed

lemma content_in_allNodes: "n \<in> set (allNodes doc) \<Longrightarrow> c \<in> set (yContent n) \<Longrightarrow> c \<in> set (allNodes doc)"
proof -
  assume "n \<in> set (allNodes doc)" and c: "c \<in> set (yContent n)"
  moreover have "c \<in> set (allNodes n)"
    unfolding allNodes_Node [of n] using c by (auto intro!: bexI [of _ c])
  ultimately show ?thesis using allNodes_trans by blast
qed

lemma content_addrs: "c \<in> set (yContent n) \<Longrightarrow> set (addrs c) \<subseteq> set (addrs n)"
  by (auto simp: addrs_Node [of n])

lemma node_addrs: "m \<in> set (allNodes n) \<Longrightarrow> set (addrs m) \<subseteq> set (addrs n)"
  using allNodes_trans [of m n] by (auto simp: addrs_def)

lemma distinct_addrs_inj: "distinct (addrs doc) \<Longrightarrow> inj_on yAddr (set (allNodes doc))"
  by (simp add: addrs_def distinct_map)

lemma deref_mem: "deref doc a = Some m \<Longrightarrow> m \<in> set (allNodes doc) \<and> yAddr m = a"
  by (auto simp: deref_def find_Some_iff)

lemma deref_unique:
  assumes "m \<in> set (allNodes doc)" "\<And>m'. m' \<in> set (allNodes doc) \<Longrightarrow> yAddr m' = yAddr m \<Longrightarrow> m' = m"
  shows "deref doc (yAddr m) = Some m"
proof -
  obtain m' where m': "deref doc (yAddr m) = Some m'"
    using assms(1) by (cases "deref doc (yAddr m)") (auto simp: deref_def find_None_iff)
  with deref_mem [OF m'] assms(2) show ?thesis by auto
qed

lemma distinct_addrs_content:
  "distinct (addrs n) \<Longrightarrow> c \<in> set (yContent n) \<Longrightarrow> distinct (addrs c) \<and> yAddr n \<notin> set (addrs c)"
  by (auto simp: addrs_Node [of n] distinct_concat_iff)

lemma distinct_contents: "distinct (addrs n) \<Longrightarrow> distinct (yContent n)"
proof -
  assume "distinct (addrs n)"
  then have "distinct (concat (map addrs (yContent n)))" by (simp add: addrs_Node [of n])
  moreover have "distinct (concat (map addrs cs)) \<Longrightarrow> distinct cs" for cs
  proof (induction cs)
    case (Cons c cs)
    have "c \<notin> set cs"
    proof
      assume "c \<in> set cs"
      then have "yAddr c \<in> set (concat (map addrs cs))" by (auto intro!: bexI [of _ c])
      with Cons.prems show False using addr_in_addrs [of c] by (auto simp: disjoint_iff)
    qed
    with Cons show ?case by simp
  qed simp
  ultimately show ?thesis by blast
qed

lemma updateNode_other: "a \<notin> set (addrs n) \<Longrightarrow> updateNode a f n = n"
proof (induction n)
  case (YNode i k tg s an al cs)
  then have "map (updateNode a f) cs = cs" by (intro map_idI) (auto simp: addrs_Node [of "YNode i k tg s an al cs"])
  with YNode.prems show ?case by (simp add: addrs_Node [of "YNode i k tg s an al cs"])
qed

lemma freshAddr_fresh: "n \<in> set (allNodes doc) \<Longrightarrow> yAddr n < freshAddr doc"
proof -
  have "x \<in> set xs \<Longrightarrow> x \<le> foldr max xs (0 :: nat)" for x xs by (induction xs) auto
  then show "n \<in> set (allNodes doc) \<Longrightarrow> yAddr n < freshAddr doc"
    by (simp add: freshAddr_def le_imp_less_Suc)
qed

section \<open>Changing one node\<close>

text \<open>What the parser delivers: every node has its own address, a scalar has no content, a mapping has a value
  for every key, an alias names an anchored node that is no alias, and no anchored node contains an alias of itself.\<close>

definition wellFormedYaml :: "yaml_node \<Rightarrow> bool" where
  "wellFormedYaml doc \<longleftrightarrow> distinct (addrs doc)
     \<and> list_all (\<lambda>n. yKind n = ScalarNode \<longrightarrow> yContent n = []) (allNodes doc)
     \<and> list_all (\<lambda>n. yKind n = MappingNode \<longrightarrow> even (length (yContent n))) (allNodes doc)
     \<and> list_all (\<lambda>n. yKind n = AliasNode \<longrightarrow> yContent n = []
         \<and> list_ex (\<lambda>t. yAlias n = Some (yAddr t) \<and> yAnchor t \<noteq> [] \<and> yKind t \<noteq> AliasNode) (allNodes doc)) (allNodes doc)
     \<and> list_all (\<lambda>t. list_all (\<lambda>m. yKind m = AliasNode \<longrightarrow> yAlias m \<noteq> Some (yAddr t)) (allNodes t)) (allNodes doc)"

definition notAliased :: "yaml_node \<Rightarrow> nat \<Rightarrow> bool" where
  "notAliased doc a \<longleftrightarrow> list_all (\<lambda>m. yKind m = AliasNode \<longrightarrow> yAlias m \<noteq> Some a) (allNodes doc)"

lemma updateNode_addr: "yAddr n \<noteq> a \<Longrightarrow> yAddr (updateNode a f n) = yAddr n"
  by (cases n) auto

lemma updateNode_content: "yAddr n \<noteq> a \<Longrightarrow> updateNode a f n = setContent (map (updateNode a f) (yContent n)) n"
  by (cases n) (auto simp: setContent_def)

lemma updateNode_at: "updateNode (yAddr n) f n = f n"
  by (cases n) auto

lemma updateNode_nodes:
  "m' \<in> set (allNodes (updateNode a f n)) \<Longrightarrow>
   (\<exists>m \<in> set (allNodes n). yAddr m \<noteq> a \<and> m' = updateNode a f m)
   \<or> (\<exists>m \<in> set (allNodes n). yAddr m = a \<and> m' \<in> set (allNodes (f m)))"
proof (induction n)
  case (YNode i k tg s an al cs)
  show ?case
  proof (cases "i = a")
    case True
    with YNode.prems show ?thesis by auto
  next
    case False
    with YNode.prems consider (here) "m' = updateNode a f (YNode i k tg s an al cs)"
      | (below) c where "c \<in> set cs" "m' \<in> set (allNodes (updateNode a f c))" by auto
    then show ?thesis
    proof cases
      case here
      with False show ?thesis by (intro disjI1 bexI [of _ "YNode i k tg s an al cs"]) simp_all
    next
      case below
      from YNode.IH [OF below] below(1) show ?thesis by (auto 0 4)
    qed
  qed
qed

lemma updateNode_keeps:
  assumes "t \<in> set (allNodes n)" "a \<notin> set (addrs t)"
    and "\<forall>m \<in> set (allNodes n). yAddr m = a \<longrightarrow> set (yContent m) \<subseteq> set (yContent (f m))"
  shows "t \<in> set (allNodes (updateNode a f n))"
  using assms
proof (induction n)
  case (YNode i k tg s an al cs)
  let ?n = "YNode i k tg s an al cs"
  show ?case
  proof (cases "t = ?n")
    case True
    with YNode.prems(2) show ?thesis by (metis self_in_allNodes updateNode_other)
  next
    case False
    then obtain c where c: "c \<in> set cs" "t \<in> set (allNodes c)" using YNode.prems(1) by auto
    show ?thesis
    proof (cases "i = a")
      case True
      then have "c \<in> set (yContent (f ?n))" using YNode.prems(3) c(1) by auto
      then have "c \<in> set (allNodes (f ?n))" by (rule content_in_allNodes [OF self_in_allNodes])
      with c(2) True show ?thesis using allNodes_trans by auto
    next
      case False
      have "t \<in> set (allNodes (updateNode a f c))" using YNode.prems c by (intro YNode.IH) auto
      with False c(1) show ?thesis by auto
    qed
  qed
qed

lemma siblings_apart:
  "distinct (concat (map addrs cs)) \<Longrightarrow> c \<in> set cs \<Longrightarrow> d \<in> set cs \<Longrightarrow> c \<noteq> d \<Longrightarrow> set (addrs c) \<inter> set (addrs d) = {}"
  by (induction cs) auto

lemma below_changed:
  assumes doc: "yContent doc = [root]" and dist: "distinct (addrs root)" and x: "x = root \<or> x \<in> set (yContent root)"
    and t: "t \<in> set (allNodes doc)" "t \<noteq> doc" "t \<noteq> root" "t \<noteq> x"
  shows "yAddr x \<notin> set (addrs t)"
proof -
  have "t \<in> set (allNodes root)" using t(1,2) doc by (simp add: allNodes_Node [of doc])
  then obtain c where c: "c \<in> set (yContent root)" "t \<in> set (allNodes c)"
    using t(3) by (auto simp: allNodes_Node [of root])
  have sub: "set (addrs t) \<subseteq> set (addrs c)" by (rule node_addrs [OF c(2)])
  show ?thesis
  proof (cases "x = root")
    case True
    then show ?thesis using sub distinct_addrs_content [OF dist c(1)] by auto
  next
    case False
    then have xc: "x \<in> set (yContent root)" using x by simp
    show ?thesis
    proof (cases "c = x")
      case True
      then obtain c' where c': "c' \<in> set (yContent x)" "t \<in> set (allNodes c')"
        using t(4) c(2) by (auto simp: allNodes_Node [of x])
      have "distinct (addrs x)" using distinct_addrs_content [OF dist xc] by simp
      from distinct_addrs_content [OF this c'(1)] node_addrs [OF c'(2)] show ?thesis by auto
    next
      case False
      have "distinct (concat (map addrs (yContent root)))" using dist by (simp add: addrs_Node [of root])
      then have "set (addrs c) \<inter> set (addrs x) = {}"
        using False c(1) xc siblings_apart by blast
      with sub show ?thesis using addr_in_addrs [of x] by blast
    qed
  qed
qed

lemma pairValue_inj: "distinct cs \<Longrightarrow> pairValue k cs = Some v \<Longrightarrow> pairValue k' cs = Some v \<Longrightarrow> k = k'"
  by (induction k cs rule: pairValue.induct) (auto split: if_splits dest: pairValue_mem)

lemma pairValue_replace:
  "distinct cs \<Longrightarrow> pairValue k0 cs = Some p \<Longrightarrow>
   pairValue k (map (\<lambda>c. if c = p then q else c) cs) = (if k = k0 then Some q else pairValue k cs)"
proof (induction k0 cs rule: pairValue.induct)
  case (1 k0 key v rest)
  show ?case
  proof (cases "yText key = k0")
    case True
    with "1.prems" have "v = p" "p \<noteq> key" "map (\<lambda>c. if c = p then q else c) rest = rest"
      by (auto intro!: map_idI)
    with True show ?thesis by simp
  next
    case False
    with "1.prems" have "p \<noteq> key" "p \<noteq> v" by (auto dest: pairValue_mem)
    with False 1 show ?thesis by auto
  qed
qed simp_all

text \<open>A node outside the changed one and its ancestors reads as before, when nothing aliases the changed node and
  what it newly contains is new or was in the document already.\<close>

lemma amended_reads:
  assumes wf: "wellFormedYaml doc" and doc: "yKind doc = DocumentNode" "yContent doc = [root]"
    and x: "x = root \<or> x \<in> set (yContent root)" and free: "notAliased doc (yAddr x)"
    and f: "yAddr (f x) = yAddr x" "set (yContent x) \<subseteq> set (yContent (f x))"
    and new: "\<forall>c \<in> set (yContent (f x)). \<forall>m \<in> set (allNodes c). m \<in> set (allNodes doc) \<or> freshAddr doc \<le> yAddr m"
    and n: "n \<in> set (allNodes doc)" "yAddr x \<notin> set (addrs n)"
  shows "reads doc n t \<longleftrightarrow> reads (updateNode (yAddr x) f doc) n t"
proof (rule reads_frame [where S = "{n \<in> set (allNodes doc). yAddr x \<notin> set (addrs n)}"])
  have dist: "distinct (addrs doc)" and inj: "inj_on yAddr (set (allNodes doc))"
    using wf distinct_addrs_inj by (simp_all add: wellFormedYaml_def)
  have droot: "distinct (addrs root)" "yAddr doc \<notin> set (addrs root)"
    using distinct_addrs_content [OF dist, of root] doc(2) by simp_all
  have rootin: "root \<in> set (allNodes doc)" using content_in_allNodes [OF self_in_allNodes, of root doc] doc(2) by simp
  have xin: "x \<in> set (allNodes doc)" using x content_in_allNodes [OF rootin] rootin by blast
  fix n a
  assume nS: "n \<in> {n \<in> set (allNodes doc). yAddr x \<notin> set (addrs n)}"
  show "c \<in> set (yContent n) \<Longrightarrow> c \<in> {n \<in> set (allNodes doc). yAddr x \<notin> set (addrs n)}" for c
    using nS content_in_allNodes content_addrs by fastforce
  assume al: "yKind n = AliasNode" "yAlias n = Some a"
  then obtain t where t: "t \<in> set (allNodes doc)" "a = yAddr t"
    using nS wf by (auto simp: wellFormedYaml_def list_all_iff list_ex_iff)
  have "n \<in> set (allNodes root)"
    using nS al(1) doc allNodes_Node [of doc] by auto
  then have outside: "t \<noteq> root" "t \<noteq> doc" "t \<noteq> x"
    using wf al t nS rootin free by (auto simp: wellFormedYaml_def list_all_iff notAliased_def)
  have apart: "yAddr x \<notin> set (addrs t)"
    using outside t(1) x droot doc below_changed by blast
  have "deref doc a = Some t" unfolding t(2) by (rule deref_unique [OF t(1)]) (use inj t(1) in \<open>auto dest: inj_onD\<close>)
  moreover have "deref (updateNode (yAddr x) f doc) a = Some t"
    unfolding t(2)
  proof (rule deref_unique)
    show "t \<in> set (allNodes (updateNode (yAddr x) f doc))"
      by (rule updateNode_keeps [OF t(1) apart]) (use f(2) inj xin in \<open>auto dest: inj_onD\<close>)
    fix m' assume m': "m' \<in> set (allNodes (updateNode (yAddr x) f doc))" "yAddr m' = yAddr t"
    from updateNode_nodes [OF m'(1)] show "m' = t"
    proof (elim disjE bexE conjE)
      fix m assume "m \<in> set (allNodes doc)" "yAddr m \<noteq> yAddr x" "m' = updateNode (yAddr x) f m"
      with m'(2) t(1) inj apart show ?thesis by (metis inj_onD updateNode_addr updateNode_other)
    next
      fix m assume m: "m \<in> set (allNodes doc)" "yAddr m = yAddr x" "m' \<in> set (allNodes (f m))"
      then have "m = x" using inj xin by (auto dest: inj_onD)
      with m(3) have "m' = f x \<or> (\<exists>c \<in> set (yContent (f x)). m' \<in> set (allNodes c))"
        by (simp add: allNodes_Node [of "f x"])
      then show ?thesis
        using m'(2) f(1) outside(3) t(1) xin inj new freshAddr_fresh [OF t(1)] by (metis inj_onD leD)
    qed
  qed
  ultimately show "\<exists>m \<in> {n \<in> set (allNodes doc). yAddr x \<notin> set (addrs n)}.
      deref doc a = Some m \<and> deref (updateNode (yAddr x) f doc) a = Some m"
    using t(1) apart by blast
qed (use n in simp)

section \<open>The amended list\<close>

lemma derivedNodes_fresh: "m \<in> set (derivedNodes (freshAddr doc + 2) derived) \<Longrightarrow> freshAddr doc \<le> yAddr m \<and> allNodes m = [m]"
  by (auto simp: derivedNodes_def scalarNode_def)

lemma derivedNodes_read: "list_all2 (reads doc) (derivedNodes a derived) (map (PScalar ''!!str'') derived)"
proof -
  have "reads doc (scalarNode i s) (PScalar ''!!str'' s)" for i s
    using reads_scalar [of "scalarNode i s" doc] by (simp add: scalarNode_def)
  then show ?thesis by (simp add: derivedNodes_def list_all2_conv_all_nth nth_enumerate_eq)
qed

lemma aliasedElsewhere_inside:
  assumes "\<not> aliasedElsewhere a n" "m \<in> set (allNodes n)" "yKind m = AliasNode" "yAlias m = Some a"
    and "\<forall>m \<in> set (allNodes n). yKind m = AliasNode \<longrightarrow> yContent m = []"
  shows "\<exists>t \<in> set (allNodes n). yAddr t = a \<and> m \<in> set (allNodes t)"
  using assms
proof (induction n)
  case (YNode i k tg s an al cs)
  let ?n = "YNode i k tg s an al cs"
  show ?case
  proof (cases "i = a")
    case True
    with YNode.prems(2) show ?thesis by (intro bexI [of _ ?n]) simp_all
  next
    case False
    then have nk: "k \<noteq> AliasNode" if "m \<noteq> ?n" using YNode.prems(2,5) that by auto
    have "m \<noteq> ?n" using False YNode.prems(1,3,4) by auto
    then obtain c where c: "c \<in> set cs" "m \<in> set (allNodes c)" using YNode.prems(2) by auto
    have "\<not> aliasedElsewhere a c" using YNode.prems(1) False nk [OF \<open>m \<noteq> ?n\<close>] c(1) by (auto simp: list_ex_iff)
    from YNode.IH [OF c(1) this c(2) YNode.prems(3,4)] YNode.prems(5) c(1) show ?thesis by auto
  qed
qed

text \<open>An address nothing aliases: a node without an anchor, an alias, or an anchored node that
  \<open>aliasedElsewhere\<close> finds no alias of.\<close>

lemma notAliased_cases:
  assumes wf: "wellFormedYaml doc" and doc: "yKind doc = DocumentNode" "yContent doc = [root]"
    and p: "p \<in> set (allNodes doc)"
    and why: "yAnchor p = [] \<or> yKind p = AliasNode \<or> \<not> aliasedElsewhere (yAddr p) root"
  shows "notAliased doc (yAddr p)"
  unfolding notAliased_def list_all_iff
proof (intro ballI impI notI)
  fix m assume m: "m \<in> set (allNodes doc)" "yKind m = AliasNode" "yAlias m = Some (yAddr p)"
  have inj: "inj_on yAddr (set (allNodes doc))" using wf distinct_addrs_inj by (simp add: wellFormedYaml_def)
  obtain t where "t \<in> set (allNodes doc)" "yAddr t = yAddr p" "yAnchor t \<noteq> []" "yKind t \<noteq> AliasNode"
    using wf m by (fastforce simp: wellFormedYaml_def list_all_iff list_ex_iff)
  with why inj p have "\<not> aliasedElsewhere (yAddr p) root" by (metis inj_onD)
  moreover have "m \<in> set (allNodes root)" using m(1,2) doc by (auto simp: allNodes_Node [of doc])
  moreover have sub: "set (allNodes root) \<subseteq> set (allNodes doc)" using doc(2) by (auto simp: allNodes_Node [of doc])
  then have "\<forall>m \<in> set (allNodes root). yKind m = AliasNode \<longrightarrow> yContent m = []"
    using wf by (auto simp: wellFormedYaml_def list_all_iff)
  ultimately obtain t where "t \<in> set (allNodes root)" "yAddr t = yAddr p" "m \<in> set (allNodes t)"
    using aliasedElsewhere_inside m(2,3) by blast
  with sub wf m(2,3) show False by (fastforce simp: wellFormedYaml_def list_all_iff)
qed

text \<open>The entries a \<open>provides\<close> field states: none when it is missing or empty, else what it reads as.\<close>

definition statedProvides :: "yaml_node \<Rightarrow> yaml_node \<Rightarrow> yaml_plain list \<Rightarrow> bool" where
  "statedProvides doc root olds \<longleftrightarrow>
     (case mappingValue root providesKey of
        None \<Rightarrow> olds = []
      | Some p \<Rightarrow> if yKind p = ScalarNode then olds = [] else reads doc p (PSequence olds))"

text \<open>What an amendment of a document's root promises.\<close>

definition amended :: "yaml_node \<Rightarrow> yaml_node \<Rightarrow> string list \<Rightarrow> yaml_node \<Rightarrow> bool" where
  "amended doc root derived doc' \<longleftrightarrow>
     (\<exists>root'. yKind doc' = DocumentNode \<and> yContent doc' = [root']
        \<and> (\<forall>k t. k \<noteq> providesKey \<longrightarrow>
             (\<exists>v. mappingValue root k = Some v \<and> reads doc v t) \<longleftrightarrow> (\<exists>v. mappingValue root' k = Some v \<and> reads doc' v t))
        \<and> (\<forall>olds. statedProvides doc root olds \<longrightarrow>
             (\<exists>v. mappingValue root' providesKey = Some v
                \<and> reads doc' v (PSequence (olds @ map (PScalar ''!!str'') derived)))))"

lemma field_amended:
  assumes wf: "wellFormedYaml doc" and doc: "yKind doc = DocumentNode" "yContent doc = [root]"
    and p: "mappingValue root providesKey = Some p" and free: "notAliased doc (yAddr p)"
    and f: "yAddr (f p) = yAddr p" "yKind (f p) = SequenceNode"
    and cont: "yContent (f p) = held @ derivedNodes (freshAddr doc + 2) derived" "set (yContent p) \<subseteq> set held"
    and held: "\<And>c. c \<in> set held \<Longrightarrow> c \<in> set (allNodes doc) \<and> yAddr p \<notin> set (addrs c)"
    and olds: "\<And>olds. statedProvides doc root olds \<Longrightarrow> list_all2 (reads doc) held olds"
  shows "amended doc root derived (updateNode (yAddr p) f doc)"
proof -
  let ?a = "yAddr p" and ?doc = "updateNode (yAddr p) f doc"
  have dist: "distinct (addrs doc)" using wf by (simp add: wellFormedYaml_def)
  have droot: "distinct (addrs root)" "yAddr doc \<notin> set (addrs root)"
    using distinct_addrs_content [OF dist, of root] doc(2) by simp_all
  have pin: "p \<in> set (yContent root)" and mapping: "yKind root = MappingNode"
    using p by (auto simp: mappingValue_def split: if_splits dest: pairValue_mem)
  have rootin: "root \<in> set (allNodes doc)" using content_in_allNodes [OF self_in_allNodes, of root doc] doc(2) by simp
  have paddr: "?a \<in> set (addrs root)" using content_addrs [OF pin] addr_in_addrs [of p] by blast
  have ne: "yAddr doc \<noteq> ?a" "yAddr root \<noteq> ?a"
    using paddr droot(2) distinct_addrs_content [OF droot(1) pin] addr_in_addrs [of p] by metis+
  have sib: "?a \<notin> set (addrs c)" if "c \<in> set (yContent root)" "c \<noteq> p" for c
    using siblings_apart [of "yContent root" c p] droot(1) pin that addr_in_addrs [of p]
    by (auto simp: addrs_Node [of root])
  have frame: "reads doc n t \<longleftrightarrow> reads ?doc n t" if "n \<in> set (allNodes doc)" "?a \<notin> set (addrs n)" for n t
  proof (rule amended_reads [where x = p and f = f, OF wf doc _ free f(1) _ _ that])
    show "\<forall>c \<in> set (yContent (f p)). \<forall>m \<in> set (allNodes c). m \<in> set (allNodes doc) \<or> freshAddr doc \<le> yAddr m"
      unfolding cont(1) using held allNodes_trans derivedNodes_fresh by (fastforce simp: subset_iff)
  qed (use pin cont in auto)
  have u: "map (updateNode ?a f) (yContent root) = map (\<lambda>c. if c = p then f p else c) (yContent root)"
    using sib by (auto simp: updateNode_at updateNode_other)
  define root' where "root' = updateNode ?a f root"
  have root': "root' = setContent (map (\<lambda>c. if c = p then f p else c) (yContent root)) root"
    unfolding root'_def updateNode_content [OF ne(2)] u ..
  have values': "mappingValue root' k = (if k = providesKey then Some (f p) else mappingValue root k)" for k
    using pairValue_replace [OF distinct_contents [OF droot(1)], of providesKey p k "f p"] p mapping
    by (simp add: mappingValue_def root' setContent_def)
  have other: "mappingValue root k = Some v \<Longrightarrow> k \<noteq> providesKey \<Longrightarrow> v \<in> set (allNodes doc) \<and> ?a \<notin> set (addrs v)" for k v
  proof -
    assume v: "mappingValue root k = Some v" "k \<noteq> providesKey"
    then have vin: "v \<in> set (yContent root)" by (auto simp: mappingValue_def split: if_splits dest: pairValue_mem)
    have "v \<noteq> p"
      using pairValue_inj [OF distinct_contents [OF droot(1)], of k v providesKey] v p mapping
      by (auto simp: mappingValue_def)
    then show ?thesis using content_in_allNodes [OF rootin vin] sib [OF vin] by blast
  qed
  have shape: "yKind ?doc = DocumentNode" "yContent ?doc = [root']"
    unfolding updateNode_content [OF ne(1)] using doc by (simp_all add: setContent_def root'_def)
  have "reads ?doc (f p) (PSequence (olds' @ map (PScalar ''!!str'') derived))" if st: "statedProvides doc root olds'" for olds'
  proof -
    have "list_all2 (reads ?doc) held olds'"
      using olds [OF st] held frame by (auto simp: list_all2_conv_all_nth)
    then show ?thesis
      by (intro reads_sequence [OF f(2)]) (simp add: cont(1) list_all2_appendI derivedNodes_read)
  qed
  then show ?thesis
    unfolding amended_def using shape values' other frame by (intro exI [of _ root']) auto
qed

lemma missing_amended:
  fixes derived :: "string list"
  assumes wf: "wellFormedYaml doc" and doc: "yKind doc = DocumentNode" "yContent doc = [root]"
    and mapping: "yKind root = MappingNode" and p: "mappingValue root providesKey = None"
  defines "a \<equiv> freshAddr doc"
  defines "field \<equiv> YNode (a + 1) SequenceNode ''!!seq'' [] [] None (derivedNodes (a + 2) derived)"
  shows "amended doc root derived
    (updateNode (yAddr root) (\<lambda>n. setContent (yContent n @ [scalarNode a providesKey, field]) n) doc)"
proof -
  let ?f = "\<lambda>n. setContent (yContent n @ [scalarNode a providesKey, field]) n"
  let ?doc = "updateNode (yAddr root) ?f doc"
  have dist: "distinct (addrs doc)" using wf by (simp add: wellFormedYaml_def)
  have droot: "distinct (addrs root)" "yAddr doc \<notin> set (addrs root)"
    using distinct_addrs_content [OF dist, of root] doc(2) by simp_all
  have rootin: "root \<in> set (allNodes doc)" using content_in_allNodes [OF self_in_allNodes, of root doc] doc(2) by simp
  have ne: "yAddr doc \<noteq> yAddr root" using droot(2) addr_in_addrs [of root] by metis
  have free: "notAliased doc (yAddr root)"
    using wf rootin doc allNodes_Node [of doc] by (auto simp: notAliased_def wellFormedYaml_def list_all_iff)
  have shape: "yKind ?doc = DocumentNode" "yContent ?doc = [?f root]"
    unfolding updateNode_content [OF ne] using doc by (simp_all add: setContent_def updateNode_at [of root, unfolded setContent_def])
  have frame: "reads doc c t \<longleftrightarrow> reads ?doc c t" if "c \<in> set (yContent root)" for c t
  proof (rule amended_reads [where x = root and f = ?f, OF wf doc _ free])
    show "\<forall>c \<in> set (yContent (?f root)). \<forall>m \<in> set (allNodes c). m \<in> set (allNodes doc) \<or> freshAddr doc \<le> yAddr m"
      using content_in_allNodes [OF rootin] allNodes_trans derivedNodes_fresh [of _ doc derived]
      by (fastforce simp: setContent_def scalarNode_def field_def a_def subset_iff)
    show "c \<in> set (allNodes doc)" "yAddr root \<notin> set (addrs c)"
      using content_in_allNodes [OF rootin that] distinct_addrs_content [OF droot(1) that] by auto
  qed (auto simp: setContent_def)
  have pairs: "pairValue k (cs @ [scalarNode a providesKey, field]) =
      (case pairValue k cs of Some v \<Rightarrow> Some v | None \<Rightarrow> if k = providesKey then Some field else None)"
    if "even (length cs)" for k cs
    using that by (induction k cs rule: pairValue.induct) (auto simp: scalarNode_def)
  have "even (length (yContent root))" using wf rootin mapping by (auto simp: wellFormedYaml_def list_all_iff)
  with p mapping have values': "mappingValue (?f root) k = (if k = providesKey then Some field else mappingValue root k)" for k
    by (auto simp: mappingValue_def setContent_def pairs split: option.splits)
  have "reads ?doc field (PSequence (map (PScalar ''!!str'') derived))"
    by (rule reads_sequence) (simp_all add: field_def derivedNodes_read)
  moreover have "statedProvides doc root olds \<longleftrightarrow> olds = []" for olds
    using p by (simp add: statedProvides_def)
  moreover have "v \<in> set (yContent root)" if "mappingValue root k = Some v" for k v
    using that by (auto simp: mappingValue_def split: if_splits dest: pairValue_mem)
  ultimately show ?thesis
    unfolding amended_def using shape values' frame by (intro exI [of _ "?f root"]) auto
qed

lemma alias_target_apart:
  assumes wf: "wellFormedYaml doc" and p: "p \<in> set (allNodes doc)" "yKind p = AliasNode" "yAlias p = Some (yAddr t)"
    and t: "deref doc (yAddr t) = Some t" and c: "c \<in> set (yContent t)"
  shows "c \<in> set (allNodes doc) \<and> yAddr p \<notin> set (addrs c)"
proof
  have tin: "t \<in> set (allNodes doc)" using deref_mem [OF t] by simp
  then show cin: "c \<in> set (allNodes doc)" using content_in_allNodes c by blast
  show "yAddr p \<notin> set (addrs c)"
  proof
    assume "yAddr p \<in> set (addrs c)"
    then obtain m where m: "m \<in> set (allNodes c)" "yAddr m = yAddr p" by (auto simp: addrs_def)
    moreover have "m \<in> set (allNodes doc)" using m(1) cin allNodes_trans by blast
    ultimately have "m = p" using wf p(1) distinct_addrs_inj by (metis inj_onD wellFormedYaml_def)
    moreover have "m \<in> set (allNodes t)" using m(1) content_in_allNodes [OF self_in_allNodes c] allNodes_trans by blast
    ultimately show False using wf tin p(2,3) by (auto simp: wellFormedYaml_def list_all_iff)
  qed
qed

section \<open>Properties\<close>

text \<open>
  Property C18. Adding the entries derived from an image to a published descriptor extends \<open>provides\<close> and
  nothing else. With aliases followed, the list of the new document holds what the old one stated and then
  the derived entries, whether the field was missing, empty, written out or an alias of a shared list, and
  every other field reads as it did. The document is as the parser delivers it, and an empty \<open>provides\<close> has
  no anchor.
\<close>

theorem derived_provides_exact:
  assumes wf: "wellFormedYaml doc" and doc: "yKind doc = DocumentNode" "yContent doc = [root]"
    and null: "\<And>p. mappingValue root providesKey = Some p \<Longrightarrow> yKind p = ScalarNode \<Longrightarrow> yAnchor p = []"
    and ok: "amendProvides derived doc = Inr doc'"
  shows "amended doc root derived doc'"
proof -
  have r: "documentRoot doc = root" using doc by (simp add: documentRoot_def)
  have rootin: "root \<in> set (allNodes doc)" using content_in_allNodes [OF self_in_allNodes, of root doc] doc(2) by simp
  have mapping: "yKind root = MappingNode" using ok r by (auto simp: amendProvides_def Let_def split: if_splits)
  show ?thesis
  proof (cases "mappingValue root providesKey")
    case None
    with ok r mapping missing_amended [OF wf doc mapping None, of derived] show ?thesis
      by (simp add: amendProvides_def Let_def)
  next
    case (Some p)
    then have "p \<in> set (yContent root)" by (auto simp: mappingValue_def split: if_splits dest: pairValue_mem)
    then have pin: "p \<in> set (allNodes doc)" by (rule content_in_allNodes [OF rootin])
    have dp: "distinct (addrs p)"
      using wf doc \<open>p \<in> set (yContent root)\<close> distinct_addrs_content by (metis list.set_intros(1) wellFormedYaml_def)
    have inside: "c \<in> set (allNodes doc) \<and> yAddr p \<notin> set (addrs c)" if "c \<in> set (yContent p)" for c
      using content_in_allNodes [OF pin that] distinct_addrs_content [OF dp that] by simp
    have free: "notAliased doc (yAddr p)"
      if "yAnchor p = [] \<or> yKind p = AliasNode \<or> \<not> aliasedElsewhere (yAddr p) root"
      by (rule notAliased_cases [OF wf doc pin that])
    show ?thesis
    proof (cases "yKind p")
      case ScalarNode
      let ?f = "\<lambda>n. YNode (yAddr n) SequenceNode ''!!seq'' [] (yAnchor n) (yAlias n)
        (yContent n @ derivedNodes (freshAddr doc + 2) derived)"
      have "amended doc root derived (updateNode (yAddr p) ?f doc)"
        by (rule field_amended [OF wf doc Some free, where f = ?f and held = "yContent p"])
           (use null [OF Some ScalarNode] wf pin ScalarNode Some in
             \<open>auto simp: statedProvides_def wellFormedYaml_def list_all_iff\<close>)
      then show ?thesis using ok r mapping Some ScalarNode
        by (auto simp: amendProvides_def Let_def split: if_splits)
    next
      case AliasNode
      then obtain t where t: "yAlias p = Some (yAddr t)" "deref doc (yAddr t) = Some t" "yKind t = SequenceNode"
        using ok r mapping Some by (auto simp: amendProvides_def Let_def bind_eq_Some_conv dest: deref_mem split: if_splits option.splits)
      let ?f = "\<lambda>n. YNode (yAddr n) (yKind t) (yTag t) (yText t) [] (yAlias t)
        (yContent t @ derivedNodes (freshAddr doc + 2) derived)"
      have "amended doc root derived (updateNode (yAddr p) ?f doc)"
      proof (rule field_amended [OF wf doc Some free, where f = ?f and held = "yContent t"])
        show "c \<in> set (allNodes doc) \<and> yAddr p \<notin> set (addrs c)" if "c \<in> set (yContent t)" for c
          using alias_target_apart [OF wf pin AliasNode t(1,2) that] .
        show "list_all2 (reads doc) (yContent t) olds" if "statedProvides doc root olds" for olds
          using that Some AliasNode t by (simp add: statedProvides_def reads_at_alias reads_at_sequence)
      qed (use wf pin AliasNode t(3) in \<open>auto simp: wellFormedYaml_def list_all_iff\<close>)
      then show ?thesis using ok r mapping Some AliasNode t by (simp add: amendProvides_def Let_def)
    next
      case SequenceNode
      let ?f = "\<lambda>n. setContent (yContent n @ derivedNodes (freshAddr doc + 2) derived) n"
      have quiet: "yAnchor p = [] \<or> \<not> aliasedElsewhere (yAddr p) root"
        using ok r mapping Some SequenceNode by (auto simp: amendProvides_def Let_def split: if_splits)
      have "amended doc root derived (updateNode (yAddr p) ?f doc)"
        by (rule field_amended [OF wf doc Some free, where f = ?f and held = "yContent p"])
           (use quiet inside Some SequenceNode in \<open>auto simp: setContent_def statedProvides_def reads_at_sequence\<close>)
      then show ?thesis using ok r mapping Some SequenceNode quiet by (auto simp: amendProvides_def Let_def)
    qed (use ok r mapping Some in \<open>auto simp: amendProvides_def Let_def split: if_splits option.splits\<close>)
  qed
qed

text \<open>A document whose \<open>provides\<close> is an alias of the list it shares with \<open>requires\<close>.\<close>

definition sharedRoot :: yaml_node where
  "sharedRoot = YNode 1 MappingNode ''!!map'' [] [] None
     [scalarNode 2 ''requires'', YNode 3 SequenceNode ''!!seq'' [] ''s'' None [scalarNode 4 ''curl''],
      scalarNode 5 ''provides'', YNode 6 AliasNode [] ''s'' [] (Some 3) []]"

definition sharedDocument :: yaml_node where
  "sharedDocument = YNode 0 DocumentNode [] [] [] None [sharedRoot]"

definition amendedShared :: yaml_node where
  "amendedShared = YNode 0 DocumentNode [] [] [] None
     [YNode 1 MappingNode ''!!map'' [] [] None
       [scalarNode 2 ''requires'', YNode 3 SequenceNode ''!!seq'' [] ''s'' None [scalarNode 4 ''curl''],
        scalarNode 5 ''provides'', YNode 6 SequenceNode ''!!seq'' [] [] None [scalarNode 4 ''curl'', scalarNode 9 ''deb/git'']]]"

theorem derived_provides_exact_witness: "amended sharedDocument sharedRoot [''deb/git''] amendedShared"
proof (rule derived_provides_exact)
  show "wellFormedYaml sharedDocument" by code_simp
  show "yKind sharedDocument = DocumentNode" "yContent sharedDocument = [sharedRoot]"
    by (simp_all add: sharedDocument_def)
  show "yAnchor p = []" if "mappingValue sharedRoot providesKey = Some p" for p
    using that by (simp add: mappingValue_def sharedRoot_def scalarNode_def providesKey_def) auto
  show "amendProvides [''deb/git''] sharedDocument = Inr amendedShared" by code_simp
qed

text \<open>An empty \<open>provides\<close> that carries an anchor is changed in place, and the fields that alias it gain the
  derived entries.\<close>

lemma anchored_empty_provides:
  "amendProvides [''deb/git''] (YNode 0 DocumentNode [] [] [] None [YNode 1 MappingNode ''!!map'' [] [] None
      [scalarNode 2 ''provides'', YNode 3 ScalarNode ''!!null'' [] ''e'' None [],
       scalarNode 4 ''requires'', YNode 5 AliasNode [] ''e'' [] (Some 3) []]])
   = Inr (YNode 0 DocumentNode [] [] [] None [YNode 1 MappingNode ''!!map'' [] [] None
      [scalarNode 2 ''provides'', YNode 3 SequenceNode ''!!seq'' [] ''e'' None [scalarNode 8 ''deb/git''],
       scalarNode 4 ''requires'', YNode 5 AliasNode [] ''e'' [] (Some 3) []]])"
  by code_simp

section \<open>The rewritten guidance file\<close>

inductive guidanceField :: "yaml_node \<Rightarrow> yaml_node \<Rightarrow> bool" where
  own: "mappingValue (documentRoot n) ''capabilities'' = Some caps \<Longrightarrow> yKind caps = SequenceNode \<Longrightarrow>
    entry \<in> set (yContent caps) \<Longrightarrow> contentField entry = Some field \<Longrightarrow> guidanceField n field"
| nested: "mappingValue (documentRoot n) ''capabilities'' = Some caps \<Longrightarrow> yKind caps = SequenceNode \<Longrightarrow>
    entry \<in> set (yContent caps) \<Longrightarrow> mappingValue entry ''group'' = Some g \<Longrightarrow> guidanceField g field \<Longrightarrow> guidanceField n field"

lemma firstSome_Some: "firstSome f xs = Some y \<Longrightarrow> \<exists>x \<in> set xs. f x = Some y"
  by (induction xs) (auto split: option.splits)

lemma firstSome_None: "firstSome f xs = None \<longleftrightarrow> (\<forall>x \<in> set xs. f x = None)"
  by (induction xs) (auto split: option.splits)

lemma rewriteTarget_sound:
  "rewriteTarget doc fname n = Some field \<Longrightarrow> guidanceField n field \<and> fieldText doc field = fname"
proof (induction doc fname n rule: rewriteTarget.induct)
  case (1 doc fname n)
  from "1.prems" obtain caps where caps: "mappingValue (documentRoot n) ''capabilities'' = Some caps" "yKind caps = SequenceNode"
    by (subst (asm) rewriteTarget.simps) (auto split: option.splits if_splits)
  with "1.prems" obtain entry where e: "entry \<in> set (yContent caps)"
    "(case (case mappingValue entry ''group'' of None \<Rightarrow> None | Some g \<Rightarrow> rewriteTarget doc fname g) of
        Some field \<Rightarrow> Some field
      | None \<Rightarrow> (case contentField entry of None \<Rightarrow> None
                 | Some field \<Rightarrow> if fieldText doc field = fname then Some field else None)) = Some field"
    by (subst (asm) rewriteTarget.simps) (auto dest!: firstSome_Some)
  show ?case
  proof (cases "case mappingValue entry ''group'' of None \<Rightarrow> None | Some g \<Rightarrow> rewriteTarget doc fname g")
    case None
    with e(2) have "contentField entry = Some field" "fieldText doc field = fname"
      by (simp_all split: option.splits if_splits)
    then show ?thesis using guidanceField.own [OF caps e(1)] by simp
  next
    case (Some field')
    then obtain g where g: "mappingValue entry ''group'' = Some g" "rewriteTarget doc fname g = Some field"
      using e(2) by (simp split: option.splits)
    then have "guidanceField g field \<and> fieldText doc field = fname"
      using caps by (intro "1.IH" [OF caps(1) _ e(1) g(1)]) simp_all
    then show ?thesis using guidanceField.nested [OF caps e(1) g(1)] by simp
  qed
qed

lemma rewriteTarget_complete:
  "guidanceField n field \<Longrightarrow> fieldText doc field = fname \<Longrightarrow> rewriteTarget doc fname n \<noteq> None"
proof (induction rule: guidanceField.induct)
  case (own n caps entry field)
  then show ?case
    by (subst rewriteTarget.simps) (auto simp: firstSome_None split: option.splits intro!: bexI [of _ entry])
next
  case (nested n caps entry g field)
  then show ?case
    by (subst rewriteTarget.simps) (auto simp: firstSome_None split: option.splits intro!: bexI [of _ entry])
qed

lemma mappingValue_node: "mappingValue n key = Some v \<Longrightarrow> v \<in> set (allNodes n)"
  by (auto simp: mappingValue_def split: if_splits dest!: pairValue_mem intro: content_in_allNodes [OF self_in_allNodes])

lemma entry_node:
  assumes "mappingValue (documentRoot n) key = Some caps" "entry \<in> set (yContent caps)"
  shows "entry \<in> set (allNodes n)"
proof -
  have "documentRoot n \<in> set (allNodes n)"
    by (auto simp: documentRoot_def intro!: content_in_allNodes [OF self_in_allNodes] nth_mem)
  then have "caps \<in> set (allNodes n)" using mappingValue_node [OF assms(1)] allNodes_trans by blast
  then show ?thesis using content_in_allNodes assms(2) by blast
qed

lemma guidanceField_node: "guidanceField n field \<Longrightarrow> field \<in> set (allNodes n)"
proof (induction rule: guidanceField.induct)
  case (own n caps entry field)
  have "field \<in> set (allNodes entry)"
    using own(4) mappingValue_node allNodes_trans
    by (auto simp: contentField_def bind_eq_Some_conv split: option.splits if_splits) blast
  then show ?case using entry_node [OF own(1,3)] allNodes_trans by blast
next
  case (nested n caps entry g field)
  then show ?case using entry_node [OF nested(1,3)] mappingValue_node allNodes_trans by blast
qed

lemma updateNode_places:
  "distinct (addrs n) \<Longrightarrow> m \<in> set (allNodes n) \<Longrightarrow> f m \<in> set (allNodes (updateNode (yAddr m) f n))"
proof (induction n)
  case (YNode i k tg s an al cs)
  let ?n = "YNode i k tg s an al cs"
  show ?case
  proof (cases "m = ?n")
    case True
    then show ?thesis by simp
  next
    case False
    then obtain c where c: "c \<in> set cs" "m \<in> set (allNodes c)" using YNode.prems(2) by auto
    have "distinct (addrs c)" "i \<notin> set (addrs c)" using distinct_addrs_content [OF YNode.prems(1), of c] c(1) by simp_all
    moreover have "yAddr m \<in> set (addrs c)" using c(2) by (auto simp: addrs_def)
    ultimately show ?thesis using YNode.IH [OF c(1) _ c(2)] c(1) by auto
  qed
qed

lemma distinct_addrs_node: "distinct (addrs n) \<Longrightarrow> m \<in> set (allNodes n) \<Longrightarrow> distinct (addrs m)"
proof (induction n)
  case (YNode i k tg s an al cs)
  then show ?case using distinct_addrs_content [OF YNode.prems(1)] by fastforce
qed

lemma updateNode_image:
  assumes dist: "distinct (addrs doc)" and f: "\<And>n. yContent (f n) = yContent n"
    and new: "n \<in> set (allNodes (updateNode a f doc))" "yAddr n = a"
  shows "\<exists>m. n = f m"
  using updateNode_nodes [OF new(1)]
proof (elim disjE bexE conjE)
  fix m assume "yAddr m \<noteq> a" "n = updateNode a f m"
  with new(2) show ?thesis by (simp add: updateNode_addr)
next
  fix m assume m: "m \<in> set (allNodes doc)" "yAddr m = a" "n \<in> set (allNodes (f m))"
  have "a \<notin> set (addrs c)" if "c \<in> set (yContent m)" for c
    using distinct_addrs_content [OF distinct_addrs_node [OF dist m(1)] that] m(2) by simp
  with m(3) new(2) show ?thesis by (auto simp: allNodes_Node [of "f m"] f addrs_def)
qed


definition plainSetString :: "string \<Rightarrow> yaml_node \<Rightarrow> yaml_node" where
  "plainSetString s n = YNode (yAddr n) ScalarNode ''!!str'' s (yAnchor n) (yAlias n) (yContent n)"

text \<open>An agent-context entry whose file carries an anchor, and a description that aliases it.\<close>

definition guidanceDocument :: "string \<Rightarrow> yaml_node" where
  "guidanceDocument path = YNode 0 DocumentNode [] [] [] None [YNode 1 MappingNode ''!!map'' [] [] None
     [scalarNode 2 ''capabilities'', YNode 3 SequenceNode ''!!seq'' [] [] None
        [YNode 4 MappingNode ''!!map'' [] [] None
           [scalarNode 5 ''type'', scalarNode 6 CapabilityAgentContext,
            scalarNode 7 ''config'', YNode 8 MappingNode ''!!map'' [] [] None
              [scalarNode 9 ''contentFile'', YNode 10 ScalarNode ''!!str'' path ''f'' None []]]],
      scalarNode 11 ''description'', YNode 12 AliasNode [] ''f'' [] (Some 10) []]]"


text \<open>The rewrite of a field that carries an anchor is seen through every alias of it: here the description
  reads as the staged path.\<close>

lemma anchored_field_shared:
  "rewriteContentFileNode plainSetString (guidanceDocument ''ctx.md'') ''ctx.md'' ''/staged'' = Some (guidanceDocument ''/staged'')"
  "map_option (fieldText (guidanceDocument ''ctx.md'')) (mappingValue (documentRoot (guidanceDocument ''ctx.md'')) ''description'') = Some ''ctx.md''"
  "map_option (fieldText (guidanceDocument ''/staged'')) (mappingValue (documentRoot (guidanceDocument ''/staged'')) ''description'') = Some ''/staged''"
  by code_simp+

end
