(* ===== verification/Packages.thy ===== *)
theory Packages
  imports Entries Report Types "HOL-Library.AList"
begin

text \<open>
  The provides entries derived from package databases (\<open>spec/packages.go\<close>), the frontend's reading of them
  (\<open>cmd/frontend/packages.go\<close>) and the conformance check that holds a published descriptor to them
  (\<open>tck/kit/kit.go\<close>, \<open>derived-provides\<close>).

  Reading a file of an image is a parameter.
\<close>

section \<open>Package databases\<close>

record package =
  pk_Name :: string
  pk_Version :: string

record package_database =
  db_Namespace :: string
  db_Path :: string
  db_Read :: "string \<Rightarrow> string + package list"

definition DpkgStatusPath :: string where "DpkgStatusPath = ''/var/lib/dpkg/status''"
definition ApkInstalledPath :: string where "ApkInstalledPath = ''/lib/apk/db/installed''"

definition maxPackageDatabaseLine :: nat where "maxPackageDatabaseLine = 2 ^ 20"

text \<open>The lines \<open>bufio.Scanner\<close> delivers: a last line without a terminator counts when it is not empty, and one
  carriage return before the terminator is dropped. A line that does not fit the buffer with its terminator
  ends the scan with an error.\<close>

definition newlineChar :: char where "newlineChar = CHR 0x0A"
definition carriageReturn :: string where "carriageReturn = [CHR 0x0D]"

definition rawLines :: "string \<Rightarrow> string list" where
  "rawLines body = (let ls = split_on newlineChar body in if last ls = [] then butlast ls else ls)"

definition scanLines :: "string \<Rightarrow> (string list) option" where
  "scanLines body =
     (if list_all (\<lambda>l. length l < maxPackageDatabaseLine) (rawLines body)
      then Some (map (\<lambda>l. trim_suffix l carriageReturn) (rawLines body)) else None)"

text \<open>The loop over the lines: the fields of the current record, and what the records so far were turned into.\<close>

fun stanzaLines ::
  "((string \<times> string) list \<Rightarrow> package list) \<Rightarrow> (string \<Rightarrow> (string \<times> string) option) \<Rightarrow> (string \<times> string) list \<Rightarrow> string list
   \<Rightarrow> package list" where
  "stanzaLines emit split flds [] = (if flds = [] then [] else emit flds)"
| "stanzaLines emit split flds (l # ls) =
     (let line = trim_suffix l carriageReturn in
      if trim_space line = [] then (if flds = [] then [] else emit flds) @ stanzaLines emit split [] ls
      else (case split line of
              None \<Rightarrow> stanzaLines emit split flds ls
            | Some (key, v) \<Rightarrow> stanzaLines emit split (AList.update key v flds) ls))"

definition eachStanza ::
  "((string \<times> string) list \<Rightarrow> package list) \<Rightarrow> (string \<Rightarrow> (string \<times> string) option) \<Rightarrow> string \<Rightarrow> string + package list" where
  "eachStanza emit split body =
     (case scanLines body of
        None \<Rightarrow> Inl ''read package database: token too long''
      | Some ls \<Rightarrow> Inr (stanzaLines emit split [] ls))"

definition fieldOf :: "(string \<times> string) list \<Rightarrow> string \<Rightarrow> string" where
  "fieldOf flds key = (case map_of flds key of None \<Rightarrow> [] | Some v \<Rightarrow> v)"

text \<open>\<open>strings.Fields\<close>.\<close>

fun takeWord :: "string \<Rightarrow> string" where
  "takeWord [] = []"
| "takeWord (c # cs) = (if leading_space space_runes (c # cs) > 0 then [] else c # takeWord cs)"

function wordsOf :: "string \<Rightarrow> string list" where
  "wordsOf s =
     (let t = trim_left_space s; w = takeWord t in if t = [] \<or> w = [] then [] else w # wordsOf (drop (length w) t))"
  by pat_completeness auto

termination
proof (relation "measure length", simp)
  fix s t w :: string
  assume "t = trim_left_space s" "w = takeWord t" "\<not> (t = [] \<or> w = [])"
  then have "length (drop (length w) t) < length t" by simp
  also have "length t \<le> length s"
    using length_trim_runes [of space_runes s] \<open>t = trim_left_space s\<close> by (simp add: trim_left_space_def)
  finally show "(drop (length w) t, s) \<in> measure length" by simp
qed

declare wordsOf.simps [simp del]

text \<open>\<open>strings.ToLower\<close> of a field's name. Only the letters whose lower case is ASCII matter to the names looked
  up: the ASCII ones, the Kelvin sign and the dotted capital I.\<close>

fun lowerName :: "string \<Rightarrow> string" where
  "lowerName [] = []"
| "lowerName (c # cs) =
     (if has_prefix (c # cs) [CHR 0xE2, CHR 0x84, CHR 0xAA] then CHR ''k'' # lowerName (drop 2 cs)
      else if has_prefix (c # cs) [CHR 0xC4, CHR 0xB0] then CHR ''i'' # lowerName (drop 1 cs)
      else (if isUpper c then char_of (of_char c + 32 :: nat) else c) # lowerName cs)"

definition dpkgField :: "string \<Rightarrow> (string \<times> string) option" where
  "dpkgField line =
     (if has_prefix line '' '' \<or> has_prefix line [CHR 0x09] then None
      else (case cut CHR '':'' line of (key, v, found) \<Rightarrow>
              if \<not> found then None else Some (lowerName (trim_space key), trim_space v)))"

definition dpkgPackage :: "(string \<times> string) list \<Rightarrow> package list" where
  "dpkgPackage flds =
     (let parts = wordsOf (fieldOf flds ''status'') in
      if parts = [] \<or> last parts \<noteq> ''installed'' then []
      else if fieldOf flds ''package'' \<noteq> [] then [\<lparr>pk_Name = fieldOf flds ''package'', pk_Version = fieldOf flds ''version''\<rparr>]
      else [])"

definition ReadDpkgStatus :: "string \<Rightarrow> string + package list" where
  "ReadDpkgStatus = eachStanza dpkgPackage dpkgField"

definition apkField :: "string \<Rightarrow> (string \<times> string) option" where
  "apkField line =
     (case cut CHR '':'' line of (key, v, found) \<Rightarrow> if \<not> found \<or> length key \<noteq> 1 then None else Some (key, v))"

definition apkPackage :: "(string \<times> string) list \<Rightarrow> package list" where
  "apkPackage flds =
     (if fieldOf flds ''P'' \<noteq> [] then [\<lparr>pk_Name = fieldOf flds ''P'', pk_Version = fieldOf flds ''V''\<rparr>] else [])"

definition ReadApkInstalled :: "string \<Rightarrow> string + package list" where
  "ReadApkInstalled = eachStanza apkPackage apkField"

definition PackageDatabases :: "package_database list" where
  "PackageDatabases =
     [\<lparr>db_Namespace = DebNamespace, db_Path = DpkgStatusPath, db_Read = ReadDpkgStatus\<rparr>,
      \<lparr>db_Namespace = ApkNamespace, db_Path = ApkInstalledPath, db_Read = ReadApkInstalled\<rparr>]"

section \<open>Derived entries\<close>

text \<open>The versions known so far, with the empty text for a name that disagrees with itself, and the number of
  listings that hold a name.\<close>

record derivation =
  dv_versions :: "(string \<times> string) list"
  dv_counts :: "(string \<times> nat) list"

definition packageName :: "string \<Rightarrow> package \<Rightarrow> string" where
  "packageName namespace p = namespace @ ''/'' @ pk_Name p"

definition knownVersion :: "bool \<Rightarrow> string option \<Rightarrow> string \<Rightarrow> string" where
  "knownVersion first known version =
     (if version = [] then []
      else case known of
             None \<Rightarrow> if first then version else []
           | Some k \<Rightarrow> if k \<noteq> version then [] else k)"

definition packageStep :: "string \<Rightarrow> bool \<Rightarrow> string list \<times> derivation \<Rightarrow> package \<Rightarrow> string list \<times> derivation" where
  "packageStep namespace first st p =
     (case st of (seen, dv) \<Rightarrow>
        let name = packageName namespace p in
        if \<not> validCapabilityName name then (seen, dv)
        else
          let dv' = dv\<lparr>dv_versions :=
                AList.update name (knownVersion first (map_of (dv_versions dv) name) (PackageVersion (pk_Version p))) (dv_versions dv)\<rparr>
          in if name \<in> set seen then (seen, dv')
             else (name # seen, dv'\<lparr>dv_counts :=
                    AList.update name (Suc (case map_of (dv_counts dv') name of None \<Rightarrow> 0 | Some n \<Rightarrow> n)) (dv_counts dv')\<rparr>))"

definition listingStep :: "string \<Rightarrow> derivation \<Rightarrow> nat \<times> package list \<Rightarrow> derivation" where
  "listingStep namespace dv il = snd (foldl (packageStep namespace (fst il = 0)) ([], dv) (snd il))"

definition DerivedProvides :: "string \<Rightarrow> package list list \<Rightarrow> string list" where
  "DerivedProvides namespace listings =
     (if listings = [] then []
      else let dv = foldl (listingStep namespace) \<lparr>dv_versions = [], dv_counts = []\<rparr> (enumerate 0 listings) in
           sort (map (\<lambda>(name, version). name @ ''@'' @ version)
             (filter (\<lambda>(name, version). version \<noteq> [] \<and> map_of (dv_counts dv) name = Some (length listings)) (dv_versions dv))))"

section \<open>The frontend's derivation\<close>

text \<open>What reading one path of an image gives: an error, whether it is the error of a file too large to read, or
  the body when the file is there.\<close>

datatype read_error = TooLarge string | ReadFailed string

type_synonym 'f file_reader = "'f \<Rightarrow> string \<Rightarrow> read_error + string option"

datatype derive_error = DatabaseNotRead string read_error | DatabaseMalformed string string

text \<open>The listings of one database: \<open>None\<close> when some platform has no filesystem at all, none when some filesystem
  has no such database.\<close>

fun listingsOf ::
  "'f file_reader \<Rightarrow> package_database \<Rightarrow> package list list \<Rightarrow> 'f option list \<Rightarrow> derive_error + package list list option" where
  "listingsOf readFile db listings [] = Inr (Some listings)"
| "listingsOf readFile db listings (None # refs) = Inr None"
| "listingsOf readFile db listings (Some fs # refs) =
     (case readFile fs (db_Path db) of
        Inl e \<Rightarrow> Inl (DatabaseNotRead (db_Path db) e)
      | Inr None \<Rightarrow> Inr (Some [])
      | Inr (Some body) \<Rightarrow>
          (case db_Read db body of
             Inl e \<Rightarrow> Inl (DatabaseMalformed (db_Path db) e)
           | Inr packages \<Rightarrow> listingsOf readFile db (listings @ [packages]) refs))"

fun derivedLoop ::
  "'f file_reader \<Rightarrow> 'f option list \<Rightarrow> string list \<Rightarrow> package_database list \<Rightarrow> derive_error + string list" where
  "derivedLoop readFile refs out [] = Inr out"
| "derivedLoop readFile refs out (db # dbs) =
     (case listingsOf readFile db [] refs of
        Inl e \<Rightarrow> Inl e
      | Inr None \<Rightarrow> Inr []
      | Inr (Some listings) \<Rightarrow> derivedLoop readFile refs (out @ DerivedProvides (db_Namespace db) listings) dbs)"

definition derivedProvides :: "'f file_reader \<Rightarrow> 'f option list \<Rightarrow> derive_error + string list" where
  "derivedProvides readFile refs = derivedLoop readFile refs [] PackageDatabases"

text \<open>The entries \<open>RequireAuthoredProvides\<close> reports (\<open>spec/validate.go\<close>).\<close>

definition RequireAuthoredProvides :: "string list \<Rightarrow> string list" where
  "RequireAuthoredProvides provides =
     filter (\<lambda>s. case ParseProvide s of Inl _ \<Rightarrow> False | Inr p \<Rightarrow> IsDerivedProvide (pName p)) provides"

section \<open>The conformance check\<close>

record derived_entry =
  de_spelling :: string
  de_name :: string
  de_version :: string

definition derivedEntry :: "string \<Rightarrow> string \<Rightarrow> derived_entry list" where
  "derivedEntry namespace s =
     (case ParseProvide s of
        Inl _ \<Rightarrow> []
      | Inr p \<Rightarrow>
          if \<not> IsDerivedProvide (pName p) then []
          else (case cut CHR ''/'' (pName p) of (ns, name, _) \<Rightarrow>
                  if ns = namespace then [\<lparr>de_spelling = trim_space s, de_name = name, de_version = pVersion p\<rparr>] else []))"

text \<open>The group of one namespace in the map \<open>derivedByNamespace\<close> returns; its keys are the two derived namespaces.\<close>

definition derivedByNamespace :: "string list \<Rightarrow> string \<Rightarrow> derived_entry list" where
  "derivedByNamespace provides namespace = concat (map (derivedEntry namespace) provides)"

definition flattenDerived :: "string list \<Rightarrow> string list" where
  "flattenDerived provides =
     sort (concat (map (\<lambda>ns. map de_spelling (derivedByNamespace provides ns)) reservedNamespaces))"

datatype derived_finding =
    MixinCarriesDerived nat string
  | MergedSetSkipped
  | DatabaseTooLarge string string
  | DatabaseUnreadable string string
  | DatabaseMissing nat string string
  | DatabaseBroken string string
  | NotInstalled string string
  | VersionDiffers string string string string string

fun derivedSeverity :: "derived_finding \<Rightarrow> severity" where
  "derivedSeverity MergedSetSkipped = Skip"
| "derivedSeverity (DatabaseTooLarge p n) = Warn"
| "derivedSeverity f = Fail"

definition entryFindings :: "string \<Rightarrow> package list \<Rightarrow> derived_entry \<Rightarrow> derived_finding list" where
  "entryFindings path installed entry =
     (case map pk_Version (filter (\<lambda>p. pk_Name p = de_name entry) installed) of
        [] \<Rightarrow> [NotInstalled (de_spelling entry) path]
      | raws \<Rightarrow>
          concat (map (\<lambda>raw. let want = PackageVersion raw in
            if want \<noteq> de_version entry then [VersionDiffers (de_spelling entry) (de_version entry) path raw want] else []) raws))"

fun databaseFindings ::
  "(string \<Rightarrow> read_error + string option) \<Rightarrow> string list \<Rightarrow> derived_finding list \<Rightarrow> package_database list \<Rightarrow> derived_finding list" where
  "databaseFindings readFile provides findings [] = findings"
| "databaseFindings readFile provides findings (db # dbs) =
     (let entries = derivedByNamespace provides (db_Namespace db) in
      if entries = [] then databaseFindings readFile provides findings dbs
      else case readFile (db_Path db) of
             Inl (TooLarge e) \<Rightarrow>
               databaseFindings readFile provides (findings @ [DatabaseTooLarge (db_Path db) (db_Namespace db)]) dbs
           | Inl (ReadFailed e) \<Rightarrow> findings @ [DatabaseUnreadable (db_Path db) e]
           | Inr None \<Rightarrow>
               databaseFindings readFile provides
                 (findings @ [DatabaseMissing (length entries) (db_Namespace db) (db_Path db)]) dbs
           | Inr (Some body) \<Rightarrow>
               (case db_Read db body of
                  Inl e \<Rightarrow> findings @ [DatabaseBroken (db_Path db) e]
                | Inr installed \<Rightarrow>
                    databaseFindings readFile provides
                      (findings @ concat (map (entryFindings (db_Path db) installed) entries)) dbs))"

definition derivedProvidesCheck :: "(string \<Rightarrow> read_error + string option) \<Rightarrow> descriptor \<Rightarrow> derived_finding list" where
  "derivedProvidesCheck readFile d =
     (if flattenDerived (Provides d) = [] then []
      else if Kind d \<noteq> KindWorkload
      then [MixinCarriesDerived (length (flattenDerived (Provides d))) (hd (flattenDerived (Provides d)))]
      else if Kits d \<noteq> [] then [MergedSetSkipped]
      else databaseFindings readFile (Provides d) [] PackageDatabases)"

end
