(* ===== verification/Packages_Facts.thy ===== *)
theory Packages_Facts
  imports Packages
begin

text \<open>
  The derived entries are exactly the packages every platform holds at one version, and what the frontend
  derives passes the conformance check on every platform it was derived from.
\<close>

section \<open>What one name's records decide\<close>

text \<open>The records of one name in order, each with whether it is of the first listing.\<close>

fun verdict :: "(bool \<times> string) list \<Rightarrow> string option" where
  "verdict [] = None"
| "verdict ((b, v) # rs) = Some (if b \<and> list_all (\<lambda>r. snd r = v) rs then v else [])"

lemma verdict_snoc: "verdict (rs @ [(b, v)]) = Some (knownVersion b (verdict rs) v)"
  by (induction rs rule: verdict.induct) (auto simp: knownVersion_def)

definition recordsOf :: "string \<Rightarrow> string \<Rightarrow> bool \<Rightarrow> package list \<Rightarrow> (bool \<times> string) list" where
  "recordsOf namespace nm b l = map (\<lambda>p. (b, PackageVersion (pk_Version p))) (filter (\<lambda>p. packageName namespace p = nm) l)"

definition countOf :: "derivation \<Rightarrow> string \<Rightarrow> nat" where
  "countOf dv nm = (case map_of (dv_counts dv) nm of None \<Rightarrow> 0 | Some n \<Rightarrow> n)"

lemma packageStep_versions:
  "map_of (dv_versions (snd (packageStep ns b st p))) nm =
    (if packageName ns p = nm \<and> validCapabilityName nm
     then Some (knownVersion b (map_of (dv_versions (snd st)) nm) (PackageVersion (pk_Version p)))
     else map_of (dv_versions (snd st)) nm)"
  by (cases st) (auto simp: packageStep_def Let_def AList.update_conv')

lemma packageStep_counts:
  "countOf (snd (packageStep ns b st p)) nm =
    (if packageName ns p = nm \<and> validCapabilityName nm \<and> nm \<notin> set (fst st) then Suc (countOf (snd st) nm) else countOf (snd st) nm)"
  by (cases st) (auto simp: packageStep_def Let_def AList.update_conv' countOf_def)

lemma packageStep_seen:
  "set (fst (packageStep ns b st p)) =
    (if validCapabilityName (packageName ns p) then insert (packageName ns p) (set (fst st)) else set (fst st))"
  by (cases st) (auto simp: packageStep_def Let_def)

lemma packageStep_distinct:
  "distinct (map fst (dv_versions (snd st))) \<Longrightarrow> distinct (map fst (dv_versions (snd (packageStep ns b st p))))"
  by (cases st) (auto simp: packageStep_def Let_def AList.distinct_update)

lemma listing_versions:
  assumes "validCapabilityName nm"
  shows "map_of (dv_versions (snd st)) nm = verdict rs \<Longrightarrow>
    map_of (dv_versions (snd (foldl (packageStep ns b) st l))) nm = verdict (rs @ recordsOf ns nm b l)"
proof (induction l arbitrary: st rs)
  case (Cons p l)
  show ?case
  proof (cases "packageName ns p = nm")
    case True
    then have "map_of (dv_versions (snd (packageStep ns b st p))) nm = verdict (rs @ [(b, PackageVersion (pk_Version p))])"
      using assms Cons.prems by (simp add: packageStep_versions verdict_snoc)
    from Cons.IH [OF this] True show ?thesis by (simp add: recordsOf_def)
  next
    case False
    then show ?thesis using Cons by (simp add: packageStep_versions recordsOf_def)
  qed
qed (simp add: recordsOf_def)

lemma listing_counts:
  assumes "validCapabilityName nm"
  shows "countOf (snd (foldl (packageStep ns b) st l)) nm =
    countOf (snd st) nm + (if nm \<notin> set (fst st) \<and> nm \<in> packageName ns ` set l then 1 else 0)"
proof (induction l arbitrary: st)
  case (Cons p l)
  show ?case using assms by (auto simp: Cons.IH packageStep_counts packageStep_seen)
qed simp

lemma listing_distinct:
  "distinct (map fst (dv_versions (snd st))) \<Longrightarrow> distinct (map fst (dv_versions (snd (foldl (packageStep ns b) st l))))"
  by (induction l arbitrary: st) (simp_all add: packageStep_distinct)

lemma listing_invalid:
  "\<not> validCapabilityName nm \<Longrightarrow>
   map_of (dv_versions (snd (foldl (packageStep ns b) st l))) nm = map_of (dv_versions (snd st)) nm"
  by (induction l arbitrary: st) (simp_all add: packageStep_versions)

section \<open>All listings\<close>

definition derivationOf :: "string \<Rightarrow> derivation \<Rightarrow> (nat \<times> package list) list \<Rightarrow> derivation" where
  "derivationOf ns dv ils = foldl (listingStep ns) dv ils"

lemma derivation_versions:
  assumes "validCapabilityName nm"
  shows "map_of (dv_versions dv) nm = verdict rs \<Longrightarrow>
    map_of (dv_versions (derivationOf ns dv ils)) nm
      = verdict (rs @ concat (map (\<lambda>il. recordsOf ns nm (fst il = 0) (snd il)) ils))"
proof (induction ils arbitrary: dv rs)
  case (Cons il ils)
  have "map_of (dv_versions (listingStep ns dv il)) nm = verdict (rs @ recordsOf ns nm (fst il = 0) (snd il))"
    unfolding listingStep_def by (rule listing_versions [OF assms]) (simp add: Cons.prems)
  from Cons.IH [OF this] show ?case by (simp add: derivationOf_def)
qed (simp add: derivationOf_def)

lemma derivation_counts:
  assumes "validCapabilityName nm"
  shows "countOf (derivationOf ns dv ils) nm = countOf dv nm + length (filter (\<lambda>il. nm \<in> packageName ns ` set (snd il)) ils)"
  by (induction ils arbitrary: dv) (simp_all add: derivationOf_def listingStep_def listing_counts [OF assms])

lemma derivation_distinct:
  "distinct (map fst (dv_versions dv)) \<Longrightarrow> distinct (map fst (dv_versions (derivationOf ns dv ils)))"
  by (induction ils arbitrary: dv) (simp_all add: derivationOf_def listingStep_def listing_distinct)

lemma derivation_invalid:
  "\<not> validCapabilityName nm \<Longrightarrow> map_of (dv_versions (derivationOf ns dv ils)) nm = map_of (dv_versions dv) nm"
  by (induction ils arbitrary: dv) (simp_all add: derivationOf_def listingStep_def listing_invalid)

text \<open>What the listings agree on: every one holds the name, and every record of it has the one version.\<close>

definition agreed :: "string \<Rightarrow> package list list \<Rightarrow> string \<Rightarrow> string \<Rightarrow> bool" where
  "agreed ns listings nm v \<longleftrightarrow> listings \<noteq> [] \<and> validCapabilityName nm \<and> v \<noteq> []
     \<and> (\<forall>l \<in> set listings. nm \<in> packageName ns ` set l
          \<and> (\<forall>p \<in> set l. packageName ns p = nm \<longrightarrow> PackageVersion (pk_Version p) = v))"

lemma filter_all: "length (filter P xs) = length xs \<longleftrightarrow> list_all P xs"
proof (induction xs)
  case (Cons x xs)
  have "length (filter P xs) \<noteq> Suc (length xs)" using length_filter_le [of P xs] by linarith
  with Cons show ?case by auto
qed simp

lemma filter_enumerate: "length (filter (\<lambda>il. P (snd il)) (enumerate n xs)) = length (filter P xs)"
  by (induction xs arbitrary: n) simp_all

lemma rendered_set:
  "set (sort (map (\<lambda>(n, v). n @ t @ v) (filter (\<lambda>(n, v). P n v) xs))) = {n @ t @ v |n v. (n, v) \<in> set xs \<and> P n v}"
  for xs :: "(string \<times> string) list"
  by (induction xs) (auto simp: set_sort)

lemma records_versions:
  "snd ` set (concat (map (\<lambda>il. recordsOf ns nm (fst il = 0) (snd il)) (enumerate n listings))) =
     {PackageVersion (pk_Version p) |l p. l \<in> set listings \<and> p \<in> set l \<and> packageName ns p = nm}"
proof (induction listings arbitrary: n)
  case (Cons l listings)
  have "snd ` set (recordsOf ns nm b l) = {PackageVersion (pk_Version p) |p. p \<in> set l \<and> packageName ns p = nm}" for b
    by (auto simp: recordsOf_def image_image)
  then show ?case using Cons.IH [of "Suc n"] by (auto simp: image_Un)
qed simp

lemma agreed_verdict:
  fixes ns :: string
  assumes valid: "validCapabilityName nm" and ls: "listings \<noteq> []"
  defines "R \<equiv> concat (map (\<lambda>il. recordsOf ns nm (fst il = 0) (snd il)) (enumerate 0 listings))"
  shows "verdict R = Some v \<and> v \<noteq> [] \<and> list_all (\<lambda>l. nm \<in> packageName ns ` set l) listings \<longleftrightarrow> agreed ns listings nm v"
proof (cases "list_all (\<lambda>l. nm \<in> packageName ns ` set l) listings")
  case True
  obtain l rest where l: "listings = l # rest" using ls by (cases listings) auto
  then obtain p where p: "p \<in> set l" "packageName ns p = nm" using True by auto
  have snds: "snd ` set R = {PackageVersion (pk_Version p) |l p. l \<in> set listings \<and> p \<in> set l \<and> packageName ns p = nm}"
    unfolding R_def by (rule records_versions)
  have "recordsOf ns nm True l \<noteq> []" using p by (auto simp: recordsOf_def filter_empty_conv)
  then obtain r rs where r: "recordsOf ns nm True l = r # rs" by (cases "recordsOf ns nm True l") auto
  then have "fst r" by (auto simp: recordsOf_def dest: arg_cong [of _ _ set])
  then obtain w rs' where R: "R = (True, w) # rs'"
    using r by (cases r) (simp add: R_def l)
  have "verdict R = Some v \<and> v \<noteq> [] \<longleftrightarrow> v \<noteq> [] \<and> snd ` set R = {v}"
    unfolding R by (auto simp: list_all_iff)
  moreover have "snd ` set R = {v} \<longleftrightarrow>
      (\<forall>l \<in> set listings. \<forall>p \<in> set l. packageName ns p = nm \<longrightarrow> PackageVersion (pk_Version p) = v)"
    unfolding snds using p l by auto
  ultimately show ?thesis using True valid ls by (auto simp: agreed_def list_all_iff)
next
  case False
  then show ?thesis by (auto simp: agreed_def list_all_iff)
qed

section \<open>The derived entries\<close>

lemma DerivedProvides_set: "set (DerivedProvides ns listings) = {nm @ ''@'' @ v |nm v. agreed ns listings nm v}"
proof (cases "listings = []")
  case True
  then show ?thesis by (simp add: DerivedProvides_def agreed_def)
next
  case False
  let ?start = "\<lparr>dv_versions = [], dv_counts = []\<rparr>"
  let ?dv = "derivationOf ns ?start (enumerate 0 listings)"
  have dist: "distinct (map fst (dv_versions ?dv))" by (rule derivation_distinct) simp
  have full: "map_of (dv_counts ?dv) nm = Some (length listings) \<longleftrightarrow> countOf ?dv nm = length listings" for nm
    using False by (auto simp: countOf_def split: option.splits)
  have agree: "map_of (dv_versions ?dv) nm = Some v \<and> v \<noteq> [] \<and> map_of (dv_counts ?dv) nm = Some (length listings)
      \<longleftrightarrow> agreed ns listings nm v" for nm v
  proof (cases "validCapabilityName nm")
    case True
    have "map_of (dv_versions ?dv) nm
        = verdict (concat (map (\<lambda>il. recordsOf ns nm (fst il = 0) (snd il)) (enumerate 0 listings)))"
      using derivation_versions [OF True, of ?start "[]"] by simp
    moreover have "length (filter (\<lambda>il. nm \<in> packageName ns ` set (snd il)) (enumerate 0 listings))
        = length (filter (\<lambda>l. nm \<in> packageName ns ` set l) listings)"
      by (rule filter_enumerate)
    then have "countOf ?dv nm = length listings \<longleftrightarrow> list_all (\<lambda>l. nm \<in> packageName ns ` set l) listings"
      using filter_all [of "\<lambda>l. nm \<in> packageName ns ` set l" listings] derivation_counts [OF True, of ns ?start]
      by (simp add: countOf_def)
    ultimately show ?thesis
      unfolding full using agreed_verdict [OF True False, of ns v] by (simp only: conj_assoc)
  next
    case False
    then show ?thesis using derivation_invalid [OF False, of ns ?start] by (simp add: agreed_def)
  qed
  have "set (DerivedProvides ns listings) = {nm @ ''@'' @ v |nm v.
      (nm, v) \<in> set (dv_versions ?dv) \<and> v \<noteq> [] \<and> map_of (dv_counts ?dv) nm = Some (length listings)}"
    using False unfolding DerivedProvides_def derivationOf_def Let_def by (simp only: if_False rendered_set)
  moreover have "(nm, v) \<in> set (dv_versions ?dv) \<longleftrightarrow> map_of (dv_versions ?dv) nm = Some v" for nm v
    using map_of_eq_Some_iff [OF dist, of nm v] by (rule sym)
  ultimately show ?thesis by (simp only: agree)
qed

lemma parse_versioned:
  assumes "validCapabilityName n" "versionPattern v"
  shows "ParseProvide (n @ ''@'' @ v) = Inr \<lparr>pName = NormalizeCapabilityName n, pVersion = v\<rparr>"
proof -
  have "CHR ''@'' \<notin> set n"
    using validCapabilityName_chars [OF assms(1)] name_char_not by (auto simp: list_all_iff)
  then show ?thesis
    using assms name_version_trim [OF assms] trim_version [OF assms(2)]
    by (simp add: ParseProvide_def cut_def parseVersion_def validCapabilityName_def)
qed

lemma agreed_version: "agreed ns listings nm v \<Longrightarrow> versionPattern v"
proof -
  assume a: "agreed ns listings nm v"
  then obtain l p where "l \<in> set listings" "p \<in> set l" "packageName ns p = nm"
    unfolding agreed_def by (cases listings) auto
  with a have "PackageVersion (pk_Version p) = v" "v \<noteq> []" by (auto simp: agreed_def)
  then show ?thesis using package_version_numeric_core [of "pk_Version p"] by (auto simp: tidyVersion_def)
qed

lemma agreed_name:
  assumes "agreed ns listings nm v" "CHR ''/'' \<notin> set ns"
  obtains base where "nm = ns @ ''/'' @ base" "cut CHR ''/'' nm = (ns, base, True)"
proof -
  obtain p where "packageName ns p = nm" using assms(1) unfolding agreed_def by (cases listings) auto
  then have "nm = ns @ ''/'' @ pk_Name p" by (simp add: packageName_def)
  moreover have "before CHR ''/'' (ns @ ''/'' @ b) = ns \<and> after CHR ''/'' (ns @ ''/'' @ b) = b" for b
    using assms(2) by (induction ns) (auto simp: before_def after_def)
  ultimately show ?thesis by (intro that [of "pk_Name p"]) (simp_all add: cut_def)
qed

text \<open>An entry derived for one namespace is of that namespace alone.\<close>

lemma derivedEntry_agreed:
  assumes a: "agreed ns listings nm v" and ns: "ns \<in> set reservedNamespaces"
  shows "\<exists>base. nm = ns @ ''/'' @ base \<and> derivedEntry ns' (nm @ ''@'' @ v) =
    (if ns' = ns then [\<lparr>de_spelling = nm @ ''@'' @ v, de_name = base, de_version = v\<rparr>] else [])"
proof -
  have "CHR ''/'' \<notin> set ns" using ns by (auto simp: reservedNamespaces_def DebNamespace_def ApkNamespace_def)
  then obtain base where base: "nm = ns @ ''/'' @ base" "cut CHR ''/'' nm = (ns, base, True)"
    by (rule agreed_name [OF a])
  have valid: "validCapabilityName nm" "versionPattern v" using a agreed_version by (simp_all add: agreed_def)
  have "NormalizeCapabilityName nm = nm" using base(1) by (simp add: NormalizeCapabilityName_def)
  moreover have "IsDerivedProvide nm" using base(2) ns by (auto simp: IsDerivedProvide_def reservedNamespaces_def)
  ultimately show ?thesis
    using base parse_versioned [OF valid] name_version_trim [OF valid] by (simp add: derivedEntry_def)
qed

section \<open>The check of what was derived\<close>

lemma listingsOf_Some:
  "listingsOf readFile db acc refs = Inr (Some ls) \<Longrightarrow> ls = [] \<or>
    (\<exists>ps. ls = acc @ ps \<and> list_all2 (\<lambda>r l. \<exists>fs body. r = Some fs \<and> readFile fs (db_Path db) = Inr (Some body)
       \<and> db_Read db body = Inr l) refs ps)"
proof (induction readFile db acc refs rule: listingsOf.induct)
  case (3 readFile db acc fs refs)
  then obtain body l where read: "readFile fs (db_Path db) = Inr (Some body)" "db_Read db body = Inr l" if "ls \<noteq> []"
    by (auto split: sum.splits option.splits)
  show ?case
  proof (cases "ls = []")
    case False
    have "listingsOf readFile db (acc @ [l]) refs = Inr (Some ls)" using "3.prems" read [OF False] by simp
    from "3.IH" [OF read(1) [OF False] refl read(2) [OF False] this] False
    obtain ps where "ls = (acc @ [l]) @ ps" "list_all2 (\<lambda>r l. \<exists>fs body. r = Some fs
        \<and> readFile fs (db_Path db) = Inr (Some body) \<and> db_Read db body = Inr l) refs ps"
      by blast
    then show ?thesis using read [OF False] by (intro disjI2 exI [of _ "l # ps"]) auto
  qed simp
qed auto

lemma databaseFindings_quiet:
  assumes "\<And>db. db \<in> set dbs \<Longrightarrow> derivedByNamespace provides (db_Namespace db) = [] \<or>
      (\<exists>body installed. readFile (db_Path db) = Inr (Some body) \<and> db_Read db body = Inr installed
         \<and> (\<forall>e \<in> set (derivedByNamespace provides (db_Namespace db)). entryFindings (db_Path db) installed e = []))"
  shows "databaseFindings readFile provides findings dbs = findings"
  using assms
proof (induction dbs)
  case (Cons db dbs)
  have rest: "databaseFindings readFile provides findings dbs = findings" using Cons by simp
  show ?case
  proof (cases "derivedByNamespace provides (db_Namespace db) = []")
    case True
    then show ?thesis using rest by simp
  next
    case False
    then obtain body installed where "readFile (db_Path db) = Inr (Some body)" "db_Read db body = Inr installed"
      "concat (map (entryFindings (db_Path db) installed) (derivedByNamespace provides (db_Namespace db))) = []"
      using Cons.prems [of db] by auto
    then show ?thesis using False rest by (simp del: concat_eq_Nil_conv)
  qed
qed simp

lemma entryFindings_agreed:
  assumes a: "agreed ns listings (ns @ ''/'' @ base) v" and l: "l \<in> set listings"
    and e: "de_name e = base" "de_version e = v"
  shows "entryFindings path l e = []"
proof -
  have "filter (\<lambda>p. pk_Name p = base) l \<noteq> []"
    using a l by (fastforce simp: agreed_def packageName_def filter_empty_conv)
  then obtain z zs where zs: "filter (\<lambda>p. pk_Name p = base) l = z # zs"
    by (cases "filter (\<lambda>p. pk_Name p = base) l") auto
  have "\<forall>p \<in> set (filter (\<lambda>p. pk_Name p = base) l). PackageVersion (pk_Version p) = v"
    using a l by (auto simp: agreed_def packageName_def)
  then show ?thesis unfolding zs using e zs by (simp add: entryFindings_def Let_def)
qed

lemma authored_no_entry: "RequireAuthoredProvides provides = [] \<Longrightarrow> derivedByNamespace provides ns = []"
  by (auto simp: RequireAuthoredProvides_def derivedByNamespace_def derivedEntry_def filter_empty_conv split: sum.splits)

lemma derived_entries:
  assumes ns: "ns \<in> set reservedNamespaces" and e: "e \<in> set (derivedByNamespace (DerivedProvides ns listings) ns')"
  shows "ns' = ns \<and> (\<exists>base. agreed ns listings (ns @ ''/'' @ base) (de_version e) \<and> de_name e = base)"
proof -
  from e obtain nm v where a: "agreed ns listings nm v" "e \<in> set (derivedEntry ns' (nm @ ''@'' @ v))"
    by (auto simp: derivedByNamespace_def DerivedProvides_set)
  with derivedEntry_agreed [OF a(1) ns, of ns'] show ?thesis by (auto split: if_splits)
qed

lemma derivedByNamespace_append:
  "derivedByNamespace (xs @ ys) ns = derivedByNamespace xs ns @ derivedByNamespace ys ns"
  by (simp add: derivedByNamespace_def)

section \<open>Properties\<close>

text \<open>
  Property C19. The entries derived from the package listings of all platforms are exactly the packages that
  every listing holds and of which every record, of every architecture, has one publishable version; they
  are sorted.
\<close>

theorem derived_entries_exact:
  "set (DerivedProvides ns listings) = {nm @ ''@'' @ v |nm v. agreed ns listings nm v}
   \<and> sorted (DerivedProvides ns listings)"
  using DerivedProvides_set by (simp add: DerivedProvides_def Let_def)

text \<open>
  Property C7. What the frontend derives passes the conformance check. When a workload's own entries are in no
  reserved namespace and the entries derived from its platforms' filesystems are added to them, the check
  of derived entries has no finding on any of these filesystems.
\<close>

theorem derived_pass_check:
  assumes derived: "derivedProvides readFile refs = Inr out" and fs: "Some fs \<in> set refs"
    and own: "RequireAuthoredProvides own = []"
    and d: "Provides d = own @ out" "Kind d = KindWorkload" "Kits d = []"
  shows "derivedProvidesCheck (readFile fs) d = []"
proof -
  obtain deb apk where dbs: "PackageDatabases = [deb, apk]" "db_Namespace deb = DebNamespace" "db_Namespace apk = ApkNamespace"
    by (simp add: PackageDatabases_def)
  have res: "DebNamespace \<in> set reservedNamespaces" "ApkNamespace \<in> set reservedNamespaces" "DebNamespace \<noteq> ApkNamespace"
    by (simp_all add: reservedNamespaces_def DebNamespace_def ApkNamespace_def)
  have quiet: "derivedByNamespace (Provides d) (db_Namespace db) = [] \<or>
      (\<exists>body installed. readFile fs (db_Path db) = Inr (Some body) \<and> db_Read db body = Inr installed
         \<and> (\<forall>e \<in> set (derivedByNamespace (Provides d) (db_Namespace db)). entryFindings (db_Path db) installed e = []))"
    if db: "db \<in> set PackageDatabases" for db
  proof (cases "out = []")
    case True
    then show ?thesis using d(1) authored_no_entry [OF own] by simp
  next
    case False
    obtain L1 L2 where L: "listingsOf readFile deb [] refs = Inr (Some L1)" "listingsOf readFile apk [] refs = Inr (Some L2)"
      "out = DerivedProvides DebNamespace L1 @ DerivedProvides ApkNamespace L2"
      using derived False unfolding derivedProvides_def dbs(1) using dbs(2,3)
      by (auto split: sum.splits option.splits)
    define L where "L = (if db = deb then L1 else L2)"
    have db': "db = deb \<or> db = apk" using db dbs(1) by (metis empty_iff empty_set insert_iff list.simps(15))
    have listed: "listingsOf readFile db [] refs = Inr (Some L)" using L db' by (auto simp: L_def)
    have nsr: "db_Namespace db \<in> set reservedNamespaces" using db' dbs res by metis
    have only: "derivedByNamespace (DerivedProvides ns ls) ns' = []"
      if "ns \<in> set reservedNamespaces" "ns' \<noteq> ns" for ns ns' ls
      using derived_entries [OF that(1), of _ ls ns'] that(2) by (cases "derivedByNamespace (DerivedProvides ns ls) ns'") auto
    have entries: "derivedByNamespace (Provides d) (db_Namespace db) = derivedByNamespace (DerivedProvides (db_Namespace db) L) (db_Namespace db)"
      using db' dbs(2,3) res only authored_no_entry [OF own] d(1) L(3)
      by (auto simp: derivedByNamespace_append L_def)
    show ?thesis
    proof (cases "L = []")
      case True
      then show ?thesis using entries by (simp add: DerivedProvides_def derivedByNamespace_def)
    next
      case False
      then have read: "list_all2 (\<lambda>r l. \<exists>fs body. r = Some fs \<and> readFile fs (db_Path db) = Inr (Some body)
          \<and> db_Read db body = Inr l) refs L"
        using listingsOf_Some [OF listed] by simp
      obtain i where "i < length refs" "refs ! i = Some fs" using fs by (auto simp: in_set_conv_nth)
      with list_all2_nthD [OF read, of i] list_all2_lengthD [OF read]
      obtain l body where l: "l \<in> set L" "readFile fs (db_Path db) = Inr (Some body)" "db_Read db body = Inr l"
        by (metis nth_mem option.inject)
      have "entryFindings (db_Path db) l e = []" if "e \<in> set (derivedByNamespace (Provides d) (db_Namespace db))" for e
        using derived_entries [OF nsr] that l(1) entryFindings_agreed unfolding entries by blast
      then show ?thesis using l(2,3) by blast
    qed
  qed
  have "databaseFindings (readFile fs) (Provides d) [] PackageDatabases = []"
    by (rule databaseFindings_quiet [OF quiet])
  then show ?thesis using d by (simp add: derivedProvidesCheck_def)
qed

definition exampleStatus :: string where
  "exampleStatus = join [newlineChar] [''Package: git'', ''Status: install ok installed'', ''Version: 1:2.47.3-0'', [],
     ''Package: old'', ''Status: deinstall ok config-files'', ''Version: 1.0'', []]"

definition statusOnly :: "string file_reader" where
  "statusOnly body path = Inr (if path = DpkgStatusPath then Some body else None)"

lemma exampleStatus_read: "ReadDpkgStatus exampleStatus = Inr [\<lparr>pk_Name = ''git'', pk_Version = ''1:2.47.3-0''\<rparr>]"
proof -
  let ?lines = "[''Package: git'', ''Status: install ok installed'', ''Version: 1:2.47.3-0'', [],
    ''Package: old'', ''Status: deinstall ok config-files'', ''Version: 1.0'']"
  have raw: "rawLines exampleStatus = ?lines" and same: "map (\<lambda>l. trim_suffix l carriageReturn) ?lines = ?lines"
    by code_simp+
  have "scanLines exampleStatus = Some ?lines"
    unfolding scanLines_def raw same by (simp add: maxPackageDatabaseLine_def)
  moreover have "stanzaLines dpkgPackage dpkgField [] ?lines = [\<lparr>pk_Name = ''git'', pk_Version = ''1:2.47.3-0''\<rparr>]"
    by code_simp
  ultimately show ?thesis by (simp add: ReadDpkgStatus_def eachStanza_def)
qed

theorem derived_pass_check_witness:
  "derivedProvidesCheck (statusOnly exampleStatus)
     (emptyDescriptor\<lparr>Kind := KindWorkload, Provides := [''shell'', ''deb/git@2.47.3'']\<rparr>) = []"
proof (rule derived_pass_check)
  have "DerivedProvides DebNamespace [[\<lparr>pk_Name = ''git'', pk_Version = ''1:2.47.3-0''\<rparr>],
      [\<lparr>pk_Name = ''git'', pk_Version = ''1:2.47.3-0''\<rparr>]] = [''deb/git@2.47.3'']" by code_simp
  moreover have "DerivedProvides ApkNamespace [] = []" "ApkInstalledPath \<noteq> DpkgStatusPath" by code_simp+
  ultimately show "derivedProvides statusOnly [Some exampleStatus, Some exampleStatus] = Inr [''deb/git@2.47.3'']"
    by (simp add: derivedProvides_def PackageDatabases_def statusOnly_def exampleStatus_read)
  show "RequireAuthoredProvides [''shell''] = []" by code_simp
qed (simp_all add: emptyDescriptor_def)

end
