(* ===== verification/Spec2Isabelle.thy ===== *)
theory Spec2Isabelle
  imports Entries Lock Inventory_Facts Progress_Facts Frontend_Plan Comment_Descriptor Report Frontend_Options_Facts
    Yaml_Facts Packages_Facts
begin

text \<open>
  A verification development for the Go code of the Sandbox Kit specification.

  \<^bold>\<open>The program.\<close> A kit is an OCI image with a descriptor: what it provides and requires, which
  capabilities it asks for, which arguments it takes. The packages under \<open>src/\<close> decide which kits
  compose and in which order (\<open>resolve\<close>), what a kit is granted and whether an update asks for
  more (\<open>spec/surface.go\<close>, \<open>resolve/lock.go\<close>), read kits from a registry (\<open>fetch\<close>), put their
  layers and image configs together (\<open>assemble\<close>, \<open>internal/overlayfs\<close>) and build kits and sets of
  kits (\<open>cmd/frontend\<close>). The conformance suite (\<open>tck\<close>) reports what a run found.

  At create the parts work in this order: \<open>fetch\<close> loads every requested kit by digest, resolves its
  arguments and expands its declarations, \<open>resolve\<close> orders the set, the runtime's selector picks
  capability entries, the declarations are composed, \<open>assemble\<close> merges configs and layers, and a
  layer validator reads every layer and looks for collisions in the extracted trees. At publish,
  \<open>cmd/frontend/set.go\<close> does the same for a set, over BuildKit's gateway.

  \<^bold>\<open>Theories and sources.\<close>
  \<^item> Prelude: the string and slice functions of Go's standard library that the code calls, fallible
    results as sums, maps of slices as association lists, and the lemmas all theories share. Paths:
    the package \<open>path\<close>.
  \<^item> Names, Versions, Version_Order, Constraints, Entries: \<open>spec/version.go\<close>, the names of
    capabilities, the order of versions, provides and requires entries, satisfiability and the
    canonical form. The order is a total preorder on tidy versions (locale keyed_order, interpreted
    for \<open>CompareVersions\<close>) and is not transitive on all versions of the grammar.
  \<^item> Json, Types, Capabilities: \<open>spec/types.go\<close>, \<open>spec/groups.go\<close>, \<open>spec/capabilities.go\<close>,
    \<open>spec/agent_skill.go\<close>: the descriptor, the typed configs with their strict decoders, the
    accessors. The first version of the network policy is read through the second (locale
    decoder_simulation, interpreted at each level of the config).
  \<^item> Resolve, Resolve_Order, Resolution: \<open>resolve/resolve.go\<close>: the checks, the ordering loop and the
    entry points. The loop is proved once for any dependency graph (locale dependency_graph) and
    interpreted for the resolver's graph and for the contributions of a set.
  \<^item> Surface, Gate: \<open>spec/surface.go\<close>, \<open>spec/ssh_agent.go\<close>: the projection of a descriptor to what
    it is granted and the widenings of an update. Lock: \<open>resolve/lock.go\<close>.
  \<^item> Overlay, Overlay_Facts, Overlay_Lookup, Overlay_Extract: \<open>internal/overlayfs/fs.go\<close>: extraction of
    archive entries, path resolution, stacking of layers, lookups and dangling links.
  \<^item> Inventory, Inventory_Facts: \<open>assemble/inventory.go\<close>, the readers of a layer blob. Images,
    Images_Facts: \<open>assemble/assemble.go\<close>, \<open>assemble/image.go\<close>, \<open>assemble/resolve.go\<close>.
  \<^item> Fetch_Inventory, Fetch_Inventory_Facts: \<open>fetch/assemble_inventory.go\<close>. Collisions,
    Collisions_Facts: \<open>fetch/assemble_collisions.go\<close>, \<open>fetch/layer_validator.go\<close>.
  \<^item> Registry, Registry_Facts: \<open>fetch/registry.go\<close>, \<open>fetch/image.go\<close>, \<open>fetch/load_kit.go\<close>.
  \<^item> Kit_Args, Kit_Args_Facts, Selection, Selection_Facts, Environment, Environment_Facts:
    \<open>spec/expand.go\<close>, \<open>spec/merge.go\<close> (argument values), \<open>spec/groups.go\<close> (selection) and
    \<open>spec/environment.go\<close>.
  \<^item> Fetch_Kits, Fetch_Facts: \<open>fetch/fetch.go\<close>, from requests to a merged set. Fetch_Assemble,
    Assembly_Facts, Progress_Facts: \<open>fetch/assemble.go\<close>; what an assembly reports is proved for
    every validator that reports in steps (locale reporting_validator, interpreted for the
    built-in one).
  \<^item> Frontend_Delta, Frontend_Delta_Facts: \<open>cmd/frontend/diff.go\<close>, the stage a recipe builds and the
    config a mixin records. Comment_Descriptor: \<open>cmd/frontend/comment_descriptor.go\<close>.
  \<^item> Frontend_Set, Frontend_Set_Facts, Frontend_Set_Build, Frontend_Set_Build_Facts,
    Frontend_Set_Sound, Frontend_Plan: \<open>cmd/frontend/set.go\<close> with what it takes of
    \<open>spec/merge.go\<close> and \<open>spec/expand.go\<close>: a set of kits built into one kit.
  \<^item> Frontend_Options, Frontend_Options_Facts: \<open>cmd/frontend/build.go\<close>, the choice of a kit's recipe, its
    build-phase arguments and the request of its solve. Yaml_Nodes, Yaml_Facts: the amendments of the
    published document in the same file, over nodes with addresses because the code compares pointers
    and follows aliases.
  \<^item> Packages, Packages_Facts: \<open>spec/packages.go\<close>, \<open>cmd/frontend/packages.go\<close> and the check
    \<open>derived-provides\<close> of \<open>tck/kit/kit.go\<close>: what is derived from package databases, and that it passes the
    check. Report: \<open>tck/report/report.go\<close>.

  \<^bold>\<open>How the model reads.\<close> A Go function is a definition with its name (suffixed where Isabelle has the
  name), a loop of it a recursive function beside it, a struct a record, an error a value of an error
  type with one constructor per message. Strings are lists of bytes. Units of the resolver are
  pointers into a heap because the code compares them by pointer. A Go map is a map or an
  association list with distinct keys; where the code ranges over a map, the model ranges over the
  list, so a theorem about any list covers any iteration order. Sorting with \<open>sort\<close> is the library's
  stable sort by a key. Numbers are mathematical integers where the code bounds them well below the
  width of \<open>int\<close> or \<open>int64\<close> and only compares and counts.

  \<^bold>\<open>What the lemmas show.\<close> Every theory with a name in \<open>Facts\<close>, and Gate, Resolution, Lock, Entries,
  Overlay_Extract, Frontend_Set_Sound and Frontend_Plan, states the properties of its component over
  the definitions: that a check accepts exactly the inputs an independent description admits
  (the resolver, constraints, widenings, collisions, argument values, exports, the relations of a
  set), that a routine computes what a reference definition does (the overlay of layers, the memoising
  path resolution, the merged environment), that what is loaded is what was verified (registry walks,
  layers, pinned kits), that a change of a shared document is seen where it is meant
  to be and nowhere else, and that these hold of the composition: the assembled set of Assembly_Facts
  and the built set of Frontend_Set_Sound.

  \<^bold>\<open>Bounds.\<close> No function of the model takes fuel. Loops that are not structural have a measure: the
  pending dependencies and the ready list for the two ordering loops, the remaining manifests (32) and
  the depth of an index for the registry walk, the length of the rest for scans of text, the
  followed links (40 and 255) and path segments for path resolution. The limits of the code on layers,
  entries, bytes and configs (512 KiB of expanded text) are constants of the model, and reaching one
  is a branch.

  \<^bold>\<open>Parameters.\<close> Code outside the repository is a field of a record or an argument: the JSON and YAML
  codecs, SHA-256, compression and the archive reader, regular expressions written by kit authors, the
  OCI reference and platform packages, the HTTP transport, the Dockerfile parser, BuildKit's gateway.
  What a theorem needs of one it states as a hypothesis, and its witness instantiates the parameter.
  The validators of a descriptor, the expansion of arguments in its text and the merge of capability
  declarations (\<open>spec/validate.go\<close>, \<open>ExpandCreateArgs\<close>, \<open>Merge\<close> and \<open>Compose\<close>) are fields of the same
  records: the theorems hold for every such function.

  \<^bold>\<open>Not modelled.\<close> The bodies of the functions just named; the JSON text of a lock; credentials and
  client options of the registry client; cancellation; the calls of \<open>cmd/frontend/build.go\<close> and of
  \<open>diff.go\<close> that only drive BuildKit; the two conformance suites but for the check named above, which
  exercise a registry and a running sandbox; rendering of reports, the command line tool and the build version.
\<close>

end
